(* ===== verification/PyFloat.thy ===== *)
theory PyFloat
  imports Complex_Main "HOL-Library.Log_Nat"
begin

text \<open>
  Python's \<open>float\<close>: IEEE-754 binary64 with round-half-even, on its finite values.
  A float is the rational number it denotes (\<open>pyfloat\<close>) and \<open>fl\<close> rounds an exact
  result to the nearest representable value, so \<open>a * b\<close> of two floats is
  \<open>fl (a * b)\<close>.  Infinities, NaNs, the sign of zero and overflow are not modelled:
  no value of the modelled code comes near \<open>2^1024\<close>.  \<open>py_round\<close> is the built-in
  \<open>round(x)\<close>, \<open>py_round_nd\<close> is \<open>round(x, n)\<close>, \<open>py_sum\<close> is the built-in \<open>sum\<close>
  of floats (compensated since Python 3.12; the repository's image runs 3.13).
  The locale \<open>float_rounding\<close> states what the rest of the development uses of
  rounding; \<open>binary64\<close> interprets it on \<open>fl\<close>.
\<close>

type_synonym pyfloat = rat

named_theorems fl_simps "rewrite rules for rounded arithmetic"

subsection \<open>Rounding to an integer, half to even\<close>

definition half_even :: "rat \<Rightarrow> int" where
  "half_even x =
     (let n = \<lfloor>x\<rfloor>; d = x - of_int n in
      if d < 1 / 2 then n else if 1 / 2 < d then n + 1 else if even n then n else n + 1)"

lemma half_even_of_int [simp]: "half_even (of_int n) = n"
  by (simp add: half_even_def)

lemma half_even_0 [simp]: "half_even 0 = 0"
  by (simp add: half_even_def)

lemma half_even_dist: "\<bar>of_int (half_even x) - x\<bar> \<le> 1 / 2"
proof -
  define n where "n = \<lfloor>x\<rfloor>"
  have "of_int n \<le> x" "x < of_int n + 1" unfolding n_def by linarith+
  then show ?thesis by (simp add: half_even_def Let_def abs_if flip: n_def)
qed

lemma half_even_floor: "half_even x = \<lfloor>x\<rfloor> \<or> half_even x = \<lfloor>x\<rfloor> + 1"
  by (auto simp: half_even_def Let_def)

lemma half_even_mono:
  assumes "x \<le> y"
  shows "half_even x \<le> half_even y"
proof (cases "\<lfloor>x\<rfloor> = \<lfloor>y\<rfloor>")
  case True
  then show ?thesis using assms by (auto simp: half_even_def Let_def)
next
  case False
  with floor_mono [OF assms] have "\<lfloor>x\<rfloor> + 1 \<le> \<lfloor>y\<rfloor>" by linarith
  then show ?thesis using half_even_floor [of x] half_even_floor [of y] by auto
qed

lemma half_even_minus: "half_even (- x) = - half_even x"
proof (cases "of_int \<lfloor>x\<rfloor> = x")
  case True
  then have "- x = of_int (- \<lfloor>x\<rfloor>)" by (simp only: of_int_minus)
  then have "half_even (- x) = - \<lfloor>x\<rfloor>" by (metis half_even_of_int)
  moreover have "half_even x = \<lfloor>x\<rfloor>" by (metis True half_even_of_int)
  ultimately show ?thesis by simp
next
  case False
  have bounds: "of_int \<lfloor>x\<rfloor> \<le> x" "x < of_int \<lfloor>x\<rfloor> + 1" by linarith+
  then have "of_int \<lfloor>x\<rfloor> < x" using False by (metis order_le_imp_less_or_eq)
  then have fl: "\<lfloor>- x\<rfloor> = - \<lfloor>x\<rfloor> - 1"
    using bounds by (intro floor_unique) simp_all
  have "- x - of_int \<lfloor>- x\<rfloor> = 1 - (x - of_int \<lfloor>x\<rfloor>)"
    unfolding fl by simp
  then show ?thesis
    unfolding half_even_def Let_def fl using bounds by auto
qed

lemma half_even_nonneg: "0 \<le> x \<Longrightarrow> 0 \<le> half_even x"
  using half_even_mono [of 0 x] by simp

subsection \<open>Powers of two and the binary exponent\<close>

definition pow2 :: "int \<Rightarrow> rat" where
  "pow2 e = (if 0 \<le> e then 2 ^ nat e else 1 / 2 ^ nat (- e))"

lemma pow2_powi: "pow2 e = 2 powi e"
  by (cases "0 \<le> e") (simp_all only: pow2_def power_int_def if_True if_False divide_inverse
        power_inverse mult_1)

lemma pow2_pos [simp]: "0 < pow2 e"
  by (simp add: pow2_def)

lemma pow2_nonneg [simp]: "0 \<le> pow2 e"
  by (simp add: pow2_def)

lemma pow2_neq_0 [simp]: "pow2 e \<noteq> 0"
  using pow2_pos [of e] by linarith

lemma pow2_add: "pow2 (a + b) = pow2 a * pow2 b"
  by (simp add: pow2_powi power_int_add)

lemma pow2_diff: "pow2 (a - b) = pow2 a / pow2 b"
  by (simp add: pow2_powi power_int_diff)

lemma pow2_strict_mono: "a < b \<Longrightarrow> pow2 a < pow2 b"
  by (simp add: pow2_powi power_int_strict_increasing)

lemma pow2_le_iff: "pow2 a \<le> pow2 b \<longleftrightarrow> a \<le> b"
  using pow2_strict_mono [of a b] pow2_strict_mono [of b a] by (cases a b rule: linorder_cases) auto

lemma pow2_less_iff: "pow2 a < pow2 b \<longleftrightarrow> a < b"
  using pow2_le_iff [of b a] by linarith

lemma pow2_int: "0 \<le> e \<Longrightarrow> pow2 e = of_int (2 ^ nat e)"
  by (simp add: pow2_def)

text \<open>\<open>ilog2 x\<close> is the exponent of the binade of \<open>x > 0\<close>: \<open>2^e \<le> x < 2^(e+1)\<close>.\<close>

definition ilog2 :: "rat \<Rightarrow> int" where
  "ilog2 x = (if 1 \<le> x then bitlen \<lfloor>x\<rfloor> - 1 else - bitlen (\<lceil>1 / x\<rceil> - 1))"

lemma bitlen_pow2_bounds:
  assumes "0 < n"
  shows "pow2 (bitlen n - 1) \<le> of_int n" and "of_int n < pow2 (bitlen n)"
proof -
  have b: "0 < bitlen n" using assms bitlen_nonneg [of n] bitlen_eq_zero_iff [of n] by linarith
  have "2 ^ nat (bitlen n - 1) \<le> n \<and> n < 2 ^ nat (bitlen n)"
    by (rule bitlen_bounds [OF assms])
  then show "pow2 (bitlen n - 1) \<le> of_int n" "of_int n < pow2 (bitlen n)"
    using b by (simp_all add: pow2_int flip: of_int_less_iff of_int_le_iff)
qed

lemma ilog2_bounds:
  assumes "0 < x"
  shows "pow2 (ilog2 x) \<le> x \<and> x < pow2 (ilog2 x + 1)"
proof (cases "1 \<le> x")
  case True
  then have f: "0 < \<lfloor>x\<rfloor>" by linarith
  define e where "e = bitlen \<lfloor>x\<rfloor>"
  have e: "0 < e" using f bitlen_nonneg [of "\<lfloor>x\<rfloor>"] bitlen_eq_zero_iff [of "\<lfloor>x\<rfloor>"]
    unfolding e_def by linarith
  have b: "2 ^ nat (e - 1) \<le> \<lfloor>x\<rfloor> \<and> \<lfloor>x\<rfloor> < 2 ^ nat e"
    unfolding e_def by (rule bitlen_bounds [OF f])
  have "\<lfloor>x\<rfloor> + 1 \<le> 2 ^ nat e" using b by linarith
  then have "of_int (\<lfloor>x\<rfloor> + 1) \<le> (pow2 e :: rat)"
    using e by (simp only: pow2_int of_int_le_iff)
  then have "x < pow2 e" by linarith
  moreover have "pow2 (e - 1) \<le> x"
  proof -
    have "(pow2 (e - 1) :: rat) \<le> of_int \<lfloor>x\<rfloor>"
      using e b by (simp only: pow2_int of_int_le_iff)
    then show ?thesis by linarith
  qed
  ultimately show ?thesis using True by (simp add: ilog2_def e_def)
next
  case False
  define m where "m = \<lceil>1 / x\<rceil> - 1"
  have "1 < 1 / x" using False assms by simp
  then have m: "1 \<le> m" unfolding m_def by (simp add: less_ceiling_iff)
  define e where "e = bitlen m"
  have mx: "of_int m < 1 / x" "1 / x \<le> of_int (m + 1)" unfolding m_def by linarith+
  have e: "0 < e" using m bitlen_nonneg [of m] bitlen_eq_zero_iff [of m]
    unfolding e_def by linarith
  have b: "2 ^ nat (e - 1) \<le> m \<and> m < 2 ^ nat e"
    unfolding e_def using m by (intro bitlen_bounds) simp
  have "(pow2 (e - 1) :: rat) \<le> of_int m" "of_int (m + 1) \<le> (pow2 e :: rat)"
    using e b by (simp_all only: pow2_int of_int_le_iff) simp_all
  with mx have *: "pow2 (e - 1) < 1 / x" "1 / x \<le> pow2 e" by linarith+
  have inv: "pow2 (- k) = 1 / pow2 k" for k by (simp add: pow2_powi power_int_minus divide_inverse)
  have "pow2 (- e) \<le> x"
    using *(2) assms by (simp add: inv field_simps)
  moreover have "x < pow2 (- e + 1)"
  proof -
    have "x < 1 / pow2 (e - 1)" using *(1) assms by (simp add: field_simps)
    also have "\<dots> = pow2 (- e + 1)" using inv [of "e - 1"] by simp
    finally show ?thesis .
  qed
  ultimately show ?thesis using False by (simp add: ilog2_def e_def m_def)
qed

lemma ilog2_mono:
  assumes "0 < x" "x \<le> y"
  shows "ilog2 x \<le> ilog2 y"
proof -
  have "pow2 (ilog2 x) < pow2 (ilog2 y + 1)"
    using ilog2_bounds [of x] ilog2_bounds [of y] assms by force
  then show ?thesis by (simp add: pow2_less_iff)
qed

lemma ilog2_unique:
  assumes "pow2 e \<le> x" "x < pow2 (e + 1)"
  shows "ilog2 x = e"
proof -
  have "0 < x" using assms(1) pow2_pos [of e] by linarith
  with ilog2_bounds [of x] assms have "pow2 e < pow2 (ilog2 x + 1)" "pow2 (ilog2 x) < pow2 (e + 1)"
    by auto
  then show ?thesis by (simp add: pow2_less_iff)
qed

subsection \<open>Rounding to binary64\<close>

text \<open>
  \<open>ulp_exp x\<close> is the exponent of the last place of \<open>x\<close>: 53 significant bits, and never
  below \<open>2^-1074\<close> (gradual underflow).
\<close>

definition ulp_exp :: "rat \<Rightarrow> int" where
  "ulp_exp x = max (ilog2 \<bar>x\<bar> - 52) (- 1074)"

definition fl :: "rat \<Rightarrow> pyfloat" where
  "fl x =
     (if x = 0 then 0
      else let u = pow2 (ulp_exp x) in of_int (half_even (x / u)) * u)"

lemma fl_0 [simp]: "fl 0 = 0"
  by (simp add: fl_def)

lemma fl_eq:
  "x \<noteq> 0 \<Longrightarrow> fl x = of_int (half_even (x / pow2 (ulp_exp x))) * pow2 (ulp_exp x)"
  by (simp add: fl_def Let_def)

lemma fl_minus: "fl (- x) = - fl x"
  by (cases "x = 0") (simp_all add: fl_eq ulp_exp_def half_even_minus)

lemma fl_grid:
  assumes "0 < x" and "x = of_int m * pow2 e" and "ulp_exp x \<le> e"
  shows "fl x = x"
proof -
  define k where "k = e - ulp_exp x"
  have k: "0 \<le> k" using assms(3) by (simp add: k_def)
  have e: "e = k + ulp_exp x" by (simp add: k_def)
  have x: "x = of_int m * (pow2 k * pow2 (ulp_exp x))"
    using assms(2) e by (metis pow2_add)
  then have "x / pow2 (ulp_exp x) = of_int m * pow2 k"
    by (metis mult.assoc nonzero_mult_div_cancel_right pow2_neq_0)
  also have "\<dots> = of_int (m * 2 ^ nat k)" using k by (simp add: pow2_int)
  finally have "half_even (x / pow2 (ulp_exp x)) = m * 2 ^ nat k"
    by (simp only: half_even_of_int)
  then have "fl x = of_int (m * 2 ^ nat k) * pow2 (ulp_exp x)"
    using assms(1) by (simp add: fl_eq)
  also have "\<dots> = of_int m * (pow2 k * pow2 (ulp_exp x))"
    using k by (simp add: pow2_int)
  also have "\<dots> = x" by (rule x [symmetric])
  finally show ?thesis .
qed

text \<open>Every \<open>m * 2^e\<close> with at most 53 significant bits is representable.\<close>

lemma fl_representable:
  assumes "\<bar>m\<bar> \<le> 2 ^ 53" "- 1074 \<le> e"
  shows "fl (of_int m * pow2 e) = of_int m * pow2 e"
proof -
  have pos: "fl (of_int m * pow2 e) = of_int m * pow2 e" if m: "0 < m" "m < 2 ^ 53" and e: "- 1074 \<le> e" for m e
  proof -
    let ?x = "of_int m * pow2 e"
    have x: "0 < ?x" using m(1) by simp
    have "(of_int m :: rat) < of_int (2 ^ 53)" using m(2) by (simp only: of_int_less_iff)
    also have "of_int (2 ^ 53) = pow2 53" by (simp add: pow2_int)
    finally have "?x < pow2 53 * pow2 e" by simp
    then have "?x < pow2 (53 + e)" by (simp add: pow2_add)
    with ilog2_bounds [OF x] have "pow2 (ilog2 ?x) < pow2 (53 + e)" by linarith
    then have "ilog2 ?x < 53 + e" by (simp add: pow2_less_iff)
    then have "ulp_exp ?x \<le> e" using x e by (simp add: ulp_exp_def)
    then show ?thesis by (intro fl_grid [OF x refl])
  qed
  have nonneg: "fl (of_int m * pow2 e) = of_int m * pow2 e" if "0 \<le> m" "m \<le> 2 ^ 53" for m
  proof (cases "m = 2 ^ 53")
    case True
    have "of_int m * pow2 e = of_int (2 ^ 52) * pow2 (1 + e)"
      unfolding True pow2_add by (simp add: pow2_def)
    then show ?thesis using pos [of "2 ^ 52" "1 + e"] assms(2) by simp
  next
    case False
    then show ?thesis using pos [of m e] that assms(2) by (cases "m = 0") auto
  qed
  show ?thesis
  proof (cases "0 \<le> m")
    case True
    then show ?thesis using nonneg assms by simp
  next
    case False
    have "fl (of_int (- m) * pow2 e) = of_int (- m) * pow2 e"
      using False assms(1) by (intro nonneg) auto
    then show ?thesis using fl_minus [of "of_int (- m) * pow2 e"] by simp
  qed
qed

lemma fl_of_int: "\<bar>n\<bar> \<le> 2 ^ 53 \<Longrightarrow> fl (of_int n) = of_int n"
  using fl_representable [of n 0] by (simp add: pow2_def)

lemma scaled_bounds:
  assumes "0 < x"
  shows "x / pow2 (ulp_exp x) \<le> of_int (2 ^ 53)"
proof -
  have "x < pow2 (ilog2 x + 1)" using ilog2_bounds [OF assms] by simp
  also have "\<dots> \<le> pow2 (ulp_exp x + 53)" using assms by (simp add: pow2_le_iff ulp_exp_def)
  also have "\<dots> = pow2 (ulp_exp x) * pow2 53" by (simp add: pow2_add)
  finally have "x < pow2 (ulp_exp x) * pow2 53" .
  then have "x / pow2 (ulp_exp x) < pow2 53" by (simp add: field_simps)
  then show ?thesis by (simp add: pow2_int)
qed

lemma fl_form:
  obtains m e where "fl x = of_int m * pow2 e" "\<bar>m\<bar> \<le> 2 ^ 53" "- 1074 \<le> e"
proof -
  have pos: "\<exists>m e. fl x = of_int m * pow2 e \<and> \<bar>m\<bar> \<le> 2 ^ 53 \<and> - 1074 \<le> e" if "0 < x" for x
  proof (intro exI conjI)
    let ?h = "half_even (x / pow2 (ulp_exp x))"
    show "fl x = of_int ?h * pow2 (ulp_exp x)" using that by (simp add: fl_eq)
    have "0 \<le> ?h" using that by (intro half_even_nonneg) simp
    moreover have "?h \<le> 2 ^ 53"
      using half_even_mono [OF scaled_bounds [OF that]] by (simp only: half_even_of_int)
    ultimately show "\<bar>?h\<bar> \<le> 2 ^ 53" by simp
    show "- 1074 \<le> ulp_exp x" by (simp add: ulp_exp_def)
  qed
  consider "x = 0" | "0 < x" | "0 < - x" by linarith
  then have "\<exists>m e. fl x = of_int m * pow2 e \<and> \<bar>m\<bar> \<le> 2 ^ 53 \<and> - 1074 \<le> e"
  proof cases
    case 1
    then show ?thesis by (intro exI [of _ 0] exI [of _ 0]) simp
  next
    case 2
    then show ?thesis by (rule pos)
  next
    case 3
    from pos [OF 3] obtain m e
      where "- fl x = of_int m * pow2 e" "\<bar>m\<bar> \<le> 2 ^ 53" "- 1074 \<le> e"
      by (auto simp only: fl_minus)
    then have "fl x = of_int (- m) * pow2 e" "\<bar>- m\<bar> \<le> 2 ^ 53" "- 1074 \<le> e"
      by (simp_all add: minus_equation_iff [of "fl x"])
    then show ?thesis by (intro exI [of _ "- m"] exI [of _ e]) simp
  qed
  then show ?thesis using that by blast
qed

lemma fl_idem: "fl (fl x) = fl x"
  using fl_form [of x] by (metis fl_representable)

lemma fl_mono_pos:
  assumes "0 < x" "x \<le> y"
  shows "fl x \<le> fl y"
proof (cases "ulp_exp x = ulp_exp y")
  case True
  have "x / pow2 (ulp_exp y) \<le> y / pow2 (ulp_exp y)" using assms by (simp add: divide_right_mono)
  then have "half_even (x / pow2 (ulp_exp y)) \<le> half_even (y / pow2 (ulp_exp y))" by (rule half_even_mono)
  then show ?thesis using assms True by (simp add: fl_eq)
next
  case False
  have le: "ilog2 x \<le> ilog2 y" by (rule ilog2_mono [OF assms])
  define k where "k = ilog2 y"
  have uy: "ulp_exp y = k - 52" and ux: "ulp_exp x < k" and lt: "ilog2 x < k"
    using False le assms by (auto simp: ulp_exp_def k_def)
  have "x < pow2 (ilog2 x + 1)" using ilog2_bounds [OF assms(1)] by simp
  also have "\<dots> \<le> pow2 k" using lt by (simp add: pow2_le_iff)
  finally have xk: "x \<le> pow2 k" by simp
  have "x / pow2 (ulp_exp x) \<le> pow2 (k - ulp_exp x)"
    using xk by (simp add: pow2_diff divide_right_mono)
  also have "\<dots> = of_int (2 ^ nat (k - ulp_exp x))" using ux by (simp add: pow2_int)
  finally have "half_even (x / pow2 (ulp_exp x)) \<le> 2 ^ nat (k - ulp_exp x)"
    using half_even_mono half_even_of_int by metis
  then have "of_int (half_even (x / pow2 (ulp_exp x))) \<le> (of_int (2 ^ nat (k - ulp_exp x)) :: rat)"
    by (simp only: of_int_le_iff)
  also have "\<dots> = pow2 k / pow2 (ulp_exp x)" using ux by (simp add: pow2_int flip: pow2_diff)
  finally have 1: "fl x \<le> pow2 k" using assms(1) by (simp add: fl_eq field_simps)
  have "pow2 k \<le> y" using ilog2_bounds [of y] assms unfolding k_def by linarith
  then have "pow2 k / pow2 (ulp_exp y) \<le> y / pow2 (ulp_exp y)" by (simp add: divide_right_mono)
  moreover have "pow2 k / pow2 (ulp_exp y) = of_int (2 ^ 52)"
    unfolding uy by (simp add: pow2_int flip: pow2_diff)
  ultimately have "2 ^ 52 \<le> half_even (y / pow2 (ulp_exp y))"
    using half_even_mono half_even_of_int by metis
  then have "(of_int (2 ^ 52) :: rat) \<le> of_int (half_even (y / pow2 (ulp_exp y)))"
    by (simp only: of_int_le_iff)
  then have "of_int (2 ^ 52) * pow2 (ulp_exp y) \<le> fl y" using assms by (simp add: fl_eq)
  moreover have "of_int (2 ^ 52) * pow2 (ulp_exp y) = pow2 k"
    using pow2_add [of 52 "k - 52"] unfolding uy by (simp add: pow2_int)
  ultimately show ?thesis using 1 by linarith
qed

lemma fl_nonneg: "0 \<le> x \<Longrightarrow> 0 \<le> fl x"
  by (cases "x = 0") (simp_all add: fl_eq half_even_nonneg)

lemma fl_mono:
  assumes "x \<le> y"
  shows "fl x \<le> fl y"
proof -
  consider "0 < x" | "x \<le> 0" "0 \<le> y" | "y < 0" by linarith
  then show ?thesis
  proof cases
    case 1
    then show ?thesis using assms by (rule fl_mono_pos)
  next
    case 2
    then have "0 \<le> fl (- x)" "0 \<le> fl y" by (simp_all add: fl_nonneg)
    then show ?thesis by (simp add: fl_minus)
  next
    case 3
    then have "fl (- y) \<le> fl (- x)" using assms by (intro fl_mono_pos) auto
    then show ?thesis by (simp add: fl_minus)
  qed
qed

text \<open>Floor and ceiling of a literal quotient, for evaluation.\<close>

lemma floor_rat_literals:
  "\<lfloor>numeral a / numeral b :: rat\<rfloor> = numeral a div numeral b"
  "\<lfloor>1 / numeral b :: rat\<rfloor> = 1 div numeral b"
  "\<lfloor>- (numeral a / numeral b) :: rat\<rfloor> = - numeral a div numeral b"
  "\<lfloor>- (1 / numeral b) :: rat\<rfloor> = - 1 div numeral b"
  using floor_divide_of_int_eq [of "numeral a" "numeral b"] floor_divide_of_int_eq [of 1 "numeral b"]
    floor_divide_of_int_eq [of "- numeral a" "numeral b"] floor_divide_of_int_eq [of "- 1" "numeral b"]
  by simp_all

lemma ceiling_rat_literals:
  "\<lceil>numeral a / numeral b :: rat\<rceil> = - (- numeral a div numeral b)"
  "\<lceil>1 / numeral b :: rat\<rceil> = - (- 1 div numeral b)"
  by (simp_all add: ceiling_def floor_rat_literals)

lemma floorlog_literals:
  "floorlog 2 (numeral (num.Bit0 n)) = floorlog 2 (numeral n) + 1"
  "floorlog 2 (numeral (num.Bit1 n)) = floorlog 2 (numeral n) + 1"
  "floorlog 2 (Suc 0) = 1"
  "floorlog 2 0 = 0"
  by (subst compute_floorlog, simp)+

lemma half_even_eq:
  "half_even x =
     (if x - of_int \<lfloor>x\<rfloor> < 1 / 2 then \<lfloor>x\<rfloor> else if 1 / 2 < x - of_int \<lfloor>x\<rfloor> then \<lfloor>x\<rfloor> + 1
      else if even \<lfloor>x\<rfloor> then \<lfloor>x\<rfloor> else \<lfloor>x\<rfloor> + 1)"
  by (simp add: half_even_def Let_def)

lemma half_even_literals:
  "half_even 1 = 1" "half_even (numeral a) = numeral a"
  using half_even_of_int [of 1] half_even_of_int [of "numeral a"] by simp_all

lemmas fl_eval = floor_rat_literals ceiling_rat_literals floorlog_literals half_even_literals fl_minus
  half_even_eq [of "numeral a / numeral b" for a b] half_even_eq [of "1 / numeral b" for b] half_even_minus
  fl_eq [of "numeral a / numeral b" for a b] fl_eq [of "1 / numeral b" for b]
  fl_eq [of "numeral a" for a] fl_eq [of 1] ulp_exp_def ilog2_def pow2_def bitlen_def

subsection \<open>The interface: what the code relies on\<close>

locale float_rounding =
  fixes rnd :: "rat \<Rightarrow> rat"
  assumes rnd_mono: "x \<le> y \<Longrightarrow> rnd x \<le> rnd y"
    and rnd_idem: "rnd (rnd x) = rnd x"
    and rnd_minus: "rnd (- x) = - rnd x"
    and rnd_of_int: "\<bar>n\<bar> \<le> 2 ^ 53 \<Longrightarrow> rnd (of_int n) = of_int n"
begin

lemma rnd_zero: "rnd 0 = 0"
  using rnd_of_int [of 0] by simp

lemma rnd_one: "rnd 1 = 1"
  using rnd_of_int [of 1] by simp

lemma rnd_nonneg: "0 \<le> x \<Longrightarrow> 0 \<le> rnd x"
  using rnd_mono [of 0 x] rnd_zero by simp

lemma rnd_le_one: "x \<le> 1 \<Longrightarrow> rnd x \<le> 1"
  using rnd_mono [of x 1] rnd_one by simp

lemma rnd_le_int: "x \<le> of_int n \<Longrightarrow> \<bar>n\<bar> \<le> 2 ^ 53 \<Longrightarrow> rnd x \<le> of_int n"
  using rnd_mono [of x "of_int n"] rnd_of_int [of n] by simp

lemma rnd_ge_int: "of_int n \<le> x \<Longrightarrow> \<bar>n\<bar> \<le> 2 ^ 53 \<Longrightarrow> of_int n \<le> rnd x"
  using rnd_mono [of "of_int n" x] rnd_of_int [of n] by simp

lemma rnd_le_fixed: "x \<le> y \<Longrightarrow> rnd y = y \<Longrightarrow> rnd x \<le> y"
  using rnd_mono [of x y] by simp

lemma rnd_ge_fixed: "y \<le> x \<Longrightarrow> rnd y = y \<Longrightarrow> y \<le> rnd x"
  using rnd_mono [of y x] by simp

text \<open>A rounded quotient of a part by its whole is a fraction.\<close>

lemma rnd_ratio:
  assumes "0 \<le> a" "a \<le> b"
  shows "0 \<le> rnd (of_int a / of_int b)" "rnd (of_int a / of_int b) \<le> 1"
proof -
  have "(of_int a :: rat) \<le> of_int b" using assms(2) by (simp only: of_int_le_iff)
  moreover have "(0 :: rat) \<le> of_int a" using assms(1) by simp
  ultimately show "0 \<le> rnd (of_int a / of_int b)" "rnd (of_int a / of_int b) \<le> 1"
    by (auto intro!: rnd_nonneg rnd_le_one simp: divide_le_eq_1)
qed

text \<open>Adding a nonnegative amount never goes below a representable summand.\<close>

lemma rnd_add_ge: "0 \<le> y \<Longrightarrow> rnd x = x \<Longrightarrow> x \<le> rnd (x + y)"
  by (rule rnd_ge_fixed) auto

end

interpretation binary64: float_rounding fl
  by unfold_locales (simp_all add: fl_mono fl_idem fl_minus fl_of_int)

lemmas fl_order [intro] = binary64.rnd_nonneg binary64.rnd_le_one

declare binary64.rnd_zero [fl_simps] binary64.rnd_one [fl_simps] fl_idem [fl_simps]

subsection \<open>The operations of the source\<close>

text \<open>\<open>float(n)\<close> and the operand conversion of mixed \<open>int\<close>/\<open>float\<close> arithmetic.\<close>

definition py_float :: "int \<Rightarrow> pyfloat" where
  "py_float n = fl (of_int n)"

definition fadd :: "pyfloat \<Rightarrow> pyfloat \<Rightarrow> pyfloat" where
  "fadd a b = fl (a + b)"

definition fsub :: "pyfloat \<Rightarrow> pyfloat \<Rightarrow> pyfloat" where
  "fsub a b = fl (a - b)"

definition fmul :: "pyfloat \<Rightarrow> pyfloat \<Rightarrow> pyfloat" where
  "fmul a b = fl (a * b)"

text \<open>
  \<open>a / b\<close> of two floats, \<open>py_truediv\<close> of two ints (correctly rounded in Python);
  callers guard against a zero divisor where the source can raise.
\<close>

definition fdiv :: "pyfloat \<Rightarrow> pyfloat \<Rightarrow> pyfloat" where
  "fdiv a b = fl (a / b)"

definition py_truediv :: "int \<Rightarrow> int \<Rightarrow> pyfloat" where
  "py_truediv a b = fl (of_int a / of_int b)"

definition py_round :: "pyfloat \<Rightarrow> int" where
  "py_round x = half_even x"

definition py_round_nd :: "pyfloat \<Rightarrow> nat \<Rightarrow> pyfloat" where
  "py_round_nd x n = fl (of_int (half_even (x * 10 ^ n)) / 10 ^ n)"

text \<open>
  The built-in \<open>sum\<close> of floats: the first item starts the running sum, every later item
  is added with the running compensation of Neumaier's algorithm, and the compensation
  is added at the end when it is not zero.
\<close>

definition sum_step :: "pyfloat \<times> pyfloat \<Rightarrow> pyfloat \<Rightarrow> pyfloat \<times> pyfloat" where
  "sum_step acc x =
     (let s = fst acc; c = snd acc; t = fadd s x;
          d = (if \<bar>x\<bar> \<le> \<bar>s\<bar> then fadd (fsub s t) x else fadd (fsub x t) s)
      in (t, fadd c d))"

fun py_sum :: "pyfloat list \<Rightarrow> pyfloat" where
  "py_sum [] = 0"
| "py_sum (x # xs) =
     (let (s, c) = foldl sum_step (x, 0) xs in if c \<noteq> 0 then fadd s c else s)"

lemmas fop_eval = fl_eval py_float_def fadd_def fsub_def fmul_def fdiv_def py_truediv_def
  py_round_def py_round_nd_def sum_step_def

lemma py_round_mono: "x \<le> y \<Longrightarrow> py_round x \<le> py_round y"
  by (simp add: py_round_def half_even_mono)

lemma py_round_nonneg: "0 \<le> x \<Longrightarrow> 0 \<le> py_round x"
  by (simp add: py_round_def half_even_nonneg)

lemma py_round_of_int [simp]: "py_round (of_int n) = n"
  by (simp add: py_round_def)

lemma py_round_le_int: "x \<le> of_int n \<Longrightarrow> py_round x \<le> n"
  using py_round_mono [of x "of_int n"] by simp

lemma py_float_nonneg: "0 \<le> n \<Longrightarrow> 0 \<le> py_float n"
  unfolding py_float_def by (intro binary64.rnd_nonneg) simp

lemma py_float_fixed [fl_simps]: "fl (py_float n) = py_float n"
  by (simp add: py_float_def fl_idem)

lemma py_float_exact: "\<bar>n\<bar> \<le> 2 ^ 53 \<Longrightarrow> py_float n = of_int n"
  by (simp add: py_float_def fl_of_int)

lemma fmul_nonneg: "0 \<le> a \<Longrightarrow> 0 \<le> b \<Longrightarrow> 0 \<le> fmul a b"
  unfolding fmul_def by (intro binary64.rnd_nonneg) simp

lemma fmul_le_fixed:
  assumes "0 \<le> a" "b \<le> 1" "fl a = a"
  shows "fmul a b \<le> a"
  unfolding fmul_def using assms mult_left_le [of b a] by (intro binary64.rnd_le_fixed) auto

lemma fdiv_nonneg: "0 \<le> a \<Longrightarrow> 0 \<le> b \<Longrightarrow> 0 \<le> fdiv a b"
  unfolding fdiv_def by (intro binary64.rnd_nonneg) simp

lemma fadd_nonneg: "0 \<le> a \<Longrightarrow> 0 \<le> b \<Longrightarrow> 0 \<le> fadd a b"
  unfolding fadd_def by (intro binary64.rnd_nonneg) simp

lemma py_truediv_fraction:
  assumes "0 \<le> a" "a \<le> b"
  shows "0 \<le> py_truediv a b \<and> py_truediv a b \<le> 1"
  using binary64.rnd_ratio [OF assms] by (simp add: py_truediv_def)

lemma py_truediv_mono: "a \<le> b \<Longrightarrow> 0 \<le> c \<Longrightarrow> py_truediv a c \<le> py_truediv b c"
  unfolding py_truediv_def by (intro fl_mono divide_right_mono) simp_all

text \<open>Rounding to digits keeps a fraction a fraction.\<close>

lemma py_round_nd_fraction:
  assumes "0 \<le> x" "x \<le> 1"
  shows "0 \<le> py_round_nd x n \<and> py_round_nd x n \<le> 1"
proof -
  have "half_even (x * 10 ^ n) \<le> half_even (of_int (10 ^ n))"
    using assms(2) by (intro half_even_mono) (simp add: mult_left_le_one_le)
  then have h: "half_even (x * 10 ^ n) \<le> 10 ^ n" by (simp only: half_even_of_int)
  have "0 \<le> half_even (x * 10 ^ n)" using assms(1) by (intro half_even_nonneg) simp
  from binary64.rnd_ratio [OF this h] show ?thesis by (simp add: py_round_nd_def)
qed

end
