(* ===== verification/Prelude.thy ===== *)
theory Prelude
  imports PyFloat "HOL-Library.List_Lexorder" "HOL-Library.Char_ord" "HOL-Library.Product_Lexorder"
    "HOL-Library.Multiset"
begin

text \<open>
  What every component shares: Python exceptions as values, dictionaries with their
  insertion order, JSON values, \<open>max(..., key=...)\<close>, decimal text of integers, and the
  lemmas about them.  Python strings are \<open>string\<close>s ordered lexicographically by
  character code, tuples are ordered lexicographically.
\<close>

subsection \<open>Exceptions\<close>

datatype py_error =
    TypeError
  | ValueError
  | KeyError string
  | IndexError
  | AttributeError
  | ZeroDivisionError
  | RuntimeError
  | FileNotFoundError
  | DatabaseError
  | NotImplementedError
  | StructError
  | OSError

type_synonym 'a result = "py_error + 'a"

definition bind_result :: "'a result \<Rightarrow> ('a \<Rightarrow> 'b result) \<Rightarrow> 'b result" where
  "bind_result r f = (case r of Inl e \<Rightarrow> Inl e | Inr x \<Rightarrow> f x)"

lemma bind_result_simps [simp]:
  "bind_result (Inl e) f = Inl e"
  "bind_result (Inr x) f = f x"
  by (simp_all add: bind_result_def)

subsection \<open>Dictionaries\<close>

text \<open>
  A \<open>dict\<close> is the list of its items in insertion order; assigning an existing key keeps
  its position.
\<close>

type_synonym ('k, 'v) dict = "('k \<times> 'v) list"

fun dict_set :: "('k, 'v) dict \<Rightarrow> 'k \<Rightarrow> 'v \<Rightarrow> ('k, 'v) dict" where
  "dict_set [] k v = [(k, v)]"
| "dict_set ((k', v') # d) k v = (if k' = k then (k, v) # d else (k', v') # dict_set d k v)"

definition dict_get :: "('k, 'v) dict \<Rightarrow> 'k \<Rightarrow> 'v option" where
  "dict_get d k = map_of d k"

definition dict_keys :: "('k, 'v) dict \<Rightarrow> 'k list" where
  "dict_keys d = map fst d"

definition dict_values :: "('k, 'v) dict \<Rightarrow> 'v list" where
  "dict_values d = map snd d"

definition dict_of :: "('k \<times> 'v) list \<Rightarrow> ('k, 'v) dict" where
  "dict_of kvs = foldl (\<lambda>d (k, v). dict_set d k v) [] kvs"

lemma dict_get_set: "dict_get (dict_set d k v) k' = (if k' = k then Some v else dict_get d k')"
  by (induction d) (auto simp: dict_get_def)

lemma dict_keys_set:
  "dict_keys (dict_set d k v) = (if k \<in> set (dict_keys d) then dict_keys d else dict_keys d @ [k])"
  by (induction d) (auto simp: dict_keys_def split: if_splits)

lemma dict_get_keys: "dict_get d k \<noteq> None \<longleftrightarrow> k \<in> set (dict_keys d)"
  by (simp add: dict_get_def dict_keys_def map_of_eq_None_iff)

lemma dict_get_None: "dict_get d k = None \<longleftrightarrow> k \<notin> set (dict_keys d)"
  using dict_get_keys [of d k] by auto

text \<open>The interface of a dictionary, as the loops of the source use it.\<close>

locale py_dict =
  fixes get :: "'d \<Rightarrow> 'k \<Rightarrow> 'v option"
    and put :: "'d \<Rightarrow> 'k \<Rightarrow> 'v \<Rightarrow> 'd"
    and keys :: "'d \<Rightarrow> 'k list"
    and empty_dict :: 'd
  assumes get_put: "get (put d k v) k' = (if k' = k then Some v else get d k')"
    and keys_put: "keys (put d k v) = (if k \<in> set (keys d) then keys d else keys d @ [k])"
    and get_keys: "get d k \<noteq> None \<longleftrightarrow> k \<in> set (keys d)"
    and keys_empty: "keys empty_dict = []"
begin

lemma get_empty: "get empty_dict k = None"
  using get_keys [of empty_dict k] by (simp add: keys_empty)

lemma distinct_keys_put: "distinct (keys d) \<Longrightarrow> distinct (keys (put d k v))"
  by (simp add: keys_put)

lemma set_keys_put: "set (keys (put d k v)) = insert k (set (keys d))"
  by (auto simp: keys_put)

text \<open>A loop of assignments: the last assignment to a key is what a lookup returns.\<close>

lemma get_puts:
  "get (foldl (\<lambda>d (k, v). put d k v) d kvs) k =
     (case map_of (rev kvs) k of None \<Rightarrow> get d k | Some v \<Rightarrow> Some v)"
  by (induction kvs arbitrary: d) (auto simp: get_put split: option.splits)

lemma distinct_keys_puts:
  "distinct (keys d) \<Longrightarrow> distinct (keys (foldl (\<lambda>d (k, v). put d k v) d kvs))"
  by (induction kvs arbitrary: d) (auto simp: distinct_keys_put)

lemma set_keys_puts: "set (keys (foldl (\<lambda>d (k, v). put d k v) d kvs)) = set (keys d) \<union> fst ` set kvs"
  by (induction kvs arbitrary: d) (auto simp: set_keys_put)

text \<open>
  A loop of updates \<open>d[k] = f(d.get(k), x)\<close> touches each key with its own updates only.
\<close>

lemma get_updates:
  "get (foldl (\<lambda>d x. put d (key x) (upd (get d (key x)) x)) d xs) k =
     foldl (\<lambda>v x. Some (upd v x)) (get d k) (filter (\<lambda>x. key x = k) xs)"
  by (induction xs arbitrary: d) (auto simp: get_put)

end

interpretation dict: py_dict dict_get dict_set dict_keys "[]"
  by (unfold_locales; (rule dict_get_set dict_keys_set dict_get_keys | simp add: dict_keys_def))

lemma dict_of_get: "dict_get (dict_of kvs) k = map_of (rev kvs) k"
  unfolding dict_of_def by (simp add: dict.get_puts dict.get_empty split: option.splits)

lemma distinct_dict_of: "distinct (dict_keys (dict_of kvs))"
  unfolding dict_of_def by (rule dict.distinct_keys_puts) (simp add: dict_keys_def)

lemma set_dict_of_keys: "set (dict_keys (dict_of kvs)) = fst ` set kvs"
  unfolding dict_of_def by (simp add: dict.set_keys_puts) (simp add: dict_keys_def)

lemma dict_get_item:
  "distinct (dict_keys d) \<Longrightarrow> (k, v) \<in> set d \<longleftrightarrow> dict_get d k = Some v"
  by (auto simp: dict_get_def dict_keys_def map_of_eq_Some_iff)

lemma dict_set_new: "k \<notin> set (dict_keys d) \<Longrightarrow> dict_set d k v = d @ [(k, v)]"
  by (induction d) (auto simp: dict_keys_def)

lemma dict_set_items: "set (dict_set d k v) \<subseteq> insert (k, v) (set d)"
  by (induction d) (auto split: if_splits)

lemma dict_values_set_items: "x \<in> set (dict_values (dict_set d k v)) \<Longrightarrow> x = v \<or> x \<in> set (dict_values d)"
  using dict_set_items [of d k v] by (auto simp: dict_values_def)

lemma dict_of_distinct: "distinct (map fst kvs) \<Longrightarrow> dict_of kvs = kvs"
proof -
  have "foldl (\<lambda>d (k, v). dict_set d k v) d kvs = d @ kvs"
    if "distinct (map fst (d @ kvs))" for d
    using that
  proof (induction kvs arbitrary: d)
    case (Cons kv kvs)
    obtain k v where kv: "kv = (k, v)" by force
    have "k \<notin> set (dict_keys d)" using Cons.prems kv by (auto simp: dict_keys_def)
    then show ?case using Cons.IH [of "d @ [kv]"] Cons.prems kv by (simp add: dict_set_new)
  qed simp
  then show "distinct (map fst kvs) \<Longrightarrow> dict_of kvs = kvs"
    by (simp add: dict_of_def)
qed

subsection \<open>JSON values\<close>

datatype json =
    JNull
  | JBool bool
  | JInt int
  | JFloat pyfloat
  | JStr string
  | JArr "json list"
  | JObj "(string \<times> json) list"

text \<open>\<open>v.get(key)\<close>: \<open>None\<close> of Python is \<open>JNull\<close>; a value that is no dict raises.\<close>

fun jget :: "json \<Rightarrow> string \<Rightarrow> json \<Rightarrow> json result" where
  "jget (JObj kvs) k dflt = Inr (case dict_get kvs k of None \<Rightarrow> dflt | Some v \<Rightarrow> v)"
| "jget _ k dflt = Inl AttributeError"

text \<open>\<open>v[key]\<close>.\<close>

fun jindex :: "json \<Rightarrow> string \<Rightarrow> json result" where
  "jindex (JObj kvs) k = (case dict_get kvs k of None \<Rightarrow> Inl (KeyError k) | Some v \<Rightarrow> Inr v)"
| "jindex _ k = Inl TypeError"

text \<open>Truth value of a Python object.\<close>

fun truthy :: "json \<Rightarrow> bool" where
  "truthy JNull = False"
| "truthy (JBool b) = b"
| "truthy (JInt n) = (n \<noteq> 0)"
| "truthy (JFloat x) = (x \<noteq> 0)"
| "truthy (JStr s) = (s \<noteq> [])"
| "truthy (JArr xs) = (xs \<noteq> [])"
| "truthy (JObj kvs) = (kvs \<noteq> [])"

subsection \<open>First maximum by key\<close>

text \<open>\<open>max(xs, key=f)\<close>: the first of the maximal items, \<open>ValueError\<close> on no items.\<close>

fun max_from :: "('a \<Rightarrow> 'b::linorder) \<Rightarrow> 'a \<Rightarrow> 'a list \<Rightarrow> 'a" where
  "max_from f m [] = m"
| "max_from f m (x # xs) = max_from f (if f m < f x then x else m) xs"

definition max_by :: "('a \<Rightarrow> 'b::linorder) \<Rightarrow> 'a list \<Rightarrow> 'a result" where
  "max_by f xs = (case xs of [] \<Rightarrow> Inl ValueError | x # xs \<Rightarrow> Inr (max_from f x xs))"

lemma max_from_mem: "max_from f m xs \<in> set (m # xs)"
proof (induction xs arbitrary: m)
  case (Cons x xs)
  from Cons.IH [of "if f m < f x then x else m"] show ?case by (auto split: if_splits)
qed simp

lemma max_from_ge: "y \<in> set (m # xs) \<Longrightarrow> f y \<le> f (max_from f m xs)"
proof (induction xs arbitrary: m y)
  case (Cons x xs)
  define m' where "m' = (if f m < f x then x else m)"
  have "f m \<le> f m'" "f x \<le> f m'" by (auto simp: m'_def)
  moreover have "f m' \<le> f (max_from f m' xs)" by (rule Cons.IH) simp
  moreover have "y \<in> set xs \<Longrightarrow> f y \<le> f (max_from f m' xs)" by (rule Cons.IH) simp
  ultimately show ?case using Cons.prems by (auto simp: m'_def [symmetric] intro: order_trans)
qed simp

lemma max_by_Nil [simp]: "max_by f [] = Inl ValueError"
  by (simp add: max_by_def)

lemma max_by_total: "xs \<noteq> [] \<Longrightarrow> \<exists>m. max_by f xs = Inr m"
  by (cases xs) (auto simp: max_by_def)

lemma max_by_mem: "max_by f xs = Inr m \<Longrightarrow> m \<in> set xs"
  using max_from_mem [of f] by (cases xs) (auto simp: max_by_def)

lemma max_by_ge: "max_by f xs = Inr m \<Longrightarrow> y \<in> set xs \<Longrightarrow> f y \<le> f m"
  using max_from_ge [of y _ _ f] by (cases xs) (auto simp: max_by_def)

subsection \<open>Sorting is determined by distinct keys\<close>

lemma sort_key_perm:
  assumes "mset xs = mset ys" "inj_on f (set xs)"
  shows "sort_key f xs = sort_key f ys"
proof (rule properties_for_sort_key)
  show "mset (sort_key f ys) = mset xs" using assms(1) by simp
  show "sorted (map f (sort_key f ys))" by simp
  fix k assume k: "k \<in> set (sort_key f ys)"
  have set: "set ys = set xs" using assms(1) by (metis set_mset_mset)
  define P where "P x \<longleftrightarrow> f k = f x" for x
  have eq: "filter P zs = replicate (count (mset zs) k) k" if zs: "set zs = set xs" for zs
  proof -
    have "x = k" if "x \<in> set (filter P zs)" for x
      using that k set zs assms(2) by (auto simp: P_def inj_on_def)
    then have "filter P zs = replicate (length (filter P zs)) k"
      by (metis replicate_length_same)
    moreover have "length (filter P zs) = count (mset zs) k"
    proof -
      have "x \<in> set zs \<Longrightarrow> P x \<longleftrightarrow> x = k" for x
        using k set zs assms(2) by (auto simp: P_def inj_on_def)
      then have "filter P zs = filter ((=) k) zs" by (intro filter_cong) auto
      then show ?thesis by (simp add: count_mset count_list_eq_length_filter)
    qed
    ultimately show ?thesis by simp
  qed
  have "filter P (sort_key f ys) = filter P xs"
    using eq [of "sort_key f ys"] eq [of xs] assms(1) set by simp
  then show "filter (\<lambda>x. f k = f x) (sort_key f ys) = filter (\<lambda>x. f k = f x) xs"
    by (simp add: P_def [abs_def])
qed

subsection \<open>Sums over lists\<close>

lemma sum_list_nonneg_mem: "(\<And>x. x \<in> set xs \<Longrightarrow> 0 \<le> x) \<Longrightarrow> y \<in> set xs \<Longrightarrow> y \<le> sum_list (xs :: int list)"
proof (induction xs)
  case (Cons x xs)
  have "0 \<le> sum_list xs" by (rule sum_list_nonneg) (simp add: Cons.prems(1))
  then show ?case using Cons by fastforce
qed simp

subsection \<open>Decimal text of integers\<close>

fun digits :: "nat \<Rightarrow> string" where
  "digits n = (if n < 10 then [char_of (48 + n)] else digits (n div 10) @ [char_of (48 + n mod 10)])"

declare digits.simps [simp del]

definition digits_value :: "string \<Rightarrow> nat" where
  "digits_value s = foldl (\<lambda>n c. 10 * n + (of_char c - 48)) 0 s"

lemma digits_value_digits: "digits_value (digits n) = n"
proof (induction n rule: digits.induct)
  case (1 n)
  have "of_char (char_of (48 + m :: nat) :: char) = 48 + m" if "m < 10" for m :: nat
    using that by simp
  then show ?case using 1
    by (subst digits.simps) (simp add: digits_value_def)
qed

lemma digits_inj: "digits m = digits n \<longleftrightarrow> m = n"
  by (metis digits_value_digits)

definition py_str_int :: "int \<Rightarrow> string" where
  "py_str_int n = (if n < 0 then CHR ''-'' # digits (nat (- n)) else digits (nat n))"

end
