(* ===== verification/Py_Text.thy ===== *)
theory Py_Text
  imports Prelude
begin

text \<open>
  The operations on text that several components share: \<open>str.split\<close> with a separator,
  \<open>str.upper\<close>, \<open>str.strip\<close> and \<open>int\<close> of a decimal literal, on the ASCII characters; and \<open>str\<close> of an integer.
\<close>

subsection \<open>Splitting\<close>

fun split_on :: "char \<Rightarrow> string \<Rightarrow> string list" where
  "split_on c [] = [[]]"
| "split_on c (x # xs) =
     (if x = c then [] # split_on c xs
      else case split_on c xs of [] \<Rightarrow> [[x]] | y # ys \<Rightarrow> (x # y) # ys)"

lemma split_on_append: "c \<notin> set a \<Longrightarrow> split_on c (a @ c # b) = a # split_on c b"
  by (induction a) auto

lemma split_on_none: "c \<notin> set a \<Longrightarrow> split_on c a = [a]"
  by (induction a) auto

subsection \<open>Case and white space\<close>

text \<open>\<open>str.upper\<close> on the ASCII letters.\<close>

definition py_upper :: "string \<Rightarrow> string" where
  "py_upper s = map (\<lambda>c. if (of_char c :: nat) \<in> {97..122} then char_of ((of_char c :: nat) - 32) else c) s"

definition py_space :: "char \<Rightarrow> bool" where
  "py_space c \<longleftrightarrow> (of_char c :: nat) \<in> {9..13} \<union> {28..32}"

definition py_strip :: "string \<Rightarrow> string" where
  "py_strip s = rev (dropWhile py_space (rev (dropWhile py_space s)))"

lemma py_strip_none: "\<forall>c \<in> set s. \<not> py_space c \<Longrightarrow> py_strip s = s"
proof -
  assume s: "\<forall>c \<in> set s. \<not> py_space c"
  have "dropWhile py_space t = t" if "set t = set s" for t
    using that s hd_in_set [of t] by (auto simp: dropWhile_eq_self_iff)
  then show "py_strip s = s" by (simp add: py_strip_def)
qed

subsection \<open>Integers\<close>

definition is_digit :: "char \<Rightarrow> bool" where
  "is_digit c \<longleftrightarrow> (of_char c :: nat) \<in> {48..57}"

lemma digit_not_space: "is_digit c \<Longrightarrow> \<not> py_space c"
  by (auto simp: is_digit_def py_space_def)

lemma digit_not_underscore: "is_digit c \<Longrightarrow> c \<noteq> CHR ''_''"
  by (auto simp: is_digit_def)

text \<open>Digits, with single underscores between them.\<close>

fun digit_groups :: "string \<Rightarrow> bool" where
  "digit_groups [] = False"
| "digit_groups [c] = is_digit c"
| "digit_groups (c # d # cs) = (is_digit c \<and> (if d = CHR ''_'' then digit_groups cs else digit_groups (d # cs)))"

definition unsigned_value :: "string \<Rightarrow> int result" where
  "unsigned_value s =
     (if digit_groups s then Inr (int (digits_value (filter (\<lambda>c. c \<noteq> CHR ''_'') s))) else Inl ValueError)"

definition py_int :: "string \<Rightarrow> int result" where
  "py_int s =
     (case py_strip s of
        [] \<Rightarrow> Inl ValueError
      | c # cs \<Rightarrow>
          if c = CHR ''-'' then bind_result (unsigned_value cs) (\<lambda>n. Inr (- n))
          else if c = CHR ''+'' then unsigned_value cs
          else unsigned_value (c # cs))"

lemma digits_chars: "c \<in> set (digits n) \<Longrightarrow> is_digit c"
proof (induction n rule: digits.induct)
  case (1 n)
  have "is_digit (char_of (48 + m :: nat))" if "m < 10" for m
    using that by (simp add: is_digit_def)
  then show ?case using 1 digits.simps [of n] by (auto split: if_splits)
qed

lemma digits_nonempty [simp]: "digits n \<noteq> []"
  by (subst digits.simps) simp

lemma digit_groups_digits: "s \<noteq> [] \<Longrightarrow> \<forall>c \<in> set s. is_digit c \<Longrightarrow> digit_groups s"
proof (induction s rule: digit_groups.induct)
  case (3 c d cs)
  have "d \<noteq> CHR ''_''" using 3 by (auto simp: is_digit_def)
  then show ?case using 3 by simp
qed auto

text \<open>Leading zeros do not matter.\<close>

lemma digits_value_zeros: "digits_value (replicate k CHR ''0'' @ s) = digits_value s"
  by (induction k) (simp_all add: digits_value_def)

lemma py_int_digits: "py_int (replicate k CHR ''0'' @ digits n) = Inr (int n)"
proof -
  let ?s = "replicate k CHR ''0'' @ digits n"
  have d: "\<forall>c \<in> set ?s. is_digit c" by (auto dest: digits_chars simp: is_digit_def)
  then have "py_strip ?s = ?s" by (intro py_strip_none) (blast dest: digit_not_space)
  moreover have "filter (\<lambda>c. c \<noteq> CHR ''_'') ?s = ?s" using d digit_not_underscore by (intro filter_True) blast
  moreover obtain c cs where s: "?s = c # cs" by (cases ?s) auto
  moreover have "c \<noteq> CHR ''-''" "c \<noteq> CHR ''+''" using d s by (auto simp: is_digit_def)
  ultimately show ?thesis
    using digit_groups_digits [of ?s] d digits_value_zeros [of k "digits n"]
    by (simp add: py_int_def unsigned_value_def digits_value_digits)
qed

text \<open>\<open>str\<close> of an integer, and \<open>int\<close> of a float.\<close>

definition py_str_int :: "int \<Rightarrow> string" where
  "py_str_int n = (if n < 0 then ''-'' else []) @ digits (nat \<bar>n\<bar>)"

definition py_trunc :: "pyfloat \<Rightarrow> int" where
  "py_trunc x = (if x < 0 then \<lceil>x\<rceil> else \<lfloor>x\<rfloor>)"

subsection \<open>The environment\<close>

text \<open>\<open>int(os.environ.get(key, dflt))\<close> and \<open>os.environ.get(key, dflt)\<close>.\<close>

definition environ_int :: "(string, string) dict \<Rightarrow> string \<Rightarrow> int \<Rightarrow> int result" where
  "environ_int environ key dflt = (case dict_get environ key of None \<Rightarrow> Inr dflt | Some s \<Rightarrow> py_int s)"

definition environ_str :: "(string, string) dict \<Rightarrow> string \<Rightarrow> string \<Rightarrow> string" where
  "environ_str environ key dflt = (case dict_get environ key of None \<Rightarrow> dflt | Some s \<Rightarrow> s)"

end
