(* ===== verification/Snapshot.thy ===== *)
theory Snapshot
  imports Prelude
begin

text \<open>
  The frozen dataclasses of \<open>PredictionEngine/snapshot.py\<close>, one record each.
  \<open>current_stop_sequence\<close> is annotated \<open>int\<close> in the source but is read from a nullable
  column by the snapshot builder, so it may be \<open>None\<close> here.
\<close>

record stop_state =
  ss_stop_id :: string
  ss_sequence :: int
  ss_people_waiting :: "int option"

record vehicle_snapshot =
  vs_vehicle_id :: string
  vs_route_id :: string
  vs_capacity :: int
  vs_current_stop_sequence :: "int option"
  vs_passenger_count :: int

record route_snapshot =
  rs_route_id :: string
  rs_direction_id :: int
  rs_stops :: "stop_state list"
  rs_vehicles :: "vehicle_snapshot list"

record stop_prediction =
  sp_stop_id :: string
  sp_stop_sequence :: int
  sp_predicted_passengers :: int
  sp_boarded :: int
  sp_alighted :: int
  sp_people_waiting_at_stop :: "int option"
  sp_has_data :: bool

record vehicle_prediction =
  vp_vehicle_id :: string
  vp_route_id :: string
  vp_vehicle_capacity :: int
  vp_stops :: "stop_prediction list"
  vp_peak_load :: int
  vp_peak_occupancy_pct :: pyfloat
  vp_confidence :: pyfloat

record route_prediction_result =
  rp_route_id :: string
  rp_direction_id :: int
  rp_vehicle_predictions :: "vehicle_prediction list"
  rp_stranded_at_stops :: "(string, int) dict"

text \<open>
  What the database guarantees of a snapshot: a route's stops have distinct sequence
  numbers (the primary key of \<open>route_stops\<close>), counts of people are not negative.
\<close>

definition wf_snapshot :: "route_snapshot \<Rightarrow> bool" where
  "wf_snapshot s \<longleftrightarrow>
     distinct (map ss_sequence (rs_stops s)) \<and>
     list_all (\<lambda>st. case ss_people_waiting st of None \<Rightarrow> True | Some n \<Rightarrow> 0 \<le> n) (rs_stops s) \<and>
     list_all (\<lambda>v. 0 \<le> vs_passenger_count v) (rs_vehicles s)"

text \<open>What the consumers of a result rely on: the engine never emits a vehicle without stops.\<close>

definition wf_vehicle_prediction :: "vehicle_prediction \<Rightarrow> bool" where
  "wf_vehicle_prediction vp \<longleftrightarrow>
     vp_stops vp \<noteq> [] \<and> 0 < vp_vehicle_capacity vp \<and>
     vp_peak_load vp \<in> sp_predicted_passengers ` set (vp_stops vp) \<and>
     list_all (\<lambda>sp. sp_predicted_passengers sp \<le> vp_peak_load vp) (vp_stops vp) \<and>
     vp_peak_occupancy_pct vp = py_truediv (vp_peak_load vp) (vp_vehicle_capacity vp)"

definition wf_result :: "route_prediction_result \<Rightarrow> bool" where
  "wf_result r \<longleftrightarrow> list_all wf_vehicle_prediction (rp_vehicle_predictions r)"

end
