(* ===== verification/Engine.thy ===== *)
theory Engine
  imports Snapshot
begin

text \<open>
  \<open>PredictionEngine/engine.py\<close>: the sequential simulation of a route's vehicles over the
  shared array of waiting passengers.  \<open>walk_stop\<close> is one iteration of the inner loop,
  \<open>simulate_vehicle\<close> one iteration of the outer loop with its \<open>continue\<close>s,
  \<open>predict_route\<close> the whole method.  Logging is left out.  The lemmas follow the loops:
  facts of one stop, of the walk along \<open>[start..<end]\<close>, of the run over the vehicles.
\<close>

record prediction_config =
  pc_alighting_fraction :: pyfloat

definition default_alighting_fraction :: pyfloat where
  "default_alighting_fraction = fl (5 / 100)"

definition default_prediction_config :: prediction_config where
  "default_prediction_config = \<lparr>pc_alighting_fraction = default_alighting_fraction\<rparr>"

subsection \<open>The loops\<close>

definition waiting_of :: "stop_state \<Rightarrow> int" where
  "waiting_of s = (case ss_people_waiting s of None \<Rightarrow> 0 | Some n \<Rightarrow> n)"

definition seq_to_idx :: "stop_state list \<Rightarrow> (int, nat) dict" where
  "seq_to_idx stops = dict_of (map (\<lambda>(i, s). (ss_sequence s, i)) (enumerate 0 stops))"

definition initial_remaining :: "stop_state list \<Rightarrow> int list" where
  "initial_remaining stops = map waiting_of stops"

definition has_data :: "stop_state list \<Rightarrow> bool list" where
  "has_data stops = map (\<lambda>s. ss_people_waiting s \<noteq> None) stops"

record walk_state =
  w_load :: int
  w_remaining :: "int list"
  w_preds :: "stop_prediction list"
  w_with_data :: int
  w_total :: int

definition walk_stop :: "pyfloat \<Rightarrow> int \<Rightarrow> stop_state list \<Rightarrow> walk_state \<Rightarrow> nat \<Rightarrow> walk_state" where
  "walk_stop af capacity stops w i =
     (let load = w_load w;
          alight = min (py_round (fmul (py_float load) af)) load;
          load = load - alight;
          board = min (w_remaining w ! i) (max 0 (capacity - load));
          load = load + board;
          stop = stops ! i
      in \<lparr>w_load = load,
          w_remaining = (w_remaining w)[i := w_remaining w ! i - board],
          w_preds = w_preds w @
            [\<lparr>sp_stop_id = ss_stop_id stop, sp_stop_sequence = ss_sequence stop,
              sp_predicted_passengers = load, sp_boarded = board, sp_alighted = alight,
              sp_people_waiting_at_stop = ss_people_waiting stop,
              sp_has_data = has_data stops ! i\<rparr>],
          w_with_data = w_with_data w + (if has_data stops ! i then 1 else 0),
          w_total = w_total w + 1\<rparr>)"

definition walk :: "pyfloat \<Rightarrow> int \<Rightarrow> stop_state list \<Rightarrow> int \<Rightarrow> int list \<Rightarrow> nat \<Rightarrow> nat \<Rightarrow> walk_state" where
  "walk af capacity stops load remaining a b =
     foldl (walk_stop af capacity stops)
       \<lparr>w_load = load, w_remaining = remaining, w_preds = [], w_with_data = 0, w_total = 0\<rparr>
       [a..<b]"

text \<open>One vehicle: skipped when its stop is not on the route, when its capacity is not
  positive, or when no stop before the terminus is left.\<close>

definition simulate_vehicle ::
  "pyfloat \<Rightarrow> stop_state list \<Rightarrow> vehicle_snapshot \<Rightarrow> int list \<Rightarrow> vehicle_prediction option \<times> int list" where
  "simulate_vehicle af stops v remaining =
     (case Option.bind (vs_current_stop_sequence v) (dict_get (seq_to_idx stops)) of
        None \<Rightarrow> (None, remaining)
      | Some start \<Rightarrow>
          if vs_capacity v \<le> 0 then (None, remaining)
          else
            let w = walk af (vs_capacity v) stops (vs_passenger_count v) remaining start (length stops - 1)
            in case w_preds w of
                 [] \<Rightarrow> (None, w_remaining w)
               | sp # sps \<Rightarrow>
                   let peak = max_from (\<lambda>n. n) (sp_predicted_passengers sp) (map sp_predicted_passengers sps)
                   in (Some \<lparr>vp_vehicle_id = vs_vehicle_id v, vp_route_id = vs_route_id v,
                             vp_vehicle_capacity = vs_capacity v, vp_stops = w_preds w,
                             vp_peak_load = peak,
                             vp_peak_occupancy_pct = py_truediv peak (vs_capacity v),
                             vp_confidence =
                               (if 0 < w_total w then py_truediv (w_with_data w) (w_total w) else 0)\<rparr>,
                       w_remaining w))"

fun simulate ::
  "pyfloat \<Rightarrow> stop_state list \<Rightarrow> vehicle_snapshot list \<Rightarrow> int list \<Rightarrow> vehicle_prediction list \<times> int list" where
  "simulate af stops [] remaining = ([], remaining)"
| "simulate af stops (v # vs) remaining =
     (let (vp, remaining') = simulate_vehicle af stops v remaining;
          (vps, remaining'') = simulate af stops vs remaining'
      in ((case vp of None \<Rightarrow> vps | Some p \<Rightarrow> p # vps), remaining''))"

text \<open>Furthest ahead first, ties by vehicle id: the key of \<open>sorted\<close>.\<close>

definition vehicle_key :: "vehicle_snapshot \<Rightarrow> int \<times> string" where
  "vehicle_key v = (- the (vs_current_stop_sequence v), vs_vehicle_id v)"

text \<open>\<open>sorted\<close> computes the key of every vehicle first: \<open>-None\<close> raises \<open>TypeError\<close>.\<close>

definition sorted_vehicles :: "vehicle_snapshot list \<Rightarrow> vehicle_snapshot list result" where
  "sorted_vehicles vs =
     (if \<exists>v \<in> set vs. vs_current_stop_sequence v = None then Inl TypeError
      else Inr (sort_key vehicle_key vs))"

definition stranded_at :: "stop_state list \<Rightarrow> int list \<Rightarrow> (string, int) dict" where
  "stranded_at stops remaining =
     dict_of (map (\<lambda>(i, count). (ss_stop_id (stops ! i), count))
       (filter (\<lambda>(i, count). 0 < count) (enumerate 0 remaining)))"

definition predict_route ::
  "prediction_config \<Rightarrow> route_snapshot \<Rightarrow> pyfloat option \<Rightarrow> route_prediction_result result" where
  "predict_route config snapshot alighting_fraction =
     (let af = (case alighting_fraction of Some f \<Rightarrow> f | None \<Rightarrow> pc_alighting_fraction config);
          stops = rs_stops snapshot
      in if length stops \<le> 1 then
           Inr \<lparr>rp_route_id = rs_route_id snapshot, rp_direction_id = rs_direction_id snapshot,
                rp_vehicle_predictions = [], rp_stranded_at_stops = []\<rparr>
         else
           bind_result (sorted_vehicles (rs_vehicles snapshot)) (\<lambda>vs.
             let (vps, remaining) = simulate af stops vs (initial_remaining stops)
             in Inr \<lparr>rp_route_id = rs_route_id snapshot, rp_direction_id = rs_direction_id snapshot,
                     rp_vehicle_predictions = vps,
                     rp_stranded_at_stops = stranded_at stops remaining\<rparr>))"

subsection \<open>The walk of one vehicle\<close>

lemma walk_empty: "b \<le> a \<Longrightarrow> walk af c stops l rem a b =
    \<lparr>w_load = l, w_remaining = rem, w_preds = [], w_with_data = 0, w_total = 0\<rparr>"
  by (simp add: walk_def)

lemma walk_Suc: "a \<le> b \<Longrightarrow> walk af c stops l rem a (Suc b) = walk_stop af c stops (walk af c stops l rem a b) b"
  by (simp add: walk_def)

lemma walk_invariant:
  assumes "P \<lparr>w_load = l, w_remaining = rem, w_preds = [], w_with_data = 0, w_total = 0\<rparr>"
    and "\<And>w i. a \<le> i \<Longrightarrow> i < b \<Longrightarrow> P w \<Longrightarrow> P (walk_stop af c stops w i)"
  shows "P (walk af c stops l rem a b)"
proof -
  have "P (foldl (walk_stop af c stops) w is)" if "P w" "set is \<subseteq> {a..<b}" for w "is"
    using that by (induction "is" arbitrary: w) (auto intro: assms(2))
  then show ?thesis unfolding walk_def using assms(1) by simp
qed

lemma walk_length [simp]: "length (w_remaining (walk af c stops l rem a b)) = length rem"
  by (rule walk_invariant) (simp_all add: walk_stop_def Let_def)

text \<open>The predictions follow the stops of the route, one by one.\<close>

lemma walk_stops:
  "map (\<lambda>p. (sp_stop_id p, sp_stop_sequence p, sp_people_waiting_at_stop p, sp_has_data p))
      (w_preds (walk af c stops l rem a b)) =
    map (\<lambda>i. (ss_stop_id (stops ! i), ss_sequence (stops ! i), ss_people_waiting (stops ! i),
      has_data stops ! i)) [a..<b]"
proof (cases "a \<le> b")
  case True
  then show ?thesis
    by (induction b rule: nat_induct_at_least)
      (simp_all add: walk_empty walk_Suc, simp add: walk_stop_def Let_def)
next
  case False
  then show ?thesis by (simp add: walk_empty)
qed

lemma walk_preds_length [simp]: "length (w_preds (walk af c stops l rem a b)) = b - a"
  using arg_cong [OF walk_stops, of length] by simp

lemma walk_totals:
  "w_total (walk af c stops l rem a b) = int (b - a) \<and>
   0 \<le> w_with_data (walk af c stops l rem a b) \<and>
   w_with_data (walk af c stops l rem a b) \<le> w_total (walk af c stops l rem a b)"
proof -
  define P where
    "P w \<longleftrightarrow> w_total w = int (length (w_preds w)) \<and> 0 \<le> w_with_data w \<and> w_with_data w \<le> w_total w" for w :: walk_state
  have "P (walk af c stops l rem a b)"
    by (rule walk_invariant) (auto simp: P_def walk_stop_def Let_def)
  then show ?thesis by (simp add: P_def)
qed

text \<open>The flow of passengers through the vehicle.\<close>

fun flow_ok :: "int \<Rightarrow> stop_prediction list \<Rightarrow> bool" where
  "flow_ok load [] = True"
| "flow_ok load (p # ps) =
     (sp_predicted_passengers p = load - sp_alighted p + sp_boarded p \<and>
      flow_ok (sp_predicted_passengers p) ps)"

fun final_load :: "int \<Rightarrow> stop_prediction list \<Rightarrow> int" where
  "final_load load [] = load"
| "final_load load (p # ps) = final_load (sp_predicted_passengers p) ps"

lemma flow_ok_snoc:
  "flow_ok l (ps @ [p]) \<longleftrightarrow>
     flow_ok l ps \<and> sp_predicted_passengers p = final_load l ps - sp_alighted p + sp_boarded p"
  by (induction ps arbitrary: l) auto

lemma final_load_snoc [simp]: "final_load l (ps @ [p]) = sp_predicted_passengers p"
  by (induction ps arbitrary: l) auto

lemma walk_flow:
  "flow_ok l (w_preds (walk af c stops l rem a b)) \<and>
   final_load l (w_preds (walk af c stops l rem a b)) = w_load (walk af c stops l rem a b)"
  by (rule walk_invariant) (simp_all add: walk_stop_def Let_def flow_ok_snoc)

text \<open>Bounds: nobody alights or boards in negative numbers, no array entry goes below zero.\<close>

definition pred_bounds :: "int \<Rightarrow> stop_prediction \<Rightarrow> bool" where
  "pred_bounds m p \<longleftrightarrow>
     0 \<le> sp_boarded p \<and> 0 \<le> sp_alighted p \<and>
     0 \<le> sp_predicted_passengers p \<and> sp_predicted_passengers p \<le> m"

lemma walk_stop_bounds:
  fixes stops :: "stop_state list" and a :: nat
  assumes af: "0 \<le> af" and i: "i < length (w_remaining w)" and c: "0 \<le> c" "c \<le> m"
    and rem: "\<forall>x \<in> set (w_remaining w). 0 \<le> x" and load: "0 \<le> w_load w" "w_load w \<le> m"
    and preds: "\<forall>p \<in> set (w_preds w). pred_bounds m p"
  defines "w' \<equiv> walk_stop af c stops w i"
  shows "(\<forall>x \<in> set (w_remaining w'). 0 \<le> x) \<and> 0 \<le> w_load w' \<and> w_load w' \<le> m \<and>
    (\<forall>p \<in> set (w_preds w'). pred_bounds m p)"
proof -
  define al where "al = min (py_round (fmul (py_float (w_load w)) af)) (w_load w)"
  define bd where "bd = min (w_remaining w ! i) (max 0 (c - (w_load w - al)))"
  have r: "0 \<le> w_remaining w ! i" using rem i by simp
  have al: "0 \<le> al" "al \<le> w_load w"
    using load(1) af by (auto simp: al_def intro!: py_round_nonneg fmul_nonneg py_float_nonneg)
  have bd: "0 \<le> bd" "bd \<le> w_remaining w ! i" "w_load w - al + bd \<le> m"
    using r c al load by (auto simp: bd_def)
  have "\<forall>x \<in> set ((w_remaining w)[i := w_remaining w ! i - bd]). 0 \<le> x"
    using rem bd(2) set_update_subset_insert [of "w_remaining w" i "w_remaining w ! i - bd"] by auto
  then show ?thesis
    using al bd preds unfolding w'_def walk_stop_def Let_def
    by (simp add: pred_bounds_def flip: al_def bd_def)
qed

lemma walk_bounds:
  fixes stops :: "stop_state list" and a :: nat
  assumes "0 \<le> af" "b \<le> length rem" "0 \<le> c" "0 \<le> l" "\<forall>x \<in> set rem. 0 \<le> x"
  defines "w \<equiv> walk af c stops l rem a b"
  shows "\<forall>x \<in> set (w_remaining w). 0 \<le> x" "\<forall>p \<in> set (w_preds w). pred_bounds (max c l) p"
proof -
  have "length (w_remaining w) = length rem \<and> (\<forall>x \<in> set (w_remaining w). 0 \<le> x) \<and> 0 \<le> w_load w \<and>
    w_load w \<le> max c l \<and> (\<forall>p \<in> set (w_preds w). pred_bounds (max c l) p)"
    unfolding w_def
  proof (rule walk_invariant, goal_cases)
    case 1
    then show ?case using assms by simp
  next
    case (2 w i)
    then have "i < length (w_remaining w)" using assms(2) by simp
    moreover have "length (w_remaining (walk_stop af c stops w i)) = length (w_remaining w)"
      by (simp add: walk_stop_def Let_def)
    ultimately show ?case using 2 assms(1,3) walk_stop_bounds [of af i w c "max c l" stops] by auto
  qed
  then show "\<forall>x \<in> set (w_remaining w). 0 \<le> x" "\<forall>p \<in> set (w_preds w). pred_bounds (max c l) p"
    by auto
qed

subsection \<open>The shared array of waiting passengers\<close>

definition boarded_at :: "int \<Rightarrow> stop_prediction list \<Rightarrow> int" where
  "boarded_at q ps = sum_list (map sp_boarded (filter (\<lambda>p. sp_stop_sequence p = q) ps))"

lemma boarded_at_simps [simp]:
  "boarded_at q [] = 0"
  "boarded_at q (ps @ qs) = boarded_at q ps + boarded_at q qs"
  "boarded_at q (p # ps) = (if sp_stop_sequence p = q then sp_boarded p else 0) + boarded_at q ps"
  by (simp_all add: boarded_at_def)

lemma distinct_seq_nth:
  "distinct (map ss_sequence stops) \<Longrightarrow> i < length stops \<Longrightarrow> j < length stops \<Longrightarrow>
    ss_sequence (stops ! i) = ss_sequence (stops ! j) \<longleftrightarrow> i = j"
  using nth_eq_iff_index_eq [of "map ss_sequence stops" i j] by simp

lemma walk_conserves:
  assumes "distinct (map ss_sequence stops)" "length rem = length stops" "i < length stops"
    "b \<le> length stops" and w: "w = walk af c stops l rem a b"
  shows "w_remaining w ! i + boarded_at (ss_sequence (stops ! i)) (w_preds w) = rem ! i"
proof -
  define P where "P w \<longleftrightarrow> length (w_remaining w) = length stops \<and>
    w_remaining w ! i + boarded_at (ss_sequence (stops ! i)) (w_preds w) = rem ! i" for w :: walk_state
  have "P (walk af c stops l rem a b)"
  proof (rule walk_invariant, goal_cases)
    case 1
    then show ?case using assms by (simp add: P_def)
  next
    case (2 w j)
    then have "j < length stops" using assms(4) by simp
    then show ?case using 2 assms(3) distinct_seq_nth [OF assms(1), of j i]
      by (auto simp: P_def walk_stop_def Let_def nth_list_update)
  qed
  then show ?thesis by (simp add: P_def w)
qed

text \<open>
  Nobody is left at a stop that a vehicle served with room to spare; what is left after
  the walk was there before it.
\<close>

lemma walk_leaves:
  assumes "distinct (map ss_sequence stops)" "length rem = length stops" "i < length stops"
    "b \<le> length stops" and w: "w = walk af c stops l rem a b"
    and left: "0 < w_remaining w ! i"
  shows "0 < rem ! i"
    and "\<forall>p \<in> set (w_preds w). sp_stop_sequence p = ss_sequence (stops ! i) \<longrightarrow>
      c \<le> sp_predicted_passengers p"
proof -
  define P where "P w \<longleftrightarrow> length (w_remaining w) = length stops \<and>
    (0 < w_remaining w ! i \<longrightarrow> 0 < rem ! i \<and>
      (\<forall>p \<in> set (w_preds w). sp_stop_sequence p = ss_sequence (stops ! i) \<longrightarrow>
        c \<le> sp_predicted_passengers p))" for w :: walk_state
  have "P (walk af c stops l rem a b)"
  proof (rule walk_invariant, goal_cases)
    case 1
    then show ?case using assms by (simp add: P_def)
  next
    case (2 w j)
    then have j: "j < length stops" using assms(4) by simp
    show ?case
    proof (cases "j = i")
      case True
      then show ?thesis using 2(3) assms(3) by (auto simp: P_def walk_stop_def Let_def min_def max_def split: if_splits)
    next
      case False
      then show ?thesis using 2(3) j assms(3) distinct_seq_nth [OF assms(1), of j i]
        by (auto simp: P_def walk_stop_def Let_def)
    qed
  qed
  then show "0 < rem ! i"
    "\<forall>p \<in> set (w_preds w). sp_stop_sequence p = ss_sequence (stops ! i) \<longrightarrow>
      c \<le> sp_predicted_passengers p"
    using left by (auto simp: P_def w)
qed

text \<open>
  The array entry a vehicle sees is the one it was handed: each stop is visited once.
  So what boards is the minimum of what was waiting and the free places.
\<close>

lemma walk_untouched:
  "i < a \<or> b \<le> i \<Longrightarrow> w_remaining (walk af c stops l rem a b) ! i = rem ! i"
  by (rule walk_invariant [where P = "\<lambda>w. w_remaining w ! i = rem ! i"])
    (auto simp: walk_stop_def Let_def)

definition boards_by_rule :: "int \<Rightarrow> int \<Rightarrow> stop_prediction \<Rightarrow> bool" where
  "boards_by_rule c waiting p \<longleftrightarrow>
     sp_boarded p = min waiting (max 0 (c - (sp_predicted_passengers p - sp_boarded p)))"

lemma walk_boards:
  assumes "distinct (map ss_sequence stops)" "i < length stops" "b \<le> length stops"
    "p \<in> set (w_preds (walk af c stops l rem a b))" "sp_stop_sequence p = ss_sequence (stops ! i)"
  shows "boards_by_rule c (rem ! i) p"
proof (cases "a \<le> b")
  case True
  then show ?thesis using assms(3,4)
  proof (induction b rule: nat_induct_at_least)
    case base
    then show ?case by (simp add: walk_empty)
  next
    case (Suc b)
    show ?case
    proof (cases "p \<in> set (w_preds (walk af c stops l rem a b))")
      case True
      then show ?thesis using Suc by simp
    next
      case False
      then have "sp_stop_sequence p = ss_sequence (stops ! b)"
        using Suc by (auto simp: walk_Suc walk_stop_def Let_def)
      then have "b = i" using assms(1,2,5) Suc.prems distinct_seq_nth [of stops b i] by auto
      with False show ?thesis using Suc walk_untouched [of b a b af c stops l rem]
        by (auto simp: walk_Suc walk_stop_def Let_def boards_by_rule_def)
    qed
  qed
next
  case False
  then show ?thesis using assms(4) by (simp add: walk_empty)
qed

lemma walk_with_data:
  "w_with_data (walk af c stops l rem a b) =
    int (length (filter sp_has_data (w_preds (walk af c stops l rem a b))))"
  by (rule walk_invariant [where P = "\<lambda>w. w_with_data w = int (length (filter sp_has_data (w_preds w)))"])
    (auto simp: walk_stop_def Let_def)

subsection \<open>One vehicle\<close>

lemma seq_to_idx_sound:
  assumes "dict_get (seq_to_idx stops) q = Some i"
  shows "i < length stops \<and> ss_sequence (stops ! i) = q"
proof -
  have "(q, i) \<in> set (map (\<lambda>(i, s). (ss_sequence s, i)) (enumerate 0 stops))"
    using assms map_of_SomeD by (fastforce simp: seq_to_idx_def dict_of_get)
  then show ?thesis by (auto simp: in_set_enumerate_eq)
qed

lemma seq_to_idx_complete:
  assumes "distinct (map ss_sequence stops)" "i < length stops"
  shows "dict_get (seq_to_idx stops) (ss_sequence (stops ! i)) = Some i"
proof -
  have "(i, stops ! i) \<in> set (enumerate 0 stops)"
    using assms(2) by (simp add: in_set_enumerate_eq)
  then have "ss_sequence (stops ! i) \<in> set (dict_keys (seq_to_idx stops))"
    unfolding seq_to_idx_def set_dict_of_keys by force
  then obtain j where j: "dict_get (seq_to_idx stops) (ss_sequence (stops ! i)) = Some j"
    using dict_get_keys by fastforce
  with seq_to_idx_sound [OF j] show ?thesis using assms distinct_seq_nth by metis
qed

lemma simulate_vehicle_None: "simulate_vehicle af stops v rem = (None, rem') \<Longrightarrow> rem' = rem"
  by (auto simp: simulate_vehicle_def Let_def walk_empty split: option.splits if_splits list.splits
      dest!: arg_cong [of _ "[]" length])

text \<open>A vehicle that is kept: where it starts, and what its prediction records.\<close>

definition vehicle_walk :: "pyfloat \<Rightarrow> stop_state list \<Rightarrow> vehicle_snapshot \<Rightarrow> int list \<Rightarrow> nat \<Rightarrow> walk_state" where
  "vehicle_walk af stops v rem start =
     walk af (vs_capacity v) stops (vs_passenger_count v) rem start (length stops - 1)"

lemma simulate_vehicle_SomeD:
  assumes "simulate_vehicle af stops v rem = (Some vp, rem')"
  obtains start where
    "vs_current_stop_sequence v = Some (ss_sequence (stops ! start))" "start < length stops - 1"
    "0 < vs_capacity v" "rem' = w_remaining (vehicle_walk af stops v rem start)"
    "vp_stops vp = w_preds (vehicle_walk af stops v rem start)"
    "vp_vehicle_id vp = vs_vehicle_id v" "vp_route_id vp = vs_route_id v"
    "vp_vehicle_capacity vp = vs_capacity v"
    "vp_confidence vp = py_truediv (int (length (filter sp_has_data (vp_stops vp)))) (int (length (vp_stops vp)))"
    "wf_vehicle_prediction vp"
proof -
  from assms obtain q start where q: "vs_current_stop_sequence v = Some q"
    "dict_get (seq_to_idx stops) q = Some start" and c: "0 < vs_capacity v"
    by (auto simp: simulate_vehicle_def bind_eq_Some_conv split: option.splits if_splits)
  define w where "w = vehicle_walk af stops v rem start"
  obtain sp sps where sp: "w_preds w = sp # sps"
    using assms q c unfolding w_def vehicle_walk_def
    by (auto simp: simulate_vehicle_def Let_def split: list.splits)
  define peak where
    "peak = max_from (\<lambda>n. n) (sp_predicted_passengers sp) (map sp_predicted_passengers sps)"
  have len: "length (sp # sps) = length stops - 1 - start"
    by (simp only: sp [symmetric] w_def vehicle_walk_def walk_preds_length)
  then have start: "start < length stops - 1" by simp
  define n where "n = length stops - 1 - start"
  have n: "0 < n" using start by (simp add: n_def)
  have tot: "w_total w = int n"
    unfolding w_def vehicle_walk_def n_def using walk_totals by blast
  have vp: "vp = \<lparr>vp_vehicle_id = vs_vehicle_id v, vp_route_id = vs_route_id v,
      vp_vehicle_capacity = vs_capacity v, vp_stops = w_preds w, vp_peak_load = peak,
      vp_peak_occupancy_pct = py_truediv peak (vs_capacity v),
      vp_confidence = py_truediv (w_with_data w) (int n)\<rparr>"
    and rem': "rem' = w_remaining w"
    using assms q c sp tot n unfolding w_def vehicle_walk_def
    by (simp_all add: simulate_vehicle_def Let_def peak_def)
  have "peak \<in> set (map sp_predicted_passengers (sp # sps))"
    unfolding peak_def
    using max_from_mem [of "\<lambda>n. n" "sp_predicted_passengers sp" "map sp_predicted_passengers sps"] by simp
  moreover have "sp_predicted_passengers p \<le> peak" if "p \<in> set (sp # sps)" for p
    unfolding peak_def using max_from_ge [of "sp_predicted_passengers p" _ _ "\<lambda>n. n"] that by auto
  ultimately have "wf_vehicle_prediction vp"
    using c unfolding vp wf_vehicle_prediction_def by (auto simp: sp list_all_iff)
  with q start c show ?thesis
    using seq_to_idx_sound [OF q(2)] that [of start]
    by (simp add: vp rem' w_def n_def vehicle_walk_def walk_with_data)
qed

text \<open>Which vehicles get a prediction.\<close>

definition served :: "stop_state list \<Rightarrow> vehicle_snapshot \<Rightarrow> bool" where
  "served stops v \<longleftrightarrow> 0 < vs_capacity v \<and>
     (case vs_current_stop_sequence v of None \<Rightarrow> False
      | Some q \<Rightarrow> q \<in> set (map ss_sequence (butlast stops)))"

lemma simulate_vehicle_served:
  assumes d: "distinct (map ss_sequence stops)" and "served stops v"
  shows "fst (simulate_vehicle af stops v rem) \<noteq> None"
proof -
  obtain q i where q: "vs_current_stop_sequence v = Some q" "i < length (butlast stops)"
    "q = ss_sequence (butlast stops ! i)"
    using assms(2) by (auto simp: served_def in_set_conv_nth split: option.splits)
  then have i: "i < length stops - 1" "q = ss_sequence (stops ! i)" by (simp_all add: nth_butlast)
  then have idx: "dict_get (seq_to_idx stops) q = Some i" using seq_to_idx_complete [OF d, of i] by simp
  have "w_preds (walk af (vs_capacity v) stops (vs_passenger_count v) rem i (length stops - 1)) \<noteq> []"
    using i(1) walk_preds_length [of af "vs_capacity v" stops "vs_passenger_count v" rem i "length stops - 1"]
    by (auto simp del: walk_preds_length)
  then show ?thesis using q idx assms(2)
    by (auto simp: simulate_vehicle_def served_def Let_def split: list.splits)
qed

lemma simulate_vehicle_served_iff:
  assumes "distinct (map ss_sequence stops)"
  shows "fst (simulate_vehicle af stops v rem) \<noteq> None \<longleftrightarrow> served stops v"
proof
  assume "fst (simulate_vehicle af stops v rem) \<noteq> None"
  then obtain vp rem' where "simulate_vehicle af stops v rem = (Some vp, rem')"
    by (metis option.exhaust prod.collapse)
  then obtain start where "vs_current_stop_sequence v = Some (ss_sequence (stops ! start))"
    "start < length stops - 1" "0 < vs_capacity v"
    by (rule simulate_vehicle_SomeD)
  moreover from this have "stops ! start \<in> set (butlast stops)"
    by (metis length_butlast nth_butlast nth_mem)
  ultimately show "served stops v" by (simp add: served_def)
qed (rule simulate_vehicle_served [OF assms])

subsection \<open>All vehicles\<close>

definition all_stops :: "vehicle_prediction list \<Rightarrow> stop_prediction list" where
  "all_stops vps = concat (map vp_stops vps)"

lemma all_stops_simps [simp]:
  "all_stops [] = []"
  "all_stops (vp # vps) = vp_stops vp @ all_stops vps"
  "all_stops (vps @ vps') = all_stops vps @ all_stops vps'"
  by (simp_all add: all_stops_def)

lemma simulate_step:
  assumes "simulate af stops (v # vs) rem = (vps, rem2)"
  obtains rem1 vps1 where "simulate af stops vs rem1 = (vps1, rem2)"
    "simulate_vehicle af stops v rem = (None, rem1)" "vps = vps1" "rem1 = rem"
  | rem1 vps1 vp where "simulate af stops vs rem1 = (vps1, rem2)"
    "simulate_vehicle af stops v rem = (Some vp, rem1)" "vps = vp # vps1"
proof -
  obtain o1 rem1 where v: "simulate_vehicle af stops v rem = (o1, rem1)" by force
  obtain vps1 where s: "simulate af stops vs rem1 = (vps1, rem2)"
    using assms v by (auto split: prod.splits)
  then show ?thesis
    using assms v that simulate_vehicle_None [of af stops v rem rem1]
    by (cases o1) auto
qed

lemma simulate_vehicle_length:
  "simulate_vehicle af stops v rem = (o1, rem1) \<Longrightarrow> length rem1 = length rem"
  by (cases o1) (auto dest: simulate_vehicle_None elim!: simulate_vehicle_SomeD simp: vehicle_walk_def)

lemma simulate_length: "simulate af stops vs rem = (vps, rem') \<Longrightarrow> length rem' = length rem"
  by (induction vs arbitrary: rem vps) (auto split: prod.splits dest: simulate_vehicle_length)

lemma simulate_conserves:
  assumes "simulate af stops vs rem = (vps, rem')" "distinct (map ss_sequence stops)"
    "length rem = length stops" "i < length stops"
  shows "rem' ! i + boarded_at (ss_sequence (stops ! i)) (all_stops vps) = rem ! i"
  using assms(1,3)
proof (induction vs arbitrary: rem vps)
  case (Cons v vs)
  from Cons.prems(1) show ?case
  proof (cases rule: simulate_step)
    case (1 rem1 vps1)
    then show ?thesis using Cons by simp
  next
    case (2 rem1 vps1 vp)
    from 2(2) obtain start where
      "rem1 = w_remaining (vehicle_walk af stops v rem start)"
      "vp_stops vp = w_preds (vehicle_walk af stops v rem start)"
      by (rule simulate_vehicle_SomeD)
    then have "rem1 ! i + boarded_at (ss_sequence (stops ! i)) (vp_stops vp) = rem ! i"
      using walk_conserves [OF assms(2) Cons.prems(2) assms(4) _ refl] by (simp add: vehicle_walk_def)
    moreover have "length rem1 = length stops"
      using simulate_vehicle_length [OF 2(2)] Cons.prems(2) by simp
    ultimately show ?thesis using Cons.IH [OF 2(1)] 2(3) by simp
  qed
qed simp

lemma simulate_leaves:
  assumes "simulate af stops vs rem = (vps, rem')" "distinct (map ss_sequence stops)"
    "length rem = length stops" "i < length stops" "0 < rem' ! i"
  shows "0 < rem ! i \<and>
    (\<forall>vp \<in> set vps. \<forall>p \<in> set (vp_stops vp). sp_stop_sequence p = ss_sequence (stops ! i) \<longrightarrow>
      vp_vehicle_capacity vp \<le> sp_predicted_passengers p)"
  using assms(1,3,5)
proof (induction vs arbitrary: rem vps)
  case (Cons v vs)
  from Cons.prems(1) show ?case
  proof (cases rule: simulate_step)
    case (1 rem1 vps1)
    then show ?thesis using Cons by simp
  next
    case (2 rem1 vps1 vp)
    from 2(2) obtain start where w:
      "rem1 = w_remaining (vehicle_walk af stops v rem start)"
      "vp_stops vp = w_preds (vehicle_walk af stops v rem start)"
      "vp_vehicle_capacity vp = vs_capacity v"
      by (rule simulate_vehicle_SomeD)
    have "length rem1 = length stops"
      using simulate_vehicle_length [OF 2(2)] Cons.prems(2) by simp
    then have IH: "0 < rem1 ! i" "\<forall>vp \<in> set vps1. \<forall>p \<in> set (vp_stops vp).
        sp_stop_sequence p = ss_sequence (stops ! i) \<longrightarrow> vp_vehicle_capacity vp \<le> sp_predicted_passengers p"
      using Cons.IH [OF 2(1)] Cons.prems(3) by auto
    note walk = walk_leaves [OF assms(2) Cons.prems(2) assms(4) _ refl,
        of "length stops - 1" af "vs_capacity v" "vs_passenger_count v" start]
    have left: "0 < w_remaining (walk af (vs_capacity v) stops (vs_passenger_count v) rem start
        (length stops - 1)) ! i"
      using IH(1) w(1) by (simp add: vehicle_walk_def)
    show ?thesis
      using walk(1) [OF _ left] walk(2) [OF _ left] IH(2) w(2,3) 2(3) by (auto simp: vehicle_walk_def)
  qed
qed simp

text \<open>Every prediction of a run comes from one vehicle of the list and a nonnegative array.\<close>

lemma simulate_vehicle_nonneg:
  assumes "simulate_vehicle af stops v rem = (o1, rem1)" "0 \<le> af" "0 \<le> vs_passenger_count v"
    "length rem = length stops" "\<forall>x \<in> set rem. 0 \<le> x"
  shows "\<forall>x \<in> set rem1. 0 \<le> x"
proof (cases o1)
  case None
  then show ?thesis using assms simulate_vehicle_None by blast
next
  case (Some vp)
  with assms(1) obtain start where "0 < vs_capacity v" "rem1 = w_remaining (vehicle_walk af stops v rem start)"
    by (blast elim: simulate_vehicle_SomeD)
  then show ?thesis
    using walk_bounds(1) [of af "length stops - 1" rem "vs_capacity v"] assms by (simp add: vehicle_walk_def)
qed

lemma simulate_origin:
  assumes "simulate af stops vs rem = (vps, rem')" "0 \<le> af" "\<forall>v \<in> set vs. 0 \<le> vs_passenger_count v"
    "length rem = length stops" "\<forall>x \<in> set rem. 0 \<le> x" "vp \<in> set vps"
  shows "\<exists>v \<in> set vs. \<exists>rem0 rem1. length rem0 = length stops \<and> (\<forall>x \<in> set rem0. 0 \<le> x) \<and>
    simulate_vehicle af stops v rem0 = (Some vp, rem1)"
  using assms
proof (induction vs arbitrary: rem vps)
  case (Cons v vs)
  from Cons.prems(1) obtain o1 rem1 where v: "simulate_vehicle af stops v rem = (o1, rem1)" by force
  have rem1: "\<forall>x \<in> set rem1. 0 \<le> x" "length rem1 = length stops"
    using simulate_vehicle_nonneg [OF v] simulate_vehicle_length [OF v] Cons.prems by auto
  from Cons.prems(1) show ?case
  proof (cases rule: simulate_step)
    case (1 rem1 vps1)
    then show ?thesis using Cons.IH [OF 1(1)] Cons.prems by auto
  next
    case (2 rem1' vps1 vp')
    then have "rem1' = rem1" using v by simp
    then show ?thesis using Cons.IH [OF 2(1)] Cons.prems rem1 2 by (cases "vp = vp'") auto
  qed
qed simp

text \<open>The k-th prediction's vehicle finds what the earlier ones left.\<close>

lemma simulate_boards:
  assumes "simulate af stops vs rem = (ahead @ vp # behind, rem')" "distinct (map ss_sequence stops)"
    "length rem = length stops" "i < length stops" "p \<in> set (vp_stops vp)"
    "sp_stop_sequence p = ss_sequence (stops ! i)"
  shows "boards_by_rule (vp_vehicle_capacity vp)
    (rem ! i - boarded_at (ss_sequence (stops ! i)) (all_stops ahead)) p"
  using assms(1,3)
proof (induction vs arbitrary: rem ahead)
  case (Cons v vs)
  from Cons.prems(1) show ?case
  proof (cases rule: simulate_step)
    case (1 rem1 vps1)
    then show ?thesis using Cons by simp
  next
    case (2 rem1 vps1 vp')
    from 2(2) obtain start where w:
      "rem1 = w_remaining (vehicle_walk af stops v rem start)"
      "vp_stops vp' = w_preds (vehicle_walk af stops v rem start)"
      "vp_vehicle_capacity vp' = vs_capacity v"
      by (rule simulate_vehicle_SomeD)
    have len: "length rem1 = length stops"
      using simulate_vehicle_length [OF 2(2)] Cons.prems(2) by simp
    show ?thesis
    proof (cases ahead)
      case Nil
      then show ?thesis
        using 2(3) w assms(5)
          walk_boards [OF assms(2,4) _ _ assms(6), of "length stops - 1" af "vs_capacity v"
            "vs_passenger_count v" rem start]
        by (auto simp: vehicle_walk_def)
    next
      case (Cons a ahead')
      then have "vps1 = ahead' @ vp # behind" "a = vp'" using 2(3) by auto
      moreover have "rem1 ! i + boarded_at (ss_sequence (stops ! i)) (vp_stops vp') = rem ! i"
        using walk_conserves [OF assms(2) Cons.prems(2) assms(4) _ refl] w by (simp add: vehicle_walk_def)
      then have "rem ! i - boarded_at (ss_sequence (stops ! i)) (all_stops (vp' # ahead')) =
          rem1 ! i - boarded_at (ss_sequence (stops ! i)) (all_stops ahead')"
        by simp
      ultimately show ?thesis
        using Cons.IH [of rem1 ahead'] 2(1) len \<open>ahead = _\<close> by metis
    qed
  qed
qed simp

lemma simulate_vehicles:
  assumes "simulate af stops vs rem = (vps, rem')" "distinct (map ss_sequence stops)"
  shows "map vp_vehicle_id vps = map vs_vehicle_id (filter (served stops) vs)"
  using assms(1)
proof (induction vs arbitrary: rem vps)
  case (Cons v vs)
  from Cons.prems(1) show ?case
  proof (cases rule: simulate_step)
    case (1 rem1 vps1)
    then have "\<not> served stops v" using simulate_vehicle_served [OF assms(2), of v af rem] by auto
    then show ?thesis using 1 Cons.IH [OF 1(1)] by simp
  next
    case (2 rem1 vps1 vp)
    then have "served stops v" using simulate_vehicle_served_iff [OF assms(2), of af v rem] by simp
    moreover have "vp_vehicle_id vp = vs_vehicle_id v" using 2(2) by (blast elim: simulate_vehicle_SomeD)
    ultimately show ?thesis using 2 Cons.IH [OF 2(1)] by simp
  qed
qed simp

subsection \<open>The stranded passengers\<close>

lemma walk_keeps_nonneg:
  "b \<le> length rem \<Longrightarrow> \<forall>x \<in> set rem. 0 \<le> x \<Longrightarrow>
    \<forall>x \<in> set (w_remaining (walk af c stops l rem a b)). 0 \<le> x"
  by (rule walk_invariant [where P = "\<lambda>w. \<forall>x \<in> set (w_remaining w). 0 \<le> x"])
    (auto simp: walk_stop_def Let_def dest!: subsetD [OF set_update_subset_insert])

lemma simulate_keeps_nonneg:
  "simulate af stops vs rem = (vps, rem') \<Longrightarrow> length rem = length stops \<Longrightarrow>
    \<forall>x \<in> set rem. 0 \<le> x \<Longrightarrow> \<forall>x \<in> set rem'. 0 \<le> x"
proof (induction vs arbitrary: rem vps)
  case (Cons v vs)
  from Cons.prems(1) show ?case
  proof (cases rule: simulate_step)
    case (1 rem1 vps1)
    then show ?thesis using Cons by simp
  next
    case (2 rem1 vps1 vp)
    from 2(2) obtain start where "rem1 = w_remaining (vehicle_walk af stops v rem start)"
      by (rule simulate_vehicle_SomeD)
    then have "\<forall>x \<in> set rem1. 0 \<le> x"
      using Cons.prems walk_keeps_nonneg [of "length stops - 1" rem] by (simp add: vehicle_walk_def)
    then show ?thesis using Cons.IH [OF 2(1)] simulate_vehicle_length [OF 2(2)] Cons.prems(2) by simp
  qed
qed simp

lemma stranded_lookup:
  assumes "distinct (map ss_stop_id stops)" "length rem = length stops" "i < length stops"
  shows "dict_get (stranded_at stops rem) (ss_stop_id (stops ! i)) = (if 0 < rem ! i then Some (rem ! i) else None)"
proof -
  define kvs where "kvs = map (\<lambda>(i, count). (ss_stop_id (stops ! i), count))
    (filter (\<lambda>(i, count). 0 < count) (enumerate 0 rem))"
  have inj: "ss_stop_id (stops ! j) = ss_stop_id (stops ! i) \<longleftrightarrow> j = i" if "j < length stops" "i < length stops" for i j
    using nth_eq_iff_index_eq [OF assms(1), of j i] that by simp
  have mem: "(ss_stop_id (stops ! i), n) \<in> set (rev kvs) \<longleftrightarrow> n = rem ! i \<and> 0 < n" for n
    using assms(2,3) inj [OF _ assms(3)] by (force simp: kvs_def in_set_enumerate_eq image_iff)
  have "distinct (map fst (enumerate 0 rem))" by simp
  have "inj_on (\<lambda>x. ss_stop_id (stops ! fst x)) (set (enumerate 0 rem))"
    using inj assms(2) by (auto simp: inj_on_def in_set_enumerate_eq)
  then have "inj_on (\<lambda>x. ss_stop_id (stops ! fst x)) (set (filter (\<lambda>x. 0 < snd x) (enumerate 0 rem)))"
    by (rule inj_on_subset) auto
  then have "distinct (map fst (rev kvs))"
    by (simp add: kvs_def distinct_map comp_def case_prod_beta distinct_enumerate flip: rev_map)
  then have "dict_get (dict_of kvs) (ss_stop_id (stops ! i)) = Some n \<longleftrightarrow> n = rem ! i \<and> 0 < n" for n
    using mem map_of_eq_Some_iff by (metis dict_of_get)
  then show ?thesis
    by (cases "dict_get (dict_of kvs) (ss_stop_id (stops ! i))") (auto simp: stranded_at_def simp flip: kvs_def)
qed

lemma stranded_keys:
  assumes "length rem = length stops" "dict_get (stranded_at stops rem) k = Some n"
  shows "\<exists>i < length stops. k = ss_stop_id (stops ! i) \<and> n = rem ! i \<and> 0 < n"
proof -
  have "(k, n) \<in> set (map (\<lambda>(i, count). (ss_stop_id (stops ! i), count))
      (filter (\<lambda>(i, count). 0 < count) (enumerate 0 rem)))"
    using assms(2) map_of_SomeD by (fastforce simp: stranded_at_def dict_of_get)
  then show ?thesis using assms(1) by (auto simp: in_set_enumerate_eq)
qed

subsection \<open>The whole route\<close>

lemma predict_route_Inr:
  assumes "predict_route config s f = Inr r" "1 < length (rs_stops s)"
  obtains remaining where
    "\<forall>v \<in> set (rs_vehicles s). vs_current_stop_sequence v \<noteq> None"
    "simulate (case f of Some f \<Rightarrow> f | None \<Rightarrow> pc_alighting_fraction config) (rs_stops s)
       (sort_key vehicle_key (rs_vehicles s)) (initial_remaining (rs_stops s)) =
     (rp_vehicle_predictions r, remaining)"
    "rp_stranded_at_stops r = stranded_at (rs_stops s) remaining"
    "rp_route_id r = rs_route_id s" "rp_direction_id r = rs_direction_id s"
  using assms
  by (cases "simulate (case f of Some f \<Rightarrow> f | None \<Rightarrow> pc_alighting_fraction config) (rs_stops s)
       (sort_key vehicle_key (rs_vehicles s)) (initial_remaining (rs_stops s))")
    (auto simp: predict_route_def sorted_vehicles_def Let_def split: if_splits)

lemma initial_remaining_length [simp]: "length (initial_remaining stops) = length stops"
  by (simp add: initial_remaining_def)

lemma initial_remaining_nth [simp]: "i < length stops \<Longrightarrow> initial_remaining stops ! i = waiting_of (stops ! i)"
  by (simp add: initial_remaining_def)

lemma wf_initial_nonneg: "wf_snapshot s \<Longrightarrow> \<forall>x \<in> set (initial_remaining (rs_stops s)). 0 \<le> x"
  by (auto simp: wf_snapshot_def initial_remaining_def waiting_of_def list_all_iff split: option.splits)

lemma wf_distinct: "wf_snapshot s \<Longrightarrow> distinct (map ss_sequence (rs_stops s))"
  by (simp add: wf_snapshot_def)

lemma predict_route_short:
  "predict_route config s f = Inr r \<Longrightarrow> length (rs_stops s) \<le> 1 \<Longrightarrow>
    rp_vehicle_predictions r = [] \<and> rp_stranded_at_stops r = []"
  by (auto simp: predict_route_def)

subsection \<open>Journeys and well-formed results\<close>

definition journey_ok :: "stop_state list \<Rightarrow> vehicle_snapshot \<Rightarrow> vehicle_prediction \<Rightarrow> bool" where
  "journey_ok stops v vp \<longleftrightarrow>
     vp_vehicle_id vp = vs_vehicle_id v \<and> vp_vehicle_capacity vp = vs_capacity v \<and>
     (\<exists>start < length stops - 1.
        vs_current_stop_sequence v = Some (ss_sequence (stops ! start)) \<and>
        map sp_stop_id (vp_stops vp) = map ss_stop_id (drop start (butlast stops)) \<and>
        map sp_stop_sequence (vp_stops vp) = map ss_sequence (drop start (butlast stops)) \<and>
        map sp_has_data (vp_stops vp) = map (\<lambda>s. ss_people_waiting s \<noteq> None) (drop start (butlast stops))) \<and>
     flow_ok (vs_passenger_count v) (vp_stops vp) \<and>
     wf_vehicle_prediction vp \<and>
     vp_confidence vp = py_truediv (int (length (filter sp_has_data (vp_stops vp)))) (int (length (vp_stops vp))) \<and>
     0 \<le> vp_confidence vp \<and> vp_confidence vp \<le> 1"

lemma drop_butlast_upt: "map (\<lambda>i. f (stops ! i)) [a..<length stops - 1] = map f (drop a (butlast stops))"
  by (rule nth_equalityI) (simp_all add: nth_butlast)

lemma has_data_butlast:
  "map (\<lambda>i. has_data stops ! i) [a..<length stops - 1] =
     map (\<lambda>s. ss_people_waiting s \<noteq> None) (drop a (butlast stops))"
  by (rule nth_equalityI) (simp_all add: nth_butlast has_data_def)

lemma simulate_vehicle_journey:
  assumes "simulate_vehicle af stops v rem = (Some vp, rem')"
  shows "journey_ok stops v vp"
  using assms
proof (rule simulate_vehicle_SomeD, goal_cases)
  case (1 start)
  note w = walk_stops [of af "vs_capacity v" stops "vs_passenger_count v" rem start "length stops - 1"]
  have "map sp_stop_id (vp_stops vp) = map ss_stop_id (drop start (butlast stops))"
    "map sp_stop_sequence (vp_stops vp) = map ss_sequence (drop start (butlast stops))"
    using arg_cong [OF w, of "map fst"] arg_cong [OF w, of "map (fst \<circ> snd)"] 1(5)
    by (simp_all add: vehicle_walk_def comp_def drop_butlast_upt [symmetric])
  moreover have "map sp_has_data (vp_stops vp) = map (\<lambda>i. has_data stops ! i) [start..<length stops - 1]"
    using arg_cong [OF w, of "map (snd \<circ> snd \<circ> snd)"] 1(5) by (simp add: vehicle_walk_def comp_def)
  then have "map sp_has_data (vp_stops vp) = map (\<lambda>s. ss_people_waiting s \<noteq> None) (drop start (butlast stops))"
    by (simp only: has_data_butlast)
  moreover have "length (filter sp_has_data (vp_stops vp)) \<le> length (vp_stops vp)" by simp
  ultimately show ?case
    using 1 walk_flow py_truediv_fraction [of "int (length (filter sp_has_data (vp_stops vp)))" "int (length (vp_stops vp))"]
    unfolding journey_ok_def by (auto simp: vehicle_walk_def)
qed

lemma simulate_journeys:
  "simulate af stops vs rem = (vps, rem') \<Longrightarrow> vp \<in> set vps \<Longrightarrow> \<exists>v \<in> set vs. journey_ok stops v vp"
proof (induction vs arbitrary: rem vps)
  case (Cons v vs)
  from Cons.prems(1) show ?case
    by (cases rule: simulate_step) (use Cons simulate_vehicle_journey in \<open>auto 4 4\<close>)
qed simp

text \<open>What the evaluator relies on.\<close>

lemma predict_route_wf:
  assumes "predict_route config s f = Inr r"
  shows "wf_result r"
proof (cases "1 < length (rs_stops s)")
  case True
  from assms True show ?thesis
    by (rule predict_route_Inr) (auto simp: wf_result_def list_all_iff journey_ok_def dest!: simulate_journeys)
next
  case False
  then show ?thesis using assms predict_route_short by (fastforce simp: wf_result_def)
qed

lemma predict_route_journey:
  assumes "predict_route config s f = Inr r" "vp \<in> set (rp_vehicle_predictions r)"
  shows "\<exists>v \<in> set (rs_vehicles s). journey_ok (rs_stops s) v vp"
proof (cases "1 < length (rs_stops s)")
  case True
  from assms(1) True show ?thesis
  proof (rule predict_route_Inr, goal_cases)
    case (1 remaining)
    show ?thesis using simulate_journeys [OF 1(2) assms(2)] by simp
  qed
next
  case False
  then show ?thesis using assms predict_route_short by fastforce
qed

lemma predict_route_ids:
  "predict_route config s f = Inr r \<Longrightarrow> rp_route_id r = rs_route_id s \<and> rp_direction_id r = rs_direction_id s"
  by (auto simp: predict_route_def Let_def bind_result_def split: if_splits prod.splits sum.splits)

end
