(* ===== verification/Engine_Properties.thy ===== *)
theory Engine_Properties
  imports Engine
begin

text \<open>
  The properties of the prediction engine, over whole calls of \<open>predict_route\<close>, and
  their witnesses on a route of four stops with two vehicles.
\<close>

text \<open>A route of four stops and two vehicles, the concrete input of the witnesses.\<close>

definition example_snapshot :: route_snapshot where
  "example_snapshot =
     \<lparr>rs_route_id = ''r1'', rs_direction_id = 0,
      rs_stops =
        [\<lparr>ss_stop_id = ''a'', ss_sequence = 1, ss_people_waiting = Some 7\<rparr>,
         \<lparr>ss_stop_id = ''b'', ss_sequence = 2, ss_people_waiting = Some 9\<rparr>,
         \<lparr>ss_stop_id = ''c'', ss_sequence = 3, ss_people_waiting = None\<rparr>,
         \<lparr>ss_stop_id = ''d'', ss_sequence = 4, ss_people_waiting = Some 2\<rparr>],
      rs_vehicles =
        [\<lparr>vs_vehicle_id = ''v1'', vs_route_id = ''r1'', vs_capacity = 10,
          vs_current_stop_sequence = Some 1, vs_passenger_count = 0\<rparr>,
         \<lparr>vs_vehicle_id = ''v2'', vs_route_id = ''r1'', vs_capacity = 5,
          vs_current_stop_sequence = Some 2, vs_passenger_count = 1\<rparr>]\<rparr>"

definition example_result :: route_prediction_result where
  "example_result =
     \<lparr>rp_route_id = ''r1'', rp_direction_id = 0,
      rp_vehicle_predictions =
        [\<lparr>vp_vehicle_id = ''v2'', vp_route_id = ''r1'', vp_vehicle_capacity = 5,
          vp_stops =
            [\<lparr>sp_stop_id = ''b'', sp_stop_sequence = 2, sp_predicted_passengers = 5, sp_boarded = 4,
              sp_alighted = 0, sp_people_waiting_at_stop = Some 9, sp_has_data = True\<rparr>,
             \<lparr>sp_stop_id = ''c'', sp_stop_sequence = 3, sp_predicted_passengers = 3, sp_boarded = 0,
              sp_alighted = 2, sp_people_waiting_at_stop = None, sp_has_data = False\<rparr>],
          vp_peak_load = 5, vp_peak_occupancy_pct = 1, vp_confidence = 1 / 2\<rparr>,
         \<lparr>vp_vehicle_id = ''v1'', vp_route_id = ''r1'', vp_vehicle_capacity = 10,
          vp_stops =
            [\<lparr>sp_stop_id = ''a'', sp_stop_sequence = 1, sp_predicted_passengers = 7, sp_boarded = 7,
              sp_alighted = 0, sp_people_waiting_at_stop = Some 7, sp_has_data = True\<rparr>,
             \<lparr>sp_stop_id = ''b'', sp_stop_sequence = 2, sp_predicted_passengers = 8, sp_boarded = 5,
              sp_alighted = 4, sp_people_waiting_at_stop = Some 9, sp_has_data = True\<rparr>,
             \<lparr>sp_stop_id = ''c'', sp_stop_sequence = 3, sp_predicted_passengers = 4, sp_boarded = 0,
              sp_alighted = 4, sp_people_waiting_at_stop = None, sp_has_data = False\<rparr>],
          vp_peak_load = 8, vp_peak_occupancy_pct = 3602879701896397 / 4503599627370496,
          vp_confidence = 6004799503160661 / 9007199254740992\<rparr>],
      rp_stranded_at_stops = [(''d'', 2)]\<rparr>"

lemma example_wf: "wf_snapshot example_snapshot"
  by (simp add: wf_snapshot_def example_snapshot_def)

lemma upt_examples: "[Suc 0..<3] = [1, 2]" "[0..<3] = [0, 1, 2]"
  by code_simp+

lemma example_walk_v2:
  "walk (1 / 2) 5 (rs_stops example_snapshot) 1 [7, 9, 0, 2] (Suc 0) 3 =
    \<lparr>w_load = 3, w_remaining = [7, 5, 0, 2],
     w_preds = vp_stops (rp_vehicle_predictions example_result ! 0), w_with_data = 1, w_total = 2\<rparr>"
  by (simp add: walk_def walk_stop_def example_snapshot_def example_result_def has_data_def fop_eval
      Let_def upt_examples)

lemma example_walk_v1:
  "walk (1 / 2) 10 (rs_stops example_snapshot) 0 [7, 5, 0, 2] 0 3 =
    \<lparr>w_load = 4, w_remaining = [0, 0, 0, 2],
     w_preds = vp_stops (rp_vehicle_predictions example_result ! 1), w_with_data = 2, w_total = 3\<rparr>"
  by (simp add: walk_def walk_stop_def example_snapshot_def example_result_def has_data_def fop_eval
      Let_def upt_examples)

lemma example_prediction:
  "predict_route default_prediction_config example_snapshot (Some (1 / 2)) = Inr example_result"
proof -
  have sorted: "sorted_vehicles (rs_vehicles example_snapshot) = Inr (rev (rs_vehicles example_snapshot))"
    by (simp add: sorted_vehicles_def example_snapshot_def vehicle_key_def less_prod_def)
  have idx: "seq_to_idx (rs_stops example_snapshot) = [(1, 0), (2, 1), (3, 2), (4, 3)]"
    by (simp add: example_snapshot_def seq_to_idx_def dict_of_def)
  have start: "initial_remaining (rs_stops example_snapshot) = [7, 9, 0, 2]"
    by (simp add: example_snapshot_def initial_remaining_def waiting_of_def)
  have len: "length (rs_stops example_snapshot) = 4"
    by (simp add: example_snapshot_def)
  have stranded: "stranded_at (rs_stops example_snapshot) [0, 0, 0, 2] = [(''d'', 2)]"
    by (simp add: stranded_at_def example_snapshot_def dict_of_def)
  have sim: "simulate (1 / 2) (rs_stops example_snapshot) (rev (rs_vehicles example_snapshot)) [7, 9, 0, 2] =
    (rp_vehicle_predictions example_result, [0, 0, 0, 2])"
    by (simp add: example_snapshot_def [THEN arg_cong, of rs_vehicles] simulate_vehicle_def idx dict_get_def
        len example_walk_v2 example_walk_v1 example_result_def fop_eval Let_def)
  show ?thesis
    by (simp add: predict_route_def sorted start len sim stranded Let_def)
      (simp add: example_snapshot_def example_result_def)
qed

text \<open>
  C26: the result is determined by the vehicles as a set, not by the order in which the
  snapshot lists them, when no two vehicles share position and id.
\<close>

theorem engine_order_independent:
  assumes "mset vs = mset (rs_vehicles s)" "inj_on vehicle_key (set vs)"
  shows "predict_route config (s\<lparr>rs_vehicles := vs\<rparr>) f = predict_route config s f"
proof -
  have "set vs = set (rs_vehicles s)" using assms(1) by (metis set_mset_mset)
  moreover have "sort_key vehicle_key vs = sort_key vehicle_key (rs_vehicles s)"
    by (rule sort_key_perm [OF assms])
  ultimately have "sorted_vehicles vs = sorted_vehicles (rs_vehicles s)"
    by (simp add: sorted_vehicles_def)
  then show ?thesis by (simp add: predict_route_def Let_def)
qed

theorem engine_order_independent_witness:
  "predict_route default_prediction_config
     (example_snapshot\<lparr>rs_vehicles := rev (rs_vehicles example_snapshot)\<rparr>) (Some (1 / 2)) = Inr example_result"
  using engine_order_independent [of "rev (rs_vehicles example_snapshot)" example_snapshot
      default_prediction_config "Some (1 / 2)"] example_prediction
  by (simp add: inj_on_def vehicle_key_def) (simp add: example_snapshot_def)

text \<open>What is reported as stranded is what the vehicles left.\<close>

lemma stranded_value:
  assumes "wf_snapshot s" "distinct (map ss_stop_id (rs_stops s))" "1 < length (rs_stops s)"
    "predict_route config s f = Inr r" "st \<in> set (rs_stops s)"
    and left: "left = waiting_of st - boarded_at (ss_sequence st) (all_stops (rp_vehicle_predictions r))"
  shows "0 \<le> left" "dict_get (rp_stranded_at_stops r) (ss_stop_id st) = (if 0 < left then Some left else None)"
proof -
  obtain i where i: "i < length (rs_stops s)" "st = rs_stops s ! i"
    using assms(5) by (auto simp: in_set_conv_nth)
  from assms(4,3) have "0 \<le> left \<and> dict_get (rp_stranded_at_stops r) (ss_stop_id st) = (if 0 < left then Some left else None)"
  proof (rule predict_route_Inr, goal_cases)
    case (1 remaining)
    have len: "length remaining = length (rs_stops s)" using simulate_length [OF 1(2)] by simp
    have "\<forall>x \<in> set remaining. 0 \<le> x"
      using simulate_keeps_nonneg [OF 1(2)] wf_initial_nonneg [OF assms(1)] by simp
    then have "0 \<le> remaining ! i" using i len by simp
    moreover have "remaining ! i + boarded_at (ss_sequence st) (all_stops (rp_vehicle_predictions r)) = waiting_of st"
      using simulate_conserves [OF 1(2) wf_distinct [OF assms(1)] _ i(1)] i by simp
    ultimately show ?case
      using stranded_lookup [OF assms(2) len i(1)] 1(3) i left by auto
  qed
  then show "0 \<le> left" "dict_get (rp_stranded_at_stops r) (ss_stop_id st) = (if 0 < left then Some left else None)"
    by blast+
qed

text \<open>
  C1: conservation of passengers.  On a route of at least two stops with different ids, for
  every stop, the people waiting there in the snapshot are exactly those that boarded some
  predicted vehicle there plus those reported as stranded.  A route of a single stop is not
  simulated: no vehicle is predicted, and nobody is reported as stranded, whoever waits there.
\<close>

theorem engine_conserves_passengers:
  assumes "wf_snapshot s" "distinct (map ss_stop_id (rs_stops s))" "predict_route config s f = Inr r" "st \<in> set (rs_stops s)"
  shows "(1 < length (rs_stops s) \<longrightarrow>
      waiting_of st = boarded_at (ss_sequence st) (all_stops (rp_vehicle_predictions r)) +
        (case dict_get (rp_stranded_at_stops r) (ss_stop_id st) of None \<Rightarrow> 0 | Some n \<Rightarrow> n)) \<and>
    (length (rs_stops s) = 1 \<longrightarrow> rp_vehicle_predictions r = [] \<and> rp_stranded_at_stops r = [])"
proof (rule conjI; rule impI)
  assume "1 < length (rs_stops s)"
  from stranded_value [OF assms(1,2) this assms(3,4) refl]
  show "waiting_of st = boarded_at (ss_sequence st) (all_stops (rp_vehicle_predictions r)) +
      (case dict_get (rp_stranded_at_stops r) (ss_stop_id st) of None \<Rightarrow> 0 | Some n \<Rightarrow> n)" by simp
next
  assume "length (rs_stops s) = 1"
  then show "rp_vehicle_predictions r = [] \<and> rp_stranded_at_stops r = []" using predict_route_short [OF assms(3)] by simp
qed

theorem engine_conserves_passengers_witness:
  "waiting_of (rs_stops example_snapshot ! 1) = 9 \<and>
   boarded_at 2 (all_stops (rp_vehicle_predictions example_result)) = 9"
  using engine_conserves_passengers [OF example_wf _ example_prediction, of "rs_stops example_snapshot ! 1"]
  by (simp add: example_snapshot_def example_result_def dict_get_def waiting_of_def)

lemma capacity_bounds:
  assumes "wf_snapshot s" "\<forall>v \<in> set (rs_vehicles s). vs_passenger_count v \<le> vs_capacity v"
    "0 \<le> (case f of Some f \<Rightarrow> f | None \<Rightarrow> pc_alighting_fraction config)"
    "predict_route config s f = Inr r" "vp \<in> set (rp_vehicle_predictions r)"
  shows "(\<forall>p \<in> set (vp_stops vp). pred_bounds (vp_vehicle_capacity vp) p) \<and>
    0 \<le> vp_peak_occupancy_pct vp \<and> vp_peak_occupancy_pct vp \<le> 1"
proof (cases "1 < length (rs_stops s)")
  case True
  from assms(4) True show ?thesis
  proof (rule predict_route_Inr, goal_cases)
    case (1 remaining)
    have "\<forall>v \<in> set (sort_key vehicle_key (rs_vehicles s)). 0 \<le> vs_passenger_count v"
      using assms(1) by (simp add: wf_snapshot_def list_all_iff)
    from simulate_origin [OF 1(2) assms(3) this _ wf_initial_nonneg [OF assms(1)] assms(5)]
    obtain v rem0 rem1 where v: "v \<in> set (rs_vehicles s)" "length rem0 = length (rs_stops s)"
      "\<forall>x \<in> set rem0. 0 \<le> x" and sim: "simulate_vehicle
        (case f of Some f \<Rightarrow> f | None \<Rightarrow> pc_alighting_fraction config) (rs_stops s) v rem0 = (Some vp, rem1)"
      by auto
    have pc: "0 \<le> vs_passenger_count v" "vs_passenger_count v \<le> vs_capacity v"
      using v(1) assms(1,2) by (auto simp: wf_snapshot_def list_all_iff)
    from sim have b: "\<forall>p \<in> set (vp_stops vp). pred_bounds (vp_vehicle_capacity vp) p" and wf: "wf_vehicle_prediction vp"
      using walk_bounds(2) [OF assms(3), of "length (rs_stops s) - 1" rem0 "vs_capacity v" "vs_passenger_count v"] v pc
      by (auto elim!: simulate_vehicle_SomeD simp: vehicle_walk_def max_def)
    then have "0 \<le> vp_peak_load vp \<and> vp_peak_load vp \<le> vp_vehicle_capacity vp"
      by (auto simp: wf_vehicle_prediction_def pred_bounds_def)
    then show ?thesis using b wf py_truediv_fraction [of "vp_peak_load vp" "vp_vehicle_capacity vp"]
      by (simp add: wf_vehicle_prediction_def)
  qed
next
  case False
  then show ?thesis using assms(4,5) predict_route_short by fastforce
qed

text \<open>
  C25: with a nonnegative alighting fraction no count of people in a prediction is
  negative, and a vehicle that does not start overfull never carries more than its
  capacity; its peak occupancy is then a fraction between 0 and 1.
\<close>

theorem engine_within_capacity:
  assumes "wf_snapshot s" "\<forall>v \<in> set (rs_vehicles s). vs_passenger_count v \<le> vs_capacity v"
    "0 \<le> (case f of Some f \<Rightarrow> f | None \<Rightarrow> pc_alighting_fraction config)"
    "predict_route config s f = Inr r" "vp \<in> set (rp_vehicle_predictions r)"
  shows "(\<forall>p \<in> set (vp_stops vp). pred_bounds (vp_vehicle_capacity vp) p) \<and>
    0 \<le> vp_peak_occupancy_pct vp \<and> vp_peak_occupancy_pct vp \<le> 1"
  using assms by (rule capacity_bounds)

theorem engine_within_capacity_witness:
  "vp_peak_occupancy_pct (rp_vehicle_predictions example_result ! 1) \<le> 1"
  using engine_within_capacity [OF example_wf _ _ example_prediction, of "rp_vehicle_predictions example_result ! 1"]
  by (simp add: example_snapshot_def) (simp add: example_result_def)

text \<open>
  C2: the shared array implements the rule "what the vehicles ahead left, up to the free
  places".  If \<open>ahead\<close> are the vehicles simulated before \<open>vp\<close>, then at every stop the
  number boarding \<open>vp\<close> is the minimum of the people not taken by \<open>ahead\<close> and the places
  free after alighting, although the code never looks at the vehicles ahead.
\<close>

theorem engine_boards_what_is_left:
  assumes "wf_snapshot s" "predict_route config s f = Inr r"
    "rp_vehicle_predictions r = ahead @ vp # behind" "p \<in> set (vp_stops vp)"
    "st \<in> set (rs_stops s)" "sp_stop_sequence p = ss_sequence st"
  shows "sp_boarded p =
    min (waiting_of st - boarded_at (ss_sequence st) (all_stops ahead))
      (max 0 (vp_vehicle_capacity vp - (sp_predicted_passengers p - sp_boarded p)))"
proof (cases "1 < length (rs_stops s)")
  case True
  obtain i where i: "i < length (rs_stops s)" "st = rs_stops s ! i"
    using assms(5) by (auto simp: in_set_conv_nth)
  from assms(2) True show ?thesis
  proof (rule predict_route_Inr, goal_cases)
    case (1 remaining)
    have "boards_by_rule (vp_vehicle_capacity vp)
        (initial_remaining (rs_stops s) ! i - boarded_at (ss_sequence (rs_stops s ! i)) (all_stops ahead)) p"
      by (rule simulate_boards [OF _ wf_distinct [OF assms(1)] _ i(1) assms(4)])
        (use 1(2) assms(3,6) i in simp_all)
    then show ?thesis using i by (simp add: boards_by_rule_def)
  qed
next
  case False
  then show ?thesis using assms(2,3) predict_route_short by fastforce
qed

theorem engine_boards_what_is_left_witness:
  "sp_boarded (vp_stops (rp_vehicle_predictions example_result ! 1) ! 1) = min (9 - 4) (max 0 (10 - 3))"
  using engine_boards_what_is_left [OF example_wf example_prediction,
      of "[rp_vehicle_predictions example_result ! 0]" "rp_vehicle_predictions example_result ! 1" "[]"
        "vp_stops (rp_vehicle_predictions example_result ! 1) ! 1" "rs_stops example_snapshot ! 1"]
  by (simp add: example_snapshot_def example_result_def waiting_of_def)

text \<open>
  Nobody is stranded needlessly.  If people are reported as stranded at a stop, every
  predicted vehicle that calls there leaves it full.
\<close>

theorem engine_stranded_only_if_full:
  assumes "wf_snapshot s" "distinct (map ss_stop_id (rs_stops s))" "1 < length (rs_stops s)"
    "predict_route config s f = Inr r"
    "dict_get (rp_stranded_at_stops r) (ss_stop_id st) \<noteq> None" "st \<in> set (rs_stops s)"
    "vp \<in> set (rp_vehicle_predictions r)" "p \<in> set (vp_stops vp)" "sp_stop_sequence p = ss_sequence st"
  shows "vp_vehicle_capacity vp \<le> sp_predicted_passengers p"
proof -
  obtain i where i: "i < length (rs_stops s)" "st = rs_stops s ! i"
    using assms(6) by (auto simp: in_set_conv_nth)
  from assms(4,3) show ?thesis
  proof (rule predict_route_Inr, goal_cases)
    case (1 remaining)
    have "length remaining = length (rs_stops s)" using simulate_length [OF 1(2)] by simp
    then have "0 < remaining ! i"
      using stranded_lookup [OF assms(2) _ i(1)] 1(3) assms(5) i by (auto split: if_splits)
    then show ?thesis
      using simulate_leaves [OF 1(2) wf_distinct [OF assms(1)] _ i(1)] assms(7-9) i by simp
  qed
qed

theorem engine_stranded_only_if_full_witness:
  "\<exists>r. predict_route default_prediction_config
     (example_snapshot\<lparr>rs_vehicles := [hd (rs_vehicles example_snapshot)\<lparr>vs_capacity := 3\<rparr>]\<rparr>) (Some 0) = Inr r \<and>
     dict_get (rp_stranded_at_stops r) ''a'' = Some 4 \<and>
     3 \<le> sp_predicted_passengers (hd (vp_stops (hd (rp_vehicle_predictions r))))"
proof -
  let ?s = "example_snapshot\<lparr>rs_vehicles := [hd (rs_vehicles example_snapshot)\<lparr>vs_capacity := 3\<rparr>]\<rparr>"
  have "\<exists>r. predict_route default_prediction_config ?s (Some 0) = Inr r \<and>
      dict_get (rp_stranded_at_stops r) ''a'' = Some 4 \<and> rp_vehicle_predictions r \<noteq> [] \<and>
      vp_stops (hd (rp_vehicle_predictions r)) \<noteq> [] \<and>
      sp_stop_sequence (hd (vp_stops (hd (rp_vehicle_predictions r)))) = 1 \<and>
      vp_vehicle_capacity (hd (rp_vehicle_predictions r)) = 3"
    by (simp add: predict_route_def example_snapshot_def sorted_vehicles_def
        initial_remaining_def waiting_of_def simulate_vehicle_def seq_to_idx_def dict_of_def dict_get_def
        walk_def walk_stop_def has_data_def stranded_at_def upt_examples fop_eval Let_def)
  then obtain r where r: "predict_route default_prediction_config ?s (Some 0) = Inr r"
      "dict_get (rp_stranded_at_stops r) ''a'' = Some 4" "rp_vehicle_predictions r \<noteq> []"
      "vp_stops (hd (rp_vehicle_predictions r)) \<noteq> []"
      "sp_stop_sequence (hd (vp_stops (hd (rp_vehicle_predictions r)))) = 1"
      "vp_vehicle_capacity (hd (rp_vehicle_predictions r)) = 3"
    by blast
  have "vp_vehicle_capacity (hd (rp_vehicle_predictions r)) \<le>
      sp_predicted_passengers (hd (vp_stops (hd (rp_vehicle_predictions r))))"
    by (rule engine_stranded_only_if_full [OF _ _ _ r(1), where st = "hd (rs_stops ?s)"])
      (use r in \<open>simp_all add: example_snapshot_def wf_snapshot_def\<close>)
  then show ?thesis using r by auto
qed

text \<open>
  Exactly the vehicles with a positive capacity whose next stop is on the route before
  its terminus get a prediction, furthest ahead first, ties broken by vehicle id; the
  result is in order of that simulation.
\<close>

theorem engine_predicts_served_vehicles:
  assumes "wf_snapshot s" "1 < length (rs_stops s)" "predict_route config s f = Inr r"
  shows "map vp_vehicle_id (rp_vehicle_predictions r) =
    map vs_vehicle_id (filter (served (rs_stops s)) (sort_key vehicle_key (rs_vehicles s)))"
  using assms(3,2)
proof (rule predict_route_Inr, goal_cases)
  case (1 remaining)
  show ?case by (rule simulate_vehicles [OF 1(2) wf_distinct [OF assms(1)]])
qed

theorem engine_predicts_served_vehicles_witness:
  "map vs_vehicle_id (filter (served (rs_stops example_snapshot))
     (sort_key vehicle_key (rs_vehicles example_snapshot))) = [''v2'', ''v1'']"
proof -
  have "1 < length (rs_stops example_snapshot)" by (simp add: example_snapshot_def)
  note engine_predicts_served_vehicles [OF example_wf this example_prediction]
  moreover have "map vp_vehicle_id (rp_vehicle_predictions example_result) = [''v2'', ''v1'']"
    by (simp add: example_result_def)
  ultimately show ?thesis by simp
qed

text \<open>
  \<open>predict_route\<close> raises nothing but \<open>TypeError\<close>, and raises it exactly when the
  route has more than one stop and some vehicle has no stop sequence.
\<close>

theorem engine_raises_iff:
  "predict_route config s f = Inl e \<longleftrightarrow>
     e = TypeError \<and> 1 < length (rs_stops s) \<and>
     (\<exists>v \<in> set (rs_vehicles s). vs_current_stop_sequence v = None)"
  by (auto simp: predict_route_def sorted_vehicles_def Let_def split: prod.splits)

text \<open>
  C27: every prediction follows its vehicle's remaining journey: it lists the stops from
  the vehicle's next stop to the last one before the terminus in route order, the load
  after each stop is the load before it minus the alighted plus the boarded, the peak is
  the maximum of these loads, and the confidence is the fraction of listed stops with
  data, between 0 and 1.
\<close>

theorem engine_journeys:
  assumes "predict_route config s f = Inr r"
  shows "\<forall>vp \<in> set (rp_vehicle_predictions r). \<exists>v \<in> set (rs_vehicles s). journey_ok (rs_stops s) v vp"
  using predict_route_journey [OF assms] by blast

theorem engine_journeys_witness:
  "vp_confidence (rp_vehicle_predictions example_result ! 0) = py_truediv 1 2"
proof -
  have "rp_vehicle_predictions example_result ! 0 \<in> set (rp_vehicle_predictions example_result)"
    by (simp add: example_result_def)
  then obtain v where "journey_ok (rs_stops example_snapshot) v (rp_vehicle_predictions example_result ! 0)"
    using engine_journeys [OF example_prediction] by blast
  then show ?thesis by (simp add: journey_ok_def) (simp add: example_result_def)
qed


end
