(* ===== verification/Evaluator.thy ===== *)
theory Evaluator
  imports Engine
begin

text \<open>
  \<open>PredictionEngine/evaluator.py\<close>: the alert record, \<open>ThresholdEvaluator\<close> with its two
  triggers, and \<open>EvaluatorRegistry\<close>, which dispatches on the route.  The \<open>Evaluator\<close>
  protocol of the source is the locale \<open>evaluator_protocol\<close>; both classes satisfy it.
  Text is UTF-8 encoded, one \<open>char\<close> per byte.
\<close>

record alert =
  al_route_id :: string
  al_direction_id :: int
  al_vehicle_id :: string
  al_trigger_stop_id :: string
  al_predicted_passengers :: int
  al_vehicle_capacity :: int
  al_predicted_occupancy_pct :: pyfloat
  al_total_stranded :: int
  al_trigger_detail :: "(string, json) dict"
  al_message :: string

record threshold_evaluator =
  te_occupancy_threshold :: pyfloat
  te_min_stranded :: int
  te_min_confidence :: pyfloat

definition default_threshold_evaluator :: threshold_evaluator where
  "default_threshold_evaluator =
     \<lparr>te_occupancy_threshold = fl (9 / 10), te_min_stranded = 5, te_min_confidence = fl (3 / 10)\<rparr>"

subsection \<open>\<open>ThresholdEvaluator.evaluate\<close>\<close>

text \<open>\<open>f"{x:.0%}"\<close>: the double times 100, rounded half to even, with its sign kept.\<close>

definition percent_text :: "pyfloat \<Rightarrow> string" where
  "percent_text x = (if x < 0 then ''-'' else []) @ py_str_int (half_even (fmul \<bar>x\<bar> 100)) @ ''%''"

definition em_dash :: string where
  "em_dash = [CHR 0xE2, CHR 0x80, CHR 0x94]"

definition qualifying :: "threshold_evaluator \<Rightarrow> route_prediction_result \<Rightarrow> vehicle_prediction list" where
  "qualifying self result =
     filter (\<lambda>vp. te_min_confidence self \<le> vp_confidence vp) (rp_vehicle_predictions result)"

definition worst_occupancy_vp ::
    "threshold_evaluator \<Rightarrow> vehicle_prediction list \<Rightarrow> vehicle_prediction option result" where
  "worst_occupancy_vp self q =
     (if q = [] then Inr None
      else bind_result (max_by vp_peak_occupancy_pct q) (\<lambda>vp.
        Inr (if vp_peak_occupancy_pct vp < te_occupancy_threshold self then None else Some vp)))"

definition alert_message :: "route_prediction_result \<Rightarrow> string \<Rightarrow> vehicle_prediction \<Rightarrow> int \<Rightarrow> string" where
  "alert_message result trigger vp total_stranded =
     ''Route '' @ rp_route_id result @ '' dir '' @ py_str_int (rp_direction_id result) @ '': '' @
     trigger @ '' alert '' @ em_dash @ '' vehicle '' @ vp_vehicle_id vp @ '' peak '' @
     percent_text (vp_peak_occupancy_pct vp) @ '' occupancy, '' @
     py_str_int total_stranded @ '' stranded''"

definition evaluate :: "threshold_evaluator \<Rightarrow> route_prediction_result \<Rightarrow> alert option result" where
  "evaluate self result =
     (if rp_vehicle_predictions result = [] then Inr None
      else bind_result (worst_occupancy_vp self (qualifying self result)) (\<lambda>worst.
        let total_stranded = sum_list (dict_values (rp_stranded_at_stops result));
            stranded_triggered = (te_min_stranded self \<le> total_stranded)
        in if worst = None \<and> \<not> stranded_triggered then Inr None
           else
             let trigger = (if worst \<noteq> None \<and> stranded_triggered then ''occupancy_and_stranded''
                            else if worst \<noteq> None then ''occupancy'' else ''stranded'')
             in bind_result
                  (case worst of Some vp \<Rightarrow> Inr vp
                   | None \<Rightarrow> max_by vp_peak_occupancy_pct (rp_vehicle_predictions result)) (\<lambda>alert_vp.
                bind_result (max_by sp_predicted_passengers (vp_stops alert_vp)) (\<lambda>worst_stop.
                  Inr (Some
                    \<lparr>al_route_id = rp_route_id result,
                     al_direction_id = rp_direction_id result,
                     al_vehicle_id = vp_vehicle_id alert_vp,
                     al_trigger_stop_id = sp_stop_id worst_stop,
                     al_predicted_passengers = sp_predicted_passengers worst_stop,
                     al_vehicle_capacity = vp_vehicle_capacity alert_vp,
                     al_predicted_occupancy_pct = vp_peak_occupancy_pct alert_vp,
                     al_total_stranded = total_stranded,
                     al_trigger_detail =
                       [(''trigger'', JStr trigger),
                        (''occupancy_threshold'', JFloat (te_occupancy_threshold self)),
                        (''peak_occupancy'', JFloat (vp_peak_occupancy_pct alert_vp)),
                        (''total_stranded'', JInt total_stranded),
                        (''min_confidence'', JFloat (te_min_confidence self))],
                     al_message = alert_message result trigger alert_vp total_stranded\<rparr>)))))"

subsection \<open>\<open>EvaluatorRegistry\<close>\<close>

text \<open>The evaluators in a registry are any objects; \<open>'e\<close> is their type.\<close>

record 'e evaluator_registry =
  er_default :: 'e
  er_by_route :: "(string, 'e) dict"

definition new_registry :: "'e \<Rightarrow> 'e evaluator_registry" where
  "new_registry default_evaluator = \<lparr>er_default = default_evaluator, er_by_route = []\<rparr>"

definition register :: "'e evaluator_registry \<Rightarrow> string \<Rightarrow> 'e \<Rightarrow> 'e evaluator_registry" where
  "register self route_id evaluator = self\<lparr>er_by_route := dict_set (er_by_route self) route_id evaluator\<rparr>"

definition registry_get :: "'e evaluator_registry \<Rightarrow> string \<Rightarrow> 'e" where
  "registry_get self route_id =
     (case dict_get (er_by_route self) route_id of Some e \<Rightarrow> e | None \<Rightarrow> er_default self)"

definition registry_evaluate ::
    "('e \<Rightarrow> route_prediction_result \<Rightarrow> alert option result) \<Rightarrow>
     'e evaluator_registry \<Rightarrow> route_prediction_result \<Rightarrow> alert option result" where
  "registry_evaluate evaluate_fn self result = evaluate_fn (registry_get self (rp_route_id result)) result"

subsection \<open>The protocol\<close>

text \<open>
  What the supervisor relies on when it calls an evaluator on the engine's results: it
  does not raise, says nothing about a result without predictions, and an alert is about
  the result's route and one of its vehicles.
\<close>

definition alert_about :: "alert \<Rightarrow> route_prediction_result \<Rightarrow> vehicle_prediction \<Rightarrow> bool" where
  "alert_about a r vp \<longleftrightarrow>
     al_route_id a = rp_route_id r \<and> al_direction_id a = rp_direction_id r \<and>
     vp \<in> set (rp_vehicle_predictions r) \<and> al_vehicle_id a = vp_vehicle_id vp \<and>
     al_vehicle_capacity a = vp_vehicle_capacity vp \<and>
     al_predicted_occupancy_pct a = vp_peak_occupancy_pct vp \<and>
     al_predicted_passengers a = vp_peak_load vp \<and>
     al_trigger_stop_id a \<in> sp_stop_id ` {sp \<in> set (vp_stops vp). sp_predicted_passengers sp = vp_peak_load vp}"

locale evaluator_protocol =
  fixes eval_one :: "'e \<Rightarrow> route_prediction_result \<Rightarrow> alert option result"
  assumes returns: "wf_result r \<Longrightarrow> \<exists>a. eval_one e r = Inr a"
    and silent: "rp_vehicle_predictions r = [] \<Longrightarrow> eval_one e r = Inr None"
    and about: "wf_result r \<Longrightarrow> eval_one e r = Inr (Some a) \<Longrightarrow> \<exists>vp. alert_about a r vp"
begin

lemma never_raises: "wf_result r \<Longrightarrow> eval_one e r \<noteq> Inl x"
  using returns [of r e] by auto

lemma alert_has_prediction:
  "eval_one e r = Inr (Some a) \<Longrightarrow> rp_vehicle_predictions r \<noteq> []"
  using silent by force

text \<open>The engine's results are well formed, so on them an evaluator never raises.\<close>

lemma after_engine: "predict_route config s f = Inr r \<Longrightarrow> \<exists>a. eval_one e r = Inr a"
  by (intro returns predict_route_wf)

text \<open>A registry of evaluators is an evaluator.\<close>

lemma registry_protocol: "evaluator_protocol (registry_evaluate eval_one)"
  by unfold_locales (auto simp: registry_evaluate_def returns silent about)

end

subsection \<open>The threshold evaluator satisfies it\<close>

lemma max_by_peak_load:
  assumes "wf_vehicle_prediction vp"
  shows "\<exists>sp. max_by sp_predicted_passengers (vp_stops vp) = Inr sp \<and> sp \<in> set (vp_stops vp) \<and>
    sp_predicted_passengers sp = vp_peak_load vp"
proof -
  obtain sp where sp: "max_by sp_predicted_passengers (vp_stops vp) = Inr sp"
    using assms max_by_total [of "vp_stops vp" sp_predicted_passengers] by (auto simp: wf_vehicle_prediction_def)
  moreover have mem: "sp \<in> set (vp_stops vp)" by (rule max_by_mem [OF sp])
  moreover have "sp_predicted_passengers sp = vp_peak_load vp"
  proof (rule antisym)
    show "sp_predicted_passengers sp \<le> vp_peak_load vp"
      using assms mem by (simp add: wf_vehicle_prediction_def list_all_iff)
    obtain sp' where "sp' \<in> set (vp_stops vp)" "sp_predicted_passengers sp' = vp_peak_load vp"
      using assms by (auto simp: wf_vehicle_prediction_def)
    then show "vp_peak_load vp \<le> sp_predicted_passengers sp" using max_by_ge [OF sp] by metis
  qed
  ultimately show ?thesis by blast
qed

definition occupancy_hit :: "threshold_evaluator \<Rightarrow> route_prediction_result \<Rightarrow> vehicle_prediction \<Rightarrow> bool" where
  "occupancy_hit self r vp \<longleftrightarrow> vp \<in> set (rp_vehicle_predictions r) \<and>
     te_min_confidence self \<le> vp_confidence vp \<and> te_occupancy_threshold self \<le> vp_peak_occupancy_pct vp"

definition stranded_hit :: "threshold_evaluator \<Rightarrow> route_prediction_result \<Rightarrow> bool" where
  "stranded_hit self r \<longleftrightarrow> te_min_stranded self \<le> sum_list (dict_values (rp_stranded_at_stops r))"

lemma worst_occupancy_cases:
  obtains (none) "worst_occupancy_vp self (qualifying self r) = Inr None" "\<And>vp. \<not> occupancy_hit self r vp"
  | (some) vp where "worst_occupancy_vp self (qualifying self r) = Inr (Some vp)" "occupancy_hit self r vp"
      "\<And>vp'. occupancy_hit self r vp' \<Longrightarrow> vp_peak_occupancy_pct vp' \<le> vp_peak_occupancy_pct vp"
proof (cases "qualifying self r = []")
  case True
  then show ?thesis by (intro none) (auto simp: worst_occupancy_vp_def occupancy_hit_def qualifying_def filter_empty_conv)
next
  case False
  then obtain vp where vp: "max_by vp_peak_occupancy_pct (qualifying self r) = Inr vp"
    using max_by_total by metis
  have mem: "vp \<in> set (qualifying self r)" by (rule max_by_mem [OF vp])
  have ge: "occupancy_hit self r vp' \<Longrightarrow> vp_peak_occupancy_pct vp' \<le> vp_peak_occupancy_pct vp" for vp'
    by (rule max_by_ge [OF vp]) (simp add: qualifying_def occupancy_hit_def)
  show ?thesis
  proof (cases "vp_peak_occupancy_pct vp < te_occupancy_threshold self")
    case True
    then show ?thesis using False vp ge by (intro none) (fastforce simp: worst_occupancy_vp_def occupancy_hit_def)+
  next
    case notless: False
    then show ?thesis using False vp ge mem
      by (intro some [of vp]) (auto simp: worst_occupancy_vp_def occupancy_hit_def qualifying_def)
  qed
qed

lemma alert_vp_exists:
  assumes "rp_vehicle_predictions r \<noteq> []"
  obtains vp where "max_by vp_peak_occupancy_pct (rp_vehicle_predictions r) = Inr vp"
    "vp \<in> set (rp_vehicle_predictions r)"
    "\<And>vp'. vp' \<in> set (rp_vehicle_predictions r) \<Longrightarrow> vp_peak_occupancy_pct vp' \<le> vp_peak_occupancy_pct vp"
proof -
  obtain vp where "max_by vp_peak_occupancy_pct (rp_vehicle_predictions r) = Inr vp"
    using max_by_total [OF assms] by blast
  then show ?thesis using that max_by_mem max_by_ge by metis
qed

text \<open>Every outcome of \<open>evaluate\<close> on a well-formed result.\<close>

lemma evaluate_cases:
  assumes "wf_result r"
  obtains (silent) "evaluate self r = Inr None"
      "rp_vehicle_predictions r = [] \<or> ((\<forall>vp. \<not> occupancy_hit self r vp) \<and> \<not> stranded_hit self r)"
  | (alert) a vp where "evaluate self r = Inr (Some a)" "rp_vehicle_predictions r \<noteq> []"
      "occupancy_hit self r vp \<or> ((\<forall>vp. \<not> occupancy_hit self r vp) \<and> stranded_hit self r)"
      "alert_about a r vp"
      "al_total_stranded a = sum_list (dict_values (rp_stranded_at_stops r))"
      "\<forall>vp'. (if occupancy_hit self r vp then occupancy_hit self r vp' else vp' \<in> set (rp_vehicle_predictions r)) \<longrightarrow>
         vp_peak_occupancy_pct vp' \<le> vp_peak_occupancy_pct vp"
      "dict_get (al_trigger_detail a) ''trigger'' = Some (JStr
         (if occupancy_hit self r vp then if stranded_hit self r then ''occupancy_and_stranded'' else ''occupancy''
          else ''stranded''))"
proof (cases "rp_vehicle_predictions r = []")
  case True
  then show ?thesis by (intro silent) (auto simp: evaluate_def)
next
  case False
  note wfD = assms [unfolded wf_result_def list_all_iff, rule_format]
  show ?thesis
  proof (cases rule: worst_occupancy_cases [of self r])
    case none
    show ?thesis
    proof (cases "stranded_hit self r")
      case True
      obtain vp where vp: "max_by vp_peak_occupancy_pct (rp_vehicle_predictions r) = Inr vp"
        "vp \<in> set (rp_vehicle_predictions r)"
        "\<And>vp'. vp' \<in> set (rp_vehicle_predictions r) \<Longrightarrow> vp_peak_occupancy_pct vp' \<le> vp_peak_occupancy_pct vp"
        using alert_vp_exists [OF False] by metis
      obtain sp where "max_by sp_predicted_passengers (vp_stops vp) = Inr sp" "sp \<in> set (vp_stops vp)"
        "sp_predicted_passengers sp = vp_peak_load vp"
        using max_by_peak_load [OF wfD [OF vp(2)]] by blast
      then show ?thesis using none vp True False
        by (intro alert [of _ vp])
          (auto simp: evaluate_def Let_def stranded_hit_def alert_about_def dict_get_def)
    next
      case notstr: False
      then show ?thesis using none False
        by (intro silent) (auto simp: evaluate_def Let_def stranded_hit_def)
    qed
  next
    case (some vp)
    then have mem: "vp \<in> set (rp_vehicle_predictions r)" by (simp add: occupancy_hit_def)
    obtain sp where "max_by sp_predicted_passengers (vp_stops vp) = Inr sp" "sp \<in> set (vp_stops vp)"
      "sp_predicted_passengers sp = vp_peak_load vp"
      using max_by_peak_load [OF wfD [OF mem]] by blast
    then show ?thesis using some False mem
      by (intro alert [of _ vp])
        (auto simp: evaluate_def Let_def stranded_hit_def alert_about_def dict_get_def)
  qed
qed

lemma evaluate_empty: "rp_vehicle_predictions r = [] \<Longrightarrow> evaluate self r = Inr None"
  by (simp add: evaluate_def)

interpretation threshold: evaluator_protocol evaluate
proof
  fix r :: route_prediction_result and self assume wf: "wf_result r"
  show "\<exists>a. evaluate self r = Inr a"
    by (cases rule: evaluate_cases [OF wf, of self]) auto
next
  fix r :: route_prediction_result and self assume "rp_vehicle_predictions r = []"
  then show "evaluate self r = Inr None" by (rule evaluate_empty)
next
  fix r :: route_prediction_result and self a assume wf: "wf_result r" and "evaluate self r = Inr (Some a)"
  then show "\<exists>vp. alert_about a r vp"
    by (cases rule: evaluate_cases [OF wf, of self]) auto
qed

interpretation registry: evaluator_protocol "registry_evaluate evaluate"
  by (rule threshold.registry_protocol)

lemma registry_get_register:
  "registry_get (register reg route_id e) route_id' = (if route_id' = route_id then e else registry_get reg route_id')"
  by (simp add: registry_get_def register_def dict_get_set split: option.split)

end
