(* ===== verification/Evaluator_Properties.thy ===== *)
theory Evaluator_Properties
  imports Evaluator Engine_Properties
begin

text \<open>
  The properties of the evaluators: when an alert is raised, what it reports, that none
  raises an exception on the engine's results, and the dispatch by route.
\<close>

lemma example_result_wf: "wf_result example_result"
  by (rule predict_route_wf [OF example_prediction])

text \<open>
  C15: on a well-formed result \<open>evaluate\<close> never raises, and it returns an alert exactly
  when the result has a vehicle and either some vehicle of sufficient confidence reaches
  the occupancy threshold or the stranded passengers of the route, whatever the
  confidence, reach their minimum; without a vehicle there is none, however many are stranded.
\<close>

theorem evaluator_alert_iff:
  assumes "wf_result r"
  shows "(evaluate self r = Inr None \<or> (\<exists>a. evaluate self r = Inr (Some a))) \<and>
    ((\<exists>a. evaluate self r = Inr (Some a)) \<longleftrightarrow>
      rp_vehicle_predictions r \<noteq> [] \<and>
      ((\<exists>vp \<in> set (rp_vehicle_predictions r).
          te_min_confidence self \<le> vp_confidence vp \<and> te_occupancy_threshold self \<le> vp_peak_occupancy_pct vp) \<or>
       te_min_stranded self \<le> sum_list (dict_values (rp_stranded_at_stops r))))"
  by (cases rule: evaluate_cases [OF assms, of self])
    (auto simp: occupancy_hit_def stranded_hit_def)

theorem evaluator_alert_iff_witness:
  "(\<exists>a. evaluate \<lparr>te_occupancy_threshold = 1, te_min_stranded = 2, te_min_confidence = 1\<rparr> example_result = Inr (Some a)) \<and>
   \<not> (\<exists>a. evaluate \<lparr>te_occupancy_threshold = 2, te_min_stranded = 3, te_min_confidence = 0\<rparr> example_result = Inr (Some a))"
  unfolding evaluator_alert_iff [OF example_result_wf, THEN conjunct2]
  by (simp add: example_result_def dict_values_def fop_eval)

text \<open>
  What an alert on a well-formed result reports.  It names a vehicle of the result,
  the load at that vehicle's fullest stop and that stop, and the sum of the stranded
  passengers; when it was triggered by occupancy no other sufficiently confident vehicle
  has a higher peak, otherwise no vehicle at all has; the recorded trigger tells which.
\<close>

theorem evaluator_alert_worst_case:
  assumes "wf_result r" "evaluate self r = Inr (Some a)"
  shows "\<exists>vp. alert_about a r vp \<and>
    al_total_stranded a = sum_list (dict_values (rp_stranded_at_stops r)) \<and>
    (\<forall>vp' \<in> set (rp_vehicle_predictions r).
       te_min_confidence self \<le> vp_confidence vp' \<or> \<not> te_min_confidence self \<le> vp_confidence vp \<or>
         \<not> te_occupancy_threshold self \<le> vp_peak_occupancy_pct vp \<longrightarrow>
       vp_peak_occupancy_pct vp' \<le> vp_peak_occupancy_pct vp) \<and>
    dict_get (al_trigger_detail a) ''trigger'' = Some (JStr
      (if te_min_confidence self \<le> vp_confidence vp \<and> te_occupancy_threshold self \<le> vp_peak_occupancy_pct vp
       then if te_min_stranded self \<le> al_total_stranded a then ''occupancy_and_stranded'' else ''occupancy''
       else ''stranded''))"
  using assms(1)
proof (cases rule: evaluate_cases [where self = self])
  case silent
  then show ?thesis using assms(2) by simp
next
  case (alert a' vp)
  have "vp \<in> set (rp_vehicle_predictions r)" using alert(4) by (simp add: alert_about_def)
  then have hit: "occupancy_hit self r vp \<longleftrightarrow>
      te_min_confidence self \<le> vp_confidence vp \<and> te_occupancy_threshold self \<le> vp_peak_occupancy_pct vp"
    by (simp add: occupancy_hit_def)
  have "vp_peak_occupancy_pct vp' \<le> vp_peak_occupancy_pct vp"
    if "vp' \<in> set (rp_vehicle_predictions r)"
      "te_min_confidence self \<le> vp_confidence vp' \<or> \<not> te_min_confidence self \<le> vp_confidence vp \<or>
         \<not> te_occupancy_threshold self \<le> vp_peak_occupancy_pct vp" for vp'
  proof (cases "occupancy_hit self r vp \<and> \<not> occupancy_hit self r vp'")
    case True
    then show ?thesis using that hit by (auto simp: occupancy_hit_def)
  next
    case False
    then show ?thesis using alert(6) that(1) by auto
  qed
  moreover have "a' = a" using alert(1) assms(2) by simp
  ultimately show ?thesis using alert(4,5,7) hit by (auto simp: stranded_hit_def)
qed

theorem evaluator_alert_worst_case_witness:
  "\<exists>a. evaluate \<lparr>te_occupancy_threshold = 1 / 2, te_min_stranded = 5, te_min_confidence = 0\<rparr> example_result = Inr (Some a) \<and>
     al_total_stranded a = 2"
proof -
  let ?self = "\<lparr>te_occupancy_threshold = 1 / 2, te_min_stranded = 5, te_min_confidence = 0\<rparr>"
  have "\<exists>a. evaluate ?self example_result = Inr (Some a)"
    by (simp add: example_result_def evaluate_def qualifying_def worst_occupancy_vp_def max_by_def
        dict_values_def fop_eval Let_def)
  then obtain a where a: "evaluate ?self example_result = Inr (Some a)" by blast
  have "al_total_stranded a = sum_list (dict_values (rp_stranded_at_stops example_result))"
    using evaluator_alert_worst_case [OF example_result_wf a] by blast
  then show ?thesis using a by (auto simp: example_result_def dict_values_def)
qed

text \<open>
  C30: from snapshot to alert.  On whatever the engine returns for a snapshot the
  evaluator returns without raising, and an alert is about the snapshot's route, one of
  its vehicles with that vehicle's capacity, and a stop that vehicle still has ahead.
\<close>

theorem evaluator_after_engine:
  assumes "predict_route config s f = Inr r"
  shows "\<exists>x. evaluate self r = Inr x \<and>
    (case x of None \<Rightarrow> True
     | Some a \<Rightarrow> al_route_id a = rs_route_id s \<and> al_direction_id a = rs_direction_id s \<and>
         al_predicted_occupancy_pct a = py_truediv (al_predicted_passengers a) (al_vehicle_capacity a) \<and>
         (\<exists>v \<in> set (rs_vehicles s). al_vehicle_id a = vs_vehicle_id v \<and> al_vehicle_capacity a = vs_capacity v \<and>
           (\<exists>start < length (rs_stops s) - 1. vs_current_stop_sequence v = Some (ss_sequence (rs_stops s ! start)) \<and>
             al_trigger_stop_id a \<in> ss_stop_id ` set (drop start (butlast (rs_stops s))))))"
proof -
  obtain x where x: "evaluate self r = Inr x" using threshold.after_engine [OF assms] by blast
  show ?thesis
  proof (cases x)
    case (Some a)
    then obtain vp where vp: "alert_about a r vp"
      using threshold.about [OF predict_route_wf [OF assms]] x by blast
    have mem: "vp \<in> set (rp_vehicle_predictions r)" using vp by (simp add: alert_about_def)
    have wf: "wf_vehicle_prediction vp"
      using predict_route_wf [OF assms] mem by (simp add: wf_result_def list_all_iff)
    obtain v where v: "v \<in> set (rs_vehicles s)" "journey_ok (rs_stops s) v vp"
      using predict_route_journey [OF assms mem] by blast
    then obtain start where st: "start < length (rs_stops s) - 1"
      "vs_current_stop_sequence v = Some (ss_sequence (rs_stops s ! start))"
      "map sp_stop_id (vp_stops vp) = map ss_stop_id (drop start (butlast (rs_stops s)))"
      by (auto simp: journey_ok_def)
    have "al_trigger_stop_id a \<in> set (map sp_stop_id (vp_stops vp))"
      using vp by (auto simp: alert_about_def)
    then have trig: "al_trigger_stop_id a \<in> ss_stop_id ` set (drop start (butlast (rs_stops s)))"
      by (simp add: st(3))
    moreover have "rp_route_id r = rs_route_id s" "rp_direction_id r = rs_direction_id s"
      using predict_route_ids [OF assms] by auto
    ultimately have "al_route_id a = rs_route_id s" "al_direction_id a = rs_direction_id s"
      "al_vehicle_id a = vs_vehicle_id v" "al_vehicle_capacity a = vs_capacity v"
      "al_predicted_occupancy_pct a = py_truediv (al_predicted_passengers a) (al_vehicle_capacity a)"
      using vp v(2) wf by (simp_all add: alert_about_def journey_ok_def wf_vehicle_prediction_def)
    then show ?thesis using x Some v(1) st(1,2) trig by auto
  qed (use x in simp)
qed

theorem evaluator_after_engine_witness:
  "\<exists>x. evaluate default_threshold_evaluator example_result = Inr x"
  using evaluator_after_engine [OF example_prediction, of default_threshold_evaluator] by blast

text \<open>
  The thresholds act monotonically.  Lowering the occupancy threshold, the minimum of
  stranded passengers or the minimum confidence never loses an alert.
\<close>

theorem evaluator_thresholds_monotone:
  assumes "wf_result r" "evaluate self r = Inr (Some a)"
    "te_occupancy_threshold self' \<le> te_occupancy_threshold self"
    "te_min_stranded self' \<le> te_min_stranded self" "te_min_confidence self' \<le> te_min_confidence self"
  shows "\<exists>a'. evaluate self' r = Inr (Some a') \<and> al_total_stranded a' = al_total_stranded a"
proof -
  have "(\<forall>vp. \<not> occupancy_hit self' r vp) \<longrightarrow> (\<forall>vp. \<not> occupancy_hit self r vp)"
    "stranded_hit self r \<longrightarrow> stranded_hit self' r"
    using assms(3-5) by (force simp: occupancy_hit_def stranded_hit_def)+
  then show ?thesis
    using assms(2)
    by (cases rule: evaluate_cases [OF assms(1), of self]; cases rule: evaluate_cases [OF assms(1), of self'])
      auto
qed

theorem evaluator_thresholds_monotone_witness:
  "\<exists>a. evaluate \<lparr>te_occupancy_threshold = 0, te_min_stranded = 2, te_min_confidence = 0\<rparr> example_result = Inr (Some a)"
proof -
  let ?self = "\<lparr>te_occupancy_threshold = 1 / 2, te_min_stranded = 5, te_min_confidence = 0\<rparr>"
  have "\<exists>a. evaluate ?self example_result = Inr (Some a)"
    by (simp add: example_result_def evaluate_def qualifying_def worst_occupancy_vp_def max_by_def
        dict_values_def fop_eval Let_def)
  then show ?thesis
    using evaluator_thresholds_monotone [OF example_result_wf, of ?self _
        "\<lparr>te_occupancy_threshold = 0, te_min_stranded = 2, te_min_confidence = 0\<rparr>"] by auto
qed

text \<open>
  After any sequence of registrations the registry evaluates a result with the
  evaluator registered last for its route, and with the default when there is none; so
  it never raises on the engine's results either.
\<close>

theorem registry_dispatches_last:
  assumes "predict_route config s f = Inr r"
  shows "\<exists>x. registry_evaluate evaluate (foldl (\<lambda>reg (rid, e). register reg rid e) (new_registry dflt) regs) r = Inr x \<and>
    Inr x = evaluate (case map_of (rev regs) (rs_route_id s) of Some e \<Rightarrow> e | None \<Rightarrow> dflt) r"
proof -
  have "foldl (\<lambda>reg (rid, e). register reg rid e) reg regs =
      reg\<lparr>er_by_route := foldl (\<lambda>d (k, v). dict_set d k v) (er_by_route reg) regs\<rparr>" for reg
    by (induction regs arbitrary: reg) (auto simp: register_def)
  then have "registry_evaluate evaluate (foldl (\<lambda>reg (rid, e). register reg rid e) (new_registry dflt) regs) r =
      evaluate (case map_of (rev regs) (rs_route_id s) of Some e \<Rightarrow> e | None \<Rightarrow> dflt) r"
    using predict_route_ids [OF assms]
    by (simp add: registry_evaluate_def registry_get_def new_registry_def dict_of_get [unfolded dict_of_def]
        split: option.split)
  then show ?thesis
    using registry.after_engine [OF assms, of "foldl (\<lambda>reg (rid, e). register reg rid e) (new_registry dflt) regs"]
    by auto
qed

theorem registry_dispatches_last_witness:
  "registry_evaluate evaluate
     (foldl (\<lambda>reg (rid, e). register reg rid e) (new_registry default_threshold_evaluator)
       [(''r1'', default_threshold_evaluator\<lparr>te_min_stranded := 3\<rparr>), (''r2'', default_threshold_evaluator),
        (''r1'', default_threshold_evaluator\<lparr>te_min_stranded := 2\<rparr>)]) example_result =
   evaluate (default_threshold_evaluator\<lparr>te_min_stranded := 2\<rparr>) example_result"
  using registry_dispatches_last [OF example_prediction, of default_threshold_evaluator
      "[(''r1'', default_threshold_evaluator\<lparr>te_min_stranded := 3\<rparr>), (''r2'', default_threshold_evaluator),
        (''r1'', default_threshold_evaluator\<lparr>te_min_stranded := 2\<rparr>)]"]
  by (auto simp add: example_snapshot_def)

end
