(* ===== verification/Storage.thy ===== *)
theory Storage
  imports Prelude
begin

text \<open>
  \<open>Database/connection.py\<close> and the part of a PostgreSQL session the writer uses:
  \<open>execute\<close>, \<open>NOTIFY\<close>, savepoints, \<open>commit\<close>, and \<open>ConnectionPool.connection\<close>, which rolls
  back on an exception.  The contents of the database are any type \<open>'db\<close>, a statement is
  a function on them that may raise.  Any call to the server may fail: \<open>up n\<close> says
  whether the \<open>n\<close>-th call reaches it.  Notifications are delivered when the transaction
  commits, once for equal payloads; a failed statement aborts the transaction until a
  rollback.  Transactions of other connections run before or after, not in between.
\<close>

record 'db session =
  se_committed :: 'db
  se_delivered :: "string list"
  se_work :: 'db
  se_pending :: "string list"
  se_saves :: "(string \<times> 'db \<times> string list) list"
  se_aborted :: bool
  se_calls :: nat

type_synonym ('db, 'a) io = "'db session \<Rightarrow> 'a result \<times> 'db session"

type_synonym outages = "nat \<Rightarrow> bool"

text \<open>A session between two transactions.\<close>

definition idle :: "'db session \<Rightarrow> bool" where
  "idle s \<longleftrightarrow> se_work s = se_committed s \<and> se_pending s = [] \<and> se_saves s = [] \<and> \<not> se_aborted s"

definition new_session :: "'db \<Rightarrow> 'db session" where
  "new_session d = \<lparr>se_committed = d, se_delivered = [], se_work = d, se_pending = [], se_saves = [],
     se_aborted = False, se_calls = 0\<rparr>"

subsection \<open>Calls to the server\<close>

text \<open>One call: it fails when the server is not reached or the transaction is aborted.\<close>

definition call :: "outages \<Rightarrow> ('db session \<Rightarrow> 'a result \<times> 'db session) \<Rightarrow> ('db, 'a) io" where
  "call up f s =
     (let s' = s\<lparr>se_calls := Suc (se_calls s)\<rparr>
      in if \<not> up (se_calls s) \<or> se_aborted s then (Inl DatabaseError, s'\<lparr>se_aborted := True\<rparr>)
         else case f s' of (Inl e, t) \<Rightarrow> (Inl e, s'\<lparr>se_aborted := True\<rparr>) | r \<Rightarrow> r)"

definition execute :: "outages \<Rightarrow> ('db \<Rightarrow> 'db result) \<Rightarrow> ('db, unit) io" where
  "execute up stmt = call up (\<lambda>s.
     case stmt (se_work s) of Inl e \<Rightarrow> (Inl e, s) | Inr d \<Rightarrow> (Inr (), s\<lparr>se_work := d\<rparr>))"

definition query :: "outages \<Rightarrow> ('db \<Rightarrow> 'a) \<Rightarrow> ('db, 'a) io" where
  "query up q = call up (\<lambda>s. (Inr (q (se_work s)), s))"

text \<open>A query that may raise while it is evaluated.\<close>

definition query_checked :: "outages \<Rightarrow> ('db \<Rightarrow> 'a result) \<Rightarrow> ('db, 'a) io" where
  "query_checked up q = call up (\<lambda>s. (q (se_work s), s))"

definition notify :: "outages \<Rightarrow> string \<Rightarrow> ('db, unit) io" where
  "notify up payload = call up (\<lambda>s.
     (Inr (), if payload \<in> set (se_pending s) then s else s\<lparr>se_pending := se_pending s @ [payload]\<rparr>))"

definition savepoint :: "outages \<Rightarrow> string \<Rightarrow> ('db, unit) io" where
  "savepoint up name = call up (\<lambda>s.
     (Inr (), s\<lparr>se_saves := (name, se_work s, se_pending s) # se_saves s\<rparr>))"

definition release_savepoint :: "outages \<Rightarrow> string \<Rightarrow> ('db, unit) io" where
  "release_savepoint up name = call up (\<lambda>s.
     case dropWhile (\<lambda>p. fst p \<noteq> name) (se_saves s) of
       [] \<Rightarrow> (Inl DatabaseError, s)
     | p # ps \<Rightarrow> (Inr (), s\<lparr>se_saves := ps\<rparr>))"

text \<open>\<open>ROLLBACK TO SAVEPOINT\<close> is the one statement an aborted transaction accepts.\<close>

definition rollback_to_savepoint :: "outages \<Rightarrow> string \<Rightarrow> ('db, unit) io" where
  "rollback_to_savepoint up name s =
     call up (\<lambda>s.
       case dropWhile (\<lambda>p. fst p \<noteq> name) (se_saves s) of
         [] \<Rightarrow> (Inl DatabaseError, s)
       | (n, d, ps) # rest \<Rightarrow> (Inr (), s\<lparr>se_work := d, se_pending := ps, se_saves := (n, d, ps) # rest\<rparr>))
     (s\<lparr>se_aborted := False\<rparr>)"

definition rollback :: "'db session \<Rightarrow> 'db session" where
  "rollback s = s\<lparr>se_work := se_committed s, se_pending := [], se_saves := [], se_aborted := False\<rparr>"

text \<open>
  \<open>COMMIT\<close> of an aborted transaction rolls back without an error; a commit that does not
  reach the server changes nothing.
\<close>

definition commit :: "outages \<Rightarrow> ('db, unit) io" where
  "commit up s =
     (let s' = s\<lparr>se_calls := Suc (se_calls s)\<rparr>
      in if \<not> up (se_calls s) then (Inl DatabaseError, s'\<lparr>se_aborted := True\<rparr>)
         else if se_aborted s then (Inr (), rollback s')
         else (Inr (), s'\<lparr>se_committed := se_work s, se_delivered := se_delivered s @ se_pending s,
                 se_pending := [], se_saves := []\<rparr>))"

subsection \<open>Sequencing\<close>

definition bind_io :: "('db, 'a) io \<Rightarrow> ('a \<Rightarrow> ('db, 'b) io) \<Rightarrow> ('db, 'b) io" where
  "bind_io m f s = (case m s of (Inl e, t) \<Rightarrow> (Inl e, t) | (Inr x, t) \<Rightarrow> f x t)"

fun run_all :: "('db, unit) io list \<Rightarrow> ('db, unit) io" where
  "run_all [] s = (Inr (), s)"
| "run_all (m # ms) s = bind_io m (\<lambda>_. run_all ms) s"

text \<open>\<open>try: m except Exception: h\<close>.\<close>

definition catch_io :: "('db, 'a) io \<Rightarrow> ('db, 'a) io \<Rightarrow> ('db, 'a) io" where
  "catch_io m h s = (case m s of (Inl e, t) \<Rightarrow> h t | r \<Rightarrow> r)"

subsection \<open>\<open>ConnectionPool.connection\<close>\<close>

text \<open>
  A connection is checked out (which may fail), the body runs, an exception of the body
  rolls back and is raised again; the connection given back to the pool is rolled back
  to idle by the pool.  \<open>opened\<close> is \<open>self._pool is not None\<close>.
\<close>

definition connection :: "bool \<Rightarrow> outages \<Rightarrow> ('db, 'a) io \<Rightarrow> ('db, 'a) io" where
  "connection opened up body s =
     (if \<not> opened then (Inl RuntimeError, s)
      else let s' = s\<lparr>se_calls := Suc (se_calls s)\<rparr>
           in if \<not> up (se_calls s) then (Inl DatabaseError, s')
              else case body s' of (r, t) \<Rightarrow> (r, rollback t))"

text \<open>
  The shape of every method of the writer: one transaction whose exceptions are logged
  and swallowed.
\<close>

definition logged :: "('db, 'a) io \<Rightarrow> 'db session \<Rightarrow> 'db session" where
  "logged m s = snd (m s)"

subsection \<open>Lemmas\<close>

lemma rollback_idle [simp]: "idle (rollback s)"
  by (simp add: idle_def rollback_def)

lemma rollback_committed [simp]:
  "se_committed (rollback s) = se_committed s" "se_delivered (rollback s) = se_delivered s"
  by (simp_all add: rollback_def)

lemma idle_calls [simp]: "idle (s\<lparr>se_calls := n\<rparr>) \<longleftrightarrow> idle s"
  by (simp add: idle_def)

lemma idle_new_session [simp]: "idle (new_session d)"
  by (simp add: idle_def new_session_def)

lemma connection_idle: "idle s \<Longrightarrow> idle (snd (connection opened up body s))"
  by (auto simp: connection_def Let_def split: prod.splits)

text \<open>Calls before the commit do not touch what is committed.\<close>

definition tentative :: "('db, 'a) io \<Rightarrow> bool" where
  "tentative m \<longleftrightarrow> (\<forall>s. se_committed (snd (m s)) = se_committed s \<and> se_delivered (snd (m s)) = se_delivered s)"

lemma tentative_call:
  assumes "\<And>s. se_committed (snd (f s)) = se_committed s \<and> se_delivered (snd (f s)) = se_delivered s"
  shows "tentative (call up f)"
  unfolding tentative_def call_def Let_def
proof (intro allI, goal_cases)
  case (1 s)
  show ?case using assms [of "s\<lparr>se_calls := Suc (se_calls s)\<rparr>"]
    by (auto split: prod.splits sum.splits)
qed

lemma tentative_execute [simp]: "tentative (execute up stmt)"
  unfolding execute_def by (rule tentative_call) (auto split: sum.splits)

lemma tentative_query [simp]: "tentative (query up q)"
  unfolding query_def by (rule tentative_call) simp

lemma tentative_query_checked [simp]: "tentative (query_checked up q)"
  unfolding query_checked_def by (rule tentative_call) simp

lemma tentative_notify [simp]: "tentative (notify up p)"
  unfolding notify_def by (rule tentative_call) simp

lemma tentative_savepoint [simp]: "tentative (savepoint up n)"
  unfolding savepoint_def by (rule tentative_call) simp

lemma tentative_release [simp]: "tentative (release_savepoint up n)"
  unfolding release_savepoint_def by (rule tentative_call) (auto split: list.splits)

lemma tentative_rollback_to [simp]: "tentative (rollback_to_savepoint up n)"
  unfolding tentative_def
proof (intro allI, goal_cases)
  case (1 s)
  have "tentative (call up (\<lambda>s. case dropWhile (\<lambda>p. fst p \<noteq> n) (se_saves s) of
         [] \<Rightarrow> (Inl DatabaseError, s)
       | (n, d, ps) # rest \<Rightarrow> (Inr (), s\<lparr>se_work := d, se_pending := ps, se_saves := (n, d, ps) # rest\<rparr>)))"
    by (rule tentative_call) (auto split: list.splits)
  then show ?case unfolding tentative_def rollback_to_savepoint_def by (metis select_convs(1,2) update_convs(6) surjective)
qed

lemma tentative_bind: "tentative m \<Longrightarrow> (\<And>x. tentative (f x)) \<Longrightarrow> tentative (bind_io m f)"
  unfolding tentative_def bind_io_def by (auto split: prod.splits sum.splits) (metis snd_conv)+

lemma tentative_run_all: "(\<And>m. m \<in> set ms \<Longrightarrow> tentative m) \<Longrightarrow> tentative (run_all ms)"
proof (induction ms)
  case (Cons m ms)
  then have "tentative (bind_io m (\<lambda>_. run_all ms))" by (intro tentative_bind) auto
  then show ?case by (simp add: tentative_def)
qed (simp add: tentative_def)

lemma tentative_catch: "tentative m \<Longrightarrow> tentative h \<Longrightarrow> tentative (catch_io m h)"
  unfolding tentative_def catch_io_def by (auto split: prod.splits sum.splits) (metis snd_conv)+

subsection \<open>Transactions\<close>

text \<open>
  \<open>implements up m stmt ps\<close>: in a live transaction \<open>m\<close> either has the effect of \<open>stmt\<close> on
  the working copy and queues the notifications \<open>ps\<close>, or raises, which without outages it
  does only when \<open>stmt\<close> raises; it commits nothing.
\<close>

definition add_note :: "string list \<Rightarrow> string \<Rightarrow> string list" where
  "add_note ps p = (if p \<in> set ps then ps else ps @ [p])"

definition implements ::
    "outages \<Rightarrow> ('db, unit) io \<Rightarrow> ('db \<Rightarrow> 'db result) \<Rightarrow> string list \<Rightarrow> bool" where
  "implements up m stmt ps \<longleftrightarrow> tentative m \<and>
     (\<forall>s. \<not> se_aborted s \<longrightarrow>
       (case m s of
          (Inr _, t) \<Rightarrow> \<not> se_aborted t \<and> stmt (se_work s) = Inr (se_work t) \<and>
            se_pending t = foldl add_note (se_pending s) ps
        | (Inl e, t) \<Rightarrow> (\<forall>n. up n) \<longrightarrow> stmt (se_work s) = Inl e))"

lemma implementsD:
  assumes "implements up m stmt ps" "\<not> se_aborted s"
  shows "m s = (Inr x, t) \<Longrightarrow> \<not> se_aborted t \<and> stmt (se_work s) = Inr (se_work t) \<and>
      se_pending t = foldl add_note (se_pending s) ps"
    and "m s = (Inl e, t) \<Longrightarrow> \<forall>n. up n \<Longrightarrow> stmt (se_work s) = Inl e"
  using assms by (force simp: implements_def)+

lemma implements_execute [intro]: "implements up (execute up stmt) stmt []"
  by (auto simp: implements_def execute_def call_def Let_def split: sum.splits)
    (use tentative_execute [unfolded execute_def] in blast)

lemma implements_notify [intro]: "implements up (notify up p) Inr [p]"
  by (auto simp: implements_def notify_def call_def Let_def add_note_def)
    (use tentative_notify [unfolded notify_def] in blast)

lemma implements_run_Nil [intro]: "implements up (run_all []) Inr []"
  by (simp add: implements_def tentative_def)

lemma implements_run_Cons [intro]:
  assumes m: "implements up m f ps" and ms: "implements up (run_all ms) g qs"
  shows "implements up (run_all (m # ms)) (\<lambda>d. bind_result (f d) g) (ps @ qs)"
  unfolding implements_def
proof (intro conjI allI impI)
  have "tentative (bind_io m (\<lambda>_. run_all ms))"
    using m ms by (intro tentative_bind) (simp_all add: implements_def)
  then show "tentative (run_all (m # ms))" by (simp add: tentative_def)
  fix s :: "'a session" assume s: "\<not> se_aborted s"
  show "case run_all (m # ms) s of
      (Inl e, t) \<Rightarrow> (\<forall>n. up n) \<longrightarrow> bind_result (f (se_work s)) g = Inl e
    | (Inr x, t) \<Rightarrow> \<not> se_aborted t \<and> bind_result (f (se_work s)) g = Inr (se_work t) \<and>
        se_pending t = foldl add_note (se_pending s) (ps @ qs)"
  proof (cases "m s")
    case (Pair r t)
    show ?thesis
    proof (cases r)
      case (Inl e)
      then show ?thesis using implementsD(2) [OF m s] Pair by (auto simp: bind_io_def)
    next
      case (Inr x)
      note t = implementsD(1) [OF m s Pair [unfolded Inr]]
      then have "\<not> se_aborted t" by simp
      note ms' = implementsD [OF ms this]
      show ?thesis
        by (cases "run_all ms t") (use Pair Inr t ms' in \<open>auto simp: bind_io_def split: sum.splits\<close>)
    qed
  qed
qed

text \<open>A method of the writer: the statements, then \<open>commit\<close>, in one connection.\<close>

definition transaction :: "('db, unit) io list \<Rightarrow> bool \<Rightarrow> outages \<Rightarrow> 'db session \<Rightarrow> 'db session" where
  "transaction ms opened up =
     logged (connection opened up (bind_io (run_all ms) (\<lambda>_. commit up)))"

lemma transaction_outcome:
  assumes m: "implements up (run_all ms) stmt ps" and s: "idle s"
  shows "(se_committed (transaction ms opened up s) = se_committed s \<and>
        se_delivered (transaction ms opened up s) = se_delivered s \<and>
        \<not> (opened \<and> (\<forall>n. up n) \<and> (\<exists>d. stmt (se_committed s) = Inr d))) \<or>
     (stmt (se_committed s) = Inr (se_committed (transaction ms opened up s)) \<and>
        se_delivered (transaction ms opened up s) = se_delivered s @ foldl add_note [] ps)"
proof (cases "opened \<and> up (se_calls s)")
  case False
  then show ?thesis by (auto simp: transaction_def logged_def connection_def Let_def)
next
  case True
  let ?s = "s\<lparr>se_calls := Suc (se_calls s)\<rparr>"
  have ab: "\<not> se_aborted ?s" and w: "se_work ?s = se_committed s" "se_pending ?s = []"
    using s by (simp_all add: idle_def)
  obtain r t where rt: "run_all ms ?s = (r, t)" by force
  have keep: "se_committed t = se_committed s" "se_delivered t = se_delivered s"
    using m rt unfolding implements_def tentative_def
    by (metis select_convs(1,2) update_convs(7) snd_conv surjective)+
  show ?thesis
  proof (cases r)
    case (Inl e)
    have "(\<forall>n. up n) \<longrightarrow> stmt (se_committed s) = Inl e"
      using implementsD(2) [OF m ab, of e t] rt Inl w by simp
    then show ?thesis using True rt keep Inl
      by (auto simp: transaction_def logged_def connection_def bind_io_def Let_def)
  next
    case (Inr x)
    then show ?thesis using True rt keep implementsD(1) [OF m ab, of x t] w
      by (auto simp: transaction_def logged_def connection_def bind_io_def commit_def Let_def)
  qed
qed

lemma transaction_idle: "idle s \<Longrightarrow> idle (transaction ms opened up s)"
  by (simp add: transaction_def logged_def connection_idle)

subsection \<open>What callers rely on\<close>

text \<open>
  The contract of a method of the writer: with any outages it is all or nothing, and
  listeners are notified only of what was committed.
\<close>

locale atomic_write =
  fixes wr :: "bool \<Rightarrow> outages \<Rightarrow> 'db session \<Rightarrow> 'db session"
    and stmt :: "'db \<Rightarrow> 'db result"
    and payloads :: "string list"
  assumes idle_wr: "idle s \<Longrightarrow> idle (wr opened up s)"
    and all_or_nothing: "idle s \<Longrightarrow>
      (se_committed (wr opened up s) = se_committed s \<and> se_delivered (wr opened up s) = se_delivered s \<and>
         \<not> (opened \<and> (\<forall>n. up n) \<and> (\<exists>d. stmt (se_committed s) = Inr d))) \<or>
      (stmt (se_committed s) = Inr (se_committed (wr opened up s)) \<and>
         se_delivered (wr opened up s) = se_delivered s @ payloads)"
begin

lemma keeps:
  assumes "idle s" "I (se_committed s)" "\<And>d d'. I d \<Longrightarrow> stmt d = Inr d' \<Longrightarrow> I d'"
  shows "I (se_committed (wr opened up s))"
  using all_or_nothing [OF assms(1), of opened up] assms(2,3) by metis

lemma performed_up:
  assumes "idle s" "opened" "\<forall>n. up n" "stmt (se_committed s) = Inr d"
  shows "se_committed (wr opened up s) = d \<and> se_delivered (wr opened up s) = se_delivered s @ payloads"
  using all_or_nothing [OF assms(1), of opened up] assms(2-4) by auto

lemma performed:
  assumes "idle s" "stmt (se_committed s) = Inr d"
  shows "se_committed (wr True (\<lambda>_. True) s) = d \<and> se_delivered (wr True (\<lambda>_. True) s) = se_delivered s @ payloads"
  by (rule performed_up [OF assms(1) _ _ assms(2)]) simp_all

lemma rejected:
  assumes "idle s" "stmt (se_committed s) = Inl e"
  shows "se_committed (wr opened up s) = se_committed s" "se_delivered (wr opened up s) = se_delivered s"
  using all_or_nothing [OF assms(1), of opened up] assms(2) by auto

lemma notified_committed:
  assumes "idle s" "payloads \<noteq> []" "se_delivered (wr opened up s) \<noteq> se_delivered s"
  shows "stmt (se_committed s) = Inr (se_committed (wr opened up s))"
  using all_or_nothing [OF assms(1), of opened up] assms(2,3) by auto

lemma changed_notified:
  assumes "idle s" "se_committed (wr opened up s) \<noteq> se_committed s"
  shows "se_delivered (wr opened up s) = se_delivered s @ payloads"
  using all_or_nothing [OF assms(1), of opened up] assms(2) by auto

end

text \<open>Writes that may be repeated without changing the data again.\<close>

locale idempotent_write = atomic_write +
  assumes again: "stmt d = Inr d' \<Longrightarrow> stmt d' = Inr d'"
begin

lemma retry:
  assumes "idle s"
  shows "se_committed (wr opened' up' (wr True (\<lambda>_. True) s)) = se_committed (wr True (\<lambda>_. True) s)"
proof (cases "stmt (se_committed s)")
  case (Inl e)
  then show ?thesis
    using rejected(1) [OF assms Inl, of True "\<lambda>_. True"]
      rejected(1) [OF idle_wr [OF assms, of True "\<lambda>_. True"], of e opened' up'] by simp
next
  case (Inr d)
  then have "se_committed (wr True (\<lambda>_. True) s) = d" using performed [OF assms Inr] by simp
  then show ?thesis
    using all_or_nothing [OF idle_wr [OF assms, of True "\<lambda>_. True"], of opened' up'] again [OF Inr] by auto
qed

end

text \<open>Every transaction satisfies the contract.\<close>

lemma transaction_atomic_write:
  assumes "\<And>up. implements up (run_all (ms up)) stmt ps" "foldl add_note [] ps = payloads"
  shows "atomic_write (\<lambda>opened up. transaction (ms up) opened up) stmt payloads"
proof
  fix s :: "'a session" and opened up assume s: "idle s"
  show "idle (transaction (ms up) opened up s)" by (rule transaction_idle [OF s])
  show "(se_committed (transaction (ms up) opened up s) = se_committed s \<and>
        se_delivered (transaction (ms up) opened up s) = se_delivered s \<and>
        \<not> (opened \<and> (\<forall>n. up n) \<and> (\<exists>d. stmt (se_committed s) = Inr d))) \<or>
     (stmt (se_committed s) = Inr (se_committed (transaction (ms up) opened up s)) \<and>
        se_delivered (transaction (ms up) opened up s) = se_delivered s @ payloads)"
    using transaction_outcome [OF assms(1) s, where opened = opened] assms(2) by simp
qed

text \<open>One statement followed by notifications, the common case.\<close>

lemma implements_one: "implements up (run_all [execute up stmt]) stmt []"
proof -
  have "(\<lambda>d. bind_result (stmt d) Inr) = stmt" by (auto simp: bind_result_def split: sum.split)
  then show ?thesis using implements_run_Cons [OF implements_execute implements_run_Nil, of up stmt] by simp
qed

lemma implements_one_notify: "implements up (run_all [execute up stmt, notify up p]) stmt [p]"
proof -
  have "(\<lambda>d. bind_result (stmt d) (\<lambda>d. bind_result (Inr d) Inr)) = stmt"
    by (auto simp: bind_result_def split: sum.split)
  then show ?thesis
    using implements_run_Cons [OF implements_execute implements_run_Cons [OF implements_notify implements_run_Nil],
        of up stmt p] by simp
qed

lemma implements_two_notify:
  "implements up (run_all [execute up f, execute up g, notify up p]) (\<lambda>d. bind_result (f d) g) [p]"
  using implements_run_Cons [OF implements_execute implements_one_notify, of up f g p] by simp

text \<open>With the server up a call in a live transaction is its effect.\<close>

lemma query_up:
  "\<forall>n. up n \<Longrightarrow> \<not> se_aborted s \<Longrightarrow> query up q s = (Inr (q (se_work s)), s\<lparr>se_calls := Suc (se_calls s)\<rparr>)"
  by (simp add: query_def call_def Let_def)

lemma query_checked_up:
  "\<forall>n. up n \<Longrightarrow> \<not> se_aborted s \<Longrightarrow> query_checked up q s =
     (case q (se_work s) of Inl e \<Rightarrow> (Inl e, s\<lparr>se_calls := Suc (se_calls s), se_aborted := True\<rparr>)
      | Inr x \<Rightarrow> (Inr x, s\<lparr>se_calls := Suc (se_calls s)\<rparr>))"
  by (simp add: query_checked_def call_def Let_def split: sum.split)

lemma tentative_connection: "tentative body \<Longrightarrow> tentative (connection opened up body)"
  unfolding tentative_def
proof (intro allI, goal_cases)
  case (1 s)
  show ?case using 1 [rule_format, of "s\<lparr>se_calls := Suc (se_calls s)\<rparr>"]
    by (auto simp: connection_def Let_def split: prod.split)
qed

text \<open>A loop of statements.\<close>

fun exec_seq :: "('db \<Rightarrow> 'db result) list \<Rightarrow> 'db \<Rightarrow> 'db result" where
  "exec_seq [] d = Inr d"
| "exec_seq (f # fs) d = bind_result (f d) (exec_seq fs)"

lemma implements_many:
  assumes "implements up (run_all ms) g qs"
  shows "implements up (run_all (map (execute up) fs @ ms)) (\<lambda>d. bind_result (exec_seq fs d) g) qs"
proof (induction fs)
  case (Cons f fs)
  have "(\<lambda>d. bind_result (f d) (\<lambda>d. bind_result (exec_seq fs d) g)) = (\<lambda>d. bind_result (exec_seq (f # fs) d) g)"
    by (auto simp: bind_result_def split: sum.split)
  then show ?case using implements_run_Cons [OF implements_execute Cons.IH, of f] by (simp del: run_all.simps)
qed (use assms in simp)

lemma bind_result_Inr [simp]: "bind_result r Inr = r"
  by (cases r) simp_all

end
