(* ===== verification/Database.thy ===== *)
theory Database
  imports Storage Evaluator
begin

text \<open>
  The tables of \<open>docker/database/init.sql\<close> that the modelled code reads or writes, one
  record per row with the columns it uses, and the SQL statements of
  \<open>Database/writer.py\<close> as functions on the tables.  A statement checks the keys, foreign
  keys and integer ranges of the schema and raises \<open>DatabaseError\<close> on a violation.
  Times are microseconds since the epoch, JSONB columns hold JSON values, \<open>REAL\<close> columns
  hold the double they were given.
\<close>

type_synonym timestamp = int

subsection \<open>Rows\<close>

text \<open>\<open>ro_metadata\<close> is a JSON object or null; \<open>st_last_seen\<close> and \<open>st_zone\<close> are nullable.\<close>

record route_row =
  ro_route_id :: string
  ro_agency_id :: "string option"
  ro_short_name :: string
  ro_long_name :: "string option"
  ro_transport_type :: string
  ro_metadata :: json

record stop_row =
  st_device_id :: string
  st_stop_id :: string
  st_stop_code :: "string option"
  st_stop_name :: string
  st_stop_lat :: pyfloat
  st_stop_long :: pyfloat
  st_transport_type :: string
  st_zone :: "string option"
  st_is_online :: bool
  st_pipeline_active :: bool
  st_last_seen :: "timestamp option"
  st_config :: json

record crowd_row =
  cr_time :: timestamp
  cr_device_id :: string
  cr_stop_id :: string
  cr_count :: int
  cr_zone :: "string option"

record current_row =
  cc_device_id :: string
  cc_stop_id :: string
  cc_count :: int
  cc_previous_count :: "int option"
  cc_zone :: "string option"
  cc_updated_at :: timestamp

record log_row =
  lg_time :: timestamp
  lg_device_id :: string
  lg_level :: string
  lg_message :: string
  lg_extra :: json

record model_row =
  mv_filename :: string
  mv_sha256 :: string
  mv_file_size :: "int option"
  mv_file_path :: string

record admin_row =
  aa_target_device_id :: "string option"
  aa_action :: string
  aa_command :: json
  aa_initiated_by :: string

record alert_row =
  sa_id :: int
  sa_created_at :: timestamp
  sa_severity :: string
  sa_message :: string
  sa_source :: "string option"
  sa_device_id :: "string option"
  sa_route_id :: "string option"
  sa_resolved_at :: "timestamp option"

record vehicle_row =
  ve_vehicle_id :: string
  ve_route_id :: "string option"
  ve_capacity :: int
  ve_current_stop_id :: "string option"
  ve_state :: string
  ve_passenger_count :: int
  ve_occupancy_percent :: pyfloat
  ve_is_active :: bool
  ve_last_updated :: timestamp

record telemetry_row =
  vt_time :: timestamp
  vt_vehicle_id :: string
  vt_route_id :: "string option"
  vt_passenger_count :: int
  vt_occupancy_percent :: pyfloat
  vt_current_stop_id :: "string option"
  vt_state :: string

record route_stop_row =
  rt_route_id :: string
  rt_stop_id :: string
  rt_direction_id :: int
  rt_stop_sequence :: int

record stop_time_row =
  tm_trip_id :: string
  tm_stop_sequence :: int
  tm_stop_id :: string
  tm_arrival_seconds :: int

record trip_row =
  tu_time :: timestamp
  tu_trip_id :: string
  tu_route_id :: "string option"
  tu_direction_id :: "int option"
  tu_vehicle_id :: "string option"
  tu_stop_id :: "string option"
  tu_stop_sequence :: "int option"
  tu_arrival_delay :: "int option"
  tu_departure_delay :: "int option"
  tu_raw :: json

record prediction_row =
  pr_time :: timestamp
  pr_vehicle_id :: string
  pr_route_id :: string
  pr_direction_id :: int
  pr_stop_id :: string
  pr_stop_sequence :: int
  pr_predicted_passengers :: int
  pr_vehicle_capacity :: int
  pr_predicted_occupancy_pct :: pyfloat
  pr_waiting_at_stop :: "int option"
  pr_boarded :: int
  pr_alighted :: int
  pr_has_data :: bool
  pr_confidence :: pyfloat

record decision_row =
  sd_decision_type :: string
  sd_route_id :: string
  sd_direction_id :: int
  sd_trigger_vehicle_id :: string
  sd_trigger_stop_id :: "string option"
  sd_predicted_passengers :: int
  sd_predicted_occupancy_pct :: pyfloat
  sd_vehicle_capacity :: int
  sd_total_stranded :: int
  sd_threshold :: "pyfloat option"
  sd_message :: string
  sd_metadata :: json

record service_alert_row =
  sl_id :: int
  sl_alert_id :: "string option"
  sl_received_at :: timestamp
  sl_cause :: "string option"
  sl_effect :: "string option"
  sl_header_text :: "string option"
  sl_description_text :: "string option"
  sl_severity :: "string option"
  sl_active_start :: "timestamp option"
  sl_active_end :: "timestamp option"

text \<open>
  \<open>db_next_alert\<close> and \<open>db_next_service_alert\<close> are the sequences behind the \<open>BIGSERIAL\<close> ids of
  \<open>system_alerts\<close> and \<open>gtfs_rt_service_alerts\<close>.
\<close>

record database =
  db_routes :: "route_row list"
  db_route_stops :: "route_stop_row list"
  db_stop_times :: "stop_time_row list"
  db_stops :: "stop_row list"
  db_crowd_count :: "crowd_row list"
  db_current_counts :: "current_row list"
  db_stop_logs :: "log_row list"
  db_model_versions :: "model_row list"
  db_admin_activity_log :: "admin_row list"
  db_system_alerts :: "alert_row list"
  db_next_alert :: int
  db_vehicles :: "vehicle_row list"
  db_vehicle_telemetry :: "telemetry_row list"
  db_trip_updates :: "trip_row list"
  db_predictions :: "prediction_row list"
  db_scheduler_decisions :: "decision_row list"
  db_service_alerts :: "service_alert_row list"
  db_next_service_alert :: int

subsection \<open>Column types\<close>

definition int4 :: "int \<Rightarrow> bool" where
  "int4 n \<longleftrightarrow> - (2 ^ 31) \<le> n \<and> n < 2 ^ 31"

definition int2 :: "int \<Rightarrow> bool" where
  "int2 n \<longleftrightarrow> - (2 ^ 15) \<le> n \<and> n < 2 ^ 15"

definition int8 :: "int \<Rightarrow> bool" where
  "int8 n \<longleftrightarrow> - (2 ^ 63) \<le> n \<and> n < 2 ^ 63"

definition opt_all :: "('a \<Rightarrow> bool) \<Rightarrow> 'a option \<Rightarrow> bool" where
  "opt_all P x = (case x of None \<Rightarrow> True | Some y \<Rightarrow> P y)"

definition checked :: "bool \<Rightarrow> 'db \<Rightarrow> 'db result" where
  "checked ok d = (if ok then Inr d else Inl DatabaseError)"

lemma checked_Inr [simp]: "checked ok d = Inr d' \<longleftrightarrow> ok \<and> d' = d"
  by (auto simp: checked_def)

subsection \<open>Statements\<close>

definition insert_crowd_count :: "timestamp \<Rightarrow> string \<Rightarrow> string \<Rightarrow> int \<Rightarrow> string option \<Rightarrow> database \<Rightarrow> database result" where
  "insert_crowd_count ts device_id stop_id cnt zone d =
     checked (int4 cnt) (d\<lparr>db_crowd_count := db_crowd_count d @
       [\<lparr>cr_time = ts, cr_device_id = device_id, cr_stop_id = stop_id, cr_count = cnt, cr_zone = zone\<rparr>]\<rparr>)"

definition upsert_current_count :: "timestamp \<Rightarrow> string \<Rightarrow> string \<Rightarrow> int \<Rightarrow> string option \<Rightarrow> database \<Rightarrow> database result" where
  "upsert_current_count ts device_id stop_id cnt zone d =
     (if device_id \<in> set (map cc_device_id (db_current_counts d)) then
        checked (int4 cnt) (d\<lparr>db_current_counts := map (\<lambda>row.
          if cc_device_id row = device_id
          then row\<lparr>cc_previous_count := Some (cc_count row), cc_count := cnt, cc_zone := zone, cc_updated_at := ts\<rparr>
          else row) (db_current_counts d)\<rparr>)
      else
        checked (int4 cnt \<and> device_id \<in> set (map st_device_id (db_stops d)))
          (d\<lparr>db_current_counts := db_current_counts d @
            [\<lparr>cc_device_id = device_id, cc_stop_id = stop_id, cc_count = cnt, cc_previous_count = None,
              cc_zone = zone, cc_updated_at = ts\<rparr>]\<rparr>))"

definition insert_log :: "timestamp \<Rightarrow> string \<Rightarrow> string \<Rightarrow> string \<Rightarrow> json \<Rightarrow> database \<Rightarrow> database result" where
  "insert_log ts device_id level message extra d =
     Inr (d\<lparr>db_stop_logs := db_stop_logs d @
       [\<lparr>lg_time = ts, lg_device_id = device_id, lg_level = level, lg_message = message, lg_extra = extra\<rparr>]\<rparr>)"

definition update_stop_status :: "bool \<Rightarrow> timestamp \<Rightarrow> string option \<Rightarrow> string \<Rightarrow> database \<Rightarrow> database result" where
  "update_stop_status is_online now zone device_id d =
     Inr (d\<lparr>db_stops := map (\<lambda>row.
       if st_device_id row = device_id
       then row\<lparr>st_is_online := is_online, st_last_seen := Some now,
              st_zone := (case zone of Some z \<Rightarrow> Some z | None \<Rightarrow> st_zone row)\<rparr>
       else row) (db_stops d)\<rparr>)"

definition update_pipeline :: "bool \<Rightarrow> string \<Rightarrow> database \<Rightarrow> database result" where
  "update_pipeline active device_id d =
     Inr (d\<lparr>db_stops := map (\<lambda>row.
       if st_device_id row = device_id then row\<lparr>st_pipeline_active := active\<rparr> else row) (db_stops d)\<rparr>)"

definition insert_admin_action :: "string option \<Rightarrow> string \<Rightarrow> json \<Rightarrow> string \<Rightarrow> database \<Rightarrow> database result" where
  "insert_admin_action target action command initiated_by d =
     Inr (d\<lparr>db_admin_activity_log := db_admin_activity_log d @
       [\<lparr>aa_target_device_id = target, aa_action = action, aa_command = command, aa_initiated_by = initiated_by\<rparr>]\<rparr>)"

definition insert_model_version :: "string \<Rightarrow> string \<Rightarrow> int option \<Rightarrow> string \<Rightarrow> database \<Rightarrow> database result" where
  "insert_model_version filename sha256 file_size file_path d =
     (if \<not> opt_all int8 file_size then Inl DatabaseError
      else if sha256 \<in> set (map mv_sha256 (db_model_versions d)) then Inr d
      else Inr (d\<lparr>db_model_versions := db_model_versions d @
        [\<lparr>mv_filename = filename, mv_sha256 = sha256, mv_file_size = file_size, mv_file_path = file_path\<rparr>]\<rparr>))"

definition insert_alert ::
    "timestamp \<Rightarrow> string \<Rightarrow> string \<Rightarrow> string option \<Rightarrow> string option \<Rightarrow> string option \<Rightarrow> database \<Rightarrow> database result" where
  "insert_alert now severity message source device_id route_id d =
     Inr (d\<lparr>db_next_alert := db_next_alert d + 1,
       db_system_alerts := db_system_alerts d @
         [\<lparr>sa_id = db_next_alert d, sa_created_at = now, sa_severity = severity, sa_message = message, sa_source = source,
           sa_device_id = device_id, sa_route_id = route_id, sa_resolved_at = None\<rparr>]\<rparr>)"

definition update_alert_resolved :: "timestamp \<Rightarrow> int \<Rightarrow> database \<Rightarrow> database result" where
  "update_alert_resolved now alert_id d =
     checked (int8 alert_id) (d\<lparr>db_system_alerts := map (\<lambda>row.
       if sa_id row = alert_id \<and> sa_resolved_at row = None then row\<lparr>sa_resolved_at := Some now\<rparr> else row)
       (db_system_alerts d)\<rparr>)"

definition insert_trip_update :: "trip_row \<Rightarrow> database \<Rightarrow> database result" where
  "insert_trip_update row d =
     checked (opt_all int2 (tu_direction_id row) \<and> opt_all int4 (tu_stop_sequence row) \<and>
         opt_all int4 (tu_arrival_delay row) \<and> opt_all int4 (tu_departure_delay row))
       (d\<lparr>db_trip_updates := db_trip_updates d @ [row]\<rparr>)"

text \<open>
  \<open>SELECT DISTINCT time ... ORDER BY t DESC LIMIT n\<close>, its minimum, and the deletion; a
  comparison with \<open>NULL\<close> (the minimum of no rows) deletes nothing.
\<close>

definition recent_times :: "int \<Rightarrow> trip_row list \<Rightarrow> timestamp list" where
  "recent_times limit rows = take (nat limit) (rev (sort (remdups (map tu_time rows))))"

definition delete_old_trip_updates :: "int \<Rightarrow> database \<Rightarrow> database result" where
  "delete_old_trip_updates limit d =
     Inr (d\<lparr>db_trip_updates :=
       (case recent_times limit (db_trip_updates d) of
          [] \<Rightarrow> db_trip_updates d
        | t # ts \<Rightarrow> filter (\<lambda>row. \<not> tu_time row < foldl min t ts) (db_trip_updates d))\<rparr>)"

definition upsert_vehicle_row :: "vehicle_row \<Rightarrow> database \<Rightarrow> database result" where
  "upsert_vehicle_row row d =
     checked (opt_all (\<lambda>rid. rid \<in> set (map ro_route_id (db_routes d))) (ve_route_id row) \<and>
         int4 (ve_capacity row) \<and> int4 (ve_passenger_count row))
       (d\<lparr>db_vehicles :=
         (if ve_vehicle_id row \<in> set (map ve_vehicle_id (db_vehicles d))
          then map (\<lambda>old. if ve_vehicle_id old = ve_vehicle_id row then row else old) (db_vehicles d)
          else db_vehicles d @ [row])\<rparr>)"

definition insert_telemetry :: "telemetry_row \<Rightarrow> database \<Rightarrow> database result" where
  "insert_telemetry row d =
     checked (int4 (vt_passenger_count row)) (d\<lparr>db_vehicle_telemetry := db_vehicle_telemetry d @ [row]\<rparr>)"

definition insert_prediction :: "prediction_row \<Rightarrow> database \<Rightarrow> database result" where
  "insert_prediction row d =
     checked (int2 (pr_direction_id row) \<and> int4 (pr_stop_sequence row) \<and>
         int4 (pr_predicted_passengers row) \<and> int4 (pr_vehicle_capacity row) \<and>
         opt_all int4 (pr_waiting_at_stop row) \<and> int4 (pr_boarded row) \<and> int4 (pr_alighted row))
       (d\<lparr>db_predictions := db_predictions d @ [row]\<rparr>)"

definition insert_decision :: "decision_row \<Rightarrow> database \<Rightarrow> database result" where
  "insert_decision row d =
     checked (int2 (sd_direction_id row) \<and> int4 (sd_predicted_passengers row) \<and>
         int4 (sd_vehicle_capacity row) \<and> int4 (sd_total_stranded row))
       (d\<lparr>db_scheduler_decisions := db_scheduler_decisions d @ [row]\<rparr>)"

subsection \<open>Keys\<close>

text \<open>The key constraints of the schema, and that every statement keeps them.\<close>

definition keys_ok :: "database \<Rightarrow> bool" where
  "keys_ok d \<longleftrightarrow>
     distinct (map (\<lambda>r. (rt_route_id r, rt_direction_id r, rt_stop_sequence r)) (db_route_stops d)) \<and>
     distinct (map (\<lambda>r. (tm_trip_id r, tm_stop_sequence r)) (db_stop_times d)) \<and>
     distinct (map st_device_id (db_stops d)) \<and> distinct (map st_stop_id (db_stops d)) \<and>
     distinct (map cc_device_id (db_current_counts d)) \<and>
     cc_device_id ` set (db_current_counts d) \<subseteq> st_device_id ` set (db_stops d) \<and>
     distinct (map mv_sha256 (db_model_versions d)) \<and>
     distinct (map sa_id (db_system_alerts d)) \<and> list_all (\<lambda>i. i < db_next_alert d) (map sa_id (db_system_alerts d)) \<and>
     distinct (map ve_vehicle_id (db_vehicles d))"

lemma map_update_same:
  "(\<And>x. P x \<Longrightarrow> f (g x) = f x) \<Longrightarrow> map f (map (\<lambda>x. if P x then g x else x) xs) = map f xs"
  by auto

text \<open>Only the keys matter.\<close>

lemma keys_ok_cong:
  assumes "keys_ok d"
    "db_route_stops d' = db_route_stops d" "db_stop_times d' = db_stop_times d"
    "map st_device_id (db_stops d') = map st_device_id (db_stops d)"
    "map st_stop_id (db_stops d') = map st_stop_id (db_stops d)"
    "map cc_device_id (db_current_counts d') = map cc_device_id (db_current_counts d)"
    "map mv_sha256 (db_model_versions d') = map mv_sha256 (db_model_versions d)"
    "map sa_id (db_system_alerts d') = map sa_id (db_system_alerts d)" "db_next_alert d' = db_next_alert d"
    "map ve_vehicle_id (db_vehicles d') = map ve_vehicle_id (db_vehicles d)"
  shows "keys_ok d'"
proof -
  have "st_device_id ` set (db_stops d') = st_device_id ` set (db_stops d)"
    "cc_device_id ` set (db_current_counts d') = cc_device_id ` set (db_current_counts d)"
    using assms(4,6) [THEN arg_cong, of set] by simp_all
  then show ?thesis using assms unfolding keys_ok_def by (simp only: set_map)
qed

lemma keys_insert_crowd: "keys_ok d \<Longrightarrow> insert_crowd_count ts dev stop n z d = Inr d' \<Longrightarrow> keys_ok d'"
  by (auto simp: insert_crowd_count_def keys_ok_def)

lemma keys_upsert_current:
  assumes "keys_ok d" "upsert_current_count ts dev stop n z d = Inr d'"
  shows "keys_ok d'"
proof (cases "dev \<in> set (map cc_device_id (db_current_counts d))")
  case True
  with assms show ?thesis
    by - (rule keys_ok_cong [of d], auto simp: upsert_current_count_def)
next
  case False
  with assms show ?thesis by (auto simp: upsert_current_count_def keys_ok_def)
qed

lemma keys_update_stop: "keys_ok d \<Longrightarrow> update_stop_status on now z dev d = Inr d' \<Longrightarrow> keys_ok d'"
  by (rule keys_ok_cong [of d]) (auto simp: update_stop_status_def)

lemma keys_update_pipeline: "keys_ok d \<Longrightarrow> update_pipeline a dev d = Inr d' \<Longrightarrow> keys_ok d'"
  by (rule keys_ok_cong [of d]) (auto simp: update_pipeline_def)

lemma keys_insert_model: "keys_ok d \<Longrightarrow> insert_model_version f sha n p d = Inr d' \<Longrightarrow> keys_ok d'"
  by (clarsimp simp: insert_model_version_def keys_ok_def split: if_splits)

lemma keys_insert_alert: "keys_ok d \<Longrightarrow> insert_alert now sev m src dev rid d = Inr d' \<Longrightarrow> keys_ok d'"
  by (force simp: insert_alert_def keys_ok_def list_all_iff)

lemma keys_resolve_alert: "keys_ok d \<Longrightarrow> update_alert_resolved now i d = Inr d' \<Longrightarrow> keys_ok d'"
  by (rule keys_ok_cong [of d]) (auto simp: update_alert_resolved_def)

lemma keys_upsert_vehicle:
  assumes "keys_ok d" "upsert_vehicle_row row d = Inr d'"
  shows "keys_ok d'"
proof (cases "ve_vehicle_id row \<in> set (map ve_vehicle_id (db_vehicles d))")
  case True
  with assms show ?thesis by - (rule keys_ok_cong [of d], auto simp: upsert_vehicle_row_def)
next
  case False
  with assms show ?thesis by (clarsimp simp: upsert_vehicle_row_def keys_ok_def)
qed

text \<open>The other statements do not touch a keyed table.\<close>

lemma keys_unkeyed:
  "keys_ok d \<Longrightarrow> insert_log ts dev l m x d = Inr d' \<Longrightarrow> keys_ok d'"
  "keys_ok d \<Longrightarrow> insert_admin_action t a c i d = Inr d' \<Longrightarrow> keys_ok d'"
  "keys_ok d \<Longrightarrow> insert_trip_update tu d = Inr d' \<Longrightarrow> keys_ok d'"
  "keys_ok d \<Longrightarrow> delete_old_trip_updates k d = Inr d' \<Longrightarrow> keys_ok d'"
  "keys_ok d \<Longrightarrow> insert_telemetry te d = Inr d' \<Longrightarrow> keys_ok d'"
  "keys_ok d \<Longrightarrow> insert_prediction pr d = Inr d' \<Longrightarrow> keys_ok d'"
  "keys_ok d \<Longrightarrow> insert_decision de d = Inr d' \<Longrightarrow> keys_ok d'"
  by (clarsimp simp: insert_log_def insert_admin_action_def insert_trip_update_def delete_old_trip_updates_def
      insert_telemetry_def insert_prediction_def insert_decision_def keys_ok_def)+

end
