(* ===== verification/Db_Writer.thy ===== *)
theory Db_Writer
  imports Database "HOL-Library.Sublist"
begin

text \<open>
  \<open>Database/writer.py\<close>: every method of \<open>DatabaseWriter\<close> as one transaction, with the
  cache of the mapping from devices to stops.  Each transaction is an instance of the
  contract \<open>atomic_write\<close>; the batch insert of trip updates, which isolates bad rows by
  savepoints, has a contract of its own.  \<open>now\<close> is the clock reading of the call.
\<close>

record writer =
  dw_opened :: bool
  dw_stop_id_cache :: "(string, string) dict"

subsection \<open>\<open>datetime.fromtimestamp\<close>\<close>

text \<open>
  Whole seconds and the fraction are split exactly, the fraction in microseconds is
  rounded half to even; years outside 1 to 9999 raise.
\<close>

definition whole_seconds :: "pyfloat \<Rightarrow> int" where
  "whole_seconds t = (if 0 \<le> t then \<lfloor>t\<rfloor> else \<lceil>t\<rceil>)"

definition fromtimestamp :: "pyfloat \<Rightarrow> timestamp result" where
  "fromtimestamp t =
     (let us = whole_seconds t * 1000000 + half_even (fmul (t - of_int (whole_seconds t)) 1000000)
      in if - 62135596800 * 1000000 \<le> us \<and> us < 253402300800 * 1000000 then Inr us else Inl ValueError)"

subsection \<open>The cache\<close>

definition load_stop_id_cache :: "outages \<Rightarrow> writer \<Rightarrow> database session \<Rightarrow> writer \<times> database session" where
  "load_stop_id_cache up self s =
     (case connection (dw_opened self) up
        (query up (\<lambda>d. map (\<lambda>row. (st_device_id row, st_stop_id row)) (db_stops d))) s of
        (Inr rows, t) \<Rightarrow> (self\<lparr>dw_stop_id_cache := dict_of rows\<rparr>, t)
      | (Inl e, t) \<Rightarrow> (self, t))"

definition new_writer :: "bool \<Rightarrow> outages \<Rightarrow> database session \<Rightarrow> writer \<times> database session" where
  "new_writer opened up s = load_stop_id_cache up \<lparr>dw_opened = opened, dw_stop_id_cache = []\<rparr> s"

definition resolve_stop_id ::
    "outages \<Rightarrow> writer \<Rightarrow> string \<Rightarrow> database session \<Rightarrow> string option \<times> writer \<times> database session" where
  "resolve_stop_id up self device_id s =
     (case dict_get (dw_stop_id_cache self) device_id of
        Some stop_id \<Rightarrow> (Some stop_id, self, s)
      | None \<Rightarrow>
          (case load_stop_id_cache up self s of (self', s') \<Rightarrow>
             (dict_get (dw_stop_id_cache self') device_id, self', s')))"

subsection \<open>Active methods\<close>

definition crowd_count_tx ::
    "timestamp \<Rightarrow> string \<Rightarrow> string \<Rightarrow> int \<Rightarrow> string option \<Rightarrow> bool \<Rightarrow> outages \<Rightarrow> database session \<Rightarrow> database session" where
  "crowd_count_tx ts device_id stop_id cnt zone opened up =
     transaction
       [execute up (insert_crowd_count ts device_id stop_id cnt zone),
        execute up (upsert_current_count ts device_id stop_id cnt zone),
        notify up ''crowd_count''] opened up"

definition write_crowd_count ::
    "outages \<Rightarrow> writer \<Rightarrow> string \<Rightarrow> pyfloat \<Rightarrow> int \<Rightarrow> string option \<Rightarrow> database session \<Rightarrow>
     unit result \<times> writer \<times> database session" where
  "write_crowd_count up self device_id tstamp cnt zone s =
     (case resolve_stop_id up self device_id s of
        (None, self', s') \<Rightarrow> (Inr (), self', s')
      | (Some stop_id, self', s') \<Rightarrow>
          (case fromtimestamp tstamp of
             Inl e \<Rightarrow> (Inl e, self', s')
           | Inr ts \<Rightarrow> (Inr (), self', crowd_count_tx ts device_id stop_id cnt zone (dw_opened self') up s')))"

definition log_tx ::
    "timestamp \<Rightarrow> string \<Rightarrow> string \<Rightarrow> string \<Rightarrow> json \<Rightarrow> bool \<Rightarrow> outages \<Rightarrow> database session \<Rightarrow> database session" where
  "log_tx ts device_id level message extra opened up =
     transaction [execute up (insert_log ts device_id level message extra)] opened up"

definition write_log ::
    "outages \<Rightarrow> writer \<Rightarrow> string \<Rightarrow> pyfloat \<Rightarrow> string \<Rightarrow> string \<Rightarrow> json \<Rightarrow> database session \<Rightarrow>
     unit result \<times> database session" where
  "write_log up self device_id tstamp level message extra s =
     (case fromtimestamp tstamp of
        Inl e \<Rightarrow> (Inl e, s)
      | Inr ts \<Rightarrow>
          (Inr (), log_tx ts device_id level message (if truthy extra then extra else JObj []) (dw_opened self) up s))"

definition upsert_stop ::
    "timestamp \<Rightarrow> string \<Rightarrow> bool \<Rightarrow> string option \<Rightarrow> bool \<Rightarrow> outages \<Rightarrow> database session \<Rightarrow> database session" where
  "upsert_stop now device_id is_online zone opened up =
     transaction [execute up (update_stop_status is_online now zone device_id), notify up ''stop_status''] opened up"

definition update_pipeline_active ::
    "string \<Rightarrow> bool \<Rightarrow> bool \<Rightarrow> outages \<Rightarrow> database session \<Rightarrow> database session" where
  "update_pipeline_active device_id active opened up =
     transaction [execute up (update_pipeline active device_id), notify up ''pipeline_active''] opened up"

definition log_admin_action ::
    "string option \<Rightarrow> string \<Rightarrow> json \<Rightarrow> string \<Rightarrow> bool \<Rightarrow> outages \<Rightarrow> database session \<Rightarrow> database session" where
  "log_admin_action target action command initiated_by opened up =
     transaction [execute up (insert_admin_action target action command initiated_by)] opened up"

definition register_model_version ::
    "string \<Rightarrow> string \<Rightarrow> int option \<Rightarrow> string \<Rightarrow> bool \<Rightarrow> outages \<Rightarrow> database session \<Rightarrow> database session" where
  "register_model_version filename sha256 file_size file_path opened up =
     transaction [execute up (insert_model_version filename sha256 file_size file_path)] opened up"

definition create_alert ::
    "timestamp \<Rightarrow> string \<Rightarrow> string \<Rightarrow> string option \<Rightarrow> string option \<Rightarrow> string option \<Rightarrow> bool \<Rightarrow> outages \<Rightarrow>
     database session \<Rightarrow> database session" where
  "create_alert now severity message source device_id route_id opened up =
     transaction [execute up (insert_alert now severity message source device_id route_id), notify up ''alert''] opened up"

definition resolve_alert ::
    "timestamp \<Rightarrow> int \<Rightarrow> bool \<Rightarrow> outages \<Rightarrow> database session \<Rightarrow> database session" where
  "resolve_alert now alert_id opened up =
     transaction [execute up (update_alert_resolved now alert_id), notify up ''alert_resolved''] opened up"

definition upsert_vehicle ::
    "timestamp \<Rightarrow> string \<Rightarrow> string option \<Rightarrow> int \<Rightarrow> string option \<Rightarrow> string \<Rightarrow> int \<Rightarrow> pyfloat \<Rightarrow>
     bool \<Rightarrow> outages \<Rightarrow> database session \<Rightarrow> database session" where
  "upsert_vehicle now vehicle_id route_id capacity current_stop_id state passenger_count occupancy_percent opened up =
     transaction [execute up (upsert_vehicle_row
       \<lparr>ve_vehicle_id = vehicle_id, ve_route_id = route_id, ve_capacity = capacity,
        ve_current_stop_id = current_stop_id, ve_state = state, ve_passenger_count = passenger_count,
        ve_occupancy_percent = occupancy_percent, ve_is_active = True, ve_last_updated = now\<rparr>),
       notify up ''vehicle''] opened up"

text \<open>\<open>ts\<close> is the given time or, when there is none, the clock reading.\<close>

definition write_vehicle_telemetry ::
    "timestamp \<Rightarrow> string \<Rightarrow> string option \<Rightarrow> int \<Rightarrow> pyfloat \<Rightarrow> string option \<Rightarrow> string \<Rightarrow> timestamp option \<Rightarrow>
     bool \<Rightarrow> outages \<Rightarrow> database session \<Rightarrow> database session" where
  "write_vehicle_telemetry now vehicle_id route_id passenger_count occupancy_percent current_stop_id state time opened up =
     transaction [execute up (insert_telemetry
       \<lparr>vt_time = (case time of Some t \<Rightarrow> t | None \<Rightarrow> now), vt_vehicle_id = vehicle_id, vt_route_id = route_id,
        vt_passenger_count = passenger_count, vt_occupancy_percent = occupancy_percent,
        vt_current_stop_id = current_stop_id, vt_state = state\<rparr>)] opened up"

subsection \<open>Predictions and decisions\<close>

definition prediction_row_of ::
    "timestamp \<Rightarrow> route_prediction_result \<Rightarrow> vehicle_prediction \<Rightarrow> stop_prediction \<Rightarrow> prediction_row" where
  "prediction_row_of now result vp sp =
     (let occ_pct = (if 0 < vp_vehicle_capacity vp
                     then py_truediv (sp_predicted_passengers sp) (vp_vehicle_capacity vp) else 0)
      in \<lparr>pr_time = now, pr_vehicle_id = vp_vehicle_id vp, pr_route_id = vp_route_id vp,
          pr_direction_id = rp_direction_id result, pr_stop_id = sp_stop_id sp,
          pr_stop_sequence = sp_stop_sequence sp, pr_predicted_passengers = sp_predicted_passengers sp,
          pr_vehicle_capacity = vp_vehicle_capacity vp, pr_predicted_occupancy_pct = py_round_nd occ_pct 4,
          pr_waiting_at_stop = sp_people_waiting_at_stop sp, pr_boarded = sp_boarded sp,
          pr_alighted = sp_alighted sp, pr_has_data = sp_has_data sp,
          pr_confidence = py_round_nd (vp_confidence vp) 4\<rparr>)"

definition prediction_rows :: "timestamp \<Rightarrow> route_prediction_result \<Rightarrow> prediction_row list" where
  "prediction_rows now result =
     concat (map (\<lambda>vp. map (prediction_row_of now result vp) (vp_stops vp)) (rp_vehicle_predictions result))"

definition write_predictions ::
    "timestamp \<Rightarrow> route_prediction_result \<Rightarrow> bool \<Rightarrow> outages \<Rightarrow> database session \<Rightarrow> database session" where
  "write_predictions now result opened up =
     transaction (map (\<lambda>row. execute up (insert_prediction row)) (prediction_rows now result) @
       (if prediction_rows now result = [] then [] else [notify up ''predictions''])) opened up"

definition decision_of :: "alert \<Rightarrow> string \<Rightarrow> decision_row" where
  "decision_of alert decision_type =
     \<lparr>sd_decision_type = decision_type, sd_route_id = al_route_id alert, sd_direction_id = al_direction_id alert,
      sd_trigger_vehicle_id = al_vehicle_id alert, sd_trigger_stop_id = Some (al_trigger_stop_id alert),
      sd_predicted_passengers = al_predicted_passengers alert,
      sd_predicted_occupancy_pct = py_round_nd (al_predicted_occupancy_pct alert) 4,
      sd_vehicle_capacity = al_vehicle_capacity alert, sd_total_stranded = al_total_stranded alert,
      sd_threshold = (case dict_get (al_trigger_detail alert) ''occupancy_threshold'' of
         Some (JFloat x) \<Rightarrow> Some x | _ \<Rightarrow> None),
      sd_message = al_message alert, sd_metadata = JObj (al_trigger_detail alert)\<rparr>"

definition write_scheduler_decision ::
    "alert \<Rightarrow> string \<Rightarrow> bool \<Rightarrow> outages \<Rightarrow> database session \<Rightarrow> database session" where
  "write_scheduler_decision alert decision_type opened up =
     transaction [execute up (insert_decision (decision_of alert decision_type)),
       notify up ''scheduler_decision''] opened up"

subsection \<open>Trip updates\<close>

text \<open>
  A parsed trip update as the fetcher builds it.  \<open>None\<close> in \<open>time\<close> or \<open>trip_id\<close> is a
  missing key or a null, which the code or the table rejects alike.
\<close>

record trip_update =
  up_time :: "timestamp option"
  up_trip_id :: "string option"
  up_route_id :: "string option"
  up_direction_id :: "int option"
  up_vehicle_id :: "string option"
  up_stop_id :: "string option"
  up_stop_sequence :: "int option"
  up_arrival_delay :: "int option"
  up_departure_delay :: "int option"
  up_raw :: json

definition trip_row_of :: "trip_update \<Rightarrow> trip_row result" where
  "trip_row_of row =
     (case (up_time row, up_trip_id row) of
        (None, _) \<Rightarrow> Inl (KeyError ''time'')
      | (Some t, None) \<Rightarrow> Inl (KeyError ''trip_id'')
      | (Some t, Some trip) \<Rightarrow> Inr
          \<lparr>tu_time = t, tu_trip_id = trip, tu_route_id = up_route_id row, tu_direction_id = up_direction_id row,
           tu_vehicle_id = up_vehicle_id row, tu_stop_id = up_stop_id row, tu_stop_sequence = up_stop_sequence row,
           tu_arrival_delay = up_arrival_delay row, tu_departure_delay = up_departure_delay row, tu_raw = up_raw row\<rparr>)"

definition savepoint_name :: "nat \<Rightarrow> string" where
  "savepoint_name i = ''sp_tu_'' @ digits i"

text \<open>One iteration: whether the row was inserted; an exception of the handler leaves the loop.\<close>

definition insert_row :: "outages \<Rightarrow> nat \<Rightarrow> trip_update \<Rightarrow> (database, bool) io" where
  "insert_row up i row =
     catch_io
       (bind_io (run_all
          [savepoint up (savepoint_name i),
           (case trip_row_of row of Inl e \<Rightarrow> (\<lambda>s. (Inl e, s)) | Inr r \<Rightarrow> execute up (insert_trip_update r)),
           release_savepoint up (savepoint_name i)]) (\<lambda>_ s. (Inr True, s)))
       (bind_io (rollback_to_savepoint up (savepoint_name i)) (\<lambda>_ s. (Inr False, s)))"

fun insert_rows :: "outages \<Rightarrow> nat \<Rightarrow> trip_update list \<Rightarrow> nat \<Rightarrow> (database, nat) io" where
  "insert_rows up i [] inserted s = (Inr inserted, s)"
| "insert_rows up i (row # rows) inserted s =
     bind_io (insert_row up i row)
       (\<lambda>ok. insert_rows up (Suc i) rows (if ok then Suc inserted else inserted)) s"

definition write_gtfs_trip_updates ::
    "trip_update list \<Rightarrow> bool \<Rightarrow> outages \<Rightarrow> database session \<Rightarrow> database session" where
  "write_gtfs_trip_updates updates opened up s =
     (if updates = [] then s
      else logged (connection opened up
        (bind_io (insert_rows up 0 updates 0) (\<lambda>inserted.
           bind_io (if 0 < inserted then notify up ''gtfs_trip_updates'' else (\<lambda>s. (Inr (), s)))
             (\<lambda>_. commit up)))) s)"

definition purge_old_trip_updates :: "int \<Rightarrow> bool \<Rightarrow> outages \<Rightarrow> database session \<Rightarrow> database session" where
  "purge_old_trip_updates retain opened up s =
     (if retain \<le> 0 then s
      else transaction [execute up (delete_old_trip_updates retain)] opened up s)"

definition write_gtfs_vehicle_position :: "unit result" where
  "write_gtfs_vehicle_position = Inl NotImplementedError"

subsection \<open>The transactions satisfy the contract\<close>

interpretation crowd: atomic_write "crowd_count_tx ts dev stop n z"
  "\<lambda>d. bind_result (insert_crowd_count ts dev stop n z d) (upsert_current_count ts dev stop n z)" "[''crowd_count'']"
  for ts dev stop n z
  unfolding crowd_count_tx_def
  by (rule transaction_atomic_write [OF implements_two_notify]) (simp add: add_note_def)

interpretation logtx: atomic_write "log_tx ts dev level m x" "insert_log ts dev level m x" "[]" for ts dev level m x
  unfolding log_tx_def by (rule transaction_atomic_write [OF implements_one]) simp

interpretation stoptx: atomic_write "upsert_stop now dev on z" "update_stop_status on now z dev" "[''stop_status'']"
  for now dev on z
  unfolding upsert_stop_def
  by (rule transaction_atomic_write [OF implements_one_notify]) (simp add: add_note_def)

interpretation admintx: atomic_write "log_admin_action t a c i" "insert_admin_action t a c i" "[]" for t a c i
  unfolding log_admin_action_def by (rule transaction_atomic_write [OF implements_one]) simp

interpretation alerttx: atomic_write "create_alert now sev m src dev rid" "insert_alert now sev m src dev rid" "[''alert'']"
  for now sev m src dev rid
  unfolding create_alert_def
  by (rule transaction_atomic_write [OF implements_one_notify]) (simp add: add_note_def)

interpretation telemetrytx: atomic_write "write_vehicle_telemetry now v rid n occ stop st t"
  "insert_telemetry \<lparr>vt_time = (case t of Some t \<Rightarrow> t | None \<Rightarrow> now), vt_vehicle_id = v, vt_route_id = rid,
      vt_passenger_count = n, vt_occupancy_percent = occ, vt_current_stop_id = stop, vt_state = st\<rparr>" "[]"
  for now v rid n occ stop st t
  unfolding write_vehicle_telemetry_def by (rule transaction_atomic_write [OF implements_one]) simp

interpretation decisiontx: atomic_write "write_scheduler_decision a dt" "insert_decision (decision_of a dt)"
  "[''scheduler_decision'']" for a dt
  unfolding write_scheduler_decision_def
  by (rule transaction_atomic_write [OF implements_one_notify]) (simp add: add_note_def)

text \<open>These may be retried.\<close>

lemma idempotent_writeI:
  "atomic_write wr stmt ps \<Longrightarrow> (\<And>d d'. stmt d = Inr d' \<Longrightarrow> stmt d' = Inr d') \<Longrightarrow> idempotent_write wr stmt ps"
  by (simp add: idempotent_write_def idempotent_write_axioms_def)

lemma upsert_vehicle_row_again:
  assumes "upsert_vehicle_row row d = Inr d'"
  shows "upsert_vehicle_row row d' = Inr d'"
proof (cases "ve_vehicle_id row \<in> set (map ve_vehicle_id (db_vehicles d))")
  case True
  then have "ve_vehicle_id row \<in> set (map ve_vehicle_id
      (map (\<lambda>old. if ve_vehicle_id old = ve_vehicle_id row then row else old) (db_vehicles d)))"
    by force
  then show ?thesis using assms True by (auto simp: upsert_vehicle_row_def)
next
  case False
  then have "map (\<lambda>old. if ve_vehicle_id old = ve_vehicle_id row then row else old) (db_vehicles d) = db_vehicles d"
    by (intro map_idI) (force simp: image_iff)
  then show ?thesis using assms False by (auto simp: upsert_vehicle_row_def)
qed

interpretation pipetx: idempotent_write "update_pipeline_active dev a" "update_pipeline a dev" "[''pipeline_active'']"
  for dev a
proof (rule idempotent_writeI)
  show "atomic_write (update_pipeline_active dev a) (update_pipeline a dev) [''pipeline_active'']"
    unfolding update_pipeline_active_def
    by (rule transaction_atomic_write [OF implements_one_notify]) (simp add: add_note_def)
qed (auto simp: update_pipeline_def)

interpretation modeltx: idempotent_write "register_model_version f sha n p" "insert_model_version f sha n p" "[]"
  for f sha n p
proof (rule idempotent_writeI)
  show "atomic_write (register_model_version f sha n p) (insert_model_version f sha n p) []"
    unfolding register_model_version_def by (rule transaction_atomic_write [OF implements_one]) simp
qed (auto simp: insert_model_version_def split: if_splits)

interpretation resolvetx: idempotent_write "resolve_alert now i" "update_alert_resolved now i" "[''alert_resolved'']"
  for now i
proof (rule idempotent_writeI)
  show "atomic_write (resolve_alert now i) (update_alert_resolved now i) [''alert_resolved'']"
    unfolding resolve_alert_def
    by (rule transaction_atomic_write [OF implements_one_notify]) (simp add: add_note_def)
qed (auto simp: update_alert_resolved_def)

interpretation vehicletx: idempotent_write "upsert_vehicle now v rid c stop st n occ"
  "upsert_vehicle_row \<lparr>ve_vehicle_id = v, ve_route_id = rid, ve_capacity = c,
      ve_current_stop_id = stop, ve_state = st, ve_passenger_count = n,
      ve_occupancy_percent = occ, ve_is_active = True, ve_last_updated = now\<rparr>" "[''vehicle'']"
  for now v rid c stop st n occ
proof (rule idempotent_writeI)
  show "atomic_write (upsert_vehicle now v rid c stop st n occ)
     (upsert_vehicle_row \<lparr>ve_vehicle_id = v, ve_route_id = rid, ve_capacity = c,
      ve_current_stop_id = stop, ve_state = st, ve_passenger_count = n,
      ve_occupancy_percent = occ, ve_is_active = True, ve_last_updated = now\<rparr>) [''vehicle'']"
    unfolding upsert_vehicle_def
    by (rule transaction_atomic_write [OF implements_one_notify]) (simp add: add_note_def)
qed (rule upsert_vehicle_row_again)

text \<open>A batch of predictions is one transaction, notified when there is a row.\<close>

interpretation predictiontx: atomic_write "write_predictions now r"
  "exec_seq (map insert_prediction (prediction_rows now r))"
  "if prediction_rows now r = [] then [] else [''predictions'']"
  for now r
  unfolding write_predictions_def
proof (rule transaction_atomic_write)
  fix up
  show "implements up
     (run_all (map (\<lambda>row. execute up (insert_prediction row)) (prediction_rows now r) @
        (if prediction_rows now r = [] then [] else [notify up ''predictions''])))
     (exec_seq (map insert_prediction (prediction_rows now r)))
     (if prediction_rows now r = [] then [] else [''predictions''])"
  proof (cases "prediction_rows now r = []")
    case True
    then show ?thesis using implements_run_Nil [of up] by (simp add: exec_seq.simps(1) [abs_def])
  next
    case False
    show ?thesis
      using implements_many [OF implements_run_Cons [OF implements_notify [of up "''predictions''"] implements_run_Nil],
          of "map insert_prediction (prediction_rows now r)"] False
      by (simp add: comp_def)
  qed
qed (simp add: add_note_def)

lemma insert_prediction_Inr:
  "insert_prediction row d = Inr d' \<Longrightarrow> d' = d\<lparr>db_predictions := db_predictions d @ [row]\<rparr>"
  by (auto simp: insert_prediction_def)

lemma exec_insert_predictions:
  "exec_seq (map insert_prediction rows) d = Inr d' \<Longrightarrow> d' = d\<lparr>db_predictions := db_predictions d @ rows\<rparr>"
proof (induction rows arbitrary: d)
  case (Cons row rows)
  then obtain d1 where "insert_prediction row d = Inr d1" "exec_seq (map insert_prediction rows) d1 = Inr d'"
    by (cases "insert_prediction row d") auto
  then show ?case using Cons.IH insert_prediction_Inr by force
qed simp

subsection \<open>The loop over trip updates\<close>

text \<open>A row goes in exactly when it has its required columns and is accepted by the table.\<close>

definition trip_row_ok :: "trip_update \<Rightarrow> bool" where
  "trip_row_ok row \<longleftrightarrow> up_time row \<noteq> None \<and> up_trip_id row \<noteq> None \<and>
     opt_all int2 (up_direction_id row) \<and> opt_all int4 (up_stop_sequence row) \<and>
     opt_all int4 (up_arrival_delay row) \<and> opt_all int4 (up_departure_delay row)"

definition stored_trip_row :: "trip_update \<Rightarrow> trip_row" where
  "stored_trip_row row =
     \<lparr>tu_time = the (up_time row), tu_trip_id = the (up_trip_id row), tu_route_id = up_route_id row,
      tu_direction_id = up_direction_id row, tu_vehicle_id = up_vehicle_id row, tu_stop_id = up_stop_id row,
      tu_stop_sequence = up_stop_sequence row, tu_arrival_delay = up_arrival_delay row,
      tu_departure_delay = up_departure_delay row, tu_raw = up_raw row\<rparr>"

lemma trip_row_of_cases:
  "trip_row_ok row \<Longrightarrow> trip_row_of row = Inr (stored_trip_row row)"
  "trip_row_of row = Inr r \<Longrightarrow> r = stored_trip_row row"
  by (auto simp: trip_row_ok_def trip_row_of_def stored_trip_row_def split: option.splits)

lemma insert_trip_update_ok:
  "trip_row_of row = Inr r \<Longrightarrow>
   insert_trip_update r d = (if trip_row_ok row then Inr (d\<lparr>db_trip_updates := db_trip_updates d @ [stored_trip_row row]\<rparr>)
     else Inl DatabaseError)"
  by (auto simp: trip_row_ok_def trip_row_of_def stored_trip_row_def insert_trip_update_def checked_def split: option.splits)

definition add_trips :: "trip_row list \<Rightarrow> database \<Rightarrow> database" where
  "add_trips rows d = d\<lparr>db_trip_updates := db_trip_updates d @ rows\<rparr>"

lemma add_trips_simps [simp]:
  "add_trips [] d = d" "add_trips ys (add_trips xs d) = add_trips (xs @ ys) d"
  by (simp_all add: add_trips_def)

text \<open>
  One row in a live transaction: it is inserted, or left out with the working copy and the
  notifications as before, and the transaction is live again; otherwise the server was
  not reached.
\<close>

definition saves_below :: "nat \<Rightarrow> database session \<Rightarrow> bool" where
  "saves_below i s \<longleftrightarrow> (\<forall>p \<in> set (se_saves s). \<exists>j < i. fst p = savepoint_name j)"

lemma savepoint_name_inj [simp]: "savepoint_name i = savepoint_name j \<longleftrightarrow> i = j"
  by (simp add: savepoint_name_def digits_inj)

lemma no_savepoint: "saves_below i s \<Longrightarrow> dropWhile (\<lambda>p. fst p \<noteq> savepoint_name i) (se_saves s) = []"
  by (auto simp: saves_below_def)

lemma saves_below_Suc:
  "saves_below i s \<Longrightarrow> se_saves t = se_saves s \<or> se_saves t = (savepoint_name i, d, ps) # se_saves s \<Longrightarrow>
   saves_below (Suc i) t"
  by (fastforce simp: saves_below_def less_Suc_eq)

lemmas row_defs = insert_row_def catch_io_def bind_io_def savepoint_def release_savepoint_def
  rollback_to_savepoint_def call_def execute_def add_trips_def Let_def

lemma insert_row_effect:
  assumes "\<not> se_aborted s" "saves_below i s"
  shows "case insert_row up i row s of
     (Inr ok, t) \<Rightarrow> \<not> se_aborted t \<and> se_pending t = se_pending s \<and>
        se_committed t = se_committed s \<and> se_delivered t = se_delivered s \<and>
        se_work t = (if ok then add_trips [stored_trip_row row] (se_work s) else se_work s) \<and>
        (ok \<longrightarrow> trip_row_ok row) \<and> ((\<forall>n. up n) \<longrightarrow> (ok \<longleftrightarrow> trip_row_ok row)) \<and>
        (se_saves t = se_saves s \<or> (\<exists>d ps. se_saves t = (savepoint_name i, d, ps) # se_saves s))
   | (Inl e, t) \<Rightarrow> (\<exists>n. \<not> up n) \<and> se_committed t = se_committed s \<and> se_delivered t = se_delivered s"
proof (cases "trip_row_of row")
  case (Inl e)
  then have "\<not> trip_row_ok row" using trip_row_of_cases(1) by force
  then show ?thesis using assms(1) Inl by (auto simp: row_defs no_savepoint [OF assms(2)] split: list.splits)
next
  case (Inr r)
  then show ?thesis using assms(1) insert_trip_update_ok [OF Inr]
    by (cases "trip_row_ok row") (auto simp: row_defs no_savepoint [OF assms(2)] split: list.splits)
qed

definition valid_trip_rows :: "trip_update list \<Rightarrow> trip_row list" where
  "valid_trip_rows updates = map stored_trip_row (filter trip_row_ok updates)"

lemma insert_rows_effect:
  assumes "\<not> se_aborted s" "saves_below i s"
  shows "case insert_rows up i rows k s of
     (Inr n, t) \<Rightarrow> \<not> se_aborted t \<and> se_pending t = se_pending s \<and>
        se_committed t = se_committed s \<and> se_delivered t = se_delivered s \<and>
        (\<exists>ins. se_work t = add_trips ins (se_work s) \<and> n = k + length ins \<and>
           subseq ins (valid_trip_rows rows) \<and> ((\<forall>n. up n) \<longrightarrow> ins = valid_trip_rows rows))
   | (Inl e, t) \<Rightarrow> (\<exists>n. \<not> up n) \<and> se_committed t = se_committed s \<and> se_delivered t = se_delivered s"
  using assms
proof (induction rows arbitrary: i k s)
  case Nil
  then show ?case by (auto simp: valid_trip_rows_def)
next
  case (Cons row rows)
  obtain r s' where row: "insert_row up i row s = (r, s')" by force
  show ?case
  proof (cases r)
    case (Inl e)
    then show ?thesis using insert_row_effect [OF Cons.prems, where up = up and row = row] row by (simp add: bind_io_def)
  next
    case (Inr ok)
    note s' = insert_row_effect [OF Cons.prems, where up = up and row = row, unfolded row Inr prod.case sum.case]
    have below: "saves_below (Suc i) s'" using s' saves_below_Suc [OF Cons.prems(2)] by blast
    define k' where "k' = (if ok then Suc k else k)"
    obtain r' t where rest: "insert_rows up (Suc i) rows k' s' = (r', t)" by force
    have run: "insert_rows up i (row # rows) k s = (r', t)"
      using row Inr rest by (simp add: bind_io_def k'_def)
    note IH = Cons.IH [where s = s' and i = "Suc i" and k = k', unfolded rest]
    show ?thesis
    proof (cases r')
      case (Inl e)
      then show ?thesis using IH s' below run by simp
    next
      case (Inr n)
      then obtain ins where ins: "se_work t = add_trips ins (se_work s')" "n = k' + length ins"
          "subseq ins (valid_trip_rows rows)" "(\<forall>n. up n) \<longrightarrow> ins = valid_trip_rows rows"
        using IH s' below by auto
      define ins' where "ins' = (if ok then stored_trip_row row # ins else ins)"
      have "se_work t = add_trips ins' (se_work s)" "n = k + length ins'"
        using s' ins(1,2) by (auto simp: ins'_def k'_def)
      moreover have "subseq ins' (valid_trip_rows (row # rows))"
        using s' ins(3) by (auto simp: ins'_def valid_trip_rows_def)
      moreover have "(\<forall>n. up n) \<longrightarrow> ins' = valid_trip_rows (row # rows)"
        using s' ins(4) by (auto simp: ins'_def valid_trip_rows_def)
      ultimately show ?thesis using run Inr IH s' below by auto
    qed
  qed
qed

text \<open>The whole method.\<close>

lemma write_trips_idle: "idle s \<Longrightarrow> idle (write_gtfs_trip_updates updates opened up s)"
  by (simp add: write_gtfs_trip_updates_def logged_def connection_idle)

lemma write_trips_outcome:
  assumes "idle s"
  obtains (unchanged) "se_committed (write_gtfs_trip_updates updates opened up s) = se_committed s"
      "se_delivered (write_gtfs_trip_updates updates opened up s) = se_delivered s"
      "opened \<and> (\<forall>n. up n) \<Longrightarrow> valid_trip_rows updates = []"
  | (inserted) ins where "se_committed (write_gtfs_trip_updates updates opened up s) = add_trips ins (se_committed s)"
      "se_delivered (write_gtfs_trip_updates updates opened up s) =
         se_delivered s @ (if ins = [] then [] else [''gtfs_trip_updates''])"
      "subseq ins (valid_trip_rows updates)" "(\<forall>n. up n) \<longrightarrow> ins = valid_trip_rows updates"
proof (cases "updates = [] \<or> \<not> (opened \<and> up (se_calls s))")
  case True
  then show ?thesis
    by (intro unchanged) (auto simp: write_gtfs_trip_updates_def logged_def connection_def Let_def valid_trip_rows_def)
next
  case False
  let ?s = "s\<lparr>se_calls := Suc (se_calls s)\<rparr>"
  have ab: "\<not> se_aborted ?s" "saves_below 0 ?s" and w: "se_work ?s = se_committed s" "se_pending ?s = []"
    using assms by (simp_all add: idle_def saves_below_def)
  obtain r t where rows: "insert_rows up 0 updates 0 ?s = (r, t)" by force
  note e = insert_rows_effect [OF ab, where up = up and rows = updates and k = 0, unfolded rows]
  show ?thesis
  proof (cases r)
    case (Inl e')
    then show ?thesis using False rows e
      by (intro unchanged) (auto simp: write_gtfs_trip_updates_def logged_def connection_def bind_io_def Let_def)
  next
    case (Inr n)
    then obtain ins where ins: "se_work t = add_trips ins (se_committed s)" "n = length ins"
      "subseq ins (valid_trip_rows updates)" "(\<forall>n. up n) \<longrightarrow> ins = valid_trip_rows updates"
      "\<not> se_aborted t" "se_pending t = []" "se_committed t = se_committed s" "se_delivered t = se_delivered s"
      using e w by auto
    show ?thesis
    proof (cases "if ins = [] then up (se_calls t) else up (se_calls t) \<and> up (Suc (se_calls t))")
      case True
      then show ?thesis using False rows ins Inr
        by (intro inserted [of ins])
          (auto simp: write_gtfs_trip_updates_def logged_def connection_def bind_io_def notify_def call_def commit_def
            Let_def split: if_splits)
    next
      case down: False
      then show ?thesis using False rows ins Inr
        by (intro unchanged)
          (auto simp: write_gtfs_trip_updates_def logged_def connection_def bind_io_def notify_def call_def commit_def
            Let_def split: if_splits)
    qed
  qed
qed

end
