(* ===== verification/Db_Writer_Properties.thy ===== *)
theory Db_Writer_Properties
  imports Db_Writer Engine_Properties
begin

text \<open>
  The properties of the writer: what holds after any sequence of its calls under any
  outages, and what each of the composite writes commits.
\<close>

subsection \<open>Sequences of calls\<close>

datatype writer_op =
    Op_crowd_count string pyfloat int "string option"
  | Op_log string pyfloat string string json
  | Op_stop timestamp string bool "string option"
  | Op_pipeline string bool
  | Op_admin "string option" string json string
  | Op_model string string "int option" string
  | Op_alert timestamp string string "string option" "string option" "string option"
  | Op_resolve timestamp int
  | Op_vehicle timestamp string "string option" int "string option" string int pyfloat
  | Op_telemetry timestamp string "string option" int pyfloat "string option" string "timestamp option"
  | Op_predictions timestamp route_prediction_result
  | Op_decision alert string
  | Op_trips "trip_update list"
  | Op_purge int

fun apply_op :: "outages \<Rightarrow> writer_op \<Rightarrow> writer \<times> database session \<Rightarrow> writer \<times> database session" where
  "apply_op up (Op_crowd_count dev t n z) (w, s) = snd (write_crowd_count up w dev t n z s)"
| "apply_op up (Op_log dev t l m x) (w, s) = (w, snd (write_log up w dev t l m x s))"
| "apply_op up (Op_stop now dev on z) (w, s) = (w, upsert_stop now dev on z (dw_opened w) up s)"
| "apply_op up (Op_pipeline dev a) (w, s) = (w, update_pipeline_active dev a (dw_opened w) up s)"
| "apply_op up (Op_admin t a c i) (w, s) = (w, log_admin_action t a c i (dw_opened w) up s)"
| "apply_op up (Op_model f sha n p) (w, s) = (w, register_model_version f sha n p (dw_opened w) up s)"
| "apply_op up (Op_alert now sev m src dev rid) (w, s) = (w, create_alert now sev m src dev rid (dw_opened w) up s)"
| "apply_op up (Op_resolve now i) (w, s) = (w, resolve_alert now i (dw_opened w) up s)"
| "apply_op up (Op_vehicle now v rid c stop st n occ) (w, s) =
     (w, upsert_vehicle now v rid c stop st n occ (dw_opened w) up s)"
| "apply_op up (Op_telemetry now v rid n occ stop st t) (w, s) =
     (w, write_vehicle_telemetry now v rid n occ stop st t (dw_opened w) up s)"
| "apply_op up (Op_predictions now r) (w, s) = (w, write_predictions now r (dw_opened w) up s)"
| "apply_op up (Op_decision a dt) (w, s) = (w, write_scheduler_decision a dt (dw_opened w) up s)"
| "apply_op up (Op_trips us) (w, s) = (w, write_gtfs_trip_updates us (dw_opened w) up s)"
| "apply_op up (Op_purge k) (w, s) = (w, purge_old_trip_updates k (dw_opened w) up s)"

definition run_ops :: "outages \<Rightarrow> writer_op list \<Rightarrow> writer \<times> database session \<Rightarrow> writer \<times> database session" where
  "run_ops up ops ws = fold (apply_op up) ops ws"

text \<open>Reading the cache touches no data.\<close>

lemma load_cache_keeps:
  assumes "idle s" "load_stop_id_cache up w s = (w', s')"
  shows "idle s' \<and> se_committed s' = se_committed s \<and> se_delivered s' = se_delivered s \<and> dw_opened w' = dw_opened w"
proof -
  let ?q = "query up (\<lambda>d. map (\<lambda>row. (st_device_id row, st_stop_id row)) (db_stops d))"
  have "se_committed (snd (connection (dw_opened w) up ?q s)) = se_committed s \<and>
      se_delivered (snd (connection (dw_opened w) up ?q s)) = se_delivered s"
    by (auto simp: connection_def query_def call_def Let_def)
  moreover have "idle (snd (connection (dw_opened w) up ?q s))" by (rule connection_idle [OF assms(1)])
  ultimately show ?thesis
    using assms(2) by (auto simp: load_stop_id_cache_def split: prod.splits sum.splits)
qed

lemma resolve_keeps:
  assumes "idle s" "resolve_stop_id up w dev s = (stop, w', s')"
  shows "idle s' \<and> se_committed s' = se_committed s \<and> se_delivered s' = se_delivered s \<and>
    dw_opened w' = dw_opened w \<and> stop = dict_get (dw_stop_id_cache w') dev"
  using assms load_cache_keeps [OF assms(1), of up w]
  by (auto simp: resolve_stop_id_def split: option.splits prod.splits)

lemma write_crowd_count_cases:
  assumes "idle s" "write_crowd_count up w dev t n z s = (r, w', s')"
  obtains (skipped) "idle s'" "se_committed s' = se_committed s" "se_delivered s' = se_delivered s"
      "dict_get (dw_stop_id_cache w') dev = None \<or> (\<exists>e. fromtimestamp t = Inl e)"
  | (written) s0 ts stop where "idle s0" "se_committed s0 = se_committed s" "se_delivered s0 = se_delivered s"
      "fromtimestamp t = Inr ts" "dict_get (dw_stop_id_cache w') dev = Some stop" "dw_opened w' = dw_opened w"
      "s' = crowd_count_tx ts dev stop n z (dw_opened w') up s0"
proof -
  obtain stop w1 s1 where res: "resolve_stop_id up w dev s = (stop, w1, s1)" by (metis prod_cases3)
  note k = resolve_keeps [OF assms(1) res]
  show ?thesis
  proof (cases stop)
    case None
    then have "w' = w1" "s' = s1" using assms(2) res by (auto simp: write_crowd_count_def)
    then show ?thesis using k None by (intro skipped) auto
  next
    case (Some st)
    show ?thesis
    proof (cases "fromtimestamp t")
      case (Inl e)
      then have "w' = w1" "s' = s1" using assms(2) res Some by (auto simp: write_crowd_count_def)
      then show ?thesis using k Inl by (intro skipped) auto
    next
      case (Inr ts)
      then have "w' = w1" "s' = crowd_count_tx ts dev st n z (dw_opened w1) up s1"
        using assms(2) res Some by (auto simp: write_crowd_count_def)
      then show ?thesis using k Inr Some by (intro written [of s1 ts st]) auto
    qed
  qed
qed

text \<open>An invariant of the tables that every statement of the writer keeps.\<close>

locale table_invariant =
  fixes I :: "database \<Rightarrow> bool"
  assumes crowd: "I d \<Longrightarrow>
      bind_result (insert_crowd_count ts dev stop n z d) (upsert_current_count ts dev stop n z) = Inr d' \<Longrightarrow> I d'"
    and log: "I d \<Longrightarrow> insert_log ts dev l m x d = Inr d' \<Longrightarrow> I d'"
    and stop: "I d \<Longrightarrow> update_stop_status on ts z dev d = Inr d' \<Longrightarrow> I d'"
    and pipeline: "I d \<Longrightarrow> update_pipeline on dev d = Inr d' \<Longrightarrow> I d'"
    and admin: "I d \<Longrightarrow> insert_admin_action z m x l d = Inr d' \<Longrightarrow> I d'"
    and model: "I d \<Longrightarrow> insert_model_version l m k dev d = Inr d' \<Longrightarrow> I d'"
    and alert: "I d \<Longrightarrow> insert_alert ts l m z z' z'' d = Inr d' \<Longrightarrow> I d'"
    and resolve: "I d \<Longrightarrow> update_alert_resolved ts n d = Inr d' \<Longrightarrow> I d'"
    and vehicle: "I d \<Longrightarrow> upsert_vehicle_row ve d = Inr d' \<Longrightarrow> I d'"
    and telemetry: "I d \<Longrightarrow> insert_telemetry te d = Inr d' \<Longrightarrow> I d'"
    and prediction: "I d \<Longrightarrow> insert_prediction pr d = Inr d' \<Longrightarrow> I d'"
    and decision: "I d \<Longrightarrow> insert_decision de d = Inr d' \<Longrightarrow> I d'"
    and purge: "I d \<Longrightarrow> delete_old_trip_updates n d = Inr d' \<Longrightarrow> I d'"
    and trips: "I d \<Longrightarrow> I (add_trips rows d)"

lemma exec_seq_keeps:
  "(\<And>f d d'. f \<in> set fs \<Longrightarrow> I d \<Longrightarrow> f d = Inr d' \<Longrightarrow> I d') \<Longrightarrow> I d \<Longrightarrow> exec_seq fs d = Inr d' \<Longrightarrow> I d'"
proof (induction fs arbitrary: d)
  case (Cons f fs)
  then obtain d1 where d1: "f d = Inr d1" "exec_seq fs d1 = Inr d'" by (cases "f d") auto
  then have "I d1" using Cons.prems(1,2) by auto
  then show ?case using Cons.IH [of d1] Cons.prems(1) d1(2) by auto
qed simp

lemma purge_atomic:
  "0 < k \<Longrightarrow> atomic_write (purge_old_trip_updates k) (delete_old_trip_updates k) []"
proof -
  assume "0 < k"
  then have "purge_old_trip_updates k = (\<lambda>opened up. transaction [execute up (delete_old_trip_updates k)] opened up)"
    by (auto simp: purge_old_trip_updates_def fun_eq_iff)
  then show ?thesis using transaction_atomic_write [OF implements_one, where payloads = "[]" and stmt = "delete_old_trip_updates k"] by simp
qed

lemma write_trips_keeps:
  assumes "idle s" "I (se_committed s)" "\<And>d rows. I d \<Longrightarrow> I (add_trips rows d)"
  shows "I (se_committed (write_gtfs_trip_updates us opened up s))"
  using assms(2,3) by (cases rule: write_trips_outcome [OF assms(1), of us opened up]) auto

lemma atomic_write_step:
  assumes "atomic_write wr stmt ps" "idle s" "I (se_committed s)" "\<And>d d'. I d \<Longrightarrow> stmt d = Inr d' \<Longrightarrow> I d'"
  shows "idle (wr opened up s) \<and> I (se_committed (wr opened up s))"
  using atomic_write.keeps [OF assms(1,2), where I = I, OF assms(3,4)] atomic_write.idle_wr [OF assms(1,2)] by simp

context table_invariant
begin

lemma crowd_count_keeps:
  assumes s: "idle s" "I (se_committed s)" and wr: "write_crowd_count up w dev t n z s = (r, w', s')"
  shows "idle s' \<and> I (se_committed s')"
proof (cases rule: write_crowd_count_cases [OF s(1) wr])
  case 1
  then show ?thesis using s by simp
next
  case (2 s0 ts stop)
  have "I (se_committed s0)" using 2(2) s(2) by simp
  from atomic_write_step [where I = I, OF crowd.atomic_write_axioms 2(1) this crowd] show ?thesis unfolding 2(7) .
qed

text \<open>Every call keeps it, whatever fails.\<close>

lemma apply_op_keeps:
  assumes s: "idle s" "I (se_committed s)"
  shows "idle (snd (apply_op up op (w, s))) \<and> I (se_committed (snd (apply_op up op (w, s))))"
proof (cases op)
  case (Op_crowd_count dev t n z)
  obtain r w' s' where wr: "write_crowd_count up w dev t n z s = (r, w', s')" by (metis prod_cases3)
  from crowd_count_keeps [OF s wr] show ?thesis using Op_crowd_count wr by simp
next
  case (Op_log dev t l m x)
  show ?thesis
  proof (cases "fromtimestamp t")
    case (Inr ts)
    from atomic_write_step [where I = I, OF logtx.atomic_write_axioms s log] show ?thesis
      using Op_log Inr by (simp add: write_log_def)
  qed (use Op_log s in \<open>simp add: write_log_def\<close>)
next
  case (Op_predictions now r)
  have "I d \<Longrightarrow> exec_seq (map insert_prediction (prediction_rows now r)) d = Inr d' \<Longrightarrow> I d'" for d d'
    by (rule exec_seq_keeps [where I = I and fs = "map insert_prediction (prediction_rows now r)"])
      (auto intro: prediction)
  from atomic_write_step [where I = I, OF predictiontx.atomic_write_axioms s this] show ?thesis using Op_predictions by simp
next
  case (Op_trips us)
  then show ?thesis using write_trips_idle [OF s(1)] write_trips_keeps [where I = I, OF s trips] by simp
next
  case (Op_purge k)
  show ?thesis
  proof (cases "0 < k")
    case True
    from atomic_write_step [where I = I, OF purge_atomic [OF True] s purge] show ?thesis using Op_purge by simp
  qed (use Op_purge s in \<open>simp add: purge_old_trip_updates_def\<close>)
qed (use atomic_write_step [where I = I, OF stoptx.atomic_write_axioms s stop]
    atomic_write_step [where I = I, OF pipetx.atomic_write_axioms s pipeline]
    atomic_write_step [where I = I, OF admintx.atomic_write_axioms s admin]
    atomic_write_step [where I = I, OF modeltx.atomic_write_axioms s model]
    atomic_write_step [where I = I, OF alerttx.atomic_write_axioms s alert]
    atomic_write_step [where I = I, OF resolvetx.atomic_write_axioms s resolve]
    atomic_write_step [where I = I, OF vehicletx.atomic_write_axioms s vehicle]
    atomic_write_step [where I = I, OF telemetrytx.atomic_write_axioms s telemetry]
    atomic_write_step [where I = I, OF decisiontx.atomic_write_axioms s decision] in simp_all)

lemma run_ops_keeps:
  assumes "idle s" "I (se_committed s)"
  shows "idle (snd (run_ops up ops (w, s))) \<and> I (se_committed (snd (run_ops up ops (w, s))))"
  using assms
proof (induction ops arbitrary: w s)
  case (Cons op ops)
  obtain w' s' where s': "apply_op up op (w, s) = (w', s')" by force
  with apply_op_keeps [OF Cons.prems, of up op w] have "idle s'" "I (se_committed s')" by simp_all
  from Cons.IH [OF this, of w'] show ?case by (simp add: run_ops_def s')
qed (simp add: run_ops_def)

end

text \<open>The keys of the schema are such an invariant.\<close>

interpretation keys: table_invariant keys_ok
proof
  fix ts dev stop n z d d'
  assume "keys_ok d" "bind_result (insert_crowd_count ts dev stop n z d) (upsert_current_count ts dev stop n z) = Inr d'"
  then show "keys_ok d'"
    by (cases "insert_crowd_count ts dev stop n z d") (auto dest: keys_insert_crowd keys_upsert_current)
next
  fix d rows assume "keys_ok d"
  then show "keys_ok (add_trips rows d)" by (clarsimp simp: keys_ok_def add_trips_def)
qed (fact keys_unkeyed keys_update_stop keys_update_pipeline keys_insert_model keys_insert_alert
    keys_resolve_alert keys_upsert_vehicle)+

subsection \<open>The latest count of every device\<close>

definition device_history :: "database \<Rightarrow> string \<Rightarrow> crowd_row list" where
  "device_history d dev = rev (filter (\<lambda>r. cr_device_id r = dev) (db_crowd_count d))"

definition latest_row :: "crowd_row \<Rightarrow> crowd_row list \<Rightarrow> current_row \<Rightarrow> bool" where
  "latest_row r prev row \<longleftrightarrow>
     cc_device_id row = cr_device_id r \<and> cc_count row = cr_count r \<and> cc_zone row = cr_zone r \<and>
     cc_updated_at row = cr_time r \<and>
     cc_previous_count row = (case prev of [] \<Rightarrow> None | p # ps \<Rightarrow> Some (cr_count p))"

definition counts_agree :: "database \<Rightarrow> bool" where
  "counts_agree d \<longleftrightarrow> (\<forall>dev. case device_history d dev of
       [] \<Rightarrow> dev \<notin> set (map cc_device_id (db_current_counts d))
     | r # prev \<Rightarrow> (\<exists>row \<in> set (db_current_counts d). latest_row r prev row))"

lemma counts_agree_cong:
  assumes "counts_agree d" "db_crowd_count d' = db_crowd_count d" "db_current_counts d' = db_current_counts d"
  shows "counts_agree d'"
proof -
  have "device_history d' = device_history d" using assms(2) by (simp add: device_history_def fun_eq_iff)
  then have "counts_agree d' = counts_agree d" unfolding counts_agree_def assms(3) by (rule ssubst) (rule refl)
  then show ?thesis using assms(1) by simp
qed

lemma device_history_Cons: "device_history d dev = r # prev \<Longrightarrow> cr_device_id r = dev"
proof -
  assume "device_history d dev = r # prev"
  then have "r \<in> set (device_history d dev)" by simp
  then show ?thesis by (simp add: device_history_def)
qed

lemma counts_agree_write:
  assumes I: "counts_agree d"
    and w: "bind_result (insert_crowd_count ts dev stop n z d) (upsert_current_count ts dev stop n z) = Inr d'"
  shows "counts_agree d'"
proof -
  let ?new = "\<lparr>cr_time = ts, cr_device_id = dev, cr_stop_id = stop, cr_count = n, cr_zone = z\<rparr>"
  define upd :: "current_row \<Rightarrow> current_row" where "upd = (\<lambda>row. if cc_device_id row = dev
      then row\<lparr>cc_previous_count := Some (cc_count row), cc_count := n, cc_zone := z, cc_updated_at := ts\<rparr> else row)"
  have hist: "device_history d' dev' = (if dev' = dev then ?new # device_history d dev else device_history d dev')" for dev'
    using w by (cases "insert_crowd_count ts dev stop n z d")
      (auto simp: insert_crowd_count_def upsert_current_count_def device_history_def checked_def split: if_splits)
  have cur: "db_current_counts d' =
      (if dev \<in> set (map cc_device_id (db_current_counts d)) then map upd (db_current_counts d)
       else db_current_counts d @ [\<lparr>cc_device_id = dev, cc_stop_id = stop, cc_count = n, cc_previous_count = None,
              cc_zone = z, cc_updated_at = ts\<rparr>])"
    using w by (cases "insert_crowd_count ts dev stop n z d")
      (auto simp: insert_crowd_count_def upsert_current_count_def checked_def upd_def split: if_splits)
  show ?thesis unfolding counts_agree_def
  proof
    fix dev'
    note old = I [unfolded counts_agree_def, rule_format, of dev']
    show "case device_history d' dev' of
         [] \<Rightarrow> dev' \<notin> set (map cc_device_id (db_current_counts d'))
       | r # prev \<Rightarrow> (\<exists>row \<in> set (db_current_counts d'). latest_row r prev row)"
    proof (cases "dev' = dev")
      case True
      show ?thesis
      proof (cases "device_history d dev")
        case Nil
        then show ?thesis using True old hist cur by (simp add: latest_row_def)
      next
        case (Cons r prev)
        then obtain row where row: "row \<in> set (db_current_counts d)" "latest_row r prev row"
          using old True by auto
        have "cr_device_id r = dev" by (rule device_history_Cons [OF Cons])
        then have "latest_row ?new (r # prev) (upd row)" "cc_device_id row = dev"
          using row(2) by (auto simp: latest_row_def upd_def)
        then show ?thesis using row(1) True hist cur Cons by force
      qed
    next
      case False
      show ?thesis
      proof (cases "device_history d dev'")
        case Nil
        then show ?thesis using False old hist cur by (auto simp: upd_def split: if_splits)
      next
        case (Cons r prev)
        then obtain row where row: "row \<in> set (db_current_counts d)" "latest_row r prev row"
          using old by auto
        have "cr_device_id r = dev'" by (rule device_history_Cons [OF Cons])
        then have same: "upd row = row" using row(2) False by (auto simp: latest_row_def upd_def)
        have "upd row \<in> upd ` set (db_current_counts d)" by (rule imageI [OF row(1)])
        then have "row \<in> set (db_current_counts d')" using row(1) unfolding same by (auto simp: cur)
        then show ?thesis using row(2) False hist Cons by auto
      qed
    qed
  qed
qed

lemma crowd_statement_total:
  "int4 n \<Longrightarrow> dev \<in> set (map st_device_id (db_stops d)) \<Longrightarrow>
   \<exists>d'. bind_result (insert_crowd_count ts dev stop n z d) (upsert_current_count ts dev stop n z) = Inr d'"
  by (simp add: insert_crowd_count_def upsert_current_count_def checked_def)

text \<open>No other statement touches the two tables.\<close>

lemma count_tables_frame:
  "insert_log ts dev l m x d = Inr d' \<Longrightarrow> db_crowd_count d' = db_crowd_count d \<and> db_current_counts d' = db_current_counts d"
  "update_stop_status on ts z dev d = Inr d' \<Longrightarrow> db_crowd_count d' = db_crowd_count d \<and> db_current_counts d' = db_current_counts d"
  "update_pipeline on dev d = Inr d' \<Longrightarrow> db_crowd_count d' = db_crowd_count d \<and> db_current_counts d' = db_current_counts d"
  "insert_admin_action z m x l d = Inr d' \<Longrightarrow> db_crowd_count d' = db_crowd_count d \<and> db_current_counts d' = db_current_counts d"
  "insert_model_version l m k dev d = Inr d' \<Longrightarrow> db_crowd_count d' = db_crowd_count d \<and> db_current_counts d' = db_current_counts d"
  "insert_alert ts l m z z' z'' d = Inr d' \<Longrightarrow> db_crowd_count d' = db_crowd_count d \<and> db_current_counts d' = db_current_counts d"
  "update_alert_resolved ts n d = Inr d' \<Longrightarrow> db_crowd_count d' = db_crowd_count d \<and> db_current_counts d' = db_current_counts d"
  "upsert_vehicle_row ve d = Inr d' \<Longrightarrow> db_crowd_count d' = db_crowd_count d \<and> db_current_counts d' = db_current_counts d"
  "insert_telemetry te d = Inr d' \<Longrightarrow> db_crowd_count d' = db_crowd_count d \<and> db_current_counts d' = db_current_counts d"
  "insert_prediction pr d = Inr d' \<Longrightarrow> db_crowd_count d' = db_crowd_count d \<and> db_current_counts d' = db_current_counts d"
  "insert_decision de d = Inr d' \<Longrightarrow> db_crowd_count d' = db_crowd_count d \<and> db_current_counts d' = db_current_counts d"
  "delete_old_trip_updates n d = Inr d' \<Longrightarrow> db_crowd_count d' = db_crowd_count d \<and> db_current_counts d' = db_current_counts d"
  by (clarsimp simp: insert_log_def update_stop_status_def update_pipeline_def
      insert_admin_action_def insert_model_version_def insert_alert_def update_alert_resolved_def
      upsert_vehicle_row_def insert_telemetry_def insert_prediction_def insert_decision_def
      delete_old_trip_updates_def split: if_split_asm)+

interpretation counts: table_invariant counts_agree
proof
  fix d rows assume "counts_agree d"
  then show "counts_agree (add_trips rows d)" by (rule counts_agree_cong) (simp_all add: add_trips_def)
qed (use counts_agree_write in blast, (use counts_agree_cong count_tables_frame in metis)+)

subsection \<open>The most recent fetches\<close>

lemma foldl_min_descending: "sorted_wrt (>) (t # ts) \<Longrightarrow> foldl min t ts = last (t # ts :: int list)"
proof (induction ts arbitrary: t)
  case (Cons u ts)
  then have "min t u = u" by simp
  then show ?case using Cons by simp
qed simp

lemma take_descending_ge:
  assumes "sorted_wrt (>) L" "0 < k" "t \<in> set L" "take k L = m # ms"
  shows "\<not> t < foldl min m ms \<longleftrightarrow> card {x \<in> set L. t < (x :: int)} < k"
proof -
  obtain i where i: "i < length L" "L ! i = t" using assms(3) by (auto simp: in_set_conv_nth)
  have less: "j < length L \<Longrightarrow> L ! i < L ! j \<longleftrightarrow> j < i" for j
    using sorted_wrt_nth_less [OF assms(1), of i j] sorted_wrt_nth_less [OF assms(1), of j i] i(1)
    by (cases i j rule: linorder_cases) auto
  have "{x \<in> set L. t < x} = (!) L ` {0..<i}"
  proof (intro equalityI subsetI)
    fix x assume "x \<in> {x \<in> set L. t < x}"
    then obtain j where "j < length L" "x = L ! j" "t < L ! j" by (auto simp: in_set_conv_nth)
    then show "x \<in> (!) L ` {0..<i}" using less i(2) by auto
  next
    fix x assume "x \<in> (!) L ` {0..<i}"
    then obtain j where "j < i" "x = L ! j" by auto
    then show "x \<in> {x \<in> set L. t < x}" using less [of j] i by auto
  qed
  then have "{x \<in> set L. t < x} = set (take i L)" using nth_image [of i L] i(1) by simp
  moreover have "distinct L" using assms(1) by (metis distinct_conv_nth linorder_neq_iff sorted_wrt_nth_less)
  ultimately have card: "card {x \<in> set L. t < x} = i" using i by (simp add: distinct_card)
  have "sorted_wrt (>) (m # ms)" using assms(1,4) by (metis sorted_wrt_take)
  then have "foldl min m ms = last (take k L)" by (simp only: foldl_min_descending assms(4))
  also have "\<dots> = L ! (min (length L) k - 1)"
    using assms(2) i(1) by (subst last_conv_nth) auto
  finally have "t < foldl min m ms \<longleftrightarrow> \<not> i \<le> min (length L) k - 1"
    using less [of "min (length L) k - 1"] i assms(2) by auto
  then show ?thesis using card i assms(2) by auto
qed

lemma delete_old_spec:
  assumes "0 < k"
  shows "delete_old_trip_updates k d = Inr (d\<lparr>db_trip_updates :=
    filter (\<lambda>row. card {t \<in> tu_time ` set (db_trip_updates d). tu_time row < t} < nat k) (db_trip_updates d)\<rparr>)"
proof (cases "db_trip_updates d = []")
  case True
  then show ?thesis by (simp add: delete_old_trip_updates_def recent_times_def)
next
  case False
  define L where "L = rev (sort (remdups (map tu_time (db_trip_updates d))))"
  have sorted: "sorted_wrt (>) L"
    by (simp add: L_def sorted_wrt_rev strict_sorted_iff)
  have set: "set L = tu_time ` set (db_trip_updates d)" by (simp add: L_def)
  have "L \<noteq> []" using False set by auto
  then have "take (nat k) L \<noteq> []" using assms by simp
  then obtain m ms where m: "take (nat k) L = m # ms" by (cases "take (nat k) L") auto
  have "filter (\<lambda>row. \<not> tu_time row < foldl min m ms) (db_trip_updates d) =
      filter (\<lambda>row. card {t \<in> set L. tu_time row < t} < nat k) (db_trip_updates d)"
    using take_descending_ge [OF sorted _ _ m] assms set by (intro filter_cong) auto
  then show ?thesis using m by (simp add: delete_old_trip_updates_def recent_times_def L_def [symmetric] set)
qed

subsection \<open>Properties\<close>

definition empty_db :: database where
  "empty_db = \<lparr>db_routes = [], db_route_stops = [], db_stop_times = [], db_stops = [], db_crowd_count = [],
     db_current_counts = [], db_stop_logs = [], db_model_versions = [], db_admin_activity_log = [],
     db_system_alerts = [], db_next_alert = 1, db_vehicles = [], db_vehicle_telemetry = [], db_trip_updates = [],
     db_predictions = [], db_scheduler_decisions = [], db_service_alerts = [], db_next_service_alert = 1\<rparr>"

text \<open>One registered device, the concrete database of the witnesses.\<close>

definition example_db :: database where
  "example_db = empty_db\<lparr>db_stops := [\<lparr>st_device_id = ''d1'', st_stop_id = ''s1'', st_stop_code = None, st_stop_name = ''Stop 1'',
     st_stop_lat = 53, st_stop_long = - 6, st_transport_type = ''bus'', st_zone = None,
     st_is_online = False, st_pipeline_active = False, st_last_seen = None, st_config = JObj []\<rparr>]\<rparr>"

lemma example_db_ok: "keys_ok example_db" "counts_agree example_db"
  by (simp_all add: example_db_def empty_db_def keys_ok_def counts_agree_def device_history_def)

lemma all_up_connection:
  "idle s \<Longrightarrow> opened \<Longrightarrow> \<forall>n. up n \<Longrightarrow> fst (connection opened up (query up q) s) = Inr (q (se_committed s))"
  by (simp add: connection_def query_def call_def idle_def Let_def)

text \<open>
  C3: the tables stay consistent under any sequence of calls of the writer and any
  pattern of server outages: the keys of the schema hold, and \<open>current_counts\<close> has for
  every device exactly the count, zone and time of its latest row in \<open>crowd_count\<close> and the
  count before it as the previous count.
\<close>

theorem writer_keeps_counts:
  assumes "keys_ok d" "counts_agree d"
  shows "keys_ok (se_committed (snd (run_ops up ops (w, new_session d)))) \<and>
    counts_agree (se_committed (snd (run_ops up ops (w, new_session d))))"
proof -
  have s: "idle (new_session d)" "se_committed (new_session d) = d" by (simp_all add: new_session_def idle_def)
  show ?thesis using keys.run_ops_keeps [OF s(1)] counts.run_ops_keeps [OF s(1)] assms by (simp add: s(2))
qed

theorem writer_keeps_counts_witness:
  "counts_agree (se_committed (snd (run_ops (\<lambda>n. n \<noteq> 3)
     [Op_crowd_count ''d1'' 10 4 None, Op_crowd_count ''d1'' 20 6 None] (\<lparr>dw_opened = True, dw_stop_id_cache = []\<rparr>, new_session example_db))))"
  using writer_keeps_counts [OF example_db_ok, of "\<lambda>n. n \<noteq> 3"
      "[Op_crowd_count ''d1'' 10 4 None, Op_crowd_count ''d1'' 20 6 None]" "\<lparr>dw_opened = True, dw_stop_id_cache = []\<rparr>"]
  by (rule conjunct2)

text \<open>
  Under any outages a crowd count is written completely or not at all: either both
  tables and the notifications are unchanged, or the row is appended to the history of
  that device and to no other, and the dashboard is notified once.
\<close>

theorem crowd_count_all_or_nothing:
  assumes "idle s" "write_crowd_count up w dev t n z s = (r, w', s')"
  shows "(se_committed s' = se_committed s \<and> se_delivered s' = se_delivered s) \<or>
    (\<exists>ts stop. fromtimestamp t = Inr ts \<and>
       db_crowd_count (se_committed s') = db_crowd_count (se_committed s) @
         [\<lparr>cr_time = ts, cr_device_id = dev, cr_stop_id = stop, cr_count = n, cr_zone = z\<rparr>] \<and>
       (\<exists>row \<in> set (db_current_counts (se_committed s')). cc_device_id row = dev \<and> cc_count row = n) \<and>
       se_delivered s' = se_delivered s @ [''crowd_count''])"
proof (cases rule: write_crowd_count_cases [OF assms])
  case 1
  then show ?thesis by simp
next
  case (2 s0 ts stop)
  have eff: "db_crowd_count d' = db_crowd_count d @
        [\<lparr>cr_time = ts, cr_device_id = dev, cr_stop_id = stop, cr_count = n, cr_zone = z\<rparr>] \<and>
      (\<exists>row \<in> set (db_current_counts d'). cc_device_id row = dev \<and> cc_count row = n)"
    if "bind_result (insert_crowd_count ts dev stop n z d) (upsert_current_count ts dev stop n z) = Inr d'" for d d'
  proof (cases "dev \<in> cc_device_id ` set (db_current_counts d)")
    case True
    then show ?thesis using that
      by (auto simp: insert_crowd_count_def upsert_current_count_def checked_def bex_Un split: if_splits)
  next
    case False
    then show ?thesis using that
      by (auto simp: insert_crowd_count_def upsert_current_count_def checked_def split: if_splits)
  qed
  show ?thesis
    using crowd.all_or_nothing [OF 2(1), of ts dev stop n z "dw_opened w'" up] eff 2(2-4,7) by auto
qed

theorem crowd_count_all_or_nothing_witness:
  "\<exists>r w' s'. write_crowd_count (\<lambda>n. n < 4) \<lparr>dw_opened = True, dw_stop_id_cache = [(''d1'', ''s1'')]\<rparr> ''d1'' 10 4 None
     (new_session example_db) = (r, w', s') \<and>
   (se_committed s' = example_db \<and> se_delivered s' = [] \<or> length (db_crowd_count (se_committed s')) = 1)"
proof -
  let ?w = "\<lparr>dw_opened = True, dw_stop_id_cache = [(''d1'', ''s1'')]\<rparr>"
  obtain r w' s' where run: "write_crowd_count (\<lambda>n. n < 4) ?w ''d1'' 10 4 None (new_session example_db) = (r, w', s')"
    by (metis prod_cases3)
  from crowd_count_all_or_nothing [OF idle_new_session run] show ?thesis
    using run by (auto simp: new_session_def example_db_def empty_db_def)
qed

text \<open>The database afterwards is what the two statements make of the database before.\<close>

lemma crowd_count_exact:
  assumes "idle s" "dw_opened w" "\<forall>n. up n" "keys_ok (se_committed s)"
    "row \<in> set (db_stops (se_committed s))" "st_device_id row = dev" "fromtimestamp t = Inr ts" "int4 n"
    and stop_def: "stop = (case dict_get (dw_stop_id_cache w) dev of Some st \<Rightarrow> st | None \<Rightarrow> st_stop_id row)"
  shows "\<exists>w' s'. write_crowd_count up w dev t n z s = (Inr (), w', s') \<and>
    bind_result (insert_crowd_count ts dev stop n z (se_committed s)) (upsert_current_count ts dev stop n z) = Inr (se_committed s') \<and>
    se_delivered s' = se_delivered s @ [''crowd_count'']"
proof -
  obtain st w1 s1 where res: "resolve_stop_id up w dev s = (st, w1, s1)" by (metis prod_cases3)
  note k = resolve_keeps [OF assms(1) res]
  have "st = Some stop"
  proof (cases "dict_get (dw_stop_id_cache w) dev")
    case None
    let ?rows = "map (\<lambda>row. (st_device_id row, st_stop_id row)) (db_stops (se_committed s))"
    have "(dev, st_stop_id row) \<in> set ?rows" using assms(5,6) by force
    moreover have "distinct (map fst ?rows)" using assms(4) by (simp add: keys_ok_def comp_def)
    ultimately have "dict_get (dict_of ?rows) dev = Some (st_stop_id row)"
      by (simp add: dict_of_distinct dict_get_def)
    moreover have "fst (connection (dw_opened w) up
        (query up (\<lambda>d. map (\<lambda>row. (st_device_id row, st_stop_id row)) (db_stops d))) s) = Inr ?rows"
      by (rule all_up_connection [OF assms(1-3)])
    ultimately show ?thesis using res None
      by (auto simp: resolve_stop_id_def load_stop_id_cache_def stop_def split: prod.splits)
  next
    case (Some x)
    then have "st = Some x" using res by (simp add: resolve_stop_id_def)
    then show ?thesis using Some by (simp add: stop_def)
  qed
  then have run: "write_crowd_count up w dev t n z s =
      (Inr (), w1, crowd_count_tx ts dev stop n z (dw_opened w1) up s1)"
    using res assms(7) by (simp add: write_crowd_count_def)
  have "dev \<in> set (map st_device_id (db_stops (se_committed s1)))" using assms(5,6) k by force
  then obtain d' where d': "bind_result (insert_crowd_count ts dev stop n z (se_committed s1))
      (upsert_current_count ts dev stop n z) = Inr d'"
    using crowd_statement_total [OF assms(8)] by blast
  have tx: "se_committed (crowd_count_tx ts dev stop n z (dw_opened w1) up s1) = d'"
    "se_delivered (crowd_count_tx ts dev stop n z (dw_opened w1) up s1) = se_delivered s1 @ [''crowd_count'']"
    using crowd.all_or_nothing [of s1 ts dev stop n z "dw_opened w1" up] k d' assms(2,3) by auto
  show ?thesis using run tx k d' by simp
qed

lemma crowd_count_written:
  assumes "idle s" "dw_opened w" "\<forall>n. up n" "keys_ok (se_committed s)" "counts_agree (se_committed s)"
    "row \<in> set (db_stops (se_committed s))" "st_device_id row = dev" "fromtimestamp t = Inr ts" "int4 n"
  shows "\<exists>w' s'. write_crowd_count up w dev t n z s = (Inr (), w', s') \<and>
    device_history (se_committed s') dev =
      \<lparr>cr_time = ts, cr_device_id = dev,
       cr_stop_id = (case dict_get (dw_stop_id_cache w) dev of Some st \<Rightarrow> st | None \<Rightarrow> st_stop_id row),
       cr_count = n, cr_zone = z\<rparr> # device_history (se_committed s) dev \<and>
    counts_agree (se_committed s') \<and> se_delivered s' = se_delivered s @ [''crowd_count'']"
proof -
  define stop where "stop = (case dict_get (dw_stop_id_cache w) dev of Some st \<Rightarrow> st | None \<Rightarrow> st_stop_id row)"
  obtain w' s' where run: "write_crowd_count up w dev t n z s = (Inr (), w', s')" "se_delivered s' = se_delivered s @ [''crowd_count'']"
    and d': "bind_result (insert_crowd_count ts dev stop n z (se_committed s)) (upsert_current_count ts dev stop n z) = Inr (se_committed s')"
    using crowd_count_exact [OF assms(1-4,6-9) stop_def, of z] by blast
  have "device_history d' dev =
      \<lparr>cr_time = ts, cr_device_id = dev, cr_stop_id = stop, cr_count = n, cr_zone = z\<rparr> # device_history (se_committed s) dev"
    if "bind_result (insert_crowd_count ts dev stop n z (se_committed s)) (upsert_current_count ts dev stop n z) = Inr d'" for d'
    using that by (cases "insert_crowd_count ts dev stop n z (se_committed s)")
      (auto simp: insert_crowd_count_def upsert_current_count_def device_history_def checked_def split: if_splits)
  from this [OF d'] counts_agree_write [OF assms(5) d'] show ?thesis using run by (simp add: stop_def)
qed

text \<open>
  With the pool open and the server up, a count of a registered device with a valid
  time is recorded as the newest row of its history, under the stop that the cache or,
  for a device it does not know, the table of stops gives, and the dashboard is notified.
\<close>

theorem crowd_count_recorded:
  assumes "idle s" "dw_opened w" "\<forall>n. up n" "keys_ok (se_committed s)" "counts_agree (se_committed s)"
    "row \<in> set (db_stops (se_committed s))" "st_device_id row = dev" "fromtimestamp t = Inr ts" "int4 n"
  shows "\<exists>w' s'. write_crowd_count up w dev t n z s = (Inr (), w', s') \<and>
    device_history (se_committed s') dev =
      \<lparr>cr_time = ts, cr_device_id = dev,
       cr_stop_id = (case dict_get (dw_stop_id_cache w) dev of Some st \<Rightarrow> st | None \<Rightarrow> st_stop_id row),
       cr_count = n, cr_zone = z\<rparr> # device_history (se_committed s) dev \<and>
    counts_agree (se_committed s') \<and> se_delivered s' = se_delivered s @ [''crowd_count'']"
  by (rule crowd_count_written [OF assms])

lemma example_time: "fromtimestamp 10 = Inr 10000000"
  by (simp add: fromtimestamp_def whole_seconds_def fop_eval)

theorem crowd_count_recorded_witness:
  "\<exists>w' s'. write_crowd_count (\<lambda>n. True) \<lparr>dw_opened = True, dw_stop_id_cache = []\<rparr> ''d1'' 10 4 None (new_session example_db) =
     (Inr (), w', s') \<and> se_delivered s' = [''crowd_count'']"
proof -
  have "counts_agree (se_committed (new_session example_db))" "keys_ok (se_committed (new_session example_db))"
    using example_db_ok by (simp_all add: new_session_def)
  note crowd_count_recorded [OF idle_new_session _ _ this(2,1), of "\<lparr>dw_opened = True, dw_stop_id_cache = []\<rparr>"
      "\<lambda>n. True" "hd (db_stops example_db)" "''d1''" 10 10000000 4 None, OF _ _ _ _ example_time]
  then show ?thesis
    by (auto simp: example_db_def empty_db_def int4_def new_session_def)
qed

text \<open>
  C16: a batch of trip updates isolates its bad rows.  Under any outages the batch adds
  nothing, or adds a subsequence of its valid rows in order, and notifies exactly when it
  added a row; with the pool open and the server up it adds all of its valid rows.
\<close>

theorem trip_updates_isolate_bad_rows:
  assumes "idle s"
  shows "\<exists>ins. subseq ins (valid_trip_rows updates) \<and>
    se_committed (write_gtfs_trip_updates updates opened up s) =
      (se_committed s)\<lparr>db_trip_updates := db_trip_updates (se_committed s) @ ins\<rparr> \<and>
    se_delivered (write_gtfs_trip_updates updates opened up s) =
      se_delivered s @ (if ins = [] then [] else [''gtfs_trip_updates'']) \<and>
    (opened \<and> (\<forall>n. up n) \<longrightarrow> ins = valid_trip_rows updates)"
proof (cases rule: write_trips_outcome [OF assms, of updates opened up])
  case 1
  then show ?thesis by (intro exI [of _ "[]"]) auto
next
  case (2 ins)
  then show ?thesis by (intro exI [of _ ins]) (auto simp: add_trips_def)
qed

theorem trip_updates_isolate_bad_rows_witness:
  "length (db_trip_updates (se_committed (write_gtfs_trip_updates
     [\<lparr>up_time = Some 1, up_trip_id = Some ''t1'', up_route_id = None, up_direction_id = Some 1, up_vehicle_id = None,
       up_stop_id = None, up_stop_sequence = Some 3, up_arrival_delay = None, up_departure_delay = None, up_raw = JNull\<rparr>,
      \<lparr>up_time = Some 1, up_trip_id = None, up_route_id = None, up_direction_id = Some 1, up_vehicle_id = None,
       up_stop_id = None, up_stop_sequence = Some 4, up_arrival_delay = None, up_departure_delay = None, up_raw = JNull\<rparr>]
     True (\<lambda>n. True) (new_session example_db)))) = 1"
proof -
  let ?us = "[\<lparr>up_time = Some 1, up_trip_id = Some ''t1'', up_route_id = None, up_direction_id = Some 1, up_vehicle_id = None,
       up_stop_id = None, up_stop_sequence = Some 3, up_arrival_delay = None, up_departure_delay = None, up_raw = JNull\<rparr>,
      \<lparr>up_time = Some 1, up_trip_id = None, up_route_id = None, up_direction_id = Some 1, up_vehicle_id = None,
       up_stop_id = None, up_stop_sequence = Some 4, up_arrival_delay = None, up_departure_delay = None, up_raw = JNull\<rparr>]"
  have "length (valid_trip_rows ?us) = 1"
    by (simp add: valid_trip_rows_def trip_row_ok_def opt_all_def int2_def int4_def)
  moreover have "db_trip_updates (se_committed (new_session example_db)) = []"
    by (simp add: new_session_def example_db_def empty_db_def)
  ultimately show ?thesis
    using trip_updates_isolate_bad_rows [OF idle_new_session [of example_db], where updates = ?us and opened = True
        and up = "\<lambda>n. True"] by auto
qed

text \<open>
  The purge keeps exactly the rows of the \<open>retain\<close> most recent fetches: with the server
  up a row survives if and only if fewer than \<open>retain\<close> distinct later times are stored;
  with outages nothing or exactly this happens.
\<close>

theorem purge_keeps_recent_fetches:
  assumes "idle s" "0 < retain"
  shows "se_committed (purge_old_trip_updates retain opened up s) \<in>
    {se_committed s, (se_committed s)\<lparr>db_trip_updates :=
       filter (\<lambda>row. card {t \<in> tu_time ` set (db_trip_updates (se_committed s)). tu_time row < t} < nat retain)
         (db_trip_updates (se_committed s))\<rparr>} \<and>
    (opened \<and> (\<forall>n. up n) \<longrightarrow> se_committed (purge_old_trip_updates retain opened up s) =
       (se_committed s)\<lparr>db_trip_updates :=
         filter (\<lambda>row. card {t \<in> tu_time ` set (db_trip_updates (se_committed s)). tu_time row < t} < nat retain)
           (db_trip_updates (se_committed s))\<rparr>)"
  using atomic_write.all_or_nothing [OF purge_atomic [OF assms(2)] assms(1), of opened up]
    delete_old_spec [OF assms(2), of "se_committed s"]
  by auto

theorem purge_keeps_recent_fetches_witness:
  "se_committed (purge_old_trip_updates 1 True (\<lambda>n. True) (new_session example_db)) = example_db"
  using purge_keeps_recent_fetches [OF idle_new_session [of example_db], of 1 True "\<lambda>n. True"]
  by (simp add: new_session_def example_db_def empty_db_def)

text \<open>
  Predictions are persisted as a whole: the table is unchanged, or it has one new row
  per predicted stop of every vehicle, in order; for a result of the engine on a
  well-formed snapshot without overfull vehicles the stored occupancies and confidences
  are fractions between 0 and 1.
\<close>

theorem predictions_all_or_nothing:
  assumes "idle s" "\<forall>vp \<in> set (rp_vehicle_predictions r). \<forall>sp \<in> set (vp_stops vp).
      0 \<le> sp_predicted_passengers sp \<and> sp_predicted_passengers sp \<le> vp_vehicle_capacity vp \<and>
      0 \<le> vp_confidence vp \<and> vp_confidence vp \<le> 1"
  shows "db_predictions (se_committed (write_predictions now r opened up s)) \<in>
      {db_predictions (se_committed s), db_predictions (se_committed s) @ prediction_rows now r} \<and>
    length (prediction_rows now r) = sum_list (map (length \<circ> vp_stops) (rp_vehicle_predictions r)) \<and>
    (\<forall>row \<in> set (prediction_rows now r).
       0 \<le> pr_predicted_occupancy_pct row \<and> pr_predicted_occupancy_pct row \<le> 1 \<and>
       0 \<le> pr_confidence row \<and> pr_confidence row \<le> 1)"
proof (intro conjI ballI)
  show "db_predictions (se_committed (write_predictions now r opened up s)) \<in>
      {db_predictions (se_committed s), db_predictions (se_committed s) @ prediction_rows now r}"
    using predictiontx.all_or_nothing [OF assms(1), of now r opened up]
    by (auto dest: exec_insert_predictions)
  show "length (prediction_rows now r) = sum_list (map (length \<circ> vp_stops) (rp_vehicle_predictions r))"
    by (simp add: prediction_rows_def length_concat comp_def)
  fix row assume "row \<in> set (prediction_rows now r)"
  then obtain vp sp where "vp \<in> set (rp_vehicle_predictions r)" "sp \<in> set (vp_stops vp)" and
    row: "row = prediction_row_of now r vp sp"
    by (auto simp: prediction_rows_def)
  then have b: "0 \<le> sp_predicted_passengers sp" "sp_predicted_passengers sp \<le> vp_vehicle_capacity vp"
      "0 \<le> vp_confidence vp" "vp_confidence vp \<le> 1"
    using assms(2) by auto
  show "0 \<le> pr_confidence row" "pr_confidence row \<le> 1"
    using py_round_nd_fraction [OF b(3,4), of 4] row by (simp_all add: prediction_row_of_def Let_def)
  show "0 \<le> pr_predicted_occupancy_pct row" "pr_predicted_occupancy_pct row \<le> 1"
    using py_round_nd_fraction [of _ 4] py_truediv_fraction [OF b(1,2)] row
    by (simp_all add: prediction_row_of_def Let_def)
qed

theorem predictions_all_or_nothing_witness:
  "length (prediction_rows 5 example_result) = 5"
  using predictions_all_or_nothing [OF idle_new_session [of example_db], of example_result 5 True "\<lambda>n. True"]
  by (simp add: example_result_def)

text \<open>
  Registering a model version is safe to retry: after a successful registration a
  second one, even one that fails halfway, leaves the tables as they are, and the digest
  is there once.
\<close>

theorem model_version_registered_once:
  assumes "idle s" "keys_ok (se_committed s)" "opt_all int8 fsize"
  shows "(let s' = register_model_version f sha fsize path True (\<lambda>n. True) s
    in se_committed (register_model_version f sha fsize path opened up s') = se_committed s' \<and>
       length (filter (\<lambda>row. mv_sha256 row = sha) (db_model_versions (se_committed s'))) = 1)"
proof -
  let ?s = "register_model_version f sha fsize path True (\<lambda>n. True) s"
  obtain d' where d': "insert_model_version f sha fsize path (se_committed s) = Inr d'"
    using assms(3) by (cases "sha \<in> mv_sha256 ` set (db_model_versions (se_committed s))")
      (auto simp: insert_model_version_def)
  then have c: "se_committed ?s = d'" using modeltx.performed [OF assms(1)] by blast
  have "keys_ok d'" using keys_insert_model [OF assms(2) d'] .
  then have "distinct (map mv_sha256 (db_model_versions d'))" by (simp add: keys_ok_def)
  moreover have "sha \<in> set (map mv_sha256 (db_model_versions d'))"
    using d' assms(3) by (auto simp: insert_model_version_def split: if_splits)
  moreover have "length (filter (\<lambda>row. f row = x) rows) = 1"
    if "distinct (map f rows)" "x \<in> set (map f rows)" for f :: "model_row \<Rightarrow> string" and rows x
    using that by (induction rows) (force simp: filter_empty_conv image_iff)+
  ultimately have "length (filter (\<lambda>row. mv_sha256 row = sha) (db_model_versions d')) = 1" by blast
  then show ?thesis using modeltx.retry [OF assms(1)] c by (simp add: Let_def)
qed

theorem model_version_registered_once_witness:
  "length (filter (\<lambda>row. mv_sha256 row = ''ab'') (db_model_versions (se_committed
     (register_model_version ''m.pt'' ''ab'' None ''/m'' True (\<lambda>n. True) (new_session example_db))))) = 1"
  using model_version_registered_once [OF idle_new_session, of example_db None "''m.pt''" "''ab''" "''/m''"] example_db_ok
  by (simp add: new_session_def opt_all_def Let_def)

end
