(* ===== verification/Float_Error.thy ===== *)
theory Float_Error
  imports PyFloat
begin

text \<open>
  The relative error of binary64 rounding and, from it, a lower bound for the built-in
  \<open>sum\<close> of positive floats: the compensated sum of \<open>n\<close> items is at least the exact sum
  times \<open>1 - (22 n + 3) / 2^53\<close>.
\<close>

subsection \<open>One rounding\<close>

definition tiny :: rat where
  "tiny = pow2 (- 1075)"

definition eps :: rat where
  "eps = 1 / 2 ^ 53"

lemma eps_pos: "0 < eps" and eps_small: "eps \<le> 1 / 1000"
  by (simp_all add: eps_def)

lemma fl_error: "\<bar>fl x - x\<bar> \<le> eps * \<bar>x\<bar> + tiny"
proof (cases "x = 0")
  case True
  then show ?thesis by (simp add: tiny_def)
next
  case False
  define u where "u = pow2 (ulp_exp x)"
  have u: "0 < u" by (simp add: u_def)
  have "fl x - x = (of_int (half_even (x / u)) - x / u) * u"
    using False u by (simp add: fl_def u_def [symmetric] Let_def field_simps)
  then have "\<bar>fl x - x\<bar> = \<bar>of_int (half_even (x / u)) - x / u\<bar> * u"
    using u by (simp add: abs_mult)
  then have 1: "\<bar>fl x - x\<bar> \<le> u / 2"
    using mult_right_mono [OF half_even_dist [of "x / u"], of u] u by simp
  have "pow2 (ilog2 \<bar>x\<bar>) \<le> \<bar>x\<bar>" using ilog2_bounds [of "\<bar>x\<bar>"] False by simp
  moreover have "pow2 (ilog2 \<bar>x\<bar> - 52) = pow2 (ilog2 \<bar>x\<bar>) / pow2 52" by (rule pow2_diff)
  moreover have "pow2 52 = (2 ^ 52 :: rat)" by (simp add: pow2_def)
  ultimately have 2: "pow2 (ilog2 \<bar>x\<bar> - 52) \<le> 2 * (eps * \<bar>x\<bar>)" by (simp add: eps_def field_simps)
  have "pow2 (- 1074) = pow2 (- 1075 + 1)" by simp
  then have 3: "pow2 (- 1074) = 2 * tiny" unfolding pow2_add tiny_def by (simp add: pow2_def)
  have "0 \<le> eps * \<bar>x\<bar>" "0 \<le> tiny" using eps_pos by (simp_all add: tiny_def)
  then have "u \<le> 2 * (eps * \<bar>x\<bar>) + 2 * tiny"
    using 2 3 by (auto simp: u_def ulp_exp_def max_def)
  then show ?thesis using 1 by simp
qed

subsection \<open>One step of the sum\<close>

lemma tiny_le: "2 ^ 40 * m \<ge> 1 \<Longrightarrow> tiny \<le> eps * m"
proof -
  assume m: "2 ^ 40 * m \<ge> 1"
  have "tiny \<le> pow2 (- 93)" by (simp add: tiny_def pow2_le_iff)
  also have "pow2 (- 93) = eps * (1 / 2 ^ 40)" by (simp add: pow2_def eps_def)
  also have "\<dots> \<le> eps * m" using m eps_pos by (intro mult_left_mono) (simp_all add: field_simps)
  finally show ?thesis .
qed

text \<open>A second rounding of a quantity close to \<open>- x\<close>, as in the compensation.\<close>

lemma compensation_bound:
  fixes x y s z r e tau f1 f2 y' :: rat
  assumes x: "0 \<le> x" "0 \<le> y" and e: "0 < e" "e \<le> 1 / 1000" and t: "tau \<le> e * s" "x \<le> s + y'" "0 \<le> s"
    and d: "\<bar>y + x - r\<bar> \<le> e * (s + z) + e * s" "0 \<le> z"
    and f1: "\<bar>f1 - (y - r)\<bar> \<le> e * \<bar>y - r\<bar> + tau" and f2: "\<bar>f2 - (f1 + x)\<bar> \<le> e * \<bar>f1 + x\<bar> + tau"
    and xz: "x \<le> s + z" "y \<le> s + z"
  shows "\<bar>f2\<bar> \<le> 11 * (e * (s + z))"
proof -
  define w where "w = e * (s + z)"
  have s: "e * s \<le> w" using e d(2) unfolding w_def by (intro mult_left_mono) auto
  have w: "0 \<le> w" using e d(2) t(3) by (simp add: w_def)
  have ew: "e * w \<le> w / 1000" using mult_right_mono [OF e(2) w] by simp
  have ex: "e * x \<le> w" using e xz unfolding w_def by (intro mult_left_mono) auto
  have y1: "\<bar>y - r\<bar> \<le> x + 2 * w" using d(1) s w_def x by linarith
  have "e * \<bar>y - r\<bar> \<le> e * (x + 2 * w)" using y1 e by (intro mult_left_mono) auto
  also have "\<dots> = e * x + 2 * (e * w)" by (simp add: algebra_simps)
  finally have "e * \<bar>y - r\<bar> \<le> w + 2 * (w / 1000)" using ex ew by linarith
  then have f1': "\<bar>f1 - (y - r)\<bar> \<le> 3 * w" using f1 t(1) s w by linarith
  have y2: "\<bar>f1 + x\<bar> \<le> 5 * w" using f1' d(1) s w_def by linarith
  have "e * \<bar>f1 + x\<bar> \<le> e * (5 * w)" using y2 e by (intro mult_left_mono) auto
  then have "e * \<bar>f1 + x\<bar> \<le> w" using ew w by linarith
  then show ?thesis using f2 y2 t(1) s w by (simp add: w_def [symmetric])
qed

lemma sum_step_bounds:
  assumes s: "2 ^ 40 * s \<ge> 1" "fl s = s" and x: "0 \<le> x" and K: "0 \<le> K" "(K + 20) * eps \<le> 1"
    and c: "\<bar>c\<bar> \<le> K * (eps * s)" and st: "sum_step (s, c) x = (t, c')"
  shows "s \<le> t" "(1 - 2 * eps) * (s + x) \<le> t" "\<bar>c'\<bar> \<le> (K + 20) * (eps * t)" "fl t = t"
proof -
  note e = eps_pos eps_small
  have s0: "0 < s" using s(1) by (simp add: zero_less_mult_iff order.strict_trans2)
  have tau: "tiny \<le> eps * s" by (rule tiny_le [OF s(1)])
  have t: "t = fl (s + x)" using st by (simp add: sum_step_def fadd_def Let_def)
  show le: "s \<le> t" unfolding t by (rule binary64.rnd_add_ge [OF x s(2)])
  show "fl t = t" by (simp add: t fl_idem)
  have w0: "0 \<le> eps * (s + x)" "eps * s \<le> eps * (s + x)" using e x s0 by (auto intro: mult_left_mono)
  have "\<bar>t - (s + x)\<bar> \<le> eps * (s + x) + tiny" using fl_error [of "s + x"] x s0 by (simp add: t)
  then have terr: "\<bar>s + x - t\<bar> \<le> eps * (s + x) + eps * s" using tau by linarith
  then show tx: "(1 - 2 * eps) * (s + x) \<le> t" using w0 by (simp add: algebra_simps)
  define f2 where "f2 = (if \<bar>x\<bar> \<le> \<bar>s\<bar> then fadd (fsub s t) x else fadd (fsub x t) s)"
  have c': "c' = fl (c + f2)" using st
    by (cases "\<bar>x\<bar> \<le> \<bar>s\<bar>") (simp_all add: sum_step_def f2_def Let_def t fadd_def)
  have f2: "\<bar>f2\<bar> \<le> 11 * (eps * (s + x))"
  proof (cases "\<bar>x\<bar> \<le> \<bar>s\<bar>")
    case True
    show ?thesis
      by (rule compensation_bound [where x = x and y = s and r = t and ?f1.0 = "fl (s - t)" and tau = tiny and y' = x])
        (use e x s0 tau terr True fl_error in \<open>simp_all add: f2_def fadd_def fsub_def\<close>)
  next
    case False
    show ?thesis
      by (rule compensation_bound [where x = s and y = x and r = t and ?f1.0 = "fl (x - t)" and tau = tiny and y' = x])
        (use e x s0 tau terr False fl_error in \<open>simp_all add: f2_def fadd_def fsub_def add.commute\<close>)
  qed
  define q where "q = s + x"
  have "q - 2 * (eps * q) \<le> t" using tx by (simp add: q_def algebra_simps)
  moreover have "eps * q \<le> (1 / 1000) * q" using e x s0 unfolding q_def by (intro mult_right_mono) auto
  moreover have "0 \<le> q" using x s0 by (simp add: q_def)
  ultimately have "s + x \<le> (3 / 2) * t" unfolding q_def [symmetric] by linarith
  then have "eps * (s + x) \<le> eps * ((3 / 2) * t)" using e by (intro mult_left_mono) auto
  then have f2t: "\<bar>f2\<bar> \<le> 17 * (eps * t)" using f2 e le s0 by (simp add: algebra_simps)
  define v where "v = eps * t"
  have v: "0 \<le> v" "eps * s \<le> v" using e le s0 by (auto simp: v_def intro: mult_left_mono)
  have "K * (eps * s) \<le> K * v" using K(1) v(2) by (rule mult_left_mono [rotated])
  then have cf: "\<bar>c + f2\<bar> \<le> (K + 17) * v" using c f2t by (simp add: v_def algebra_simps)
  have "eps * \<bar>c + f2\<bar> \<le> eps * ((K + 17) * v)" using cf e by (intro mult_left_mono) auto
  also have "\<dots> = ((K + 17) * eps) * v" by simp
  also have "\<dots> \<le> 1 * v" using K e v(1) by (intro mult_right_mono) (auto simp: algebra_simps)
  finally have "\<bar>c'\<bar> \<le> (K + 17) * v + v + tiny" using fl_error [of "c + f2"] cf c' by linarith
  then show "\<bar>c'\<bar> \<le> (K + 20) * (eps * t)" using tau v by (simp add: v_def algebra_simps)
qed

subsection \<open>The whole sum\<close>

lemma sum_steps_bounds:
  assumes "2 ^ 40 * s \<ge> 1" "fl s = s" "\<forall>x \<in> set xs. 0 \<le> x" "(20 * of_nat (k + length xs)) * eps \<le> 1"
    "\<bar>c\<bar> \<le> (20 * of_nat k) * (eps * s)" "foldl sum_step (s, c) xs = (t, d)"
  shows "2 ^ 40 * t \<ge> 1 \<and> (1 - 2 * of_nat (length xs) * eps) * (s + sum_list xs) \<le> t \<and> s \<le> t \<and>
    \<bar>d\<bar> \<le> (20 * of_nat (k + length xs)) * (eps * t)"
  using assms
proof (induction xs arbitrary: s c k)
  case (Cons x xs)
  obtain s1 c1 where st: "sum_step (s, c) x = (s1, c1)" by force
  have K: "((20 * of_nat k) + 20) * eps \<le> 1"
  proof -
    have "((20 * of_nat k) + 20) * eps \<le> (20 * of_nat (k + length (x # xs))) * eps"
      using eps_pos by (intro mult_right_mono) auto
    then show ?thesis using Cons.prems(4) by linarith
  qed
  note b = sum_step_bounds [OF Cons.prems(1,2) _ _ K Cons.prems(5) st]
  have x: "0 \<le> x" using Cons.prems(3) by simp
  have b': "s \<le> s1" "(1 - 2 * eps) * (s + x) \<le> s1" "\<bar>c1\<bar> \<le> ((20 * of_nat k) + 20) * (eps * s1)" "fl s1 = s1"
    using b x by simp_all
  have "2 ^ 40 * s \<le> 2 ^ 40 * s1" using b'(1) by (intro mult_left_mono) auto
  then have "2 ^ 40 * s1 \<ge> 1" using Cons.prems(1) by linarith
  from Cons.IH [OF this b'(4) _ _ _, of "Suc k" c1] Cons.prems b'(3) st
  have IH: "2 ^ 40 * t \<ge> 1" "(1 - 2 * of_nat (length xs) * eps) * (s1 + sum_list xs) \<le> t" "s1 \<le> t"
    "\<bar>d\<bar> \<le> (20 * of_nat (Suc k + length xs)) * (eps * t)"
    by (auto simp: algebra_simps)
  define n :: rat where "n = of_nat (length xs)"
  have n: "0 \<le> n" "2 * n * eps \<le> 1"
  proof -
    have "(2 * n) * eps \<le> (20 * of_nat (k + length (x # xs))) * eps"
      using eps_pos by (intro mult_right_mono) (auto simp: n_def)
    then show "2 * n * eps \<le> 1" using Cons.prems(4) by linarith
  qed (simp add: n_def)
  have xs: "0 \<le> sum_list xs" using Cons.prems(3) by (intro sum_list_nonneg) auto
  have sx: "0 < s" using Cons.prems(1) by (simp add: zero_less_mult_iff order.strict_trans2)
  have "(1 - 2 * (n + 1) * eps) * (s + x + sum_list xs) \<le> (1 - 2 * n * eps) * ((1 - 2 * eps) * (s + x + sum_list xs))"
  proof -
    have "(1 - 2 * n * eps) * (1 - 2 * eps) = (1 - 2 * (n + 1) * eps) + 4 * n * (eps * eps)" by (simp add: algebra_simps)
    moreover have "0 \<le> 4 * n * (eps * eps)" using n(1) by simp
    ultimately have "1 - 2 * (n + 1) * eps \<le> (1 - 2 * n * eps) * (1 - 2 * eps)" by linarith
    from mult_right_mono [OF this, of "s + x + sum_list xs"] show ?thesis using xs x sx by (simp add: mult.assoc)
  qed
  also have "(1 - 2 * eps) * (s + x + sum_list xs) \<le> s1 + sum_list xs"
    using b'(2) mult_nonneg_nonneg [OF less_imp_le [OF eps_pos] xs] by (simp add: algebra_simps)
  then have "(1 - 2 * n * eps) * ((1 - 2 * eps) * (s + x + sum_list xs)) \<le> (1 - 2 * n * eps) * (s1 + sum_list xs)"
    using n by (intro mult_left_mono) auto
  also have "\<dots> \<le> t" using IH(2) by (simp add: n_def)
  finally show ?case using IH(1,3,4) b'(1) by (simp add: n_def algebra_simps)
qed simp

theorem py_sum_lower:
  assumes "xs \<noteq> []" "\<forall>x \<in> set xs. 1 / 2 ^ 40 \<le> x \<and> fl x = x" "length xs \<le> 2 ^ 40"
  shows "(1 - (22 * of_nat (length xs) + 3) * eps) * sum_list xs \<le> py_sum xs"
proof -
  obtain x ys where xs: "xs = x # ys" using assms(1) by (cases xs) auto
  obtain t d where fold: "foldl sum_step (x, 0) ys = (t, d)" by force
  define n :: rat where "n = of_nat (length ys)"
  have "n \<le> 2 ^ 40" using assms(3) of_nat_mono [of "length ys" "2 ^ 40", where 'a = rat] xs by (simp add: n_def)
  then have n: "0 \<le> n" "(20 * n) * eps \<le> 1 / 2" by (simp_all add: n_def eps_def)
  have xx: "2 ^ 40 * x \<ge> 1" "fl x = x" "\<forall>y \<in> set ys. 0 \<le> y"
    using assms(2) xs by (force simp: field_simps)+
  have b: "2 ^ 40 * t \<ge> 1" "(1 - 2 * n * eps) * (x + sum_list ys) \<le> t" "\<bar>d\<bar> \<le> (20 * n) * (eps * t)"
    using sum_steps_bounds [OF xx, of 0 0 t d] n(2) fold by (simp_all add: n_def)
  have t: "0 < t" using b(1) by (simp add: zero_less_mult_iff order.strict_trans2)
  have S: "0 \<le> x + sum_list ys" using xx sum_list_nonneg [of ys] by (simp add: field_simps)
  have "20 * n * (eps * t) = (20 * n) * eps * t" by simp
  then have d: "\<bar>d\<bar> \<le> t" using b(3) mult_right_mono [OF n(2), of t] t by linarith
  have "\<bar>fl (t + d) - (t + d)\<bar> \<le> eps * \<bar>t + d\<bar> + tiny" by (rule fl_error)
  also have "eps * \<bar>t + d\<bar> \<le> eps * (2 * t)" using d t eps_pos by (intro mult_left_mono) auto
  finally have "t + d - 3 * (eps * t) \<le> fl (t + d)" using tiny_le [OF b(1)] by linarith
  then have "(1 - (20 * n + 3) * eps) * t \<le> fl (t + d)" using b(3) by (simp add: algebra_simps)
  moreover have "(1 - (20 * n + 3) * eps) * t \<le> t"
    using n t eps_pos by (simp add: mult_left_le_one_le algebra_simps)
  ultimately have total: "(1 - (20 * n + 3) * eps) * t \<le> py_sum xs"
    using fold xs by (auto simp: fadd_def)
  define a where "a = (20 * n + 3) * eps"
  define b' where "b' = 2 * n * eps"
  have ab: "0 \<le> a" "a \<le> 1" "0 \<le> b'" using n eps_pos eps_small by (auto simp: a_def b'_def algebra_simps)
  have "1 - (a + b') \<le> (1 - a) * (1 - b')" using mult_nonneg_nonneg [OF ab(1,3)] by (simp add: algebra_simps)
  from mult_right_mono [OF this S] have "(1 - (a + b')) * (x + sum_list ys) \<le> (1 - a) * ((1 - b') * (x + sum_list ys))"
    by (simp add: mult.assoc)
  also have "\<dots> \<le> (1 - a) * t" using b(2) ab by (intro mult_left_mono) (simp_all add: b'_def)
  finally have "(1 - (a + b')) * sum_list xs \<le> py_sum xs" using total by (simp add: a_def xs)
  moreover have "(22 * of_nat (length xs) + 3) * eps = a + b' + 22 * eps" by (simp add: a_def b'_def n_def xs algebra_simps)
  moreover have "0 \<le> 22 * eps * sum_list xs" using S eps_pos by (simp add: xs)
  ultimately show ?thesis by (simp add: algebra_simps)
qed

end
