(* ===== verification/Snapshot_Builder.thy ===== *)
theory Snapshot_Builder
  imports Database Float_Error
begin

text \<open>
  \<open>PredictionEngine/snapshot_builder.py\<close>: the queries on the tables, the split of a
  stop's crowd by inverse arrival times, and \<open>SnapshotBuilder.build\<close>.  \<open>now_ts\<close> is the
  database's \<open>NOW()\<close>, \<open>now_secs\<close> the seconds since midnight in Dublin.  Text columns are
  ordered by character code; rows that an \<open>ORDER BY\<close> leaves tied stay in table order.
\<close>

subsection \<open>\<open>proportional_split\<close>\<close>

text \<open>The key \<open>(target_route, target_direction)\<close> is \<open>target_key\<close>.\<close>

definition inverse_weight :: "int \<Rightarrow> int \<Rightarrow> pyfloat" where
  "inverse_weight min_eta eta = fdiv 1 (py_float (max eta min_eta))"

definition proportional_split :: "('k, int) dict \<Rightarrow> 'k \<Rightarrow> int \<Rightarrow> pyfloat result" where
  "proportional_split etas target_key min_eta =
     (case dict_get etas target_key of
        None \<Rightarrow> Inr 1
      | Some target_eta \<Rightarrow>
          if list_ex (\<lambda>(key, eta). max eta min_eta = 0) etas then Inl ZeroDivisionError
          else
            let weights = map (\<lambda>(key, eta). (key, inverse_weight min_eta eta)) etas;
                total = py_sum (dict_values weights)
            in if total = 0 then Inr 1 else Inr (fdiv (inverse_weight min_eta target_eta) total))"

definition seconds_from_midnight :: "int \<Rightarrow> int \<Rightarrow> int \<Rightarrow> int" where
  "seconds_from_midnight h m sec = h * 3600 + m * 60 + sec"

subsection \<open>Queries\<close>

text \<open>\<open>SELECT DISTINCT ON\<close>: the first row of each key, of rows already ordered.\<close>

function distinct_on :: "('a \<Rightarrow> 'k) \<Rightarrow> 'a list \<Rightarrow> 'a list" where
  "distinct_on f [] = []"
| "distinct_on f (x # xs) = x # distinct_on f (filter (\<lambda>y. f y \<noteq> f x) xs)"
  by pat_completeness auto
termination
  by (relation "measure (length \<circ> snd)") (auto intro: le_imp_less_Suc)

text \<open>Ascending order of a nullable integer or text: nulls last.\<close>

definition nulls_last :: "'a option \<Rightarrow> 'a \<Rightarrow> nat \<times> 'a" where
  "nulls_last x dflt = (case x of Some v \<Rightarrow> (0, v) | None \<Rightarrow> (1, dflt))"

definition query_stops :: "string \<Rightarrow> int \<Rightarrow> database \<Rightarrow> stop_state list" where
  "query_stops route_id direction_id d =
     map (\<lambda>r. \<lparr>ss_stop_id = rt_stop_id r, ss_sequence = rt_stop_sequence r, ss_people_waiting = None\<rparr>)
       (sort_key rt_stop_sequence
         (filter (\<lambda>r. rt_route_id r = route_id \<and> rt_direction_id r = direction_id) (db_route_stops d)))"

definition query_crowd_counts :: "string list \<Rightarrow> database \<Rightarrow> (string, int) dict" where
  "query_crowd_counts stop_ids d =
     dict_of (map (\<lambda>r. (cc_stop_id r, cc_count r)) (filter (\<lambda>r. cc_stop_id r \<in> set stop_ids) (db_current_counts d)))"

definition vehicle_order :: "trip_row \<Rightarrow> string \<times> int \<times> nat \<times> int" where
  "vehicle_order r = (tu_trip_id r, - tu_time r, nulls_last (tu_stop_sequence r) 0)"

definition query_vehicles :: "int \<Rightarrow> string \<Rightarrow> int \<Rightarrow> database \<Rightarrow> vehicle_snapshot list" where
  "query_vehicles default_capacity route_id direction_id d =
     map (\<lambda>r. \<lparr>vs_vehicle_id = tu_trip_id r, vs_route_id = the (tu_route_id r), vs_capacity = default_capacity,
              vs_current_stop_sequence = tu_stop_sequence r, vs_passenger_count = 0\<rparr>)
       (distinct_on tu_trip_id (sort_key vehicle_order
         (filter (\<lambda>r. tu_route_id r = Some route_id \<and> tu_direction_id r = Some direction_id \<and> tu_trip_id r \<noteq> [])
           (db_trip_updates d))))"

subsection \<open>Arrival times\<close>

type_synonym route_key = "string option \<times> int option"

record eta_row =
  et_stop_id :: string
  et_key :: route_key
  et_abs_arrival :: int

text \<open>The common table expression \<open>latest_per_trip\<close>.\<close>

definition half_hour :: timestamp where
  "half_hour = 30 * 60 * 1000000"

definition latest_per_trip :: "string list \<Rightarrow> timestamp \<Rightarrow> database \<Rightarrow> trip_row list" where
  "latest_per_trip stop_ids now_ts d =
     distinct_on (\<lambda>g. (tu_trip_id g, tu_stop_id g))
       (sort_key (\<lambda>g. (tu_trip_id g, the (tu_stop_id g), - tu_time g))
         (filter (\<lambda>g. (case tu_stop_id g of None \<Rightarrow> False | Some st \<Rightarrow> st \<in> set stop_ids) \<and>
             tu_trip_id g \<noteq> [] \<and> now_ts - half_hour < tu_time g) (db_trip_updates d)))"

definition joined_arrivals :: "trip_row list \<Rightarrow> stop_time_row list \<Rightarrow> eta_row list" where
  "joined_arrivals latest stop_times =
     concat (map (\<lambda>l. map (\<lambda>st.
         \<lparr>et_stop_id = the (tu_stop_id l), et_key = (tu_route_id l, tu_direction_id l),
          et_abs_arrival = tm_arrival_seconds st + (case tu_arrival_delay l of Some a \<Rightarrow> a | None \<Rightarrow> 0)\<rparr>)
       (filter (\<lambda>st. tm_trip_id st = tu_trip_id l \<and> Some (tm_stop_sequence st) = tu_stop_sequence l) stop_times)) latest)"

definition eta_order :: "eta_row \<Rightarrow> string \<times> (nat \<times> string) \<times> (nat \<times> int) \<times> int" where
  "eta_order r = (et_stop_id r, nulls_last (fst (et_key r)) [], nulls_last (snd (et_key r)) 0, et_abs_arrival r)"

text \<open>The whole query; a sum out of the range of \<open>INTEGER\<close> raises.\<close>

definition eta_query :: "string list \<Rightarrow> timestamp \<Rightarrow> database \<Rightarrow> eta_row list result" where
  "eta_query stop_ids now_ts d =
     (let joined = joined_arrivals (latest_per_trip stop_ids now_ts d) (db_stop_times d)
      in checked (list_all (\<lambda>r. int4 (et_abs_arrival r)) joined)
        (distinct_on (\<lambda>r. (et_stop_id r, et_key r)) (sort_key eta_order joined)))"

subsection \<open>\<open>_compute_crowd_shares\<close>\<close>

definition group_etas :: "eta_row list \<Rightarrow> (string, (route_key, int) dict) dict" where
  "group_etas rows =
     foldl (\<lambda>raw r. dict_set raw (et_stop_id r)
       (dict_set (case dict_get raw (et_stop_id r) of Some d \<Rightarrow> d | None \<Rightarrow> []) (et_key r) (et_abs_arrival r))) [] rows"

definition relative_eta :: "int \<Rightarrow> int \<Rightarrow> int" where
  "relative_eta now_secs abs_arr =
     (let eta = abs_arr - now_secs in if 43200 < eta then eta - 86400 else eta)"

definition relative_etas :: "int \<Rightarrow> (route_key, int) dict \<Rightarrow> (route_key, int) dict" where
  "relative_etas now_secs entries =
     filter (\<lambda>(key, eta). 0 < eta) (map (\<lambda>(key, abs_arr). (key, relative_eta now_secs abs_arr)) entries)"

definition stop_share ::
    "string \<Rightarrow> int \<Rightarrow> int \<Rightarrow> (string, (route_key, int) dict) dict \<Rightarrow> string \<Rightarrow> pyfloat result" where
  "stop_share route_id direction_id now_secs raw stop_id =
     (case dict_get raw stop_id of
        None \<Rightarrow> Inr 1
      | Some entries \<Rightarrow>
          if entries = [] then Inr 1
          else
            let rel = relative_etas now_secs entries;
                target = (Some route_id, Some direction_id)
            in if rel = [] \<or> target \<notin> set (dict_keys rel) then Inr 1
               else if length rel = 1 then Inr 1
               else proportional_split rel target 30)"

fun share_loop :: "(string \<Rightarrow> pyfloat result) \<Rightarrow> string list \<Rightarrow> (string, pyfloat) dict \<Rightarrow> (string, pyfloat) dict result" where
  "share_loop f [] shares = Inr shares"
| "share_loop f (stop_id # stop_ids) shares =
     bind_result (f stop_id) (\<lambda>x. share_loop f stop_ids (dict_set shares stop_id x))"

definition compute_crowd_shares ::
    "eta_row list \<Rightarrow> string \<Rightarrow> int \<Rightarrow> string list \<Rightarrow> int \<Rightarrow> (string, pyfloat) dict result" where
  "compute_crowd_shares rows route_id direction_id stop_ids now_secs =
     share_loop (stop_share route_id direction_id now_secs (group_etas rows)) stop_ids []"

subsection \<open>\<open>build\<close>\<close>

definition apply_share :: "int option \<Rightarrow> pyfloat \<Rightarrow> int option" where
  "apply_share raw_count share =
     (case raw_count of None \<Rightarrow> None | Some n \<Rightarrow> Some (py_round (fmul (py_float n) share)))"

definition with_counts ::
    "(string, int) dict \<Rightarrow> (string, pyfloat) dict \<Rightarrow> stop_state list \<Rightarrow> stop_state list" where
  "with_counts crowd shares stops =
     map (\<lambda>s. \<lparr>ss_stop_id = ss_stop_id s, ss_sequence = ss_sequence s,
       ss_people_waiting = apply_share (dict_get crowd (ss_stop_id s))
         (case dict_get shares (ss_stop_id s) of Some x \<Rightarrow> x | None \<Rightarrow> 1)\<rparr>) stops"

definition build_body ::
    "outages \<Rightarrow> int \<Rightarrow> string \<Rightarrow> int \<Rightarrow> timestamp \<Rightarrow> int \<Rightarrow> (database, route_snapshot option) io" where
  "build_body up default_capacity route_id direction_id now_ts now_secs =
     bind_io (query up (query_stops route_id direction_id)) (\<lambda>stops.
       if stops = [] then (\<lambda>s. (Inr None, s))
       else
         let stop_ids = map ss_stop_id stops
         in bind_io (query up (query_crowd_counts stop_ids)) (\<lambda>crowd.
            bind_io (query up (query_vehicles default_capacity route_id direction_id)) (\<lambda>vehicles.
            bind_io (query_checked up (eta_query stop_ids now_ts)) (\<lambda>rows s.
              (bind_result (compute_crowd_shares rows route_id direction_id stop_ids now_secs) (\<lambda>shares.
                 Inr (Some \<lparr>rs_route_id = route_id, rs_direction_id = direction_id,
                   rs_stops = with_counts crowd shares stops, rs_vehicles = vehicles\<rparr>)), s)))))"

definition build ::
    "bool \<Rightarrow> outages \<Rightarrow> int \<Rightarrow> string \<Rightarrow> int \<Rightarrow> timestamp \<Rightarrow> int \<Rightarrow> (database, route_snapshot option) io" where
  "build opened up default_capacity route_id direction_id now_ts now_secs =
     connection opened up (build_body up default_capacity route_id direction_id now_ts now_secs)"

subsection \<open>Lemmas on \<open>DISTINCT ON\<close>\<close>

lemma distinct_on_set: "set (distinct_on f xs) \<subseteq> set xs"
  by (induction f xs rule: distinct_on.induct) auto

lemma distinct_on_distinct: "distinct (map f (distinct_on f xs))"
proof (induction f xs rule: distinct_on.induct)
  case (2 f x xs)
  then show ?case using distinct_on_set [of f "filter (\<lambda>y. f y \<noteq> f x) xs"] by auto
qed simp

lemma distinct_on_keys: "f ` set (distinct_on f xs) = f ` set xs"
  by (induction f xs rule: distinct_on.induct) auto

lemma distinct_on_first:
  "r \<in> set (distinct_on f xs) \<Longrightarrow> sorted_wrt R xs \<Longrightarrow> reflp R \<Longrightarrow> r' \<in> set xs \<Longrightarrow> f r' = f r \<Longrightarrow> R r r'"
proof (induction f xs rule: distinct_on.induct)
  case (2 f x xs)
  show ?case
  proof (cases "r = x")
    case True
    then show ?thesis using 2 by (auto dest: reflpD)
  next
    case False
    then have r: "r \<in> set (distinct_on f (filter (\<lambda>y. f y \<noteq> f x) xs))" using "2.prems"(1) by simp
    then have "f r \<noteq> f x" using distinct_on_set by fastforce
    then have "r' \<in> set (filter (\<lambda>y. f y \<noteq> f x) xs)" using "2.prems"(4,5) by auto
    then show ?thesis using "2.IH" [OF r _ "2.prems"(3) _ "2.prems"(5)] "2.prems"(2) by (simp add: sorted_wrt_filter)
  qed
qed simp

text \<open>Over rows ordered by a key that starts with \<open>f\<close>, each group is represented by its least row.\<close>

lemma distinct_on_least:
  assumes "r \<in> set (distinct_on f (sort_key g xs))" "r' \<in> set xs" "f r' = f r"
  shows "r \<in> set xs \<and> g r \<le> g r'"
proof
  show "r \<in> set xs" using distinct_on_set [of f "sort_key g xs"] assms(1) by auto
  have "sorted_wrt (\<lambda>x y. g x \<le> g y) (sort_key g xs)"
    using sorted_sort_key [of g xs] by (simp add: sorted_wrt_map)
  then show "g r \<le> g r'"
    using distinct_on_first [OF assms(1), of "\<lambda>x y. g x \<le> g y" r'] assms(2,3) by (simp add: reflp_def)
qed

subsection \<open>Lemmas on the split\<close>

lemma fl_pow2: "- 1074 \<le> e \<Longrightarrow> fl (pow2 e) = pow2 e"
  using fl_representable [of 1 e] by simp

lemma inverse_weight_bounds:
  assumes "1 \<le> min_eta" "min_eta \<le> 2 ^ 32" "eta \<le> 2 ^ 32"
  shows "1 / 2 ^ 32 \<le> inverse_weight min_eta eta" "inverse_weight min_eta eta \<le> 1"
    "fl (inverse_weight min_eta eta) = inverse_weight min_eta eta"
proof -
  define m where "m = max eta min_eta"
  have m: "1 \<le> m" "m \<le> 2 ^ 32" using assms by (auto simp: m_def)
  have w: "inverse_weight min_eta eta = fl (1 / of_int m)"
    using m by (simp add: inverse_weight_def m_def [symmetric] fdiv_def py_float_exact)
  have im: "(1::rat) \<le> of_int m" "of_int m \<le> (2 ^ 32 :: rat)"
    using m of_int_le_iff [of m "2 ^ 32", where 'a = rat] by simp_all
  have "(1 / 2 ^ 32 :: rat) = pow2 (- 32)" by (simp add: pow2_def)
  then have "fl (1 / 2 ^ 32) = 1 / 2 ^ 32" using fl_pow2 [of "- 32"] by (simp only: order_refl)
  moreover have "1 / 2 ^ 32 \<le> 1 / (of_int m :: rat)" using im by (intro divide_left_mono) auto
  ultimately show "1 / 2 ^ 32 \<le> inverse_weight min_eta eta" using fl_mono w by metis
  show "inverse_weight min_eta eta \<le> 1" unfolding w using im by (intro binary64.rnd_le_one) simp
  show "fl (inverse_weight min_eta eta) = inverse_weight min_eta eta" by (simp add: w fl_idem)
qed

lemma inverse_weight_antimono:
  assumes "1 \<le> min_eta" "eta \<le> eta'"
  shows "inverse_weight min_eta eta' \<le> inverse_weight min_eta eta"
proof -
  have "py_float (max eta min_eta) \<le> py_float (max eta' min_eta)"
    using assms unfolding py_float_def by (intro fl_mono) simp
  moreover have "1 \<le> py_float (max eta min_eta)"
    unfolding py_float_def using assms binary64.rnd_ge_int [of 1 "of_int (max eta min_eta)"] by simp
  ultimately show ?thesis unfolding inverse_weight_def fdiv_def by (intro fl_mono divide_left_mono) auto
qed

definition split_total :: "('k, int) dict \<Rightarrow> int \<Rightarrow> pyfloat" where
  "split_total etas min_eta = py_sum (map (\<lambda>(key, eta). inverse_weight min_eta eta) etas)"

lemma proportional_split_eq:
  assumes "1 \<le> min_eta" "dict_get etas k = Some e"
  shows "proportional_split etas k min_eta =
    Inr (if split_total etas min_eta = 0 then 1 else fdiv (inverse_weight min_eta e) (split_total etas min_eta))"
proof -
  have "\<not> list_ex (\<lambda>(key, eta). max eta min_eta = 0) etas" using assms(1) by (auto simp: list_ex_iff)
  moreover have "dict_values (map (\<lambda>(key, eta). (key, inverse_weight min_eta eta)) etas) =
      map (\<lambda>(key, eta). inverse_weight min_eta eta) etas"
    by (auto simp: dict_values_def comp_def split_beta)
  ultimately show ?thesis using assms(2) by (simp add: proportional_split_def split_total_def Let_def)
qed

text \<open>The rounded total is at least every weight.\<close>

lemma split_total_ge:
  assumes b: "1 \<le> min_eta" "min_eta \<le> 2 ^ 32" "\<forall>(k, e) \<in> set etas. e \<le> 2 ^ 32" and len: "length etas \<le> 256"
    and mem: "(k, e) \<in> set etas"
  shows "inverse_weight min_eta e \<le> split_total etas min_eta"
proof (cases "length etas = 1")
  case True
  then have "etas = [(k, e)]" using mem by (cases etas) auto
  then show ?thesis by (simp add: split_total_def)
next
  case False
  define ws where "ws = map (\<lambda>(key, eta). inverse_weight min_eta eta) etas"
  define w where "w = inverse_weight min_eta e"
  have pos: "(0::rat) \<le> 1 / 2 ^ 32" by simp
  have ws: "1 / 2 ^ 32 \<le> x \<and> x \<le> 1 \<and> fl x = x" if "x \<in> set ws" for x
    using that b(3) inverse_weight_bounds [OF b(1,2)] by (auto simp: ws_def)
  obtain as bs where split: "etas = as @ (k, e) # bs" using mem by (meson split_list)
  define rest where "rest = map (\<lambda>(key, eta). inverse_weight min_eta eta) (as @ bs)"
  have sum: "sum_list ws = w + sum_list rest" by (simp add: ws_def rest_def split w_def)
  have sub: "set rest \<subseteq> set ws" by (auto simp: ws_def rest_def split)
  have "rest \<noteq> []" using False by (auto simp: rest_def split)
  then obtain y ys where "rest = y # ys" by (cases rest) auto
  moreover have "0 \<le> sum_list ys"
  proof (rule sum_list_nonneg)
    fix x assume "x \<in> set ys"
    then have "x \<in> set ws" using sub \<open>rest = y # ys\<close> by auto
    then show "0 \<le> x" using ws order_trans [OF pos] by blast
  qed
  moreover have "1 / 2 ^ 32 \<le> y" using sub ws \<open>rest = y # ys\<close> by auto
  ultimately have rest: "1 / 2 ^ 32 \<le> sum_list rest" by simp
  have n: "(of_nat (length ws) :: rat) \<le> 256" using len of_nat_mono [of "length ws" 256, where 'a = rat]
    by (simp add: ws_def)
  have "sum_list ws \<le> of_nat (length ws)"
  proof -
    have "sum_list zs \<le> of_nat (length zs)" if "\<forall>x \<in> set zs. x \<le> 1" for zs :: "rat list"
      using that by (induction zs) auto
    then show ?thesis using ws by auto
  qed
  then have S: "sum_list ws \<le> 256" using n by linarith
  have S0: "0 \<le> sum_list ws" by (rule sum_list_nonneg) (use ws order_trans [OF pos] in blast)
  define c :: rat where "c = (22 * of_nat (length ws) + 3) * eps"
  have c: "0 \<le> c" "c \<le> (22 * 256 + 3) * eps" unfolding c_def using n eps_pos by (auto intro: mult_right_mono)
  have "ws \<noteq> []" "length ws \<le> 2 ^ 40" using split len by (auto simp: ws_def)
  then have "(1 - c) * sum_list ws \<le> py_sum ws"
    unfolding c_def
  proof (intro py_sum_lower ballI conjI)
    fix x assume "x \<in> set ws"
    moreover have "(1 / 2 ^ 40 :: rat) \<le> 1 / 2 ^ 32" by simp
    ultimately show "1 / 2 ^ 40 \<le> x" "fl x = x" using ws by (blast intro: order_trans)+
  qed
  moreover have "c * sum_list ws \<le> 1 / 2 ^ 32"
  proof -
    have "c * sum_list ws \<le> ((22 * 256 + 3) * eps) * 256" using c S S0 by (intro mult_mono) auto
    then show ?thesis by (simp add: eps_def)
  qed
  ultimately have "w \<le> py_sum ws" using sum rest by (simp add: algebra_simps)
  then show ?thesis by (simp add: w_def ws_def split_total_def)
qed

lemma split_total_pos:
  assumes "1 \<le> min_eta" "min_eta \<le> 2 ^ 32" "\<forall>(k, e) \<in> set etas. e \<le> 2 ^ 32" "length etas \<le> 256" "etas \<noteq> []"
  shows "0 < split_total etas min_eta"
proof -
  obtain k e where mem: "(k, e) \<in> set etas" using assms(5) by (metis list.set_intros(1) neq_Nil_conv surj_pair)
  have "e \<le> 2 ^ 32" using assms(3) mem by auto
  then have "0 < inverse_weight min_eta e"
    using inverse_weight_bounds(1) [OF assms(1,2)] by (force intro: order.strict_trans2 [rotated])
  then show ?thesis using split_total_ge [OF assms(1-4) mem] by linarith
qed

lemma proportional_split_fraction:
  assumes b: "1 \<le> min_eta" "min_eta \<le> 2 ^ 32" "\<forall>(k, e) \<in> set etas. e \<le> 2 ^ 32" "length etas \<le> 256"
  shows "\<exists>x. proportional_split etas k min_eta = Inr x \<and> 0 \<le> x \<and> x \<le> 1"
proof (cases "dict_get etas k")
  case None
  then show ?thesis by (simp add: proportional_split_def)
next
  case (Some e)
  then have mem: "(k, e) \<in> set etas" by (simp add: dict_get_def map_of_SomeD)
  have "0 < split_total etas min_eta" by (rule split_total_pos [OF b]) (use mem in auto)
  moreover have "0 \<le> inverse_weight min_eta e"
    using inverse_weight_bounds(1) [OF b(1,2)] b(3) mem by (force intro: order_trans [rotated])
  moreover have "inverse_weight min_eta e \<le> split_total etas min_eta" by (rule split_total_ge [OF b mem])
  ultimately show ?thesis using proportional_split_eq [OF b(1) Some]
    by (auto simp: fdiv_def intro: binary64.rnd_nonneg binary64.rnd_le_one)
qed

end
