(* ===== verification/Builder_Properties.thy ===== *)
theory Builder_Properties
  imports Snapshot_Builder Evaluator_Properties Db_Writer_Properties
begin

text \<open>
  The properties of the snapshot builder: the shares are fractions, and a snapshot is a
  faithful, well-formed picture of the tables, fit for the engine.
\<close>

subsection \<open>Shares\<close>

text \<open>What a stop's entries are: the last arrival per route and direction.\<close>

lemma group_etas_get:
  "dict_get (group_etas rows) stop =
     (case filter (\<lambda>r. et_stop_id r = stop) rows of [] \<Rightarrow> None
      | rs \<Rightarrow> Some (dict_of (map (\<lambda>r. (et_key r, et_abs_arrival r)) rs)))"
proof -
  have fold: "foldl (\<lambda>v r. Some (dict_set (case v of Some d \<Rightarrow> d | None \<Rightarrow> []) (et_key r) (et_abs_arrival r))) (Some d) rs =
      Some (foldl (\<lambda>d (k, v). dict_set d k v) d (map (\<lambda>r. (et_key r, et_abs_arrival r)) rs))" for d and rs :: "eta_row list"
    by (induction rs arbitrary: d) auto
  have "dict_get (group_etas rows) stop =
      foldl (\<lambda>v r. Some (dict_set (case v of Some d \<Rightarrow> d | None \<Rightarrow> []) (et_key r) (et_abs_arrival r))) None
        (filter (\<lambda>r. et_stop_id r = stop) rows)"
    unfolding group_etas_def
    using dict.get_updates [where d = "[]" and key = et_stop_id and xs = rows and k = stop and
        upd = "\<lambda>v r. dict_set (case v of Some d \<Rightarrow> d | None \<Rightarrow> []) (et_key r) (et_abs_arrival r)"]
    by (simp add: dict.get_empty)
  also have "\<dots> = (case filter (\<lambda>r. et_stop_id r = stop) rows of [] \<Rightarrow> None
      | rs \<Rightarrow> Some (dict_of (map (\<lambda>r. (et_key r, et_abs_arrival r)) rs)))"
    by (cases "filter (\<lambda>r. et_stop_id r = stop) rows") (simp_all add: fold dict_of_def)
  finally show ?thesis .
qed

lemma group_etas_keys:
  assumes "dict_get (group_etas rows) stop = Some entries" "k \<in> set (dict_keys entries)"
  shows "\<exists>r \<in> set rows. et_stop_id r = stop \<and> et_key r = k"
proof -
  define rs where "rs = filter (\<lambda>r. et_stop_id r = stop) rows"
  have "entries = dict_of (map (\<lambda>r. (et_key r, et_abs_arrival r)) rs)"
    using assms(1) by (auto simp: group_etas_get rs_def [symmetric] split: list.splits)
  then have "k \<in> et_key ` set rs" using assms(2) by (simp add: set_dict_of_keys image_image)
  then show ?thesis by (auto simp: rs_def)
qed

definition route_keys_at :: "trip_row list \<Rightarrow> string \<Rightarrow> route_key set" where
  "route_keys_at rows stop = (\<lambda>r. (tu_route_id r, tu_direction_id r)) ` {r \<in> set rows. tu_stop_id r = Some stop}"

lemma eta_query_rows:
  assumes "eta_query stop_ids now_ts d = Inr rows" "r \<in> set rows"
  shows "et_key r \<in> route_keys_at (db_trip_updates d) (et_stop_id r) \<and> int4 (et_abs_arrival r)"
proof -
  define joined where "joined = joined_arrivals (latest_per_trip stop_ids now_ts d) (db_stop_times d)"
  have rows: "rows = distinct_on (\<lambda>r. (et_stop_id r, et_key r)) (sort_key eta_order joined)"
    "list_all (\<lambda>r. int4 (et_abs_arrival r)) joined"
    using assms(1) by (auto simp: eta_query_def joined_def Let_def)
  then have "r \<in> set joined" using assms(2) distinct_on_set by fastforce
  moreover from this obtain l where l: "l \<in> set (latest_per_trip stop_ids now_ts d)" "et_stop_id r = the (tu_stop_id l)"
    "et_key r = (tu_route_id l, tu_direction_id l)"
    by (auto simp: joined_def joined_arrivals_def)
  moreover have "set (latest_per_trip stop_ids now_ts d) \<subseteq> {g \<in> set (db_trip_updates d). tu_stop_id g \<noteq> None}"
    unfolding latest_per_trip_def by (rule order_trans [OF distinct_on_set]) (auto split: option.splits)
  ultimately show ?thesis using rows(2) by (force simp: route_keys_at_def list_all_iff)
qed

definition few_routes :: "trip_row list \<Rightarrow> bool" where
  "few_routes rows \<longleftrightarrow> (\<forall>stop. card (route_keys_at rows stop) \<le> 256)"

lemma stop_entries:
  assumes q: "eta_query stop_ids now_ts d = Inr rows" and few: "few_routes (db_trip_updates d)"
    and e: "dict_get (group_etas rows) stop = Some entries"
  shows "length entries \<le> 256 \<and> distinct (dict_keys entries) \<and> (\<forall>(k, a) \<in> set entries. int4 a)"
proof -
  define rs where "rs = filter (\<lambda>r. et_stop_id r = stop) rows"
  have entries: "entries = dict_of (map (\<lambda>r. (et_key r, et_abs_arrival r)) rs)"
    using e by (auto simp: group_etas_get rs_def [symmetric] split: list.splits)
  have dist: "distinct (dict_keys entries)" by (simp add: entries distinct_dict_of)
  have "set (dict_keys entries) \<subseteq> route_keys_at (db_trip_updates d) stop"
    using eta_query_rows [OF q] by (auto simp: entries set_dict_of_keys rs_def)
  moreover have fin: "finite (route_keys_at (db_trip_updates d) stop)" by (simp add: route_keys_at_def)
  ultimately have "card (set (dict_keys entries)) \<le> card (route_keys_at (db_trip_updates d) stop)" by (intro card_mono)
  moreover have "card (route_keys_at (db_trip_updates d) stop) \<le> 256" using few by (simp add: few_routes_def)
  moreover have "length entries = card (set (dict_keys entries))" using distinct_card [OF dist] by (simp add: dict_keys_def)
  ultimately have len: "length entries \<le> 256" by linarith
  have "int4 a" if "(k, a) \<in> set entries" for k a
  proof -
    have "dict_get entries k = Some a" using that dict_get_item [OF dist] by blast
    then have "(k, a) \<in> set (map (\<lambda>r. (et_key r, et_abs_arrival r)) rs)"
      by (auto simp: entries dict_of_get dest: map_of_SomeD)
    then show ?thesis using eta_query_rows [OF q] by (auto simp: rs_def)
  qed
  then show ?thesis using dist len by auto
qed

lemma relative_etas_bound:
  assumes "\<forall>(k, a) \<in> set entries. int4 a" "0 \<le> now_secs"
  shows "\<forall>(k, e) \<in> set (relative_etas now_secs entries). e \<le> 2 ^ 32"
  using assms by (fastforce simp: relative_etas_def relative_eta_def int4_def Let_def)

lemma stop_share_fraction:
  assumes q: "eta_query stop_ids now_ts d = Inr rows" and few: "few_routes (db_trip_updates d)" and now: "0 \<le> now_secs"
  shows "\<exists>x. stop_share route_id direction_id now_secs (group_etas rows) stop = Inr x \<and> 0 \<le> x \<and> x \<le> 1"
proof (cases "dict_get (group_etas rows) stop")
  case None
  then show ?thesis by (simp add: stop_share_def)
next
  case (Some entries)
  note e = stop_entries [OF q few Some]
  have "length (relative_etas now_secs entries) \<le> 256"
    using e unfolding relative_etas_def by (intro order_trans [OF length_filter_le]) simp
  moreover have "\<forall>(k, e) \<in> set (relative_etas now_secs entries). e \<le> 2 ^ 32"
    by (rule relative_etas_bound) (use e now in auto)
  ultimately have "\<exists>x. proportional_split (relative_etas now_secs entries) k 30 = Inr x \<and> 0 \<le> x \<and> x \<le> 1" for k
    by (intro proportional_split_fraction) auto
  then show ?thesis using Some by (simp add: stop_share_def Let_def)
qed

lemma share_loop_fractions:
  assumes "\<And>st. \<exists>x. f st = Inr x \<and> 0 \<le> x \<and> x \<le> (1 :: pyfloat)"
    and "\<forall>x \<in> set (dict_values shares). 0 \<le> x \<and> x \<le> 1"
  shows "\<exists>shares'. share_loop f ids shares = Inr shares' \<and>
    (\<forall>x \<in> set (dict_values shares'). 0 \<le> x \<and> x \<le> 1) \<and>
    (\<forall>st. dict_get shares' st = (if st \<in> set ids then Some (case f st of Inr x \<Rightarrow> x | Inl e \<Rightarrow> 0) else dict_get shares st))"
  using assms(2)
proof (induction ids arbitrary: shares)
  case (Cons st ids)
  obtain x where x: "f st = Inr x" "0 \<le> x" "x \<le> 1" using assms(1) by blast
  have "\<forall>y \<in> set (dict_values (dict_set shares st x)). 0 \<le> y \<and> y \<le> 1"
    using Cons.prems x dict_values_set_items [of _ shares st x] by blast
  from Cons.IH [OF this] show ?case using x by (auto simp: dict_get_set)
qed simp

lemma compute_crowd_shares_fractions:
  assumes "eta_query stop_ids now_ts d = Inr rows" "few_routes (db_trip_updates d)" "0 \<le> now_secs"
  shows "\<exists>shares. compute_crowd_shares rows route_id direction_id ids now_secs = Inr shares \<and>
    (\<forall>st. dict_get shares st =
      (if st \<in> set ids then Some (case stop_share route_id direction_id now_secs (group_etas rows) st of Inr x \<Rightarrow> x | Inl e \<Rightarrow> 0)
       else None)) \<and>
    (\<forall>st x. dict_get shares st = Some x \<longrightarrow> 0 \<le> x \<and> x \<le> 1)"
proof -
  obtain shares where s: "compute_crowd_shares rows route_id direction_id ids now_secs = Inr shares"
    "\<forall>x \<in> set (dict_values shares). 0 \<le> x \<and> x \<le> 1"
    "\<forall>st. dict_get shares st =
      (if st \<in> set ids then Some (case stop_share route_id direction_id now_secs (group_etas rows) st of Inr x \<Rightarrow> x | Inl e \<Rightarrow> 0)
       else dict_get [] st)"
    using share_loop_fractions [of "stop_share route_id direction_id now_secs (group_etas rows)" "[]" ids]
      stop_share_fraction [OF assms] by (auto simp: compute_crowd_shares_def dict_values_def)
  moreover have "0 \<le> x \<and> x \<le> 1" if "dict_get shares st = Some x" for st x
  proof -
    have "x \<in> set (dict_values shares)" using that map_of_SomeD [of shares st x] by (force simp: dict_get_def dict_values_def)
    then show ?thesis using s(2) by blast
  qed
  ultimately show ?thesis by (auto simp: dict.get_empty)
qed

lemma apply_share_bounds:
  assumes "0 \<le> n" "n \<le> 2 ^ 31" "0 \<le> x" "x \<le> 1"
  shows "\<exists>w. apply_share (Some n) x = Some w \<and> 0 \<le> w \<and> w \<le> n"
proof -
  have f: "py_float n = of_int n" "0 \<le> py_float n" using assms by (simp_all add: py_float_exact py_float_nonneg)
  have "fmul (py_float n) x \<le> of_int n" using fmul_le_fixed [OF f(2) assms(4) py_float_fixed] f(1) by simp
  then show ?thesis
    using py_round_nonneg [OF fmul_nonneg [OF f(2) assms(3)]] py_round_le_int by (simp add: apply_share_def)
qed

lemma apply_share_one: "0 \<le> n \<Longrightarrow> n \<le> 2 ^ 31 \<Longrightarrow> apply_share (Some n) 1 = Some n"
  by (simp add: apply_share_def py_float_exact fmul_def fl_of_int py_round_of_int)

subsection \<open>What \<open>build\<close> returns\<close>

lemma query_Inr: "query up q s = (Inr x, t) \<Longrightarrow> x = q (se_work s) \<and> se_work t = se_work s"
  by (auto simp: query_def call_def Let_def split: if_splits)

lemma query_checked_Inr: "query_checked up q s = (Inr x, t) \<Longrightarrow> q (se_work s) = Inr x \<and> se_work t = se_work s"
  by (auto simp: query_checked_def call_def Let_def split: if_splits sum.splits)

lemma build_Some:
  assumes "idle s" "build opened up cap route dir now_ts now_secs s = (Inr (Some snap), s')"
  obtains rows shares where
    "query_stops route dir (se_committed s) \<noteq> []"
    "eta_query (map ss_stop_id (query_stops route dir (se_committed s))) now_ts (se_committed s) = Inr rows"
    "compute_crowd_shares rows route dir (map ss_stop_id (query_stops route dir (se_committed s))) now_secs = Inr shares"
    "snap = \<lparr>rs_route_id = route, rs_direction_id = dir,
       rs_stops = with_counts (query_crowd_counts (map ss_stop_id (query_stops route dir (se_committed s))) (se_committed s))
         shares (query_stops route dir (se_committed s)),
       rs_vehicles = query_vehicles cap route dir (se_committed s)\<rparr>"
proof -
  have w: "se_work (s\<lparr>se_calls := Suc (se_calls s)\<rparr>) = se_committed s" using assms(1) by (simp add: idle_def)
  show ?thesis
    using assms(2) w that
    by (auto simp: build_def build_body_def connection_def bind_io_def Let_def bind_result_def
        dest!: query_Inr query_checked_Inr split: if_splits prod.splits sum.splits)
qed

lemma build_stops:
  assumes "idle s" "build opened up cap route dir now_ts now_secs s = (Inr (Some snap), s')"
  shows "map (\<lambda>st. (ss_stop_id st, ss_sequence st)) (rs_stops snap) =
    map (\<lambda>st. (ss_stop_id st, ss_sequence st)) (query_stops route dir (se_committed s))"
  by (rule build_Some [OF assms]) (simp add: with_counts_def)

lemma query_stops_sorted:
  assumes "keys_ok d"
  shows "sorted_wrt (<) (map ss_sequence (query_stops route dir d))"
proof -
  let ?rows = "filter (\<lambda>r. rt_route_id r = route \<and> rt_direction_id r = dir) (db_route_stops d)"
  have "distinct (map (\<lambda>r. (rt_route_id r, rt_direction_id r, rt_stop_sequence r)) (db_route_stops d))"
    using assms by (simp add: keys_ok_def)
  then have "distinct (map (\<lambda>r. (rt_route_id r, rt_direction_id r, rt_stop_sequence r)) ?rows)" by (rule distinct_map_filter)
  then have "distinct (map rt_stop_sequence ?rows)" by (auto simp: distinct_map inj_on_def)
  then have "distinct (map rt_stop_sequence (sort_key rt_stop_sequence ?rows))"
    by (simp add: distinct_map)
  moreover have "sorted (map rt_stop_sequence (sort_key rt_stop_sequence ?rows))" by simp
  ultimately show ?thesis by (simp add: query_stops_def comp_def strict_sorted_iff)
qed

lemma query_crowd_get:
  assumes "dict_get (query_crowd_counts ids d) stop = Some n"
  shows "\<exists>row \<in> set (db_current_counts d). cc_stop_id row = stop \<and> cc_count row = n"
  using assms unfolding query_crowd_counts_def dict_of_get by (auto dest!: map_of_SomeD)

lemma query_crowd_None:
  "stop \<in> set ids \<Longrightarrow> dict_get (query_crowd_counts ids d) stop = None \<longleftrightarrow> stop \<notin> cc_stop_id ` set (db_current_counts d)"
  unfolding query_crowd_counts_def dict_of_get by (force simp: map_of_eq_None_iff)

definition counts_ok :: "database \<Rightarrow> bool" where
  "counts_ok d \<longleftrightarrow> (\<forall>row \<in> set (db_current_counts d). 0 \<le> cc_count row \<and> int4 (cc_count row))"

text \<open>The number waiting at a stop of the snapshot.\<close>

lemma build_waiting:
  assumes b: "idle s" "build opened up cap route dir now_ts now_secs s = (Inr (Some snap), s')"
    and ok: "few_routes (db_trip_updates (se_committed s))" "counts_ok (se_committed s)" "0 \<le> now_secs"
    and st: "st \<in> set (rs_stops snap)"
  shows "case ss_people_waiting st of
      None \<Rightarrow> ss_stop_id st \<notin> cc_stop_id ` set (db_current_counts (se_committed s))
    | Some w \<Rightarrow> (\<exists>row \<in> set (db_current_counts (se_committed s)). cc_stop_id row = ss_stop_id st \<and> 0 \<le> w \<and> w \<le> cc_count row \<and>
        (route_keys_at (db_trip_updates (se_committed s)) (ss_stop_id st) \<subseteq> {(Some route, Some dir)} \<longrightarrow> w = cc_count row))"
proof (rule build_Some [OF b], goal_cases)
  case (1 rows shares)
  let ?d = "se_committed s"
  define ids where "ids = map ss_stop_id (query_stops route dir ?d)"
  note 1 = 1 [folded ids_def]
  obtain st0 where st0: "st0 \<in> set (query_stops route dir ?d)" "ss_stop_id st = ss_stop_id st0"
    "ss_people_waiting st = apply_share (dict_get (query_crowd_counts ids ?d) (ss_stop_id st0))
         (case dict_get shares (ss_stop_id st0) of Some x \<Rightarrow> x | None \<Rightarrow> 1)"
    using st 1(4) by (auto simp: with_counts_def)
  have mem: "ss_stop_id st0 \<in> set ids" using st0(1) by (simp add: ids_def)
  obtain x where x: "stop_share route dir now_secs (group_etas rows) (ss_stop_id st0) = Inr x" "0 \<le> x" "x \<le> 1"
    using stop_share_fraction [OF 1(2) ok(1,3)] by blast
  have "dict_get shares (ss_stop_id st0) = Some x"
    using compute_crowd_shares_fractions [OF 1(2) ok(1,3), of route dir ids] 1(3) x(1) mem by auto
  then have w: "ss_people_waiting st = apply_share (dict_get (query_crowd_counts ids ?d) (ss_stop_id st0)) x"
    using st0(3) by simp
  show ?case
  proof (cases "dict_get (query_crowd_counts ids ?d) (ss_stop_id st0)")
    case None
    then have "ss_people_waiting st = None" using w by (simp add: apply_share_def)
    moreover have "ss_stop_id st \<notin> cc_stop_id ` set (db_current_counts ?d)"
      using None query_crowd_None [OF mem, of ?d] st0(2) by metis
    ultimately show ?thesis by simp
  next
    case (Some n)
    then obtain row where row: "row \<in> set (db_current_counts ?d)" "cc_stop_id row = ss_stop_id st0" "cc_count row = n"
      using query_crowd_get by blast
    then have n: "0 \<le> n" "n \<le> 2 ^ 31" using ok(2) by (auto simp: counts_ok_def int4_def)
    obtain v where v: "apply_share (Some n) x = Some v" "0 \<le> v" "v \<le> n" using apply_share_bounds [OF n x(2,3)] by blast
    have "v = n" if only: "route_keys_at (db_trip_updates ?d) (ss_stop_id st0) \<subseteq> {(Some route, Some dir)}"
    proof -
      have "x = 1"
      proof (cases "dict_get (group_etas rows) (ss_stop_id st0)")
        case (Some entries)
        have "set (dict_keys entries) \<subseteq> route_keys_at (db_trip_updates ?d) (ss_stop_id st0)"
        proof
          fix k assume "k \<in> set (dict_keys entries)"
          then obtain r where r: "r \<in> set rows" "et_stop_id r = ss_stop_id st0" "et_key r = k"
            using group_etas_keys [OF Some] by blast
          show "k \<in> route_keys_at (db_trip_updates ?d) (ss_stop_id st0)"
            using eta_query_rows [OF 1(2) r(1)] r(2,3) by simp
        qed
        then have "card (set (dict_keys entries)) \<le> card {(Some route, Some dir)}" using only by (intro card_mono) auto
        moreover have "card (set (dict_keys entries)) = length (dict_keys entries)"
          using stop_entries [OF 1(2) ok(1) Some] distinct_card by blast
        ultimately have "length (dict_keys entries) \<le> 1" by simp
        then have "length (relative_etas now_secs entries) \<le> 1"
          unfolding relative_etas_def by (intro order_trans [OF length_filter_le]) (simp add: dict_keys_def)
        then have "length (relative_etas now_secs entries) = 1 \<or> relative_etas now_secs entries = []"
          by (cases "relative_etas now_secs entries") auto
        then show ?thesis using x(1) Some by (auto simp: stop_share_def Let_def split: if_splits)
      qed (use x(1) in \<open>simp add: stop_share_def\<close>)
      then show ?thesis using v(1) apply_share_one [OF n] by simp
    qed
    then show ?thesis using w Some v row st0(2) by auto
  qed
qed

subsection \<open>Vehicles\<close>

definition vehicle_rows :: "database \<Rightarrow> string \<Rightarrow> int \<Rightarrow> string \<Rightarrow> trip_row set" where
  "vehicle_rows d route dir trip =
     {r \<in> set (db_trip_updates d). tu_route_id r = Some route \<and> tu_direction_id r = Some dir \<and> tu_trip_id r = trip \<and> trip \<noteq> []}"

definition current_position :: "trip_row set \<Rightarrow> trip_row \<Rightarrow> bool" where
  "current_position R r \<longleftrightarrow> r \<in> R \<and> (\<forall>r' \<in> R. tu_time r' \<le> tu_time r \<and>
     (tu_time r' = tu_time r \<longrightarrow> (case tu_stop_sequence r' of None \<Rightarrow> True
        | Some q' \<Rightarrow> \<exists>q. tu_stop_sequence r = Some q \<and> q \<le> q')))"

lemma query_vehicles_ids: "distinct (map vs_vehicle_id (query_vehicles cap route dir d))"
  using distinct_on_distinct [of tu_trip_id] by (simp add: query_vehicles_def comp_def)

lemma query_vehicles_trips:
  "trip \<in> vs_vehicle_id ` set (query_vehicles cap route dir d) \<longleftrightarrow> vehicle_rows d route dir trip \<noteq> {}"
proof -
  have "vs_vehicle_id ` set (query_vehicles cap route dir d) = tu_trip_id ` set (distinct_on tu_trip_id (sort_key vehicle_order
         (filter (\<lambda>r. tu_route_id r = Some route \<and> tu_direction_id r = Some dir \<and> tu_trip_id r \<noteq> [])
           (db_trip_updates d))))"
    by (simp add: query_vehicles_def image_image)
  also have "\<dots> = tu_trip_id ` {r \<in> set (db_trip_updates d).
      tu_route_id r = Some route \<and> tu_direction_id r = Some dir \<and> tu_trip_id r \<noteq> []}"
    by (simp add: distinct_on_keys)
  finally show ?thesis by (auto simp: vehicle_rows_def)
qed

lemma query_vehicles_position:
  assumes "v \<in> set (query_vehicles cap route dir d)"
  shows "vs_capacity v = cap \<and> vs_passenger_count v = 0 \<and> vs_route_id v = route \<and>
    (\<exists>r. current_position (vehicle_rows d route dir (vs_vehicle_id v)) r \<and> vs_current_stop_sequence v = tu_stop_sequence r)"
proof -
  let ?rows = "filter (\<lambda>r. tu_route_id r = Some route \<and> tu_direction_id r = Some dir \<and> tu_trip_id r \<noteq> []) (db_trip_updates d)"
  obtain r where r: "r \<in> set (distinct_on tu_trip_id (sort_key vehicle_order ?rows))"
    and v: "v = \<lparr>vs_vehicle_id = tu_trip_id r, vs_route_id = the (tu_route_id r), vs_capacity = cap,
              vs_current_stop_sequence = tu_stop_sequence r, vs_passenger_count = 0\<rparr>"
    using assms by (auto simp: query_vehicles_def)
  have mem: "r \<in> set ?rows" using r distinct_on_set by fastforce
  have "current_position (vehicle_rows d route dir (tu_trip_id r)) r"
    unfolding current_position_def
  proof (intro conjI ballI)
    show "r \<in> vehicle_rows d route dir (tu_trip_id r)" using mem by (simp add: vehicle_rows_def)
    fix r' assume "r' \<in> vehicle_rows d route dir (tu_trip_id r)"
    then have r': "r' \<in> set ?rows" "tu_trip_id r' = tu_trip_id r" by (auto simp: vehicle_rows_def)
    have "vehicle_order r \<le> vehicle_order r'" using distinct_on_least [OF r r'] by blast
    then have le: "(- tu_time r, nulls_last (tu_stop_sequence r) 0) \<le> (- tu_time r', nulls_last (tu_stop_sequence r') 0)"
      using r'(2) by (simp add: vehicle_order_def less_eq_prod_def)
    then show "tu_time r' \<le> tu_time r" by (auto simp: less_eq_prod_def)
    show "tu_time r' = tu_time r \<longrightarrow> (case tu_stop_sequence r' of None \<Rightarrow> True
        | Some q' \<Rightarrow> \<exists>q. tu_stop_sequence r = Some q \<and> q \<le> q')"
      using le by (auto simp: less_eq_prod_def nulls_last_def split: option.splits)
  qed
  then show ?thesis using v mem by auto
qed

subsection \<open>Properties\<close>

text \<open>Two routes at stop b, one at stop a; two fetches of one trip.\<close>

definition example_net :: database where
  "example_net = example_db\<lparr>
     db_route_stops := [\<lparr>rt_route_id = ''r1'', rt_stop_id = ''b'', rt_direction_id = 0, rt_stop_sequence = 2\<rparr>,
       \<lparr>rt_route_id = ''r1'', rt_stop_id = ''a'', rt_direction_id = 0, rt_stop_sequence = 1\<rparr>],
     db_current_counts := [\<lparr>cc_device_id = ''d1'', cc_stop_id = ''a'', cc_count = 12, cc_previous_count = None,
       cc_zone = None, cc_updated_at = 0\<rparr>],
     db_trip_updates := [
       \<lparr>tu_time = 1, tu_trip_id = ''t1'', tu_route_id = Some ''r1'', tu_direction_id = Some 0, tu_vehicle_id = None,
        tu_stop_id = Some ''a'', tu_stop_sequence = Some 1, tu_arrival_delay = None, tu_departure_delay = None, tu_raw = JNull\<rparr>,
       \<lparr>tu_time = 2, tu_trip_id = ''t1'', tu_route_id = Some ''r1'', tu_direction_id = Some 0, tu_vehicle_id = None,
        tu_stop_id = Some ''b'', tu_stop_sequence = Some 2, tu_arrival_delay = None, tu_departure_delay = None, tu_raw = JNull\<rparr>]\<rparr>"

definition example_net_snapshot :: route_snapshot where
  "example_net_snapshot = \<lparr>rs_route_id = ''r1'', rs_direction_id = 0,
     rs_stops = [\<lparr>ss_stop_id = ''a'', ss_sequence = 1, ss_people_waiting = Some 12\<rparr>,
       \<lparr>ss_stop_id = ''b'', ss_sequence = 2, ss_people_waiting = None\<rparr>],
     rs_vehicles = [\<lparr>vs_vehicle_id = ''t1'', vs_route_id = ''r1'', vs_capacity = 80,
       vs_current_stop_sequence = Some 2, vs_passenger_count = 0\<rparr>]\<rparr>"

lemma example_net_keys: "keys_ok example_net"
  by (simp add: example_net_def example_db_def empty_db_def keys_ok_def)

lemma example_net_few: "few_routes (db_trip_updates example_net)"
proof -
  have "route_keys_at (db_trip_updates example_net) stop \<subseteq> {(Some ''r1'', Some 0)}" for stop
    by (auto simp: route_keys_at_def example_net_def)
  then have "card (route_keys_at (db_trip_updates example_net) stop) \<le> card {(Some ''r1'', Some (0::int))}" for stop
    by (intro card_mono) auto
  then have "card (route_keys_at (db_trip_updates example_net) stop) \<le> 256" for stop
    by (rule order_trans) simp
  then show ?thesis by (simp add: few_routes_def)
qed

lemma example_net_counts: "counts_ok example_net"
  by (simp add: example_net_def counts_ok_def int4_def)

lemma example_net_build:
  "\<exists>s'. build True (\<lambda>n. True) 80 ''r1'' 0 3 100 (new_session example_net) = (Inr (Some example_net_snapshot), s')"
proof -
  have stops: "query_stops ''r1'' 0 example_net =
      [\<lparr>ss_stop_id = ''a'', ss_sequence = 1, ss_people_waiting = None\<rparr>, \<lparr>ss_stop_id = ''b'', ss_sequence = 2, ss_people_waiting = None\<rparr>]"
    by (simp add: query_stops_def example_net_def)
  have crowd: "query_crowd_counts [''a'', ''b''] example_net = [(''a'', 12)]"
    by (simp add: query_crowd_counts_def example_net_def dict_of_def)
  have vehicles: "query_vehicles 80 ''r1'' 0 example_net = rs_vehicles example_net_snapshot"
    by (simp add: query_vehicles_def example_net_def example_net_snapshot_def vehicle_order_def nulls_last_def less_eq_prod_def)
  have "db_stop_times example_net = []" by (simp add: example_net_def example_db_def empty_db_def)
  then have "joined_arrivals latest (db_stop_times example_net) = []" for latest
    by (induction latest) (simp_all add: joined_arrivals_def)
  then have eta: "eta_query [''a'', ''b''] 3 example_net = Inr []"
    by (simp add: eta_query_def checked_def)
  have shares: "compute_crowd_shares [] ''r1'' 0 [''a'', ''b''] 100 = Inr [(''a'', 1), (''b'', 1)]"
    by (simp add: compute_crowd_shares_def stop_share_def group_etas_def dict_get_def)
  have waiting: "apply_share (Some 12) 1 = Some 12" by (rule apply_share_one) simp_all
  show ?thesis
    by (simp add: build_def build_body_def connection_def bind_io_def query_def query_checked_def call_def new_session_def Let_def
        stops crowd vehicles eta shares with_counts_def dict_get_def waiting example_net_snapshot_def)
      (simp add: apply_share_def)
qed

text \<open>
  The split of a crowd over up to 256 competing routes with arrivals within \<open>2^32\<close>
  seconds: every share is a fraction between 0 and 1 in spite of the rounding of weights
  and of their sum, and of two routes the one that arrives sooner gets at least the share
  of the other.
\<close>

theorem split_favours_sooner:
  assumes "1 \<le> min_eta" "min_eta \<le> 2 ^ 32" "\<forall>(k, e) \<in> set etas. e \<le> 2 ^ 32" "length etas \<le> 256"
    "dict_get etas k = Some e" "dict_get etas k' = Some e'" "e \<le> e'"
  shows "\<exists>x x'. proportional_split etas k min_eta = Inr x \<and> proportional_split etas k' min_eta = Inr x' \<and>
    0 \<le> x' \<and> x' \<le> x \<and> x \<le> 1"
proof -
  obtain x x' where x: "proportional_split etas k min_eta = Inr x" "x \<le> 1"
    "proportional_split etas k' min_eta = Inr x'" "0 \<le> x'"
    using proportional_split_fraction [OF assms(1-4)] by metis
  have "etas \<noteq> []" using assms(5) by (auto simp: dict_get_def)
  then have "0 < split_total etas min_eta" by (rule split_total_pos [OF assms(1-4)])
  moreover have "inverse_weight min_eta e' \<le> inverse_weight min_eta e" by (rule inverse_weight_antimono [OF assms(1,7)])
  ultimately have "fdiv (inverse_weight min_eta e') (split_total etas min_eta) \<le> fdiv (inverse_weight min_eta e) (split_total etas min_eta)"
    unfolding fdiv_def by (intro fl_mono divide_right_mono) auto
  then have "x' \<le> x"
    using x(1,3) proportional_split_eq [OF assms(1,5)] proportional_split_eq [OF assms(1,6)] by (auto split: if_splits)
  then show ?thesis using x by auto
qed

theorem split_favours_sooner_witness:
  "\<exists>x x'. proportional_split [((''r1'', 0 :: int), 60), ((''r2'', 1), 600)] (''r1'', 0) 30 = Inr x \<and>
     proportional_split [((''r1'', 0 :: int), 60), ((''r2'', 1), 600)] (''r2'', 1) 30 = Inr x' \<and> x' \<le> x"
  using split_favours_sooner [of 30 "[((''r1'', 0 :: int), 60), ((''r2'', 1), 600)]" "(''r1'', 0)" 60 "(''r2'', 1)" 600]
  by (auto simp: dict_get_def)

text \<open>
  C28: a snapshot that \<open>build\<close> returns is well formed and lists exactly the rows of
  \<open>route_stops\<close> of its route and direction, by strictly increasing sequence; its vehicles
  have distinct ids and start empty, so the engine's guarantees on well-formed snapshots
  apply to it.
\<close>

theorem build_snapshot_wf:
  assumes "idle s" "keys_ok (se_committed s)" "few_routes (db_trip_updates (se_committed s))"
    "counts_ok (se_committed s)" "0 \<le> now_secs" "0 \<le> cap"
    "build opened up cap route dir now_ts now_secs s = (Inr (Some snap), s')"
  shows "wf_snapshot snap \<and> rs_route_id snap = route \<and> rs_direction_id snap = dir \<and>
    sorted_wrt (<) (map ss_sequence (rs_stops snap)) \<and>
    (\<forall>st seq. (st, seq) \<in> (\<lambda>x. (ss_stop_id x, ss_sequence x)) ` set (rs_stops snap) \<longleftrightarrow>
      \<lparr>rt_route_id = route, rt_stop_id = st, rt_direction_id = dir, rt_stop_sequence = seq\<rparr> \<in> set (db_route_stops (se_committed s))) \<and>
    distinct (map vs_vehicle_id (rs_vehicles snap)) \<and>
    (\<forall>v \<in> set (rs_vehicles snap). vs_passenger_count v = 0 \<and> vs_passenger_count v \<le> vs_capacity v)"
proof -
  let ?d = "se_committed s"
  have ids: "rs_route_id snap = route" "rs_direction_id snap = dir" "rs_vehicles snap = query_vehicles cap route dir ?d"
    by (rule build_Some [OF assms(1,7)], simp)+
  note stops = build_stops [OF assms(1,7)]
  have seqs: "map ss_sequence (rs_stops snap) = map ss_sequence (query_stops route dir ?d)"
    using arg_cong [OF stops, of "map snd"] by (simp add: comp_def)
  then have sorted: "sorted_wrt (<) (map ss_sequence (rs_stops snap))" using query_stops_sorted [OF assms(2)] by simp
  have waiting: "case ss_people_waiting st of None \<Rightarrow> True | Some n \<Rightarrow> 0 \<le> n" if "st \<in> set (rs_stops snap)" for st
    using build_waiting [OF assms(1,7,3-5) that] by (auto split: option.splits)
  have veh: "\<forall>v \<in> set (rs_vehicles snap). vs_passenger_count v = 0 \<and> vs_capacity v = cap"
    using query_vehicles_position ids(3) by metis
  have "(\<lambda>x. (ss_stop_id x, ss_sequence x)) ` set (rs_stops snap) = (\<lambda>x. (ss_stop_id x, ss_sequence x)) ` set (query_stops route dir ?d)"
    using arg_cong [OF stops, of set] by simp
  also have "\<dots> = (\<lambda>r. (rt_stop_id r, rt_stop_sequence r)) ` {r \<in> set (db_route_stops ?d). rt_route_id r = route \<and> rt_direction_id r = dir}"
    by (simp add: query_stops_def image_image)
  finally have rows: "(st, seq) \<in> (\<lambda>x. (ss_stop_id x, ss_sequence x)) ` set (rs_stops snap) \<longleftrightarrow>
      \<lparr>rt_route_id = route, rt_stop_id = st, rt_direction_id = dir, rt_stop_sequence = seq\<rparr> \<in> set (db_route_stops ?d)" for st seq
    by (auto simp: image_iff) (metis (full_types) old.unit.exhaust route_stop_row.surjective)
  have "wf_snapshot snap"
    using sorted waiting veh by (simp add: wf_snapshot_def list_all_iff strict_sorted_iff)
  then show ?thesis using ids sorted rows veh query_vehicles_ids assms(6) by auto
qed

theorem build_snapshot_wf_witness: "wf_snapshot example_net_snapshot"
proof -
  obtain s' where b: "build True (\<lambda>n. True) 80 ''r1'' 0 3 100 (new_session example_net) = (Inr (Some example_net_snapshot), s')"
    using example_net_build by blast
  have d: "se_committed (new_session example_net) = example_net" by (simp add: new_session_def)
  show ?thesis
    using build_snapshot_wf [OF idle_new_session _ _ _ _ _ b] example_net_keys example_net_few example_net_counts
    by (simp add: d)
qed

text \<open>
  C29: the people waiting in a snapshot.  A stop has no count exactly when no device counts
  there; otherwise its number is between 0 and the count of a device there, and is that
  count itself when no other route or direction has trip updates for the stop.
\<close>

theorem build_people_waiting:
  assumes "idle s" "few_routes (db_trip_updates (se_committed s))" "counts_ok (se_committed s)" "0 \<le> now_secs"
    "build opened up cap route dir now_ts now_secs s = (Inr (Some snap), s')" "st \<in> set (rs_stops snap)"
  shows "case ss_people_waiting st of
      None \<Rightarrow> ss_stop_id st \<notin> cc_stop_id ` set (db_current_counts (se_committed s))
    | Some w \<Rightarrow> (\<exists>row \<in> set (db_current_counts (se_committed s)). cc_stop_id row = ss_stop_id st \<and> 0 \<le> w \<and> w \<le> cc_count row \<and>
        (route_keys_at (db_trip_updates (se_committed s)) (ss_stop_id st) \<subseteq> {(Some route, Some dir)} \<longrightarrow> w = cc_count row))"
  by (rule build_waiting [OF assms(1,5,2-4,6)])

theorem build_people_waiting_witness:
  "\<exists>row \<in> set (db_current_counts example_net). cc_stop_id row = ''a'' \<and> 12 \<le> cc_count row"
proof -
  obtain s' where b: "build True (\<lambda>n. True) 80 ''r1'' 0 3 100 (new_session example_net) = (Inr (Some example_net_snapshot), s')"
    using example_net_build by blast
  have d: "se_committed (new_session example_net) = example_net" by (simp add: new_session_def)
  show ?thesis
    using build_people_waiting [OF idle_new_session _ _ _ b, of "hd (rs_stops example_net_snapshot)"]
      example_net_few example_net_counts
    by (auto simp: d example_net_snapshot_def)
qed

text \<open>
  The vehicles of a snapshot are exactly the trips that have a trip update of the
  route and direction, one vehicle per trip; its position is the least stop sequence
  known in the trip's most recent fetch, and is unknown only when that fetch gives none.
\<close>

theorem build_vehicles_latest:
  assumes "idle s" "build opened up cap route dir now_ts now_secs s = (Inr (Some snap), s')"
  shows "(\<forall>trip. trip \<in> vs_vehicle_id ` set (rs_vehicles snap) \<longleftrightarrow> vehicle_rows (se_committed s) route dir trip \<noteq> {}) \<and>
    (\<forall>v \<in> set (rs_vehicles snap). vs_capacity v = cap \<and>
      (\<exists>r. current_position (vehicle_rows (se_committed s) route dir (vs_vehicle_id v)) r \<and>
        vs_current_stop_sequence v = tu_stop_sequence r))"
proof -
  have "rs_vehicles snap = query_vehicles cap route dir (se_committed s)" by (rule build_Some [OF assms]) simp
  then show ?thesis using query_vehicles_trips query_vehicles_position by metis
qed

theorem build_vehicles_latest_witness:
  "vehicle_rows example_net ''r1'' 0 ''t1'' \<noteq> {}"
proof -
  obtain s' where b: "build True (\<lambda>n. True) 80 ''r1'' 0 3 100 (new_session example_net) = (Inr (Some example_net_snapshot), s')"
    using example_net_build by blast
  have "''t1'' \<in> vs_vehicle_id ` set (rs_vehicles example_net_snapshot)" by (simp add: example_net_snapshot_def)
  then show ?thesis using build_vehicles_latest [OF idle_new_session b] by (simp add: new_session_def)
qed

end
