(* ===== verification/Supervisor.thy ===== *)
theory Supervisor
  imports Builder_Properties
begin

text \<open>
  \<open>runtime_supervisor.py\<close>: the managed subprocesses with their restart delays, one
  prediction cycle over all routes, and the reactive loop that decides when a cycle runs.
  Clock readings, the outcome of \<open>poll\<close>, of opening a log and of \<open>Popen\<close>, and the notifications that
  \<open>select\<close> delivers are inputs of the steps.  Logging is left out.
\<close>

subsection \<open>\<open>_Worker\<close>\<close>

text \<open>\<open>wk_proc\<close> is \<open>None\<close> before the first start, else whether the process is running.\<close>

record worker =
  wk_name :: string
  wk_proc :: "bool option"
  wk_backoff :: pyfloat
  wk_max_backoff :: pyfloat
  wk_log_open :: bool

definition new_worker :: "string \<Rightarrow> worker" where
  "new_worker name = \<lparr>wk_name = name, wk_proc = None, wk_backoff = 2, wk_max_backoff = 30, wk_log_open = False\<rparr>"

text \<open>
  What a start comes to: the log directory cannot be made or the log not be opened, or the
  log is open and \<open>Popen\<close> raises, or the process runs.
\<close>

datatype start_outcome = Open_raises py_error | Popen_raises py_error | Spawns

definition worker_start :: "start_outcome \<Rightarrow> worker \<Rightarrow> unit result \<times> worker" where
  "worker_start outcome w =
     (case outcome of
        Open_raises e \<Rightarrow> (Inl e, w)
      | Popen_raises e \<Rightarrow> (Inl e, w\<lparr>wk_log_open := True\<rparr>)
      | Spawns \<Rightarrow> (Inr (), w\<lparr>wk_log_open := True, wk_proc := Some True, wk_backoff := 2\<rparr>))"

definition is_alive :: "worker \<Rightarrow> bool" where
  "is_alive w = (wk_proc w = Some True)"

text \<open>
  \<open>shutdown\<close>: whether the shutdown event is set during the wait.  The first component is
  the delay that was waited, if any.
\<close>

definition restart_if_dead :: "bool \<Rightarrow> start_outcome \<Rightarrow> worker \<Rightarrow> pyfloat option \<times> unit result \<times> worker" where
  "restart_if_dead shutdown outcome w =
     (if is_alive w then (None, Inr (), w)
      else
        let delay = wk_backoff w; w = w\<lparr>wk_log_open := False\<rparr>
        in if shutdown then (Some delay, Inr (), w)
           else case worker_start outcome w of
                  (Inl e, w) \<Rightarrow> (Some delay, Inl e, w)
                | (Inr _, w) \<Rightarrow> (Some delay, Inr (), w\<lparr>wk_backoff := min (fmul (wk_backoff w) 2) (wk_max_backoff w)\<rparr>))"

definition worker_stop :: "worker \<Rightarrow> worker" where
  "worker_stop w = w\<lparr>wk_proc := (if wk_proc w = Some True then Some False else wk_proc w), wk_log_open := False\<rparr>"

text \<open>The process ends by itself.\<close>

definition worker_exit :: "worker \<Rightarrow> worker" where
  "worker_exit w = w\<lparr>wk_proc := (if wk_proc w = Some True then Some False else wk_proc w)\<rparr>"

text \<open>The list of workers of \<open>main\<close>.\<close>

definition supervised_workers :: "string \<Rightarrow> worker list" where
  "supervised_workers api_key =
     [new_worker ''mqtt'', new_worker ''api''] @ (if api_key \<noteq> [] then [new_worker ''gtfs_rt''] else [])"

subsection \<open>One prediction cycle\<close>

record tick =
  tk_now_ts :: timestamp
  tk_now_secs :: int
  tk_write_now :: timestamp

record cycle_config =
  cy_capacity :: int
  cy_engine :: prediction_config
  cy_evaluator :: threshold_evaluator

record cycle_state =
  cs_session :: "database session"
  cs_written :: nat
  cs_skipped :: nat
  cs_alerts :: nat

definition route_dirs_of :: "database \<Rightarrow> (string \<times> int) list" where
  "route_dirs_of d = sort (remdups (map (\<lambda>r. (rt_route_id r, rt_direction_id r)) (db_route_stops d)))"

text \<open>One iteration of the loop of \<open>_run_cycle\<close>; an exception anywhere ends this route only.\<close>

definition cycle_route ::
    "cycle_config \<Rightarrow> bool \<Rightarrow> outages \<Rightarrow> (string \<times> int) \<times> tick \<Rightarrow> cycle_state \<Rightarrow> cycle_state" where
  "cycle_route cfg opened up rt st =
     (case rt of ((rid, did), tk) \<Rightarrow>
      case build opened up (cy_capacity cfg) rid did (tk_now_ts tk) (tk_now_secs tk) (cs_session st) of
        (Inl e, s) \<Rightarrow> st\<lparr>cs_session := s\<rparr>
      | (Inr None, s) \<Rightarrow> st\<lparr>cs_session := s, cs_skipped := Suc (cs_skipped st)\<rparr>
      | (Inr (Some snap), s) \<Rightarrow>
          (case predict_route (cy_engine cfg) snap None of
             Inl e \<Rightarrow> st\<lparr>cs_session := s\<rparr>
           | Inr result \<Rightarrow>
               if rp_vehicle_predictions result = [] then st\<lparr>cs_session := s, cs_skipped := Suc (cs_skipped st)\<rparr>
               else
                 let s = write_predictions (tk_write_now tk) result opened up s;
                     st = st\<lparr>cs_session := s, cs_written := Suc (cs_written st)\<rparr>
                 in case evaluate (cy_evaluator cfg) result of
                      Inl e \<Rightarrow> st
                    | Inr None \<Rightarrow> st
                    | Inr (Some alert) \<Rightarrow>
                        st\<lparr>cs_session := write_scheduler_decision alert ''deploy_vehicle'' opened up s,
                           cs_alerts := Suc (cs_alerts st)\<rparr>))"

definition run_cycle ::
    "cycle_config \<Rightarrow> bool \<Rightarrow> outages \<Rightarrow> ((string \<times> int) \<times> tick) list \<Rightarrow> database session \<Rightarrow> cycle_state" where
  "run_cycle cfg opened up routes s =
     fold (cycle_route cfg opened up) routes \<lparr>cs_session = s, cs_written = 0, cs_skipped = 0, cs_alerts = 0\<rparr>"

subsection \<open>The reactive loop\<close>

record loop_state =
  lo_last_cycle :: pyfloat
  lo_pending :: bool
  lo_deadline :: "pyfloat option"
  lo_cycles :: nat

text \<open>
  The readings of one iteration: the clock at its start, the payloads \<open>select\<close> and
  \<open>poll\<close> deliver with the clock reading after each, the clock after them, and the clock
  after a cycle if one runs.
\<close>

record loop_input =
  li_now :: pyfloat
  li_notifies :: "(string \<times> pyfloat) list"
  li_after :: pyfloat
  li_cycle_end :: pyfloat

definition trigger_payloads :: "string list" where
  "trigger_payloads = [''crowd_count'', ''gtfs_trip_updates'']"

definition loop_timeout :: "pyfloat \<Rightarrow> loop_state \<Rightarrow> pyfloat \<Rightarrow> pyfloat" where
  "loop_timeout interval st now =
     (let candidates = [1] @ (case lo_deadline st of None \<Rightarrow> [] | Some d \<Rightarrow> [max 0 (fsub d now)]) @
        [max 0 (fsub (fadd (lo_last_cycle st) interval) now)]
      in foldl min 1 candidates)"

definition consume_notify :: "pyfloat \<Rightarrow> string \<times> pyfloat \<Rightarrow> loop_state \<Rightarrow> loop_state" where
  "consume_notify debounce n st =
     (if fst n \<in> set trigger_payloads then st\<lparr>lo_pending := True, lo_deadline := Some (fadd (snd n) debounce)\<rparr> else st)"

definition after_cycle :: "loop_input \<Rightarrow> loop_state \<Rightarrow> loop_state" where
  "after_cycle i st = st\<lparr>lo_last_cycle := li_cycle_end i, lo_pending := False, lo_deadline := None, lo_cycles := Suc (lo_cycles st)\<rparr>"

definition loop_step :: "pyfloat \<Rightarrow> pyfloat \<Rightarrow> loop_input \<Rightarrow> loop_state \<Rightarrow> loop_state" where
  "loop_step debounce interval i st =
     (let st = fold (consume_notify debounce) (li_notifies i) st; now = li_after i
      in if lo_pending st \<and> (case lo_deadline st of None \<Rightarrow> False | Some d \<Rightarrow> d \<le> now) then after_cycle i st
         else if interval \<le> fsub now (lo_last_cycle st) then after_cycle i st
         else st)"

definition loop_start :: "pyfloat \<Rightarrow> loop_state" where
  "loop_start now = \<lparr>lo_last_cycle = now, lo_pending = False, lo_deadline = None, lo_cycles = 1\<rparr>"

definition loop_run :: "pyfloat \<Rightarrow> pyfloat \<Rightarrow> loop_input list \<Rightarrow> loop_state \<Rightarrow> loop_state" where
  "loop_run debounce interval is st = fold (loop_step debounce interval) is st"

subsection \<open>The cycle as a function of the tables\<close>

text \<open>What one route contributes, with the server up: a specification without sessions.\<close>

definition snapshot_of :: "int \<Rightarrow> string \<Rightarrow> int \<Rightarrow> timestamp \<Rightarrow> int \<Rightarrow> database \<Rightarrow> route_snapshot option result" where
  "snapshot_of cap route dir now_ts now_secs d =
     (let stops = query_stops route dir d; ids = map ss_stop_id stops
      in if stops = [] then Inr None
         else bind_result (eta_query ids now_ts d) (\<lambda>rows.
              bind_result (compute_crowd_shares rows route dir ids now_secs) (\<lambda>shares.
                Inr (Some \<lparr>rs_route_id = route, rs_direction_id = dir,
                  rs_stops = with_counts (query_crowd_counts ids d) shares stops,
                  rs_vehicles = query_vehicles cap route dir d\<rparr>))))"

text \<open>The rows and the decision of a route: none on an error or when there is nothing to write.\<close>

definition route_output ::
    "cycle_config \<Rightarrow> database \<Rightarrow> (string \<times> int) \<times> tick \<Rightarrow> prediction_row list \<times> decision_row list" where
  "route_output cfg d rt =
     (case rt of ((rid, did), tk) \<Rightarrow>
      case snapshot_of (cy_capacity cfg) rid did (tk_now_ts tk) (tk_now_secs tk) d of
        Inr (Some snap) \<Rightarrow>
          (case predict_route (cy_engine cfg) snap None of
             Inr result \<Rightarrow>
               (prediction_rows (tk_write_now tk) result,
                case evaluate (cy_evaluator cfg) result of
                  Inr (Some alert) \<Rightarrow> [decision_of alert ''deploy_vehicle''] | _ \<Rightarrow> [])
           | Inl e \<Rightarrow> ([], []))
      | _ \<Rightarrow> ([], []))"

text \<open>A batch with a row out of the range of its columns is rejected as a whole.\<close>

definition fits :: "('a \<Rightarrow> database \<Rightarrow> database result) \<Rightarrow> 'a \<Rightarrow> bool" where
  "fits ins row = (case ins row empty_db of Inr d \<Rightarrow> True | Inl e \<Rightarrow> False)"

definition accepted :: "('a \<Rightarrow> database \<Rightarrow> database result) \<Rightarrow> 'a list \<Rightarrow> 'a list" where
  "accepted ins rows = (if list_all (fits ins) rows then rows else [])"

definition cycle_spec :: "cycle_config \<Rightarrow> database \<Rightarrow> ((string \<times> int) \<times> tick) list \<Rightarrow> database" where
  "cycle_spec cfg d routes =
     d\<lparr>db_predictions := db_predictions d @ concat (map (\<lambda>rt. accepted insert_prediction (fst (route_output cfg d rt))) routes),
       db_scheduler_decisions := db_scheduler_decisions d @
         concat (map (\<lambda>rt. accepted insert_decision (snd (route_output cfg d rt))) routes)\<rparr>"

subsection \<open>Lemmas on the cycle\<close>

lemma tentative_build: "tentative (build opened up cap route dir now_ts now_secs)"
proof -
  have pure: "tentative (\<lambda>s. (r, s))" for r :: "route_snapshot option result" by (simp add: tentative_def)
  show ?thesis unfolding build_def build_body_def Let_def
    by (intro tentative_connection tentative_bind) (auto intro!: tentative_bind pure)
qed

text \<open>A build commits nothing, whatever happens.\<close>

lemma build_keeps:
  assumes "idle s" "build opened up cap route dir now_ts now_secs s = (r, s')"
  shows "idle s' \<and> se_committed s' = se_committed s \<and> se_delivered s' = se_delivered s"
proof -
  have "idle s'" using connection_idle [OF assms(1)] assms(2) unfolding build_def by (metis snd_conv)
  then show ?thesis using tentative_build [of opened up cap route dir now_ts now_secs] assms(2)
    unfolding tentative_def by (metis snd_conv)
qed

lemma build_all_up:
  assumes "idle s" "opened" "\<forall>n. up n"
  shows "\<exists>s'. build opened up cap route dir now_ts now_secs s = (snapshot_of cap route dir now_ts now_secs (se_committed s), s') \<and>
    idle s' \<and> se_committed s' = se_committed s \<and> se_delivered s' = se_delivered s"
proof -
  obtain r s' where b: "build opened up cap route dir now_ts now_secs s = (r, s')" by force
  have "se_work s = se_committed s" "\<not> se_aborted s" using assms(1) by (simp_all add: idle_def)
  then have "fst (build opened up cap route dir now_ts now_secs s) = snapshot_of cap route dir now_ts now_secs (se_committed s)"
    using assms(2,3)
    by (simp add: build_def build_body_def snapshot_of_def connection_def bind_io_def query_up query_checked_up Let_def
        split: prod.split sum.split)
  then show ?thesis using b build_keeps [OF assms(1) b] by auto
qed

definition append_output :: "prediction_row list \<Rightarrow> decision_row list \<Rightarrow> database \<Rightarrow> database" where
  "append_output ps ds d = d\<lparr>db_predictions := db_predictions d @ ps,
     db_scheduler_decisions := db_scheduler_decisions d @ ds\<rparr>"

lemma append_output_simps [simp]:
  "append_output [] [] d = d"
  "append_output ps' ds' (append_output ps ds d) = append_output (ps @ ps') (ds @ ds') d"
  by (simp_all add: append_output_def)

lemma cycle_spec_append:
  "cycle_spec cfg d routes = append_output
     (concat (map (\<lambda>rt. accepted insert_prediction (fst (route_output cfg d rt))) routes))
     (concat (map (\<lambda>rt. accepted insert_decision (snd (route_output cfg d rt))) routes)) d"
  by (simp add: cycle_spec_def append_output_def)

text \<open>What a snapshot reads, a cycle does not change.\<close>

lemma reads_append:
  "query_stops route dir (append_output ps ds d) = query_stops route dir d"
  "query_crowd_counts ids (append_output ps ds d) = query_crowd_counts ids d"
  "query_vehicles cap route dir (append_output ps ds d) = query_vehicles cap route dir d"
  "latest_per_trip ids now_ts (append_output ps ds d) = latest_per_trip ids now_ts d"
  "db_stop_times (append_output ps ds d) = db_stop_times d"
  by (simp_all add: append_output_def query_stops_def query_crowd_counts_def query_vehicles_def latest_per_trip_def)

lemma eta_query_append: "eta_query ids now_ts (append_output ps ds d) = eta_query ids now_ts d"
  by (simp only: eta_query_def reads_append)

lemma snapshot_of_append:
  "snapshot_of cap route dir now_ts now_secs (append_output ps ds d) = snapshot_of cap route dir now_ts now_secs d"
  by (simp only: snapshot_of_def reads_append eta_query_append)

lemma route_output_append: "route_output cfg (append_output ps ds d) rt = route_output cfg d rt"
  by (simp add: route_output_def snapshot_of_append)

lemma insert_prediction_fits:
  "insert_prediction row d = (if fits insert_prediction row then Inr (append_output [row] [] d) else Inl DatabaseError)"
  by (simp add: insert_prediction_def fits_def checked_def append_output_def)

lemma insert_decision_fits:
  "insert_decision row d = (if fits insert_decision row then Inr (append_output [] [row] d) else Inl DatabaseError)"
  by (simp add: insert_decision_def fits_def checked_def append_output_def)

lemma exec_insert_predictions_fits:
  "exec_seq (map insert_prediction rows) d =
     (if list_all (fits insert_prediction) rows then Inr (append_output rows [] d) else Inl DatabaseError)"
  by (induction rows arbitrary: d) (simp_all add: insert_prediction_fits)

lemma write_predictions_up:
  assumes "idle s" "opened" "\<forall>n. up n"
  shows "idle (write_predictions now r opened up s) \<and>
    se_committed (write_predictions now r opened up s) =
      append_output (accepted insert_prediction (prediction_rows now r)) [] (se_committed s)"
  using predictiontx.all_or_nothing [OF assms(1), of now r opened up] predictiontx.idle_wr [OF assms(1)] assms(2,3)
  by (auto simp: exec_insert_predictions_fits accepted_def)

lemma write_decision_up:
  assumes "idle s" "opened" "\<forall>n. up n"
  shows "idle (write_scheduler_decision a dt opened up s) \<and>
    se_committed (write_scheduler_decision a dt opened up s) =
      append_output [] (accepted insert_decision [decision_of a dt]) (se_committed s)"
  using decisiontx.all_or_nothing [OF assms(1), of a dt opened up] decisiontx.idle_wr [OF assms(1)] assms(2,3)
  by (auto simp: insert_decision_fits accepted_def)

text \<open>Under any outages either write appends its rows or nothing.\<close>

lemma write_predictions_appends:
  assumes "idle s"
  shows "idle (write_predictions now r opened up s) \<and>
    (\<exists>ps \<in> {[], prediction_rows now r}. se_committed (write_predictions now r opened up s) = append_output ps [] (se_committed s))"
  using predictiontx.all_or_nothing [OF assms, of now r opened up] predictiontx.idle_wr [OF assms]
  by (auto simp: exec_insert_predictions_fits split: if_splits)

lemma write_decision_appends:
  assumes "idle s"
  shows "idle (write_scheduler_decision a dt opened up s) \<and>
    (\<exists>ds. se_committed (write_scheduler_decision a dt opened up s) = append_output [] ds (se_committed s))"
proof (cases "se_committed (write_scheduler_decision a dt opened up s) = se_committed s")
  case True
  then have "se_committed (write_scheduler_decision a dt opened up s) = append_output [] [] (se_committed s)" by simp
  then show ?thesis using decisiontx.idle_wr [OF assms] by blast
next
  case False
  then have "se_committed (write_scheduler_decision a dt opened up s) = append_output [] [decision_of a dt] (se_committed s)"
    using decisiontx.all_or_nothing [OF assms, of a dt opened up] by (auto simp: insert_decision_fits split: if_splits)
  then show ?thesis using decisiontx.idle_wr [OF assms] by blast
qed

text \<open>One route with the server up.\<close>

lemma cycle_route_up:
  assumes "idle (cs_session st)" "opened" "\<forall>n. up n"
  shows "idle (cs_session (cycle_route cfg opened up rt st)) \<and>
    se_committed (cs_session (cycle_route cfg opened up rt st)) =
      append_output (accepted insert_prediction (fst (route_output cfg (se_committed (cs_session st)) rt)))
        (accepted insert_decision (snd (route_output cfg (se_committed (cs_session st)) rt))) (se_committed (cs_session st))"
proof -
  obtain rid did tk where rt: "rt = ((rid, did), tk)" by (cases rt) auto
  obtain s where b: "build opened up (cy_capacity cfg) rid did (tk_now_ts tk) (tk_now_secs tk) (cs_session st) =
      (snapshot_of (cy_capacity cfg) rid did (tk_now_ts tk) (tk_now_secs tk) (se_committed (cs_session st)), s)"
    "idle s" "se_committed s = se_committed (cs_session st)"
    using build_all_up [OF assms] by blast
  note wp = write_predictions_up [OF b(2) assms(2,3)]
  note wd = write_decision_up [OF wp [THEN conjunct1] assms(2,3)]
  have nil: "accepted ins [] = []" for ins :: "'x \<Rightarrow> database \<Rightarrow> database result" by (simp add: accepted_def)
  show ?thesis
  proof (cases "snapshot_of (cy_capacity cfg) rid did (tk_now_ts tk) (tk_now_secs tk) (se_committed (cs_session st))")
    case (Inl e)
    then show ?thesis using b by (simp add: cycle_route_def rt route_output_def nil)
  next
    case (Inr x)
    show ?thesis
    proof (cases x)
      case None
      then show ?thesis using b Inr by (simp add: cycle_route_def rt route_output_def nil)
    next
      case (Some snap)
      show ?thesis
      proof (cases "predict_route (cy_engine cfg) snap None")
        case (Inl e)
        then show ?thesis using b Inr Some by (simp add: cycle_route_def rt route_output_def nil)
      next
        case pred: (Inr result)
        show ?thesis
        proof (cases "rp_vehicle_predictions result = []")
          case True
          then show ?thesis using b Inr Some pred evaluate_empty
            by (simp add: cycle_route_def rt route_output_def nil prediction_rows_def)
        next
          case False
          then show ?thesis using b Inr Some pred wp wd
            by (auto simp: cycle_route_def rt route_output_def nil Let_def split: sum.split option.split)
        qed
      qed
    qed
  qed
qed

lemma run_cycle_up:
  assumes "idle s" "opened" "\<forall>n. up n"
  shows "se_committed (cs_session (run_cycle cfg opened up routes s)) = cycle_spec cfg (se_committed s) routes"
proof -
  have "idle (cs_session (fold (cycle_route cfg opened up) routes st)) \<and>
      se_committed (cs_session (fold (cycle_route cfg opened up) routes st)) = cycle_spec cfg (se_committed (cs_session st)) routes"
    if "idle (cs_session st)" for st
    using that
  proof (induction routes arbitrary: st)
    case (Cons rt routes)
    note step = cycle_route_up [OF Cons.prems assms(2,3), of cfg rt]
    show ?case using Cons.IH [OF step [THEN conjunct1]] step
      by (simp add: cycle_spec_append route_output_append)
  qed (simp add: cycle_spec_append)
  then show ?thesis using assms(1) by (simp add: run_cycle_def)
qed

text \<open>One route under any outages.\<close>

lemma cycle_route_appends:
  assumes "idle (cs_session st)"
  shows "idle (cs_session (cycle_route cfg opened up rt st)) \<and>
    (\<exists>ps ds. se_committed (cs_session (cycle_route cfg opened up rt st)) = append_output ps ds (se_committed (cs_session st)))"
proof -
  obtain rid did tk where rt: "rt = ((rid, did), tk)" by (cases rt) auto
  obtain r s where b: "build opened up (cy_capacity cfg) rid did (tk_now_ts tk) (tk_now_secs tk) (cs_session st) = (r, s)"
    by force
  note k = build_keeps [OF assms b]
  have same: "\<exists>ps ds. se_committed s = append_output ps ds (se_committed (cs_session st))"
    using k by (intro exI [of _ "[]"]) simp
  show ?thesis
  proof (cases "\<exists>snap result. r = Inr (Some snap) \<and> predict_route (cy_engine cfg) snap None = Inr result \<and>
      rp_vehicle_predictions result \<noteq> []")
    case False
    then show ?thesis using b k same by (auto simp: cycle_route_def rt split: sum.split option.split)
  next
    case True
    then obtain snap result where sr: "r = Inr (Some snap)" "predict_route (cy_engine cfg) snap None = Inr result"
      "rp_vehicle_predictions result \<noteq> []" by blast
    have idle: "idle s" using k by simp
    define s1 where "s1 = write_predictions (tk_write_now tk) result opened up s"
    note wp = write_predictions_appends [OF idle, of "tk_write_now tk" result opened up, folded s1_def]
    have wd: "idle (write_scheduler_decision a dt opened up s1) \<and>
        (\<exists>ds. se_committed (write_scheduler_decision a dt opened up s1) = append_output [] ds (se_committed s1))" for a dt
      by (rule write_decision_appends) (use wp in simp)
    obtain ps where ps: "se_committed s1 = append_output ps [] (se_committed (cs_session st))" using wp k by metis
    show ?thesis
    proof (cases "\<exists>a. evaluate (cy_evaluator cfg) result = Inr (Some a)")
      case True
      then obtain a where a: "evaluate (cy_evaluator cfg) result = Inr (Some a)" by blast
      obtain ds where "se_committed (write_scheduler_decision a ''deploy_vehicle'' opened up s1) = append_output [] ds (se_committed s1)"
        using wd by blast
      then have "se_committed (write_scheduler_decision a ''deploy_vehicle'' opened up s1) =
          append_output ps ds (se_committed (cs_session st))" using ps by simp
      moreover have "cs_session (cycle_route cfg opened up rt st) = write_scheduler_decision a ''deploy_vehicle'' opened up s1"
        using b sr a by (simp add: cycle_route_def rt s1_def Let_def)
      ultimately show ?thesis using wd by auto
    next
      case False
      then have "cs_session (cycle_route cfg opened up rt st) = s1"
        using b sr by (auto simp: cycle_route_def rt s1_def Let_def split: sum.split option.split)
      then show ?thesis using wp ps by auto
    qed
  qed
qed

text \<open>A vehicle of unknown position makes the engine raise on its route.\<close>

lemma unknown_position_silent:
  assumes "v \<in> set (query_vehicles (cy_capacity cfg) rid did d)" "vs_current_stop_sequence v = None"
    "1 < length (query_stops rid did d)"
  shows "route_output cfg d ((rid, did), tk) = ([], [])"
proof (cases "snapshot_of (cy_capacity cfg) rid did (tk_now_ts tk) (tk_now_secs tk) d")
  case (Inl e)
  then show ?thesis by (simp add: route_output_def)
next
  case (Inr x)
  show ?thesis
  proof (cases x)
    case None
    then show ?thesis using Inr by (simp add: route_output_def)
  next
    case (Some snap)
    then have "rs_vehicles snap = query_vehicles (cy_capacity cfg) rid did d" "length (rs_stops snap) = length (query_stops rid did d)"
      using Inr by (auto simp: snapshot_of_def with_counts_def bind_result_def Let_def split: if_splits sum.splits)
    then have "predict_route (cy_engine cfg) snap None = Inl TypeError"
      using assms by (auto simp: predict_route_def sorted_vehicles_def Let_def)
    then show ?thesis using Inr Some by (simp add: route_output_def)
  qed
qed

end
