(* ===== verification/Supervisor_Properties.thy ===== *)
theory Supervisor_Properties
  imports Supervisor
begin

text \<open>
  The properties of the supervisor: what a cycle writes, when cycles run, and how long a
  dead process is left dead.
\<close>

definition example_tick :: tick where
  "example_tick = \<lparr>tk_now_ts = 3, tk_now_secs = 100, tk_write_now = 7\<rparr>"

definition example_config :: cycle_config where
  "example_config = \<lparr>cy_capacity = 80, cy_engine = default_prediction_config, cy_evaluator = default_threshold_evaluator\<rparr>"

text \<open>
  C4: with the pool open and the server up a cycle is a function of the tables it starts
  from: it appends the predictions of every route, and the decision where the evaluator
  alerts, in the order of the routes, where each route's part depends on the tables at
  the start only; a route that raises contributes nothing and disturbs no other.
\<close>

theorem cycle_refines_spec:
  assumes "idle s" "opened" "\<forall>n. up n"
  shows "se_committed (cs_session (run_cycle cfg opened up routes s)) = cycle_spec cfg (se_committed s) routes"
  by (rule run_cycle_up [OF assms])

theorem cycle_refines_spec_witness:
  "db_predictions (se_committed (cs_session
     (run_cycle example_config True (\<lambda>n. True) [((''r1'', 1), example_tick)] (new_session example_net)))) = []"
proof -
  have net: "se_committed (new_session example_net) = example_net" by (simp add: new_session_def)
  have "query_stops ''r1'' 1 example_net = []" by (simp add: query_stops_def example_net_def)
  then have "route_output example_config example_net ((''r1'', 1), example_tick) = ([], [])"
    by (simp add: route_output_def snapshot_of_def)
  moreover have "db_predictions example_net = []" by (simp add: example_net_def example_db_def empty_db_def)
  ultimately show ?thesis
    using cycle_refines_spec [OF idle_new_session, of True "\<lambda>n. True" example_config "[((''r1'', 1), example_tick)]" example_net]
    by (simp add: net cycle_spec_def accepted_def)
qed

text \<open>
  Whatever calls to the server fail, a cycle only appends to the tables of predictions
  and of scheduler decisions and changes nothing else, and it leaves the session usable.
\<close>

theorem cycle_only_appends:
  assumes "idle s"
  shows "idle (cs_session (run_cycle cfg opened up routes s)) \<and>
    (\<exists>ps ds. se_committed (cs_session (run_cycle cfg opened up routes s)) =
      (se_committed s)\<lparr>db_predictions := db_predictions (se_committed s) @ ps,
        db_scheduler_decisions := db_scheduler_decisions (se_committed s) @ ds\<rparr>)"
proof -
  have loop: "idle (cs_session (fold (cycle_route cfg opened up) routes st)) \<and>
      (\<exists>ps ds. se_committed (cs_session (fold (cycle_route cfg opened up) routes st)) =
        append_output ps ds (se_committed (cs_session st)))" if "idle (cs_session st)" for st
    using that
  proof (induction routes arbitrary: st)
    case Nil
    then show ?case by simp (metis append_output_simps(1))
  next
    case (Cons rt routes)
    note step = cycle_route_appends [OF Cons.prems, of cfg opened up rt]
    obtain ps ds where out: "se_committed (cs_session (cycle_route cfg opened up rt st)) = append_output ps ds (se_committed (cs_session st))"
      using step by blast
    obtain ps' ds' where rest: "se_committed (cs_session (fold (cycle_route cfg opened up) routes (cycle_route cfg opened up rt st))) =
        append_output ps' ds' (append_output ps ds (se_committed (cs_session st)))"
      using Cons.IH [OF step [THEN conjunct1]] out by auto
    show ?case
      using Cons.IH [OF step [THEN conjunct1]] rest
      by (auto simp: append_output_simps(2) intro!: exI [of _ "ps @ ps'"] exI [of _ "ds @ ds'"])
  qed
  show ?thesis
    using assms loop [of "\<lparr>cs_session = s, cs_written = 0, cs_skipped = 0, cs_alerts = 0\<rparr>"]
    by (simp add: run_cycle_def append_output_def)
qed

theorem cycle_only_appends_witness:
  "db_current_counts (se_committed (cs_session
     (run_cycle example_config True (\<lambda>n. n < 5) [((''r1'', 0), example_tick)] (new_session example_net)))) =
   db_current_counts example_net"
proof -
  obtain ps ds where "se_committed (cs_session
      (run_cycle example_config True (\<lambda>n. n < 5) [((''r1'', 0), example_tick)] (new_session example_net))) =
      example_net\<lparr>db_predictions := db_predictions example_net @ ps,
        db_scheduler_decisions := db_scheduler_decisions example_net @ ds\<rparr>"
    using cycle_only_appends [OF idle_new_session, of example_config True "\<lambda>n. n < 5" "[((''r1'', 0), example_tick)]" example_net]
    by (auto simp: new_session_def)
  then show ?thesis by simp
qed

text \<open>
  One trip without a stop sequence silences its route.  If the most recent fetch of
  some trip of a route with more than one stop carries no stop sequence, the engine raises
  on the route's snapshot and the cycle writes neither predictions nor a decision for it,
  however many other vehicles the route has.
\<close>

theorem unknown_position_silences_route:
  assumes "v \<in> set (query_vehicles (cy_capacity cfg) rid did d)" "vs_current_stop_sequence v = None"
    "1 < length (query_stops rid did d)"
  shows "route_output cfg d ((rid, did), tk) = ([], [])"
  by (rule unknown_position_silent [OF assms])

theorem unknown_position_silences_route_witness:
  "route_output example_config
     (example_net\<lparr>db_trip_updates := [\<lparr>tu_time = 1, tu_trip_id = ''t1'', tu_route_id = Some ''r1'', tu_direction_id = Some 0,
        tu_vehicle_id = None, tu_stop_id = Some ''a'', tu_stop_sequence = None, tu_arrival_delay = None,
        tu_departure_delay = None, tu_raw = JNull\<rparr>]\<rparr>) ((''r1'', 0), example_tick) = ([], [])"
  by (rule unknown_position_silences_route [where v = "\<lparr>vs_vehicle_id = ''t1'', vs_route_id = ''r1'', vs_capacity = 80,
      vs_current_stop_sequence = None, vs_passenger_count = 0\<rparr>"])
    (simp_all add: query_vehicles_def query_stops_def example_net_def example_config_def vehicle_order_def nulls_last_def)

subsection \<open>The loop\<close>

lemma consume_notifies:
  "lo_cycles (fold (consume_notify debounce) ns st) = lo_cycles st \<and>
   lo_last_cycle (fold (consume_notify debounce) ns st) = lo_last_cycle st"
  by (induction ns arbitrary: st) (auto simp: consume_notify_def)

lemma consume_pending:
  assumes "\<forall>(p, t) \<in> set ns. p \<in> set trigger_payloads \<longrightarrow> t \<le> T"
    "(lo_pending st \<and> (\<exists>d. lo_deadline st = Some d \<and> d \<le> fadd T debounce)) \<or> (\<exists>(p, t) \<in> set ns. p \<in> set trigger_payloads)"
  shows "lo_pending (fold (consume_notify debounce) ns st) \<and>
    (\<exists>d. lo_deadline (fold (consume_notify debounce) ns st) = Some d \<and> d \<le> fadd T debounce)"
  using assms
proof (induction ns arbitrary: st)
  case (Cons n ns)
  obtain p t where n: "n = (p, t)" by force
  show ?case
  proof (cases "p \<in> set trigger_payloads")
    case True
    then have "t \<le> T" using Cons.prems(1) n by auto
    then have "fadd t debounce \<le> fadd T debounce" unfolding fadd_def by (intro fl_mono) simp
    then show ?thesis using Cons.IH [of "consume_notify debounce n st"] Cons.prems(1) True n by (auto simp: consume_notify_def)
  next
    case False
    then show ?thesis using Cons.IH [of "consume_notify debounce n st"] Cons.prems n by (auto simp: consume_notify_def)
  qed
qed auto

lemma loop_step_cycles: "lo_cycles st \<le> lo_cycles (loop_step debounce interval i st)"
  by (auto simp: loop_step_def after_cycle_def Let_def consume_notifies)

lemma loop_run_cycles: "lo_cycles st \<le> lo_cycles (loop_run debounce interval is st)"
proof (induction "is" arbitrary: st)
  case (Cons i "is")
  have "lo_cycles st \<le> lo_cycles (loop_step debounce interval i st)" by (rule loop_step_cycles)
  also have "\<dots> \<le> lo_cycles (loop_run debounce interval is (loop_step debounce interval i st))" by (rule Cons.IH)
  finally show ?case by (simp add: loop_run_def)
qed (simp add: loop_run_def)

text \<open>One step that runs no cycle.\<close>

lemma loop_step_quiet:
  assumes "lo_cycles (loop_step debounce interval i st) = lo_cycles st"
  shows "loop_step debounce interval i st = fold (consume_notify debounce) (li_notifies i) st \<and>
    \<not> interval \<le> fsub (li_after i) (lo_last_cycle st) \<and>
    (lo_pending (loop_step debounce interval i st) \<longrightarrow>
      \<not> (\<exists>d. lo_deadline (loop_step debounce interval i st) = Some d \<and> d \<le> li_after i))"
  using assms consume_notifies [of debounce "li_notifies i" st]
  by (auto simp: loop_step_def after_cycle_def Let_def split: if_splits)

lemma loop_run_quiet:
  assumes "lo_cycles (loop_run debounce interval is st) = lo_cycles st" "is \<noteq> []"
    "\<forall>i \<in> set is. \<forall>(p, t) \<in> set (li_notifies i). p \<in> set trigger_payloads \<longrightarrow> t \<le> T"
    "(lo_pending st \<and> (\<exists>d. lo_deadline st = Some d \<and> d \<le> fadd T debounce)) \<or>
     (\<exists>(p, t) \<in> set (li_notifies (hd is)). p \<in> set trigger_payloads)"
  shows "\<not> fadd T debounce \<le> li_after (last is)"
  using assms
proof (induction "is" arbitrary: st)
  case (Cons i "is")
  let ?st = "loop_step debounce interval i st"
  have "lo_cycles st \<le> lo_cycles ?st" "lo_cycles ?st \<le> lo_cycles (loop_run debounce interval is ?st)"
    by (rule loop_step_cycles loop_run_cycles)+
  then have same: "lo_cycles ?st = lo_cycles st" "lo_cycles (loop_run debounce interval is ?st) = lo_cycles ?st"
    using Cons.prems(1) by (simp_all add: loop_run_def)
  note q = loop_step_quiet [OF same(1)]
  have pend: "lo_pending ?st \<and> (\<exists>d. lo_deadline ?st = Some d \<and> d \<le> fadd T debounce)"
    using consume_pending [of "li_notifies i" T st debounce] Cons.prems(3,4) q by auto
  show ?case
  proof (cases "is")
    case Nil
    then show ?thesis using q pend by auto
  next
    case (Cons j js)
    then show ?thesis using Cons.IH [OF same(2)] Cons.prems(3) pend by auto
  qed
qed simp

lemma loop_run_interval:
  assumes "lo_cycles (loop_run debounce interval is st) = lo_cycles st" "is \<noteq> []"
  shows "\<not> interval \<le> fsub (li_after (last is)) (lo_last_cycle st)"
  using assms
proof (induction "is" arbitrary: st)
  case (Cons i "is")
  let ?st = "loop_step debounce interval i st"
  have "lo_cycles st \<le> lo_cycles ?st" "lo_cycles ?st \<le> lo_cycles (loop_run debounce interval is ?st)"
    by (rule loop_step_cycles loop_run_cycles)+
  then have same: "lo_cycles ?st = lo_cycles st" "lo_cycles (loop_run debounce interval is ?st) = lo_cycles ?st"
    using Cons.prems(1) by (simp_all add: loop_run_def)
  note q = loop_step_quiet [OF same(1)]
  have "lo_last_cycle ?st = lo_last_cycle st" using q consume_notifies [of debounce "li_notifies i" st] by simp
  then show ?case using q Cons.IH [OF same(2)] by (cases "is") auto
qed simp

text \<open>
  C12: no trigger is lost and none starves the cycle.  If the first of some iterations
  consumes a trigger and the clock of the last has passed the debounce time after every
  trigger consumed, or if the clock of the last is an interval past the last cycle, then
  a cycle ran in these iterations.
\<close>

theorem trigger_leads_to_cycle:
  assumes "is \<noteq> []"
    "((\<exists>(p, t) \<in> set (li_notifies (hd is)). p \<in> set trigger_payloads) \<and>
      (\<forall>i \<in> set is. \<forall>(p, t) \<in> set (li_notifies i). p \<in> set trigger_payloads \<longrightarrow> t \<le> T) \<and>
      fadd T debounce \<le> li_after (last is)) \<or>
     interval \<le> fsub (li_after (last is)) (lo_last_cycle st)"
  shows "lo_cycles st < lo_cycles (loop_run debounce interval is st)"
proof (rule ccontr)
  assume "\<not> lo_cycles st < lo_cycles (loop_run debounce interval is st)"
  then have same: "lo_cycles (loop_run debounce interval is st) = lo_cycles st"
    using loop_run_cycles [of st debounce interval "is"] by simp
  show False
    using assms(2) loop_run_quiet [OF same assms(1), of T] loop_run_interval [OF same assms(1)] by blast
qed

theorem trigger_leads_to_cycle_witness:
  "1 < lo_cycles (loop_run 5 120
     [\<lparr>li_now = 1, li_notifies = [(''crowd_count'', 2)], li_after = 2, li_cycle_end = 3\<rparr>,
      \<lparr>li_now = 6, li_notifies = [(''vehicle'', 7)], li_after = 8, li_cycle_end = 9\<rparr>] (loop_start 0))"
  using trigger_leads_to_cycle [of "[\<lparr>li_now = 1, li_notifies = [(''crowd_count'', 2)], li_after = 2, li_cycle_end = 3\<rparr>,
      \<lparr>li_now = 6, li_notifies = [(''vehicle'', 7)], li_after = 8, li_cycle_end = 9\<rparr>]" 2 5 120 "loop_start 0"]
  by (simp add: trigger_payloads_def loop_start_def fop_eval)

text \<open>The loop never waits longer than a second, nor a negative time.\<close>

lemma loop_timeout_bounds: "0 \<le> loop_timeout interval st now \<and> loop_timeout interval st now \<le> 1"
  by (auto simp: loop_timeout_def Let_def min_def max_def split: option.split)

subsection \<open>Workers\<close>

datatype worker_event = Process_exits | Check_restart bool start_outcome | Process_start start_outcome

fun worker_step :: "worker_event \<Rightarrow> worker \<Rightarrow> pyfloat option \<times> worker" where
  "worker_step Process_exits w = (None, worker_exit w)"
| "worker_step (Check_restart shutdown outcome) w =
     (case restart_if_dead shutdown outcome w of (delay, r, w') \<Rightarrow> (delay, w'))"
| "worker_step (Process_start outcome) w = (None, snd (worker_start outcome w))"

fun worker_delays :: "worker_event list \<Rightarrow> worker \<Rightarrow> pyfloat list" where
  "worker_delays [] w = []"
| "worker_delays (e # es) w =
     (case worker_step e w of (delay, w') \<Rightarrow> (case delay of None \<Rightarrow> [] | Some x \<Rightarrow> [x]) @ worker_delays es w')"

lemma worker_step_backoff:
  assumes "wk_backoff w \<in> {2, 4}" "wk_max_backoff w = 30" "worker_step e w = (delay, w')"
  shows "wk_backoff w' \<in> {2, 4} \<and> wk_max_backoff w' = 30 \<and> (\<forall>x. delay = Some x \<longrightarrow> x \<in> {2, 4})"
proof (cases e)
  case Process_exits
  then show ?thesis using assms by (auto simp: worker_exit_def)
next
  case (Check_restart shutdown outcome)
  then show ?thesis using assms
    by (auto simp: restart_if_dead_def worker_start_def Let_def fop_eval split: if_splits start_outcome.splits)
next
  case (Process_start outcome)
  then show ?thesis using assms by (auto simp: worker_start_def split: start_outcome.splits)
qed

text \<open>
  The restart delay of a worker is 2 or 4 seconds, whatever happens to its process:
  the start that precedes the doubling resets the delay, so the delay never grows and the
  cap of 30 seconds is never reached.
\<close>

theorem restart_delay_never_grows:
  "set (worker_delays events (new_worker name)) \<subseteq> {2, 4}"
proof -
  have "set (worker_delays events w) \<subseteq> {2, 4}" if "wk_backoff w \<in> {2, 4}" "wk_max_backoff w = 30" for w
    using that
  proof (induction events arbitrary: w)
    case (Cons e es)
    obtain delay w' where st: "worker_step e w = (delay, w')" by force
    note b = worker_step_backoff [OF Cons.prems st]
    have "set (worker_delays es w') \<subseteq> {2, 4}" using Cons.IH b by blast
    then show ?case using b st by (auto split: option.splits)
  qed simp
  then show ?thesis by (simp add: new_worker_def)
qed

end
