(* ===== verification/Supervisor_Run.thy ===== *)
theory Supervisor_Run
  imports Supervisor_Properties
begin

text \<open>
  The life of the prediction thread and of the main thread in \<open>runtime_supervisor.py\<close>: the
  attempts of \<open>_prediction_thread\<close> with what they open and close, and the passes of \<open>main\<close>
  over the subprocesses.  Properties: the prediction thread ends exactly when a shutdown is
  requested, it leaks nothing and only appends to its tables, and what \<open>main\<close> leaves running.
\<close>

subsection \<open>The prediction thread\<close>

text \<open>
  Where the thread is between two steps: at the head of the outer loop, in the inner loop,
  returned, or ended by an exception of its \<open>finally\<close> block.
\<close>

datatype thread_place = At_Head | In_Loop loop_state | Returned | Raised

record pred_thread =
  th_place :: thread_place
  th_pools :: nat
  th_listening :: bool
  th_routes :: "(string \<times> int) list"
  th_session :: "database session"

text \<open>
  What the environment decides in a step: the shutdown event at the head of a loop and
  during the wait after a crash; whether the pool opens, the LISTEN connection is made and
  its set-up succeeds; the calls of the session that reach the server; the clocks; whether
  \<open>poll\<close> returns; and whether the two \<open>close\<close> in the \<open>finally\<close> block return.
\<close>

record thread_input =
  ti_shutdown :: bool
  ti_wait :: bool
  ti_open :: bool
  ti_connect :: bool
  ti_listen :: bool
  ti_up :: outages
  ti_tick :: "string \<times> int \<Rightarrow> tick"
  ti_started :: pyfloat
  ti_poll :: bool
  ti_loop :: loop_input
  ti_listen_closes :: bool
  ti_pool_closes :: bool

record thread_config =
  tc_cycle :: cycle_config
  tc_debounce :: pyfloat
  tc_interval :: pyfloat

definition new_thread :: "database session \<Rightarrow> pred_thread" where
  "new_thread s = \<lparr>th_place = At_Head, th_pools = 0, th_listening = False, th_routes = [], th_session = s\<rparr>"

text \<open>\<open>_run_cycle\<close> over the routes read at the start of the attempt.\<close>

definition thread_cycle :: "thread_config \<Rightarrow> thread_input \<Rightarrow> pred_thread \<Rightarrow> pred_thread" where
  "thread_cycle cfg i th = th\<lparr>th_session :=
     cs_session (run_cycle (tc_cycle cfg) True (ti_up i) (map (\<lambda>r. (r, ti_tick i r)) (th_routes th)) (th_session th))\<rparr>"

text \<open>The attempt up to the inner loop; the first component is whether no exception was raised.\<close>

definition begin_attempt :: "thread_config \<Rightarrow> thread_input \<Rightarrow> pred_thread \<Rightarrow> bool \<times> pred_thread" where
  "begin_attempt cfg i th =
     (if \<not> ti_open i then (False, th)
      else let th = th\<lparr>th_pools := Suc (th_pools th)\<rparr>
      in if \<not> ti_connect i then (False, th)
      else let th = th\<lparr>th_listening := True\<rparr>
      in if \<not> ti_listen i then (False, th)
      else case connection True (ti_up i) (query (ti_up i) route_dirs_of) (th_session th) of
             (Inl e, s) \<Rightarrow> (False, th\<lparr>th_session := s\<rparr>)
           | (Inr route_dirs, s) \<Rightarrow>
               (True, (thread_cycle cfg i (th\<lparr>th_session := s, th_routes := route_dirs\<rparr>))
                  \<lparr>th_place := In_Loop (loop_start (ti_started i))\<rparr>))"

text \<open>
  The \<open>finally\<close> block, and then the place \<open>p\<close>.  An exception of the first \<open>close\<close> ends the
  thread, one of the second is swallowed.
\<close>

definition leave_attempt :: "thread_input \<Rightarrow> pred_thread \<Rightarrow> bool \<Rightarrow> thread_place \<Rightarrow> pred_thread" where
  "leave_attempt i th opened p =
     (if th_listening th \<and> \<not> ti_listen_closes i then th\<lparr>th_place := Raised\<rparr>
      else th\<lparr>th_listening := False, th_place := p,
             th_pools := (if opened \<and> ti_pool_closes i then th_pools th - 1 else th_pools th)\<rparr>)"

text \<open>The exception handler: another attempt unless the shutdown comes during the wait.\<close>

definition crash_place :: "thread_input \<Rightarrow> thread_place" where
  "crash_place i = (if ti_wait i then Returned else At_Head)"

definition thread_step :: "thread_config \<Rightarrow> thread_input \<Rightarrow> pred_thread \<Rightarrow> pred_thread" where
  "thread_step cfg i th =
     (case th_place th of
        At_Head \<Rightarrow>
          if ti_shutdown i then th\<lparr>th_place := Returned\<rparr>
          else (case begin_attempt cfg i th of
                  (True, th) \<Rightarrow> th
                | (False, th) \<Rightarrow> leave_attempt i th (ti_open i) (crash_place i))
      | In_Loop st \<Rightarrow>
          if ti_shutdown i then leave_attempt i th True Returned
          else if \<not> ti_poll i then leave_attempt i th True (crash_place i)
          else let st' = loop_step (tc_debounce cfg) (tc_interval cfg) (ti_loop i) st;
                   th = (if lo_cycles st' = lo_cycles st then th else thread_cycle cfg i th)
               in th\<lparr>th_place := In_Loop st'\<rparr>
      | _ \<Rightarrow> th)"

definition ended :: "pred_thread \<Rightarrow> bool" where
  "ended th \<longleftrightarrow> th_place th = Returned \<or> th_place th = Raised"

text \<open>The thread, with the inputs of all its steps; \<open>None\<close> where it runs for ever.\<close>

partial_function (option) prediction_thread ::
    "thread_config \<Rightarrow> (nat \<Rightarrow> thread_input) \<Rightarrow> nat \<Rightarrow> pred_thread \<Rightarrow> (nat \<times> pred_thread) option" where
  "prediction_thread cfg env n th =
     (if ended th then Some (n, th) else prediction_thread cfg env (Suc n) (thread_step cfg (env n) th))"

subsection \<open>The main thread\<close>

text \<open>
  For each worker in a pass: whether its process has exited, the shutdown event at its
  check and during the wait before a restart, and what a start would come to.
\<close>

record worker_check =
  we_exited :: bool
  we_shutdown :: bool
  we_wait :: bool
  we_start :: start_outcome

record supervisor =
  sv_workers :: "worker list"
  sv_thread_alive :: bool
  sv_threads :: nat

record pass_input =
  pi_workers :: "worker_check list"
  pi_thread_alive :: bool
  pi_shutdown :: bool

fun check_workers :: "worker_check list \<Rightarrow> worker list \<Rightarrow> unit result \<times> worker list" where
  "check_workers (e # es) (w # ws) =
     (let w = (if we_exited e then worker_exit w else w)
      in if we_shutdown e then (case check_workers es ws of (r, ws) \<Rightarrow> (r, w # ws))
         else case restart_if_dead (we_wait e) (we_start e) w of
                (_, Inl err, w) \<Rightarrow> (Inl err, w # ws)
              | (_, Inr _, w) \<Rightarrow> (case check_workers es ws of (r, ws) \<Rightarrow> (r, w # ws)))"
| "check_workers _ ws = (Inr (), ws)"

definition supervisor_pass :: "pass_input \<Rightarrow> supervisor \<Rightarrow> unit result \<times> supervisor" where
  "supervisor_pass i sv =
     (case check_workers (pi_workers i) (sv_workers sv) of
        (Inl e, ws) \<Rightarrow> (Inl e, sv\<lparr>sv_workers := ws\<rparr>)
      | (Inr _, ws) \<Rightarrow>
          let sv = sv\<lparr>sv_workers := ws, sv_thread_alive := sv_thread_alive sv \<and> pi_thread_alive i\<rparr>
          in (Inr (), if \<not> sv_thread_alive sv \<and> \<not> pi_shutdown i
                      then sv\<lparr>sv_thread_alive := True, sv_threads := Suc (sv_threads sv)\<rparr> else sv))"

fun supervisor_passes :: "pass_input list \<Rightarrow> supervisor \<Rightarrow> unit result \<times> supervisor" where
  "supervisor_passes [] sv = (Inr (), sv)"
| "supervisor_passes (i # is) sv =
     (case supervisor_pass i sv of (Inl e, sv) \<Rightarrow> (Inl e, sv) | (Inr _, sv) \<Rightarrow> supervisor_passes is sv)"

text \<open>The start of the workers, in order; \<open>outcomes\<close> says for each what its start comes to.\<close>

fun start_workers :: "start_outcome list \<Rightarrow> worker list \<Rightarrow> unit result \<times> worker list" where
  "start_workers (outcome # outcomes) (w # ws) =
     (case worker_start outcome w of
        (Inl e, w) \<Rightarrow> (Inl e, w # ws)
      | (Inr _, w) \<Rightarrow> (case start_workers outcomes ws of (r, ws) \<Rightarrow> (r, w # ws)))"
| "start_workers _ ws = (Inr (), ws)"

text \<open>\<open>main\<close>, with the passes until the shutdown event is set.\<close>

definition supervisor_main :: "string \<Rightarrow> start_outcome list \<Rightarrow> pass_input list \<Rightarrow> unit result \<times> supervisor" where
  "supervisor_main api_key outcomes passes =
     (let sv = \<lparr>sv_workers = supervised_workers api_key, sv_thread_alive = False, sv_threads = 0\<rparr>
      in case start_workers outcomes (sv_workers sv) of
           (Inl e, ws) \<Rightarrow> (Inl e, sv\<lparr>sv_workers := ws\<rparr>)
         | (Inr _, ws) \<Rightarrow>
             (case supervisor_passes passes (sv\<lparr>sv_workers := ws, sv_thread_alive := True, sv_threads := 1\<rparr>) of
                (Inl e, sv) \<Rightarrow> (Inl e, sv)
              | (Inr _, sv) \<Rightarrow> (Inr (), sv\<lparr>sv_workers := map worker_stop (sv_workers sv)\<rparr>)))"


subsection \<open>Steps of the prediction thread\<close>

fun thread_after :: "thread_config \<Rightarrow> (nat \<Rightarrow> thread_input) \<Rightarrow> nat \<Rightarrow> pred_thread \<Rightarrow> pred_thread" where
  "thread_after cfg env 0 th = th"
| "thread_after cfg env (Suc n) th = thread_step cfg (env n) (thread_after cfg env n th)"

lemma prediction_thread_Some:
  "ended (thread_after cfg env k th) \<Longrightarrow> \<exists>j \<le> k. prediction_thread cfg env 0 th = Some (j, thread_after cfg env j th)"
proof -
  have "\<exists>j \<le> n + m. prediction_thread cfg env n (thread_after cfg env n th) = Some (j, thread_after cfg env j th)"
    if "ended (thread_after cfg env (n + m) th)" for n m
    using that
  proof (induction m arbitrary: n)
    case 0
    then show ?case by (simp add: prediction_thread.simps)
  next
    case (Suc m)
    show ?case
    proof (cases "ended (thread_after cfg env n th)")
      case True
      then show ?thesis by (intro exI [of _ n]) (simp add: prediction_thread.simps)
    next
      case False
      then show ?thesis using Suc.IH [of "Suc n"] Suc.prems by (subst prediction_thread.simps) simp
    qed
  qed
  from this [of 0 k] show "ended (thread_after cfg env k th) \<Longrightarrow> ?thesis" by simp
qed

lemma prediction_thread_result:
  assumes "prediction_thread cfg env n t = Some r" "t = thread_after cfg env n start"
  shows "snd r = thread_after cfg env (fst r) start \<and> ended (snd r) \<and>
    (\<forall>j. n \<le> j \<and> j < fst r \<longrightarrow> \<not> ended (thread_after cfg env j start))" (is "?Q cfg env n r")
proof -
  have "t = thread_after cfg env n start \<longrightarrow> ?Q cfg env n r"
  proof (rule prediction_thread.raw_induct
      [where P = "\<lambda>cfg env n t r. t = thread_after cfg env n start \<longrightarrow> ?Q cfg env n r", OF _ assms(1)], rule impI)
    fix run c e m t r
    assume IH: "\<And>c e m t r. run c e m t = Some r \<Longrightarrow> t = thread_after c e m start \<longrightarrow> ?Q c e m r"
      and step: "(if ended t then Some (m, t) else run c e (Suc m) (thread_step c (e m) t)) = Some r" "t = thread_after c e m start"
    show "?Q c e m r"
    proof (cases "ended t")
      case True
      then show ?thesis using step by auto
    next
      case False
      then have "run c e (Suc m) (thread_step c (e m) t) = Some r" "thread_step c (e m) t = thread_after c e (Suc m) start"
        using step by simp_all
      then have "?Q c e (Suc m) r" using IH by blast
      moreover have "\<not> ended (thread_after c e j start)" if "m \<le> j" "j < fst r" for j
        using that calculation False step(2) by (cases "j = m") auto
      ultimately show ?thesis by blast
    qed
  qed
  then show ?thesis using assms(2) by blast
qed

lemma ended_step: "ended th \<Longrightarrow> thread_step cfg i th = th"
  by (auto simp: ended_def thread_step_def)

lemma ended_mono: "ended (thread_after cfg env j th) \<Longrightarrow> j \<le> k \<Longrightarrow> thread_after cfg env k th = thread_after cfg env j th"
  by (induction k) (auto simp: le_Suc_eq ended_step)

text \<open>A request to shut down ends the thread in the next step, whatever it does.\<close>

lemma shutdown_ends: "ti_shutdown i \<Longrightarrow> ended (thread_step cfg i th)"
  by (auto simp: thread_step_def leave_attempt_def ended_def split: thread_place.split)

text \<open>Without one, and without exceptions of \<open>close\<close>, it goes on.\<close>

definition closes :: "thread_input \<Rightarrow> bool" where
  "closes i \<longleftrightarrow> ti_listen_closes i \<and> ti_pool_closes i"

lemma begin_attempt_place: "begin_attempt cfg i th = (b, th') \<Longrightarrow> b \<Longrightarrow> \<exists>st. th_place th' = In_Loop st"
  by (auto simp: begin_attempt_def Let_def split: if_splits prod.splits sum.splits)

lemma thread_goes_on: "\<not> ended th \<Longrightarrow> \<not> ti_shutdown i \<Longrightarrow> \<not> ti_wait i \<Longrightarrow> closes i \<Longrightarrow> \<not> ended (thread_step cfg i th)"
  using begin_attempt_place [of cfg i th]
  by (auto simp: thread_step_def leave_attempt_def crash_place_def ended_def closes_def Let_def
      split: thread_place.splits prod.splits bool.splits)

text \<open>What the thread holds open in each place.\<close>

definition holds :: "pred_thread \<Rightarrow> bool" where
  "holds th \<longleftrightarrow> (case th_place th of
     In_Loop _ \<Rightarrow> th_listening th \<and> th_pools th = 1 | Raised \<Rightarrow> False | _ \<Rightarrow> \<not> th_listening th \<and> th_pools th = 0)"

lemma holds_step: "closes i \<Longrightarrow> holds th \<Longrightarrow> holds (thread_step cfg i th)"
  by (auto simp: holds_def closes_def thread_step_def begin_attempt_def leave_attempt_def crash_place_def thread_cycle_def Let_def
      split: thread_place.splits prod.splits sum.splits if_splits)

text \<open>What it does to the tables.\<close>

definition only_appends :: "database \<Rightarrow> database \<Rightarrow> bool" where
  "only_appends d d' \<longleftrightarrow> (\<exists>ps ds. d' = d\<lparr>db_predictions := db_predictions d @ ps, db_scheduler_decisions := db_scheduler_decisions d @ ds\<rparr>)"

lemma only_appends_refl: "only_appends d d"
  unfolding only_appends_def by (rule exI [of _ "[]"], rule exI [of _ "[]"]) simp

lemma only_appends_trans: "only_appends d1 d2 \<Longrightarrow> only_appends d2 d3 \<Longrightarrow> only_appends d1 d3"
  unfolding only_appends_def
  by (elim exE, rule_tac x = "ps @ psa" in exI, rule_tac x = "ds @ dsa" in exI) simp

lemma thread_cycle_appends:
  assumes "idle (th_session th)"
  shows "idle (th_session (thread_cycle cfg i th)) \<and>
    only_appends (se_committed (th_session th)) (se_committed (th_session (thread_cycle cfg i th)))"
  using cycle_only_appends [OF assms] by (simp add: thread_cycle_def only_appends_def)

lemma thread_step_appends:
  assumes "idle (th_session th)"
  shows "idle (th_session (thread_step cfg i th)) \<and>
    only_appends (se_committed (th_session th)) (se_committed (th_session (thread_step cfg i th)))"
proof -
  have left: "th_session (leave_attempt i t b p) = th_session t" for t b p by (simp add: leave_attempt_def)
  obtain r s where c: "connection True (ti_up i) (query (ti_up i) route_dirs_of) (th_session th) = (r, s)" by force
  have "idle s" "se_committed s = se_committed (th_session th)"
    using connection_idle [OF assms, of True "ti_up i" "query (ti_up i) route_dirs_of"] c
      tentative_connection [OF tentative_query, of True "ti_up i" "ti_up i" route_dirs_of]
    unfolding tentative_def by (metis snd_conv)+
  then have attempt: "idle (th_session t) \<and> only_appends (se_committed (th_session th)) (se_committed (th_session t))"
    if "begin_attempt cfg i th = (b, t)" for b t
    using that assms c thread_cycle_appends [of "th\<lparr>th_pools := Suc (th_pools th), th_listening := True, th_session := s, th_routes := rs\<rparr>" cfg i for rs]
    by (auto simp: begin_attempt_def Let_def only_appends_refl split: if_splits sum.splits)
  show ?thesis
  proof (cases "th_place th")
    case At_Head
    then show ?thesis using assms attempt left
      by (auto simp: thread_step_def only_appends_refl split: prod.split bool.split)
  next
    case (In_Loop st)
    then show ?thesis using assms left thread_cycle_appends [OF assms]
      by (auto simp: thread_step_def only_appends_refl Let_def)
  qed (use assms in \<open>simp_all add: thread_step_def only_appends_refl\<close>)
qed

lemma thread_after_appends:
  assumes "idle (th_session th)"
  shows "idle (th_session (thread_after cfg env n th)) \<and>
    only_appends (se_committed (th_session th)) (se_committed (th_session (thread_after cfg env n th)))"
proof (induction n)
  case (Suc n)
  then show ?case using thread_step_appends [of "thread_after cfg env n th" cfg "env n"] only_appends_trans by auto
qed (simp add: assms only_appends_refl)

subsection \<open>Properties of the prediction thread\<close>

text \<open>
  C13: the thread ends exactly when asked to.  If closing connections raises nothing, the
  prediction thread returns if and only if a shutdown is requested at some time, then at the
  latest in the step after the request, and has closed its pool and its connection; crashes
  alone never end it.
\<close>

theorem prediction_thread_ends:
  assumes "\<And>m n. ti_shutdown (env m) \<Longrightarrow> m \<le> n \<Longrightarrow> ti_shutdown (env n)"
    and "\<And>n. ti_wait (env n) \<Longrightarrow> ti_shutdown (env (Suc n))" "\<And>n. closes (env n)"
  shows "((\<exists>r. prediction_thread cfg env 0 (new_thread s) = Some r) \<longleftrightarrow> (\<exists>n. ti_shutdown (env n))) \<and>
    (\<forall>n k th. ti_shutdown (env n) \<and> prediction_thread cfg env 0 (new_thread s) = Some (k, th) \<longrightarrow>
      k \<le> Suc n \<and> th_place th = Returned \<and> \<not> th_listening th \<and> th_pools th = 0)"
proof (intro conjI iffI allI impI)
  let ?th = "new_thread s"
  have h: "holds (thread_after cfg env n ?th)" for n
    by (induction n) (simp_all add: holds_step assms(3), simp add: holds_def new_thread_def)
  have early: "\<exists>j \<le> Suc n. prediction_thread cfg env 0 ?th = Some (j, thread_after cfg env j ?th)" if "ti_shutdown (env n)" for n
    using prediction_thread_Some [of cfg env "Suc n" ?th] shutdown_ends [OF that] by simp
  then show "\<exists>n. ti_shutdown (env n) \<Longrightarrow> \<exists>r. prediction_thread cfg env 0 ?th = Some r" by blast
  show "\<exists>n. ti_shutdown (env n)" if r: "\<exists>r. prediction_thread cfg env 0 ?th = Some r"
  proof (rule ccontr)
    assume never: "\<nexists>n. ti_shutdown (env n)"
    then have "\<not> ended (thread_after cfg env n ?th)" for n
    proof (induction n)
      case (Suc n)
      then show ?case using thread_goes_on [of _ "env n" cfg] assms(2,3) by auto
    qed (simp add: ended_def new_thread_def)
    then show False using r prediction_thread_result [of cfg env 0 ?th _ ?th] by force
  qed
  fix n k th assume a: "ti_shutdown (env n) \<and> prediction_thread cfg env 0 ?th = Some (k, th)"
  then show "k \<le> Suc n" using early by force
  have "th = thread_after cfg env k ?th" "ended th"
    using a prediction_thread_result [of cfg env 0 ?th "(k, th)" ?th] by auto
  then show "th_place th = Returned" "\<not> th_listening th" "th_pools th = 0"
    using h [of k] by (auto simp: holds_def ended_def)
qed

text \<open>
  C14: recovery from a crash.  When waiting for notifications raises, the thread closes what it
  holds and, unless a shutdown is requested, starts over: with the server up again it reads
  the routes anew, so also those added since, and commits one cycle over all of them.
\<close>

theorem prediction_thread_recovers:
  assumes "idle (th_session th)" "holds th" "th_place th = In_Loop st" "\<not> ti_shutdown i" "\<not> ti_poll i" "\<not> ti_wait i" "closes i"
    and "\<not> ti_shutdown j" "ti_open j" "ti_connect j" "ti_listen j" "\<forall>n. ti_up j n"
    and "d = se_committed (th_session th)" "th' = thread_step cfg j (thread_step cfg i th)"
  shows "th_place th' = In_Loop (loop_start (ti_started j)) \<and> holds th' \<and> th_routes th' = route_dirs_of d \<and>
    se_committed (th_session th') = cycle_spec (tc_cycle cfg) d (map (\<lambda>r. (r, ti_tick j r)) (route_dirs_of d))"
proof -
  let ?th = "thread_step cfg i th"
  have crash: "th_place ?th = At_Head" "th_session ?th = th_session th" "holds ?th"
    using assms(3-7) holds_step [OF assms(7,2), of cfg]
    by (simp_all add: thread_step_def leave_attempt_def crash_place_def closes_def)
  obtain r s where c: "connection True (ti_up j) (query (ti_up j) route_dirs_of) (th_session th) = (r, s)" by force
  have s: "idle s" "se_committed s = d"
    using connection_idle [OF assms(1), of True "ti_up j" "query (ti_up j) route_dirs_of"] c assms(13)
      tentative_connection [OF tentative_query, of True "ti_up j" "ti_up j" route_dirs_of]
    unfolding tentative_def by (metis snd_conv)+
  have r: "r = Inr (route_dirs_of d)"
    using c assms(1,12,13) by (simp add: connection_def Let_def query_up idle_def split: prod.splits)
  note run = run_cycle_up [OF s(1) TrueI assms(12), of "tc_cycle cfg"]
  show ?thesis
    using crash run c s(2) assms(8-11)
    by (simp add: assms(14) thread_step_def begin_attempt_def thread_cycle_def holds_def r Let_def split: prod.split)
qed

subsection \<open>Properties of the main thread\<close>

fun start_error :: "start_outcome \<Rightarrow> py_error option" where
  "start_error (Open_raises e) = Some e"
| "start_error (Popen_raises e) = Some e"
| "start_error Spawns = None"

lemma restart_outcome:
  assumes "restart_if_dead shutdown outcome w = (delay, r, w')"
  shows "(\<forall>e. r = Inl e \<longrightarrow> start_error outcome = Some e \<and> \<not> is_alive w \<and> \<not> is_alive w') \<and>
    (r = Inr () \<longrightarrow> (is_alive w' \<longleftrightarrow> is_alive w \<or> \<not> shutdown))"
  using assms by (auto simp: restart_if_dead_def worker_start_def is_alive_def Let_def split: if_splits start_outcome.splits)

lemma restart_succeeds:
  "restart_if_dead shutdown outcome w = (delay, r, w') \<Longrightarrow> shutdown \<or> start_error outcome = None \<Longrightarrow> r = Inr ()"
  by (auto simp: restart_if_dead_def worker_start_def Let_def split: if_splits start_outcome.splits)

lemma is_alive_exit [simp]: "\<not> is_alive (worker_exit w)"
  by (auto simp: is_alive_def worker_exit_def)

text \<open>A process that has not exited, and what a check that raises nothing makes of it.\<close>

definition still_alive :: "worker_check \<Rightarrow> worker \<Rightarrow> bool" where
  "still_alive e w \<longleftrightarrow> is_alive w \<and> \<not> we_exited e"

definition alive_after :: "worker_check \<Rightarrow> worker \<Rightarrow> bool" where
  "alive_after e w \<longleftrightarrow> still_alive e w \<or> \<not> we_shutdown e \<and> \<not> we_wait e"

text \<open>A pass in which worker \<open>k\<close> cannot be started: the ones after it are not looked at.\<close>

definition restart_fails :: "worker_check list \<Rightarrow> worker list \<Rightarrow> worker list \<Rightarrow> py_error \<Rightarrow> bool" where
  "restart_fails es ws ws' err \<longleftrightarrow> (\<exists>k < length ws. start_error (we_start (es ! k)) = Some err \<and> \<not> still_alive (es ! k) (ws ! k) \<and>
     (\<forall>j < length ws. is_alive (ws' ! j) \<longleftrightarrow>
        (if j < k then alive_after (es ! j) (ws ! j) else j \<noteq> k \<and> is_alive (ws ! j))))"

lemma all_Cons: "(\<forall>j < length (x # xs). P j) \<longleftrightarrow> P 0 \<and> (\<forall>j < length xs. P (Suc j))"
  by (auto simp: less_Suc_eq_0_disj)

lemma check_workers_outcome:
  assumes "check_workers es ws = (r, ws')" "length es = length ws"
  shows "length ws' = length ws \<and> (\<forall>err. r = Inl err \<longrightarrow> restart_fails es ws ws' err) \<and>
    (r = Inr () \<longrightarrow> (\<forall>j < length ws. is_alive (ws' ! j) \<longleftrightarrow> alive_after (es ! j) (ws ! j)))"
  using assms
proof (induction es ws arbitrary: r ws' rule: check_workers.induct)
  case (1 e es w ws)
  let ?w = "if we_exited e then worker_exit w else w"
  have w: "is_alive ?w \<longleftrightarrow> still_alive e w" by (simp add: still_alive_def)
  obtain r2 ws2 where rest: "check_workers es ws = (r2, ws2)" by force
  have further: "length ws' = length (w # ws) \<and> (\<forall>err. r = Inl err \<longrightarrow> restart_fails (e # es) (w # ws) ws' err) \<and>
      (r = Inr () \<longrightarrow> (\<forall>j < length (w # ws). is_alive (ws' ! j) \<longleftrightarrow> alive_after ((e # es) ! j) ((w # ws) ! j)))"
    if r: "r = r2" "ws' = w2 # ws2" and w2: "is_alive w2 \<longleftrightarrow> alive_after e w"
      and ih: "length ws2 = length ws" "\<forall>err. r2 = Inl err \<longrightarrow> restart_fails es ws ws2 err"
        "r2 = Inr () \<longrightarrow> (\<forall>j < length ws. is_alive (ws2 ! j) \<longleftrightarrow> alive_after (es ! j) (ws ! j))" for w2
  proof (intro conjI allI impI)
    fix err
    assume "r = Inl err"
    then obtain k where k: "k < length ws" "start_error (we_start (es ! k)) = Some err" "\<not> still_alive (es ! k) (ws ! k)"
      "\<forall>j < length ws. is_alive (ws2 ! j) \<longleftrightarrow> (if j < k then alive_after (es ! j) (ws ! j) else j \<noteq> k \<and> is_alive (ws ! j))"
      using ih(2) r(1) by (auto simp: restart_fails_def)
    then show "restart_fails (e # es) (w # ws) ws' err"
      unfolding restart_fails_def all_Cons r(2) using w2 by (intro exI [of _ "Suc k"]) simp
  qed (use r ih w2 in \<open>auto simp: less_Suc_eq_0_disj\<close>)
  show ?case
  proof (cases "we_shutdown e")
    case True
    then have "r = r2" "ws' = ?w # ws2" using "1.prems" rest by (simp_all add: Let_def)
    moreover have "is_alive ?w \<longleftrightarrow> alive_after e w" using w True by (simp add: alive_after_def)
    ultimately show ?thesis using further "1.IH"(1) [OF refl True rest] "1.prems"(2) by simp
  next
    case False
    obtain delay q w2 where q: "restart_if_dead (we_wait e) (we_start e) ?w = (delay, q, w2)" by (metis prod_cases3)
    note out = restart_outcome [OF q, unfolded w]
    show ?thesis
    proof (cases q)
      case (Inl err)
      then have "r = Inl err" "ws' = w2 # ws" using "1.prems" q False by (simp_all add: Let_def)
      moreover have "restart_fails (e # es) (w # ws) (w2 # ws) err"
        unfolding restart_fails_def all_Cons using out Inl by (intro exI [of _ 0]) simp
      ultimately show ?thesis by simp
    next
      case (Inr u)
      then have r: "r = r2" "ws' = w2 # ws2" using "1.prems" q rest False by (simp_all add: Let_def)
      have "is_alive w2 \<longleftrightarrow> alive_after e w" using out Inr False by (simp add: alive_after_def)
      then show ?thesis using further [OF r] "1.IH"(2) [OF refl False q [symmetric] refl Inr rest] "1.prems"(2) by simp
    qed
  qed
qed auto

lemma check_workers_succeeds:
  "check_workers es ws = (r, ws') \<Longrightarrow> length es = length ws \<Longrightarrow> \<forall>e \<in> set es. start_error (we_start e) = None \<Longrightarrow> r = Inr ()"
  using check_workers_outcome [of es ws r ws'] by (cases r) (auto simp: restart_fails_def)

text \<open>
  The services are kept running.  After a pass without a shutdown in which every process
  that has to be started can be, all subprocesses and the prediction thread are running.
\<close>

theorem services_kept_running:
  assumes "length (pi_workers i) = length (sv_workers sv)" "\<not> pi_shutdown i"
    and "\<forall>e \<in> set (pi_workers i). we_start e = Spawns \<and> \<not> we_shutdown e \<and> \<not> we_wait e"
  shows "fst (supervisor_pass i sv) = Inr () \<and> sv_thread_alive (snd (supervisor_pass i sv)) \<and>
    length (sv_workers (snd (supervisor_pass i sv))) = length (sv_workers sv) \<and>
    (\<forall>w \<in> set (sv_workers (snd (supervisor_pass i sv))). is_alive w)"
proof -
  obtain r ws where c: "check_workers (pi_workers i) (sv_workers sv) = (r, ws)" by force
  note out = check_workers_outcome [OF c assms(1)]
  have r: "r = Inr ()" using check_workers_succeeds [OF c assms(1)] assms(3) by simp
  have "alive_after (pi_workers i ! j) (sv_workers sv ! j)" if "j < length (sv_workers sv)" for j
    using assms(1,3) that by (simp add: alive_after_def)
  then have "\<forall>w \<in> set ws. is_alive w" using out r by (metis in_set_conv_nth)
  with r c out show ?thesis using assms(2) by (auto simp: supervisor_pass_def Let_def)
qed

lemma pass_outcome:
  assumes "supervisor_pass i sv = (r, sv')" "length (pi_workers i) = length (sv_workers sv)"
  shows "length (sv_workers sv') = length (sv_workers sv) \<and>
    (\<forall>err. r = Inl err \<longrightarrow> restart_fails (pi_workers i) (sv_workers sv) (sv_workers sv') err)"
proof -
  obtain q ws where c: "check_workers (pi_workers i) (sv_workers sv) = (q, ws)" by force
  show ?thesis using check_workers_outcome [OF c assms(2)] assms(1) c
    by (auto simp: supervisor_pass_def Let_def split: sum.splits)
qed

lemma passes_outcome:
  assumes "supervisor_passes is sv = (r, sv')" "\<forall>i \<in> set is. length (pi_workers i) = length (sv_workers sv)"
  shows "\<forall>err. r = Inl err \<longrightarrow> (\<exists>before i after sv1. is = before @ i # after \<and> supervisor_passes before sv = (Inr (), sv1) \<and>
    restart_fails (pi_workers i) (sv_workers sv1) (sv_workers sv') err)"
  using assms
proof (induction "is" arbitrary: sv)
  case (Cons i "is")
  obtain q sv1 where p: "supervisor_pass i sv = (q, sv1)" by force
  have len: "length (pi_workers i) = length (sv_workers sv)" using Cons.prems(2) by simp
  note one = pass_outcome [OF p len]
  show ?case
  proof (cases q)
    case (Inl e)
    then have "r = Inl e" "sv' = sv1" using Cons.prems(1) p by simp_all
    then show ?thesis using one Inl by (intro allI impI exI [of _ "[]"] exI [of _ i] exI [of _ "is"] exI [of _ sv]) simp
  next
    case (Inr u)
    then have run: "supervisor_passes is sv1 = (r, sv')" using Cons.prems(1) p by simp
    have "\<forall>i \<in> set is. length (pi_workers i) = length (sv_workers sv1)" using one Cons.prems(2) by simp
    note ih = Cons.IH [OF run this]
    show ?thesis
    proof (intro allI impI)
      fix err
      assume "r = Inl err"
      then obtain before j after sv2 where "is = before @ j # after" "supervisor_passes before sv1 = (Inr (), sv2)"
          "restart_fails (pi_workers j) (sv_workers sv2) (sv_workers sv') err"
        using ih by blast
      then show "\<exists>before i' after sv1. i # is = before @ i' # after \<and> supervisor_passes before sv = (Inr (), sv1) \<and>
          restart_fails (pi_workers i') (sv_workers sv1) (sv_workers sv') err"
        using p Inr by (intro exI [of _ "i # before"] exI [of _ j] exI [of _ after] exI [of _ sv2]) simp
    qed
  qed
qed auto

text \<open>A start at which worker \<open>k\<close> cannot be started: the ones before it run.\<close>

definition start_fails :: "start_outcome list \<Rightarrow> worker list \<Rightarrow> py_error \<Rightarrow> bool" where
  "start_fails outcomes ws err \<longleftrightarrow> (\<exists>k < length ws. start_error (outcomes ! k) = Some err \<and>
     (\<forall>j < length ws. is_alive (ws ! j) \<longleftrightarrow> j < k))"

lemma start_workers_outcome:
  assumes "start_workers outcomes ws = (r, ws')" "length outcomes = length ws" "\<forall>w \<in> set ws. \<not> is_alive w"
  shows "length ws' = length ws \<and> (\<forall>err. r = Inl err \<longrightarrow> start_fails outcomes ws' err)"
  using assms
proof (induction outcomes ws arbitrary: r ws' rule: start_workers.induct)
  case (1 sp sps w ws)
  obtain r2 ws2 where rest: "start_workers sps ws = (r2, ws2)" by force
  show ?case
  proof (cases "start_error sp")
    case None
    then obtain w2 where w2: "worker_start sp w = (Inr (), w2)" "is_alive w2"
      by (cases sp) (auto simp: worker_start_def is_alive_def)
    then have r: "r = r2" "ws' = w2 # ws2" using "1.prems"(1) rest by simp_all
    have ih: "length ws2 = length ws" "\<forall>err. r2 = Inl err \<longrightarrow> start_fails sps ws2 err"
      using "1.IH" [OF w2(1) [symmetric] refl rest] "1.prems"(2,3) by simp_all
    have "start_fails (sp # sps) ws' err" if e: "r = Inl err" for err
    proof -
      have "start_fails sps ws2 err" using ih(2) e r(1) by simp
      then obtain k where k: "k < length ws2" "start_error (sps ! k) = Some err" "\<forall>j < length ws2. is_alive (ws2 ! j) \<longleftrightarrow> j < k"
        unfolding start_fails_def by blast
      then show ?thesis using w2(2) unfolding start_fails_def r(2) all_Cons by (intro exI [of _ "Suc k"]) simp
    qed
    then show ?thesis using ih(1) r by simp
  next
    case (Some e)
    obtain w2 where w2: "worker_start sp w = (Inl e, w2)" "\<not> is_alive w2"
      using Some "1.prems"(3) by (cases sp) (auto simp: worker_start_def is_alive_def)
    then have r: "r = Inl e" "ws' = w2 # ws" using "1.prems"(1) by simp_all
    have "start_fails (sp # sps) (w2 # ws) e"
      unfolding start_fails_def all_Cons using w2(2) Some "1.prems"(3) by (intro exI [of _ 0]) simp
    then show ?thesis using r by simp
  qed
qed auto

text \<open>
  C36: the end of the supervisor.  It returns only after a shutdown, which leaves no subprocess
  running and no log open.  Else an error of opening a log or of \<open>Popen\<close> ends it, with no
  process stopped.  At the start the workers before the one that cannot be started are left
  running, and no other runs.  In a later pass, the workers before it are left as their check
  made them, running unless a shutdown kept a dead one from its restart, and the workers after
  it as they were after the last pass.
\<close>

theorem supervisor_end:
  assumes "supervisor_main api_key outcomes passes = (r, sv)" "length outcomes = length (supervised_workers api_key)"
    and "\<forall>p \<in> set passes. length (pi_workers p) = length (supervised_workers api_key)"
  shows "(r = Inr () \<longrightarrow> (\<forall>w \<in> set (sv_workers sv). \<not> is_alive w \<and> \<not> wk_log_open w)) \<and>
    (\<forall>err. r = Inl err \<longrightarrow> start_fails outcomes (sv_workers sv) err \<or>
      (\<exists>before i after ws sv1. passes = before @ i # after \<and> start_workers outcomes (supervised_workers api_key) = (Inr (), ws) \<and>
         supervisor_passes before \<lparr>sv_workers = ws, sv_thread_alive = True, sv_threads = 1\<rparr> = (Inr (), sv1) \<and>
         restart_fails (pi_workers i) (sv_workers sv1) (sv_workers sv) err))"
proof -
  obtain q ws where st: "start_workers outcomes (supervised_workers api_key) = (q, ws)" by force
  have "\<forall>w \<in> set (supervised_workers api_key). \<not> is_alive w" by (auto simp: supervised_workers_def new_worker_def is_alive_def)
  note start = start_workers_outcome [OF st assms(2) this]
  show ?thesis
  proof (cases q)
    case (Inl e)
    then show ?thesis using start assms(1) st by (auto simp: supervisor_main_def)
  next
    case (Inr u)
    let ?sv = "\<lparr>sv_workers = ws, sv_thread_alive = True, sv_threads = 1\<rparr>"
    obtain r2 sv2 where run: "supervisor_passes passes ?sv = (r2, sv2)" by force
    have "\<forall>i \<in> set passes. length (pi_workers i) = length (sv_workers ?sv)" using assms(3) start by simp
    note out = passes_outcome [OF run this]
    have stopped: "\<not> is_alive (worker_stop w) \<and> \<not> wk_log_open (worker_stop w)" for w
      by (simp add: worker_stop_def is_alive_def)
    have main: "(r, sv) = (case r2 of Inl e \<Rightarrow> (Inl e, sv2) | Inr _ \<Rightarrow> (Inr (), sv2\<lparr>sv_workers := map worker_stop (sv_workers sv2)\<rparr>))"
      using assms(1) st Inr run by (simp add: supervisor_main_def split: sum.splits)
    show ?thesis
    proof (cases r2)
      case (Inl e)
      then have "r = Inl e" "sv = sv2" using main by simp_all
      then show ?thesis using out Inl st Inr by simp
    next
      case r2: (Inr u)
      then show ?thesis using main stopped by auto
    qed
  qed
qed

subsection \<open>Examples\<close>

definition example_thread_config :: thread_config where
  "example_thread_config = \<lparr>tc_cycle = example_config, tc_debounce = 5, tc_interval = 120\<rparr>"

text \<open>A step in which everything succeeds, and one in which \<open>poll\<close> raises.\<close>

definition quiet_input :: thread_input where
  "quiet_input = \<lparr>ti_shutdown = False, ti_wait = False, ti_open = True, ti_connect = True, ti_listen = True, ti_up = (\<lambda>_. True),
     ti_tick = (\<lambda>_. example_tick), ti_started = 1, ti_poll = True,
     ti_loop = \<lparr>li_now = 2, li_notifies = [], li_after = 3, li_cycle_end = 4\<rparr>, ti_listen_closes = True, ti_pool_closes = True\<rparr>"

definition crash_input :: thread_input where
  "crash_input = quiet_input\<lparr>ti_poll := False\<rparr>"

definition stop_after :: "nat \<Rightarrow> nat \<Rightarrow> thread_input" where
  "stop_after k n = (if n = 1 then crash_input else quiet_input)\<lparr>ti_shutdown := k \<le> n\<rparr>"

theorem prediction_thread_ends_witness:
  "\<exists>k th. prediction_thread example_thread_config (stop_after 3) 0 (new_thread (new_session example_net)) = Some (k, th) \<and>
    k \<le> 4 \<and> th_place th = Returned \<and> th_pools th = 0"
proof -
  have "\<And>m n. ti_shutdown (stop_after 3 m) \<Longrightarrow> m \<le> n \<Longrightarrow> ti_shutdown (stop_after 3 n)"
    "\<And>n. ti_wait (stop_after 3 n) \<Longrightarrow> ti_shutdown (stop_after 3 (Suc n))" "\<And>n. closes (stop_after 3 n)"
    by (simp_all add: stop_after_def crash_input_def quiet_input_def closes_def split: if_splits)
  note ends = prediction_thread_ends [of "stop_after 3" example_thread_config "new_session example_net", OF this]
  have "ti_shutdown (stop_after 3 3)" by (simp add: stop_after_def)
  then obtain k th where "prediction_thread example_thread_config (stop_after 3) 0 (new_thread (new_session example_net)) = Some (k, th)"
    using ends by fast
  then show ?thesis using ends \<open>ti_shutdown (stop_after 3 3)\<close> by fastforce
qed

theorem prediction_thread_recovers_witness:
  "th_routes (thread_step example_thread_config quiet_input (thread_step example_thread_config crash_input
     (thread_step example_thread_config quiet_input (new_thread (new_session example_net))))) = [(''r1'', 0)]"
proof -
  let ?th = "thread_step example_thread_config quiet_input (new_thread (new_session example_net))"
  obtain st where st: "th_place ?th = In_Loop st"
    by (simp add: thread_step_def new_thread_def quiet_input_def begin_attempt_def connection_def Let_def query_up new_session_def
        split: prod.split)
  have q: "closes quiet_input" "closes crash_input" by (simp_all add: closes_def quiet_input_def crash_input_def)
  have h: "holds ?th" by (rule holds_step [OF q(1)]) (simp add: holds_def new_thread_def)
  have i: "idle (th_session ?th)" "only_appends example_net (se_committed (th_session ?th))"
    using thread_step_appends [of "new_thread (new_session example_net)" example_thread_config quiet_input]
    by (simp_all add: new_thread_def new_session_def idle_def)
  then have "route_dirs_of (se_committed (th_session ?th)) = route_dirs_of example_net"
    by (auto simp: only_appends_def route_dirs_of_def)
  moreover have "route_dirs_of example_net = [(''r1'', 0)]" by (simp add: route_dirs_of_def example_net_def)
  ultimately show ?thesis
    using prediction_thread_recovers [OF i(1) h st _ _ _ q(2) _ _ _ _ _ refl refl, of quiet_input example_thread_config]
    by (simp add: quiet_input_def crash_input_def)
qed

definition all_well :: worker_check where
  "all_well = \<lparr>we_exited = False, we_shutdown = False, we_wait = False, we_start = Spawns\<rparr>"

theorem services_kept_running_witness:
  "\<forall>w \<in> set (sv_workers (snd (supervisor_pass
     \<lparr>pi_workers = [all_well\<lparr>we_exited := True\<rparr>, all_well], pi_thread_alive = False, pi_shutdown = False\<rparr>
     \<lparr>sv_workers = supervised_workers [], sv_thread_alive = True, sv_threads = 1\<rparr>))). is_alive w"
  using services_kept_running [of "\<lparr>pi_workers = [all_well\<lparr>we_exited := True\<rparr>, all_well], pi_thread_alive = False, pi_shutdown = False\<rparr>"
      "\<lparr>sv_workers = supervised_workers [], sv_thread_alive = True, sv_threads = 1\<rparr>"]
  by (simp add: supervised_workers_def all_well_def)

text \<open>
  The first and the second process exit; the first is started again, for the second no process
  can be made, and the first is left running.
\<close>

theorem supervisor_end_witness:
  "let (r, sv) = supervisor_main [] [Spawns, Spawns]
     [\<lparr>pi_workers = [all_well\<lparr>we_exited := True\<rparr>, all_well\<lparr>we_exited := True, we_start := Popen_raises OSError\<rparr>],
       pi_thread_alive = True, pi_shutdown = False\<rparr>]
   in r = Inl OSError \<and> is_alive (sv_workers sv ! 0)"
proof -
  define ps where "ps = [\<lparr>pi_workers = [all_well\<lparr>we_exited := True\<rparr>, all_well\<lparr>we_exited := True, we_start := Popen_raises OSError\<rparr>],
      pi_thread_alive = True, pi_shutdown = False\<rparr>]"
  obtain r sv where run: "supervisor_main [] [Spawns, Spawns] ps = (r, sv)" by force
  have r: "r = Inl OSError" and len: "length (sv_workers sv) = 2"
    using run by (auto simp: ps_def supervisor_main_def supervised_workers_def worker_start_def supervisor_pass_def all_well_def new_worker_def
      restart_if_dead_def is_alive_def worker_exit_def Let_def)
  have no: "\<not> start_fails [Spawns, Spawns] (sv_workers sv) OSError"
    using len by (auto simp: start_fails_def less_2_cases_iff)
  have "length [Spawns, Spawns] = length (supervised_workers [])" "\<forall>p \<in> set ps. length (pi_workers p) = length (supervised_workers [])"
    by (simp_all add: ps_def supervised_workers_def)
  note fin = supervisor_end [OF run this, THEN conjunct2, rule_format, OF r]
  obtain before i after and sv1 :: supervisor where e: "ps = before @ i # after" and
      fails: "restart_fails (pi_workers i) (sv_workers sv1) (sv_workers sv) OSError"
    using fin [unfolded disj_imp, rule_format, OF no] by (elim exE conjE) (rule that; assumption)
  have i: "i \<in> set ps" unfolding e by simp
  from fails obtain k where k: "k < length (sv_workers sv1)" "start_error (we_start (pi_workers i ! k)) = Some OSError"
      "\<forall>j < length (sv_workers sv1). is_alive (sv_workers sv ! j) \<longleftrightarrow>
        (if j < k then alive_after (pi_workers i ! j) (sv_workers sv1 ! j) else j \<noteq> k \<and> is_alive (sv_workers sv1 ! j))"
    unfolding restart_fails_def by blast
  have "k \<noteq> 0" using k(2) i by (cases k) (auto simp: ps_def all_well_def)
  then have "is_alive (sv_workers sv ! 0) \<longleftrightarrow> alive_after (pi_workers i ! 0) (sv_workers sv1 ! 0)"
    using k(1) k(3) [rule_format, of 0] by (cases "sv_workers sv1") simp_all
  moreover have "alive_after (pi_workers i ! 0) w" for w using i by (simp add: ps_def alive_after_def all_well_def)
  ultimately have "is_alive (sv_workers sv ! 0)" by simp
  then show ?thesis using run r by (simp add: ps_def)
qed

end
