(* ===== verification/Trip_Feed.thy ===== *)
theory Trip_Feed
  imports Db_Writer_Properties Float_Error
begin

text \<open>
  The GTFS-Realtime fetcher, \<open>GTFS_RT/fetcher.py\<close> and \<open>GTFS_RT/main.py\<close>: the request with
  its rate-limit guard, the flattening of a feed message into rows, the fetch cycle that
  writes and purges them, and the poll loop.  Clock readings and what the HTTP server
  answers are inputs.  Feed messages are the protobuf messages with the fields the code
  reads, a field tested with \<open>HasField\<close> as an option; \<open>en_raw\<close> is the entity as
  \<open>MessageToDict\<close> renders it.  Logging is left out.
\<close>

subsection \<open>Feed messages\<close>

record stop_time_update =
  su_stop_id :: string
  su_stop_sequence :: int
  su_arrival_delay :: "int option"
  su_departure_delay :: "int option"

record trip_message =
  tp_trip :: string
  tp_route :: string
  tp_direction :: "int option"
  tp_vehicle :: "string option"
  tp_stop_time_updates :: "stop_time_update list"

record feed_entity =
  en_trip_update :: "trip_message option"
  en_raw :: json

record feed_message =
  fm_timestamp :: int
  fm_entities :: "feed_entity list"

subsection \<open>\<open>GTFSRealtimeFetcher.fetch_feed\<close>\<close>

record fetcher =
  fe_last_request_at :: pyfloat

definition new_fetcher :: fetcher where
  "new_fetcher = \<lparr>fe_last_request_at = 0\<rparr>"

datatype http_outcome = Request_failed | Unparsable | Received feed_message

text \<open>One call: the clock on entry, the clock when the request is made, and the answer.\<close>

record poll =
  po_now :: pyfloat
  po_sent :: pyfloat
  po_outcome :: http_outcome

definition min_request_gap :: pyfloat where
  "min_request_gap = 60"

text \<open>The seconds the guard sleeps; a last request at \<open>0.0\<close> counts as none.\<close>

definition guard_wait :: "fetcher \<Rightarrow> pyfloat \<Rightarrow> pyfloat option" where
  "guard_wait self now =
     (let elapsed = fsub now (fe_last_request_at self)
      in if fe_last_request_at self \<noteq> 0 \<and> elapsed < min_request_gap
         then Some (fsub min_request_gap elapsed) else None)"

text \<open>
  The time stamp of a received feed is converted for the log message outside of every
  handler, so a time out of range raises here.
\<close>

definition fetch_feed :: "fetcher \<Rightarrow> poll \<Rightarrow> feed_message option result \<times> fetcher" where
  "fetch_feed self p =
     (let self = self\<lparr>fe_last_request_at := po_sent p\<rparr>
      in case po_outcome p of
           Request_failed \<Rightarrow> (Inr None, self)
         | Unparsable \<Rightarrow> (Inr None, self)
         | Received feed \<Rightarrow>
             (bind_result (fromtimestamp (of_int (fm_timestamp feed))) (\<lambda>_. Inr (Some feed)), self))"

subsection \<open>\<open>GTFSRealtimeFetcher.parse_trip_updates\<close>\<close>

text \<open>\<open>x or None\<close> for a string and for a number.\<close>

definition str_or_none :: "string \<Rightarrow> string option" where
  "str_or_none s = (if s = [] then None else Some s)"

definition int_or_none :: "int \<Rightarrow> int option" where
  "int_or_none n = (if n = 0 then None else Some n)"

definition stop_update_row :: "timestamp \<Rightarrow> trip_message \<Rightarrow> json \<Rightarrow> stop_time_update \<Rightarrow> trip_update" where
  "stop_update_row feed_ts trip raw stu =
     \<lparr>up_time = Some feed_ts, up_trip_id = Some (tp_trip trip), up_route_id = str_or_none (tp_route trip),
      up_direction_id = tp_direction trip, up_vehicle_id = tp_vehicle trip,
      up_stop_id = str_or_none (su_stop_id stu), up_stop_sequence = int_or_none (su_stop_sequence stu),
      up_arrival_delay = su_arrival_delay stu, up_departure_delay = su_departure_delay stu, up_raw = raw\<rparr>"

definition parse_entity :: "string list option \<Rightarrow> timestamp \<Rightarrow> feed_entity \<Rightarrow> trip_update list \<Rightarrow> trip_update list" where
  "parse_entity route_ids feed_ts entity rows =
     (case en_trip_update entity of
        None \<Rightarrow> rows
      | Some trip \<Rightarrow>
          (if \<exists>ids. route_ids = Some ids \<and> tp_route trip \<notin> set ids then rows
           else rows @ map (stop_update_row feed_ts trip (en_raw entity)) (tp_stop_time_updates trip)))"

definition parse_trip_updates :: "string list option \<Rightarrow> feed_message \<Rightarrow> trip_update list result" where
  "parse_trip_updates route_ids feed =
     bind_result (fromtimestamp (of_int (fm_timestamp feed)))
       (\<lambda>feed_ts. Inr (fold (parse_entity route_ids feed_ts) (fm_entities feed) []))"

subsection \<open>\<open>main.py\<close>\<close>

text \<open>\<open>None\<close> is no filter: none configured, none readable, or no route of the agency.\<close>

definition load_route_filter :: "string \<Rightarrow> bool \<Rightarrow> outages \<Rightarrow> database session \<Rightarrow> string list option \<times> database session" where
  "load_route_filter agency opened up s =
     (if agency = [] then (None, s)
      else case connection opened up (query up (\<lambda>d.
             map ro_route_id (filter (\<lambda>r. ro_agency_id r = Some agency) (db_routes d)))) s of
             (Inl e, t) \<Rightarrow> (None, t)
           | (Inr ids, t) \<Rightarrow> (if ids = [] then None else Some ids, t))"

text \<open>\<open>_fetch_cycle\<close>: the number of rows parsed.\<close>

definition fetch_cycle ::
    "int \<Rightarrow> string list option \<Rightarrow> bool \<Rightarrow> outages \<Rightarrow> poll \<Rightarrow> fetcher \<times> database session \<Rightarrow>
     nat result \<times> fetcher \<times> database session" where
  "fetch_cycle retain route_filter opened up p st =
     (case st of (self, s) \<Rightarrow>
        (case fetch_feed self p of
           (Inl e, self) \<Rightarrow> (Inl e, self, s)
         | (Inr None, self) \<Rightarrow> (Inr 0, self, s)
         | (Inr (Some feed), self) \<Rightarrow>
             (case parse_trip_updates route_filter feed of
                Inl e \<Rightarrow> (Inl e, self, s)
              | Inr updates \<Rightarrow>
                  (Inr (length updates), self,
                   purge_old_trip_updates retain opened up (write_gtfs_trip_updates updates opened up s)))))"

text \<open>One iteration of the poll loop; the first component is \<open>consecutive_empty\<close>.\<close>

definition poll_step ::
    "int \<Rightarrow> string list option \<Rightarrow> bool \<Rightarrow> outages \<Rightarrow> poll \<Rightarrow> nat \<times> fetcher \<times> database session \<Rightarrow>
     nat \<times> fetcher \<times> database session" where
  "poll_step retain route_filter opened up p st =
     (case st of (misses, fs) \<Rightarrow>
        (case fetch_cycle retain route_filter opened up p fs of
           (Inr n, fs) \<Rightarrow> (if 0 < n then 0 else Suc misses, fs)
         | (Inl e, fs) \<Rightarrow> (Suc misses, fs)))"

definition poll_loop ::
    "int \<Rightarrow> string list option \<Rightarrow> bool \<Rightarrow> outages \<Rightarrow> poll list \<Rightarrow> nat \<times> fetcher \<times> database session \<Rightarrow>
     nat \<times> fetcher \<times> database session" where
  "poll_loop retain route_filter opened up ps st = fold (poll_step retain route_filter opened up) ps st"

text \<open>
  \<open>main\<close>: the exit code, whether the pool is open at the end, and what the cycles leave.  \<open>opens\<close> tells
  whether the pool can be opened, \<open>once\<close> is the flag of the command line, \<open>ps\<close> are the polls until the
  shutdown.
\<close>

definition fetcher_main ::
    "string \<Rightarrow> int \<Rightarrow> string \<Rightarrow> bool \<Rightarrow> bool \<Rightarrow> outages \<Rightarrow> poll list \<Rightarrow> database session \<Rightarrow>
     int \<times> bool \<times> fetcher \<times> database session" where
  "fetcher_main api_key retain agency opens once up ps s =
     (if api_key = [] \<or> \<not> opens then (1, False, new_fetcher, s)
      else case load_route_filter agency True up s of (route_filter, s) \<Rightarrow>
        if once then
          (case ps of
             [] \<Rightarrow> (0, False, new_fetcher, s)
           | p # _ \<Rightarrow> (0, False, snd (fetch_cycle retain route_filter True up p (new_fetcher, s))))
        else (0, False, snd (poll_loop retain route_filter True up ps (0, new_fetcher, s))))"

subsection \<open>The guard\<close>

text \<open>The clock does not run backwards and \<open>time.sleep\<close> sleeps at least as long as asked.\<close>

definition slept :: "fetcher \<Rightarrow> poll \<Rightarrow> bool" where
  "slept self p \<longleftrightarrow> fe_last_request_at self \<le> po_now p \<and> 0 < po_sent p \<and>
     (case guard_wait self (po_now p) of None \<Rightarrow> po_now p \<le> po_sent p | Some w \<Rightarrow> po_now p + w \<le> po_sent p)"

fun well_timed :: "fetcher \<Rightarrow> poll list \<Rightarrow> bool" where
  "well_timed self [] = True"
| "well_timed self (p # ps) = (slept self p \<and> well_timed (snd (fetch_feed self p)) ps)"

text \<open>When the requests are made.\<close>

fun request_times :: "fetcher \<Rightarrow> poll list \<Rightarrow> pyfloat list" where
  "request_times self [] = []"
| "request_times self (p # ps) =
     (let self' = snd (fetch_feed self p) in fe_last_request_at self' # request_times self' ps)"

lemma last_request [simp]: "fe_last_request_at (snd (fetch_feed self p)) = po_sent p"
  by (simp add: fetch_feed_def Let_def split: http_outcome.split)

lemma request_times_sent: "request_times self ps = map po_sent ps"
  by (induction ps arbitrary: self) (simp_all add: Let_def)

lemma tiny_le_eps: "tiny \<le> eps"
  using tiny_le [of 1] by (simp add: eps_def)

text \<open>One gap, with the rounding of the two subtractions.\<close>

lemma guarded_gap:
  assumes "slept self p" "0 < fe_last_request_at self"
  shows "60 - 1 / 2 ^ 46 \<le> po_sent p - fe_last_request_at self"
proof -
  define x where "x = po_now p - fe_last_request_at self"
  have x: "0 \<le> x" "fsub (po_now p) (fe_last_request_at self) = fl x"
    using assms(1) by (simp_all add: slept_def x_def fsub_def)
  have small: "125 * eps \<le> 1 / 2 ^ 46" by (simp add: eps_def)
  show ?thesis
  proof (cases "x < 60")
    case True
    have "eps * \<bar>x\<bar> \<le> eps * 60" using True x eps_pos by (intro mult_left_mono) auto
    then have e1: "\<bar>fl x - x\<bar> \<le> 61 * eps" using fl_error [of x] tiny_le_eps by simp
    show ?thesis
    proof (cases "fl x < 60")
      case True
      have "0 \<le> fl x" using x by (simp add: fl_nonneg)
      then have "eps * \<bar>60 - fl x\<bar> \<le> eps * 60" using True eps_pos by (intro mult_left_mono) auto
      then have e2: "\<bar>fl (60 - fl x) - (60 - fl x)\<bar> \<le> 61 * eps"
        using fl_error [of "60 - fl x"] tiny_le_eps by simp
      have "guard_wait self (po_now p) = Some (fl (60 - fl x))"
        using assms(2) True x by (simp add: guard_wait_def Let_def min_request_gap_def) (simp add: fsub_def)
      then have "po_now p + fl (60 - fl x) \<le> po_sent p" using assms(1) by (simp add: slept_def)
      then show ?thesis using e1 e2 small eps_pos unfolding x_def by linarith
    next
      case False
      then have "guard_wait self (po_now p) = None" using x by (simp add: guard_wait_def Let_def min_request_gap_def)
      then have "po_now p \<le> po_sent p" using assms(1) by (simp add: slept_def)
      then show ?thesis using e1 False small eps_pos unfolding x_def by linarith
    qed
  next
    case False
    then have "60 \<le> fl x" using binary64.rnd_ge_int [of 60 x] by simp
    then have "guard_wait self (po_now p) = None" using x by (simp add: guard_wait_def Let_def min_request_gap_def)
    then have "po_now p \<le> po_sent p" using assms(1) by (simp add: slept_def)
    moreover have "(0::rat) \<le> 1 / 2 ^ 46" by simp
    ultimately show ?thesis using False unfolding x_def by linarith
  qed
qed

text \<open>Parsing.\<close>

definition accepts :: "string list option \<Rightarrow> trip_message \<Rightarrow> bool" where
  "accepts route_ids trip \<longleftrightarrow> (case route_ids of None \<Rightarrow> True | Some ids \<Rightarrow> tp_route trip \<in> set ids)"

definition entity_rows :: "string list option \<Rightarrow> timestamp \<Rightarrow> feed_entity \<Rightarrow> trip_update list" where
  "entity_rows route_ids ts entity =
     (case en_trip_update entity of
        None \<Rightarrow> []
      | Some trip \<Rightarrow>
          if accepts route_ids trip
          then map (stop_update_row ts trip (en_raw entity)) (tp_stop_time_updates trip) else [])"

lemma parse_entity_rows: "parse_entity route_ids ts entity rows = rows @ entity_rows route_ids ts entity"
  by (auto simp: parse_entity_def entity_rows_def accepts_def split: option.splits)

lemma parse_entities: "fold (parse_entity route_ids ts) es rows = rows @ concat (map (entity_rows route_ids ts) es)"
  by (induction es arbitrary: rows) (simp_all add: parse_entity_rows)

lemma parse_rows:
  "parse_trip_updates route_ids feed = Inr rows \<Longrightarrow>
   \<exists>ts. fromtimestamp (of_int (fm_timestamp feed)) = Inr ts \<and>
     rows = concat (map (entity_rows route_ids ts) (fm_entities feed))"
  by (cases "fromtimestamp (of_int (fm_timestamp feed))") (auto simp: parse_trip_updates_def parse_entities)

lemma entity_rows_time: "row \<in> set (entity_rows route_ids ts entity) \<Longrightarrow> up_time row = Some ts"
  by (auto simp: entity_rows_def stop_update_row_def split: option.splits if_splits)

text \<open>Whole seconds convert exactly.\<close>

lemma fromtimestamp_of_int:
  "fromtimestamp (of_int n) = (if - 62135596800 \<le> n \<and> n < 253402300800 then Inr (n * 1000000) else Inl ValueError)"
proof -
  have "whole_seconds (of_int n) = n" by (simp add: whole_seconds_def)
  then show ?thesis by (simp add: fromtimestamp_def fmul_def)
qed

end
