(* ===== verification/Trip_Feed_Properties.thy ===== *)
theory Trip_Feed_Properties
  imports Trip_Feed Supervisor_Properties
begin

text \<open>
  The properties of the fetcher: the gap between requests, what a fetch cycle leaves in the
  table of trip updates, when it raises, and how a trip that reports only stop sequence 0
  reaches the prediction engine.
\<close>

subsection \<open>A cycle that received a feed\<close>

definition kept :: "int \<Rightarrow> trip_row list \<Rightarrow> trip_row list" where
  "kept retain rows = filter (\<lambda>row. card {t \<in> tu_time ` set rows. tu_time row < t} < nat retain) rows"

lemma write_purge_up:
  assumes "idle s" "opened" "\<forall>n. up n" "0 < retain"
  shows "se_committed (purge_old_trip_updates retain opened up (write_gtfs_trip_updates updates opened up s)) =
    (se_committed s)\<lparr>db_trip_updates := kept retain (db_trip_updates (se_committed s) @ valid_trip_rows updates)\<rparr>"
proof -
  let ?s = "write_gtfs_trip_updates updates opened up s"
  have w: "se_committed ?s = add_trips (valid_trip_rows updates) (se_committed s)"
    using assms(2,3) by (cases rule: write_trips_outcome [OF assms(1), of updates opened up]) auto
  have "se_committed (purge_old_trip_updates retain opened up ?s) =
      (se_committed ?s)\<lparr>db_trip_updates := kept retain (db_trip_updates (se_committed ?s))\<rparr>"
    unfolding kept_def
    using atomic_write.performed_up [OF purge_atomic [OF assms(4)] write_trips_idle [OF assms(1)] assms(2,3)
          delete_old_spec [OF assms(4)]] by blast
  then show ?thesis using w by (simp add: add_trips_def)
qed

lemma fetch_cycle_received:
  assumes "po_outcome p = Received feed" "fromtimestamp (of_int (fm_timestamp feed)) = Inr ts"
  shows "fetch_cycle retain flt opened up p (self, s) =
    (let rows = concat (map (entity_rows flt ts) (fm_entities feed))
     in (Inr (length rows), self\<lparr>fe_last_request_at := po_sent p\<rparr>,
         purge_old_trip_updates retain opened up (write_gtfs_trip_updates rows opened up s)))"
  using assms by (simp add: fetch_cycle_def fetch_feed_def parse_trip_updates_def parse_entities Let_def)

text \<open>The table after the cycle.\<close>

lemma fetch_cycle_up:
  assumes "idle s" "opened" "\<forall>n. up n" "0 < retain"
    and "po_outcome p = Received feed" "fromtimestamp (of_int (fm_timestamp feed)) = Inr ts"
  shows "se_committed (snd (snd (fetch_cycle retain flt opened up p (self, s)))) =
    (se_committed s)\<lparr>db_trip_updates := kept retain (db_trip_updates (se_committed s) @
       valid_trip_rows (concat (map (entity_rows flt ts) (fm_entities feed))))\<rparr>"
  by (simp add: fetch_cycle_received [OF assms(5,6)] Let_def write_purge_up [OF assms(1-4)])

lemma kept_newest: "0 < retain \<Longrightarrow> row \<in> set rows \<Longrightarrow> (\<forall>r \<in> set rows. tu_time r \<le> tu_time row) \<Longrightarrow> row \<in> set (kept retain rows)"
proof -
  assume a: "0 < retain" "row \<in> set rows" "\<forall>r \<in> set rows. tu_time r \<le> tu_time row"
  then have none: "{t \<in> tu_time ` set rows. tu_time row < t} = {}" by force
  show ?thesis unfolding kept_def set_filter mem_Collect_eq none using a by simp
qed

text \<open>Of a finite set of times those with fewer than \<open>n\<close> later ones are at most \<open>n\<close>.\<close>

lemma card_few_later: "finite A \<Longrightarrow> card {t \<in> A. card {u \<in> A. t < u} < n} \<le> n" for A :: "int set"
proof (induction n)
  case 0
  then show ?case by simp
next
  case (Suc n)
  let ?B = "\<lambda>k. {t \<in> A. card {u \<in> A. t < u} < k}"
  have "a = b" if "a \<in> A" "b \<in> A" "card {u \<in> A. a < u} = n" "card {u \<in> A. b < u} = n" "a \<le> b" for a b
  proof (rule ccontr)
    assume "a \<noteq> b"
    then have "{u \<in> A. b < u} \<subset> {u \<in> A. a < u}" using that by force
    then have "card {u \<in> A. b < u} < card {u \<in> A. a < u}" using Suc.prems by (intro psubset_card_mono) auto
    then show False using that by simp
  qed
  then have "card {t \<in> A. card {u \<in> A. t < u} = n} \<le> 1"
    using Suc.prems card_le_Suc0_iff_eq [of "{t \<in> A. card {u \<in> A. t < u} = n}"]
    by simp (metis (mono_tags, lifting) linear)
  moreover have "?B (Suc n) = ?B n \<union> {t \<in> A. card {u \<in> A. t < u} = n}" by (auto simp: less_Suc_eq)
  ultimately show ?case
    using card_Un_le [of "?B n" "{t \<in> A. card {u \<in> A. t < u} = n}"] Suc by simp
qed

lemma kept_times: "card (tu_time ` set (kept retain rows)) \<le> nat retain"
proof -
  have "tu_time ` set (kept retain rows) =
      {t \<in> tu_time ` set rows. card {u \<in> tu_time ` set rows. t < u} < nat retain}"
    by (auto simp: kept_def)
  then show ?thesis using card_few_later [of "tu_time ` set rows" "nat retain"] by simp
qed

lemma stored_row_simps:
  "tu_time (stored_trip_row (stop_update_row ts trip raw stu)) = ts"
  "tu_trip_id (stored_trip_row (stop_update_row ts trip raw stu)) = tp_trip trip"
  "tu_route_id (stored_trip_row (stop_update_row ts trip raw stu)) = str_or_none (tp_route trip)"
  "tu_direction_id (stored_trip_row (stop_update_row ts trip raw stu)) = tp_direction trip"
  "tu_stop_sequence (stored_trip_row (stop_update_row ts trip raw stu)) = int_or_none (su_stop_sequence stu)"
  by (simp_all add: stored_trip_row_def stop_update_row_def)

lemma entity_row:
  "row \<in> set (entity_rows flt ts en) \<longleftrightarrow>
   (\<exists>trip. en_trip_update en = Some trip \<and> accepts flt trip \<and>
      (\<exists>stu \<in> set (tp_stop_time_updates trip). row = stop_update_row ts trip (en_raw en) stu))"
  by (cases "en_trip_update en") (auto simp: entity_rows_def)

lemma feed_row:
  "row \<in> set (concat (map (entity_rows flt ts) es)) \<longleftrightarrow>
   (\<exists>en \<in> set es. \<exists>trip. en_trip_update en = Some trip \<and> accepts flt trip \<and>
      (\<exists>stu \<in> set (tp_stop_time_updates trip). row = stop_update_row ts trip (en_raw en) stu))"
  by (simp add: entity_row)

lemma valid_row_times:
  "r \<in> set (valid_trip_rows (concat (map (entity_rows flt ts) es))) \<Longrightarrow> tu_time r = ts"
  unfolding valid_trip_rows_def by (auto simp: feed_row stored_row_simps simp del: set_concat)

text \<open>A trip of which the newest fetch gives no stop sequence has no position.\<close>

lemma query_vehicles_unknown:
  assumes r: "r \<in> set (db_trip_updates d)" "tu_route_id r = Some rid" "tu_direction_id r = Some did" "tu_trip_id r = t" "t \<noteq> []"
    and newest: "\<forall>r' \<in> set (db_trip_updates d). tu_trip_id r' = t \<longrightarrow>
      tu_time r' < tu_time r \<or> (tu_time r' = tu_time r \<and> tu_stop_sequence r' = None)"
  shows "\<exists>v \<in> set (query_vehicles cap rid did d). vs_current_stop_sequence v = None"
proof -
  have "r \<in> vehicle_rows d rid did t" using r by (simp add: vehicle_rows_def)
  then obtain v where v: "v \<in> set (query_vehicles cap rid did d)" "vs_vehicle_id v = t"
    using query_vehicles_trips [of t cap rid did d] by auto
  obtain q where q: "current_position (vehicle_rows d rid did t) q" "vs_current_stop_sequence v = tu_stop_sequence q"
    using query_vehicles_position [OF v(1)] v(2) by auto
  have "tu_time r \<le> tu_time q" "q \<in> vehicle_rows d rid did t"
    using q(1) \<open>r \<in> vehicle_rows d rid did t\<close> by (auto simp: current_position_def)
  then have "tu_stop_sequence q = None" using newest by (force simp: vehicle_rows_def)
  then show ?thesis using v q by auto
qed

subsection \<open>Properties\<close>

text \<open>
  C19: the rate limit of the API.  However the poll loop schedules its calls, consecutive
  requests are at least 60 seconds apart, up to \<open>2 ^ -46\<close> seconds lost in the two rounded
  subtractions of the guard, provided the monotonic clock does not run backwards and
  \<open>time.sleep\<close> sleeps as long as asked.
\<close>

theorem requests_respect_rate_limit:
  assumes "well_timed self ps"
  shows "successively (\<lambda>a b. 60 - 1 / 2 ^ 46 \<le> b - a) (request_times self ps)"
  using assms
proof (induction ps arbitrary: self)
  case (Cons p ps)
  let ?self = "snd (fetch_feed self p)"
  have IH: "successively (\<lambda>a b. 60 - 1 / 2 ^ 46 \<le> b - a) (request_times ?self ps)" using Cons by simp
  show ?case
  proof (cases ps)
    case (Cons q qs)
    then have "slept ?self q" "0 < po_sent p" using Cons.prems by (simp_all add: slept_def)
    then have "60 - 1 / 2 ^ 46 \<le> po_sent q - po_sent p" using guarded_gap [of ?self q] by simp
    then show ?thesis using IH Cons by (simp add: Let_def)
  qed (simp add: Let_def)
qed simp

theorem requests_respect_rate_limit_witness:
  "successively (\<lambda>a b. 60 - 1 / 2 ^ 46 \<le> b - a) (request_times new_fetcher
     [\<lparr>po_now = 10, po_sent = 10, po_outcome = Request_failed\<rparr>, \<lparr>po_now = 20, po_sent = 70, po_outcome = Unparsable\<rparr>])"
proof (rule requests_respect_rate_limit)
  have "fl 10 = 10" "fl 20 = 20" "fl 50 = 50"
    using fl_of_int [of 10] fl_of_int [of 20] fl_of_int [of 50] by simp_all
  then show "well_timed new_fetcher
     [\<lparr>po_now = 10, po_sent = 10, po_outcome = Request_failed\<rparr>, \<lparr>po_now = 20, po_sent = 70, po_outcome = Unparsable\<rparr>]"
    by (simp add: slept_def guard_wait_def new_fetcher_def fetch_feed_def min_request_gap_def fsub_def)
qed

text \<open>
  C20: the table after a fetch.  With the server up, after a feed that is no older than the
  rows stored, the table holds every update of every accepted trip that fits its columns,
  nothing but old rows and rows of the feed, and no more than the configured number of
  distinct fetch times; no other table changes.
\<close>

theorem fetch_cycle_updates_table:
  assumes "idle s" "opened" "\<forall>n. up n" "0 < retain"
    and "po_outcome p = Received feed" "fromtimestamp (of_int (fm_timestamp feed)) = Inr ts"
    and "\<forall>row \<in> set (db_trip_updates (se_committed s)). tu_time row \<le> ts"
  shows "\<exists>rows. se_committed (snd (snd (fetch_cycle retain flt opened up p (self, s)))) = (se_committed s)\<lparr>db_trip_updates := rows\<rparr> \<and>
    (\<forall>en \<in> set (fm_entities feed). \<forall>trip. en_trip_update en = Some trip \<and> accepts flt trip \<longrightarrow>
       (\<forall>stu \<in> set (tp_stop_time_updates trip). trip_row_ok (stop_update_row ts trip (en_raw en) stu) \<longrightarrow>
          stored_trip_row (stop_update_row ts trip (en_raw en) stu) \<in> set rows)) \<and>
    (\<forall>row \<in> set rows. row \<in> set (db_trip_updates (se_committed s)) \<or> tu_time row = ts) \<and>
    card (tu_time ` set rows) \<le> nat retain"
proof -
  let ?new = "valid_trip_rows (concat (map (entity_rows flt ts) (fm_entities feed)))"
  let ?rows = "kept retain (db_trip_updates (se_committed s) @ ?new)"
  have sub: "set ?rows \<subseteq> set (db_trip_updates (se_committed s)) \<union> set ?new" by (auto simp: kept_def)
  have "r \<in> set ?rows" if "r \<in> set ?new" for r
    using that assms(7) valid_row_times [OF that] valid_row_times [of _ flt ts "fm_entities feed"]
    by (intro kept_newest [OF assms(4)]) auto
  moreover have "stored_trip_row row \<in> set ?new"
    if "row \<in> set (concat (map (entity_rows flt ts) (fm_entities feed)))" "trip_row_ok row" for row
    using that by (auto simp: valid_trip_rows_def)
  ultimately have "stored_trip_row (stop_update_row ts trip (en_raw en) stu) \<in> set ?rows"
    if "en \<in> set (fm_entities feed)" "en_trip_update en = Some trip \<and> accepts flt trip"
      "stu \<in> set (tp_stop_time_updates trip)" "trip_row_ok (stop_update_row ts trip (en_raw en) stu)" for en trip stu
    using that feed_row [of "stop_update_row ts trip (en_raw en) stu" flt ts "fm_entities feed"] by blast
  moreover have "row \<in> set (db_trip_updates (se_committed s)) \<or> tu_time row = ts" if "row \<in> set ?rows" for row
    using that sub valid_row_times by blast
  ultimately show ?thesis
    using fetch_cycle_up [OF assms(1-6), of flt self] kept_times [of retain "db_trip_updates (se_committed s) @ ?new"]
    by (intro exI [of _ ?rows] conjI) blast+
qed

definition example_feed :: feed_message where
  "example_feed = \<lparr>fm_timestamp = 10, fm_entities = [\<lparr>en_trip_update = Some
     \<lparr>tp_trip = ''t9'', tp_route = ''r1'', tp_direction = Some 0, tp_vehicle = None,
      tp_stop_time_updates = [\<lparr>su_stop_id = ''a'', su_stop_sequence = 0, su_arrival_delay = Some 5, su_departure_delay = None\<rparr>]\<rparr>,
     en_raw = JNull\<rparr>]\<rparr>"

definition example_poll :: poll where
  "example_poll = \<lparr>po_now = 10, po_sent = 10, po_outcome = Received example_feed\<rparr>"

lemma example_feed_time: "fromtimestamp (of_int (fm_timestamp example_feed)) = Inr 10000000"
  unfolding fromtimestamp_of_int by (simp add: example_feed_def)

theorem fetch_cycle_updates_table_witness:
  "\<exists>row \<in> set (db_trip_updates (se_committed (snd (snd
     (fetch_cycle 20 None True (\<lambda>n. True) example_poll (new_fetcher, new_session example_db)))))). tu_trip_id row = ''t9''"
proof -
  let ?trip = "\<lparr>tp_trip = ''t9'', tp_route = ''r1'', tp_direction = Some 0, tp_vehicle = None,
      tp_stop_time_updates = [\<lparr>su_stop_id = ''a'', su_stop_sequence = 0, su_arrival_delay = Some 5, su_departure_delay = None\<rparr>]\<rparr>"
  let ?row = "stop_update_row 10000000 ?trip JNull
    \<lparr>su_stop_id = ''a'', su_stop_sequence = 0, su_arrival_delay = Some 5, su_departure_delay = None\<rparr>"
  have ok: "trip_row_ok ?row"
    by (simp add: trip_row_ok_def stop_update_row_def opt_all_def int2_def int4_def int_or_none_def)
  obtain rows where rows: "se_committed (snd (snd (fetch_cycle 20 None True (\<lambda>n. True) example_poll (new_fetcher, new_session example_db)))) =
      (se_committed (new_session example_db))\<lparr>db_trip_updates := rows\<rparr>"
    and feed: "\<forall>en \<in> set (fm_entities example_feed). \<forall>trip. en_trip_update en = Some trip \<and> accepts None trip \<longrightarrow>
       (\<forall>stu \<in> set (tp_stop_time_updates trip). trip_row_ok (stop_update_row 10000000 trip (en_raw en) stu) \<longrightarrow>
          stored_trip_row (stop_update_row 10000000 trip (en_raw en) stu) \<in> set rows)"
    using fetch_cycle_updates_table [OF idle_new_session, where opened = True and up = "\<lambda>n. True" and retain = 20
        and p = example_poll and feed = example_feed and ts = 10000000 and flt = None and self = new_fetcher, of example_db]
    by (auto simp: example_poll_def example_feed_time new_session_def example_db_def empty_db_def)
  have "stored_trip_row ?row \<in> set rows" using feed ok by (simp add: example_feed_def accepts_def)
  moreover have "tu_trip_id (stored_trip_row ?row) = ''t9''" by (simp add: stored_row_simps)
  ultimately show ?thesis using rows by auto
qed

text \<open>
  A fetch cycle raises nothing but \<open>ValueError\<close>, exactly when it received a feed whose
  time stamp lies outside the years 1 to 9999; failed requests, unreadable answers and
  database outages are absorbed.
\<close>

theorem fetch_cycle_raises_iff:
  "fst (fetch_cycle retain flt opened up p st) = Inl e \<longleftrightarrow>
   e = ValueError \<and> (\<exists>feed. po_outcome p = Received feed \<and>
     (fm_timestamp feed < - 62135596800 \<or> 253402300800 \<le> fm_timestamp feed))"
proof (cases "po_outcome p")
  case (Received feed)
  have "fetch_feed (fst st) p = (bind_result (fromtimestamp (of_int (fm_timestamp feed))) (\<lambda>_. Inr (Some feed)),
      (fst st)\<lparr>fe_last_request_at := po_sent p\<rparr>)"
    using Received by (simp add: fetch_feed_def)
  then show ?thesis
    using Received by (cases st) (auto simp: fetch_cycle_def parse_trip_updates_def fromtimestamp_of_int)
qed (cases st; simp add: fetch_cycle_def fetch_feed_def)+

text \<open>
  C31: from the feed to the engine.  A trip that the newest feed reports only with stop
  sequence 0 or without one is stored without a sequence, so that the next cycle writes
  no prediction and no decision for its whole route.
\<close>

theorem zero_sequence_silences_route:
  assumes "idle s" "opened" "\<forall>n. up n" "0 < retain"
    and "po_outcome p = Received feed" "fromtimestamp (of_int (fm_timestamp feed)) = Inr ts"
    and "\<forall>row \<in> set (db_trip_updates (se_committed s)). tu_time row < ts"
    and "en \<in> set (fm_entities feed)" "en_trip_update en = Some trip" "accepts flt trip" "tp_trip trip \<noteq> []"
    and "tp_route trip = rid" "rid \<noteq> []" "tp_direction trip = Some did"
    and "stu \<in> set (tp_stop_time_updates trip)" "trip_row_ok (stop_update_row ts trip (en_raw en) stu)"
    and "\<forall>en \<in> set (fm_entities feed). \<forall>tr. en_trip_update en = Some tr \<and> tp_trip tr = tp_trip trip \<longrightarrow>
      (\<forall>stu \<in> set (tp_stop_time_updates tr). su_stop_sequence stu = 0)"
    and "1 < length (query_stops rid did (se_committed s))"
  shows "route_output cfg (se_committed (snd (snd (fetch_cycle retain flt opened up p (self, s))))) ((rid, did), tk) = ([], [])"
proof -
  let ?old = "db_trip_updates (se_committed s)"
  let ?feed = "concat (map (entity_rows flt ts) (fm_entities feed))"
  let ?d = "se_committed (snd (snd (fetch_cycle retain flt opened up p (self, s))))"
  let ?r = "stored_trip_row (stop_update_row ts trip (en_raw en) stu)"
  have d: "?d = (se_committed s)\<lparr>db_trip_updates := kept retain (?old @ valid_trip_rows ?feed)\<rparr>"
    by (rule fetch_cycle_up [OF assms(1-6)])
  have "stop_update_row ts trip (en_raw en) stu \<in> set ?feed" unfolding feed_row using assms(8-10,15) by blast
  then have new: "?r \<in> set (valid_trip_rows ?feed)" using assms(16) by (auto simp: valid_trip_rows_def)
  have "?r \<in> set (kept retain (?old @ valid_trip_rows ?feed))"
    using new assms(7) valid_row_times [of _ flt ts "fm_entities feed"]
    by (intro kept_newest [OF assms(4)]) (auto simp: stored_row_simps less_imp_le)
  then have r: "?r \<in> set (db_trip_updates ?d)" by (simp add: d)
  have seq: "tu_stop_sequence r' = None" if r': "r' \<in> set (valid_trip_rows ?feed)" and t: "tu_trip_id r' = tp_trip trip" for r'
  proof -
    obtain row where row: "row \<in> set ?feed" "r' = stored_trip_row row"
      using r' unfolding valid_trip_rows_def by auto
    then obtain en' tr stu' where "en' \<in> set (fm_entities feed)" "en_trip_update en' = Some tr"
        "stu' \<in> set (tp_stop_time_updates tr)" "row = stop_update_row ts tr (en_raw en') stu'"
      unfolding feed_row by blast
    then show ?thesis using assms(17) t row(2) by (auto simp: stored_row_simps int_or_none_def)
  qed
  have "tu_time r' < tu_time ?r \<or> (tu_time r' = tu_time ?r \<and> tu_stop_sequence r' = None)"
    if "r' \<in> set (db_trip_updates ?d)" "tu_trip_id r' = tp_trip trip" for r'
    using that assms(7) seq valid_row_times [of r' flt ts "fm_entities feed"] by (auto simp: d kept_def stored_row_simps)
  then have "\<exists>v \<in> set (query_vehicles (cy_capacity cfg) rid did ?d). vs_current_stop_sequence v = None"
    using query_vehicles_unknown [OF r, of rid did "tp_trip trip"] assms(11-14) by (simp add: stored_row_simps str_or_none_def)
  moreover have "query_stops rid did ?d = query_stops rid did (se_committed s)" by (simp add: d query_stops_def)
  ultimately show ?thesis using unknown_position_silent assms(18) by metis
qed

theorem zero_sequence_silences_route_witness:
  "route_output example_config (se_committed (snd (snd (fetch_cycle 20 None True (\<lambda>n. True) example_poll (new_fetcher, new_session example_net)))))
     ((''r1'', 0), example_tick) = ([], [])"
proof (rule zero_sequence_silences_route [where feed = example_feed and ts = 10000000 and en = "hd (fm_entities example_feed)"
    and trip = "the (en_trip_update (hd (fm_entities example_feed)))"
    and stu = "hd (tp_stop_time_updates (the (en_trip_update (hd (fm_entities example_feed)))))"])
  show "idle (new_session example_net)" by (rule idle_new_session)
  show "fromtimestamp (of_int (fm_timestamp example_feed)) = Inr 10000000" by (rule example_feed_time)
qed (simp_all add: example_poll_def example_feed_def accepts_def new_session_def example_net_def example_db_def empty_db_def
  trip_row_ok_def stop_update_row_def opt_all_def int2_def int4_def int_or_none_def query_stops_def)

subsection \<open>The process\<close>

text \<open>What a cycle adds has passed the filter, whatever fails; the routes stay.\<close>

definition of_routes :: "string list \<Rightarrow> database \<Rightarrow> database \<Rightarrow> bool" where
  "of_routes ids d d' \<longleftrightarrow> db_routes d' = db_routes d \<and>
     (\<forall>row \<in> set (db_trip_updates d'). row \<in> set (db_trip_updates d) \<or> tu_route_id row \<in> str_or_none ` set ids)"

lemma of_routes_trans: "of_routes ids d d' \<Longrightarrow> of_routes ids d' d'' \<Longrightarrow> of_routes ids d d''"
  by (force simp: of_routes_def)

lemma parsed_of_routes:
  "parse_trip_updates (Some ids) feed = Inr updates \<Longrightarrow> row \<in> set (valid_trip_rows updates) \<Longrightarrow> tu_route_id row \<in> str_or_none ` set ids"
  by (drule parse_rows) (auto simp: valid_trip_rows_def feed_row accepts_def stored_row_simps simp del: set_concat)

lemma cycle_of_routes:
  assumes "idle s" "fetch_cycle retain (Some ids) opened up p (self, s) = (r, self', t)"
  shows "idle t \<and> of_routes ids (se_committed s) (se_committed t)"
proof -
  have same: "of_routes ids d d" for d by (simp add: of_routes_def)
  consider "t = s" | updates feed where "parse_trip_updates (Some ids) feed = Inr updates"
      "t = purge_old_trip_updates retain opened up (write_gtfs_trip_updates updates opened up s)"
    using assms(2) by (auto simp: fetch_cycle_def split: prod.splits sum.splits option.splits)
  then show ?thesis
  proof cases
    case 1
    then show ?thesis using assms(1) same by simp
  next
    case (2 updates feed)
    let ?w = "write_gtfs_trip_updates updates opened up s"
    have w: "idle ?w" by (rule write_trips_idle [OF assms(1)])
    obtain ins where "set ins \<subseteq> set (valid_trip_rows updates)"
        "se_committed ?w = (se_committed s)\<lparr>db_trip_updates := db_trip_updates (se_committed s) @ ins\<rparr>"
    proof (cases rule: write_trips_outcome [OF assms(1), of updates opened up])
      case 1
      then show ?thesis using that [of "[]"] by simp
    next
      case (2 ins)
      then show ?thesis using that [of ins] by (auto simp: add_trips_def elim: list_emb_set)
    qed
    then have "of_routes ids (se_committed s) (se_committed ?w)"
      using parsed_of_routes [OF 2(1)] by (auto simp: of_routes_def)
    moreover have "idle t \<and> of_routes ids (se_committed ?w) (se_committed t)"
    proof (cases "0 < retain")
      case True
      have "of_routes ids d d'" if "delete_old_trip_updates retain d = Inr d'" for d d'
        using that by (auto simp: delete_old_trip_updates_def of_routes_def split: if_splits list.splits)
      then show ?thesis
        using atomic_write.keeps [OF purge_atomic [OF True] w, where I = "of_routes ids (se_committed ?w)"]
          atomic_write.idle_wr [OF purge_atomic [OF True] w] same of_routes_trans 2(2) by blast
    next
      case False
      then show ?thesis using 2(2) w same by (simp add: purge_old_trip_updates_def)
    qed
    ultimately show ?thesis using of_routes_trans by blast
  qed
qed

text \<open>
  With a loaded filter the process only ever stores updates of the routes that the tables had
  for the agency when it started, whatever the feed contains and whatever fails; it changes no
  route, its pool is closed at the end, and its exit code is 1 exactly without a key or a pool.
\<close>

theorem fetcher_stays_in_agency:
  assumes "idle s" "fst (load_route_filter agency True up s) \<noteq> None"
    and "fetcher_main api_key retain agency opens once up ps s = (code, pool_open, self, t)"
  shows "of_routes (map ro_route_id (filter (\<lambda>r. ro_agency_id r = Some agency) (db_routes (se_committed s))))
      (se_committed s) (se_committed t) \<and>
    \<not> pool_open \<and> (code = 1 \<longleftrightarrow> api_key = [] \<or> \<not> opens)"
proof -
  let ?ids = "map ro_route_id (filter (\<lambda>r. ro_agency_id r = Some agency) (db_routes (se_committed s)))"
  obtain u where load: "load_route_filter agency True up s = (Some ?ids, u)" "idle u" "se_committed u = se_committed s"
    using assms(1,2)
    by (auto simp: load_route_filter_def connection_def query_def call_def idle_def rollback_def Let_def split: if_splits prod.splits sum.splits)
  have loop: "idle t \<and> of_routes ?ids (se_committed u) (se_committed t)"
    if "idle u" "poll_loop retain (Some ?ids) True up ps (m, self, u) = (m', self', t)" for m self u m' self' t
    using that
  proof (induction ps arbitrary: m self u)
    case Nil
    then show ?case by (simp add: poll_loop_def of_routes_def)
  next
    case (Cons p ps)
    obtain r self1 u1 where c: "fetch_cycle retain (Some ?ids) True up p (self, u) = (r, self1, u1)" by (metis prod_cases3)
    obtain m1 where "poll_step retain (Some ?ids) True up p (m, self, u) = (m1, self1, u1)"
      using c by (cases r) (auto simp: poll_step_def)
    then have "poll_loop retain (Some ?ids) True up ps (m1, self1, u1) = (m', self', t)"
      using Cons.prems(2) by (simp add: poll_loop_def)
    with cycle_of_routes [OF Cons.prems(1) c] Cons.IH [of u1] show ?case using of_routes_trans by blast
  qed
  show ?thesis
  proof (cases "api_key = [] \<or> \<not> opens")
    case True
    then show ?thesis using assms(3) by (auto simp: fetcher_main_def of_routes_def)
  next
    case ok: False
    show ?thesis
    proof (cases once)
      case True
      show ?thesis
      proof (cases ps)
        case Nil
        then show ?thesis using ok True assms(3) load by (simp add: fetcher_main_def of_routes_def)
      next
        case (Cons p ps')
        obtain r where "fetch_cycle retain (Some ?ids) True up p (new_fetcher, u) = (r, self, t)" "code = 0" "\<not> pool_open"
          using ok True assms(3) load(1) Cons
          by (cases "fetch_cycle retain (Some ?ids) True up p (new_fetcher, u)") (simp add: fetcher_main_def)
        then show ?thesis using ok load(3) cycle_of_routes [OF load(2)] by fastforce
      qed
    next
      case False
      then show ?thesis using ok assms(3) load loop [OF load(2)]
        by (cases "poll_loop retain (Some ?ids) True up ps (0, new_fetcher, u)") (auto simp: fetcher_main_def)
    qed
  qed
qed

end
