(* ===== verification/Bytes.thy ===== *)
theory Bytes
  imports Prelude "HOL-Library.Word"
begin

text \<open>
  Byte strings as the messages between backend and devices use them: the four-byte
  big-endian integers of \<open>struct\<close> with format \<open>!I\<close>, SHA-256 as \<open>hashlib\<close> computes it (FIPS 180-4)
  and its hexadecimal text, and the last component of a path.
\<close>

unbundle bit_operations_syntax

type_synonym bytes = "8 word list"

subsection \<open>\<open>struct\<close>\<close>

definition u32_bytes :: "32 word \<Rightarrow> bytes" where
  "u32_bytes w = map (\<lambda>k. ucast (drop_bit k w)) [24, 16, 8, 0]"

definition bytes_u32 :: "bytes \<Rightarrow> 32 word" where
  "bytes_u32 bs = foldl (\<lambda>w b. push_bit 8 w OR ucast b) 0 bs"

definition pack_u32 :: "int \<Rightarrow> bytes result" where
  "pack_u32 n = (if 0 \<le> n \<and> n < 2 ^ 32 then Inr (u32_bytes (word_of_int n)) else Inl StructError)"

definition unpack_u32 :: "bytes \<Rightarrow> nat result" where
  "unpack_u32 bs = (if length bs = 4 then Inr (unat (bytes_u32 bs)) else Inl StructError)"

lemma length_u32_bytes [simp]: "length (u32_bytes w) = 4"
  by (simp add: u32_bytes_def)

lemma bytes_u32_u32_bytes: "bytes_u32 (u32_bytes w) = w"
proof (rule bit_word_eqI)
  fix n assume "n < LENGTH(32)"
  then consider "n < 8" | "8 \<le> n" "n < 16" | "16 \<le> n" "n < 24" | "24 \<le> n" "n < 32" by fastforce
  then show "bit (bytes_u32 (u32_bytes w)) n \<longleftrightarrow> bit w n"
    by cases (auto simp: bytes_u32_def u32_bytes_def bit_simps)
qed

lemma unpack_u32_bytes: "unpack_u32 (u32_bytes w) = Inr (unat w)"
  by (simp only: unpack_u32_def length_u32_bytes bytes_u32_u32_bytes if_True refl)

lemma len32_eq: "(2 :: int) ^ LENGTH(32) = 2 ^ 32"
  by simp

lemma unat_int: "0 \<le> n \<Longrightarrow> n < 2 ^ 32 \<Longrightarrow> unat (word_of_int n :: 32 word) = nat n"
  by (simp only: unat_eq_nat_uint uint_word_of_int mod_pos_pos_trivial len32_eq)

lemma pack_u32_range:
  "0 \<le> n \<Longrightarrow> n < 2 ^ 32 \<Longrightarrow> pack_u32 n = Inr (u32_bytes (word_of_int n))"
  by (simp only: pack_u32_def simp_thms if_True)

subsection \<open>SHA-256\<close>

definition sha_k :: "32 word list" where
  "sha_k = [
     1116352408, 1899447441, 3049323471, 3921009573, 961987163, 1508970993, 2453635748,
     2870763221, 3624381080, 310598401, 607225278, 1426881987, 1925078388, 2162078206,
     2614888103, 3248222580, 3835390401, 4022224774, 264347078, 604807628, 770255983,
     1249150122, 1555081692, 1996064986, 2554220882, 2821834349, 2952996808, 3210313671,
     3336571891, 3584528711, 113926993, 338241895, 666307205, 773529912, 1294757372,
     1396182291, 1695183700, 1986661051, 2177026350, 2456956037, 2730485921, 2820302411,
     3259730800, 3345764771, 3516065817, 3600352804, 4094571909, 275423344, 430227734,
     506948616, 659060556, 883997877, 958139571, 1322822218, 1537002063, 1747873779,
     1955562222, 2024104815, 2227730452, 2361852424, 2428436474, 2756734187, 3204031479,
     3329325298]"

definition sha_init :: "32 word list" where
  "sha_init = [1779033703, 3144134277, 1013904242, 2773480762, 1359893119, 2600822924, 528734635, 1541459225]"

definition ror :: "nat \<Rightarrow> 32 word \<Rightarrow> 32 word" where
  "ror n x = drop_bit n x OR push_bit (32 - n) x"

text \<open>The message schedule, newest word first.\<close>

fun sha_extend :: "nat \<Rightarrow> 32 word list \<Rightarrow> 32 word list" where
  "sha_extend 0 ws = ws"
| "sha_extend (Suc n) ws =
     (let w2 = ws ! 1; w7 = ws ! 6; w15 = ws ! 14; w16 = ws ! 15;
          s0 = ror 7 w15 XOR ror 18 w15 XOR drop_bit 3 w15;
          s1 = ror 17 w2 XOR ror 19 w2 XOR drop_bit 10 w2
      in sha_extend n ((w16 + s0 + w7 + s1) # ws))"

fun sha_round :: "32 word list \<Rightarrow> 32 word \<times> 32 word \<Rightarrow> 32 word list" where
  "sha_round [a, b, c, d, e, f, g, h] (k, w) =
     (let t1 = h + (ror 6 e XOR ror 11 e XOR ror 25 e) + ((e AND f) XOR (NOT e AND g)) + k + w;
          t2 = (ror 2 a XOR ror 13 a XOR ror 22 a) + ((a AND b) XOR (a AND c) XOR (b AND c))
      in [t1 + t2, a, b, c, d + t1, e, f, g])"
| "sha_round st _ = st"

definition sha_block :: "32 word list \<Rightarrow> 32 word list \<Rightarrow> 32 word list" where
  "sha_block st ws = map2 (+) st (foldl sha_round st (zip sha_k (rev (sha_extend 48 (rev ws)))))"

definition sha_pad :: "bytes \<Rightarrow> bytes" where
  "sha_pad msg =
     (let n = length msg; z = (119 - n mod 64) mod 64
      in msg @ 0x80 # replicate z 0 @ map (\<lambda>k. ucast (drop_bit k (of_nat (8 * n) :: 64 word))) [56, 48, 40, 32, 24, 16, 8, 0])"

fun words_of :: "bytes \<Rightarrow> 32 word list" where
  "words_of (a # b # c # d # bs) = bytes_u32 [a, b, c, d] # words_of bs"
| "words_of _ = []"

function sha_blocks :: "32 word list \<Rightarrow> 32 word list \<Rightarrow> 32 word list" where
  "sha_blocks st ws = (if length ws < 16 then st else sha_blocks (sha_block st (take 16 ws)) (drop 16 ws))"
  by pat_completeness auto

termination by (relation "measure (\<lambda>(_, ws). length ws)") auto

declare sha_blocks.simps [simp del]

definition sha256 :: "bytes \<Rightarrow> bytes" where
  "sha256 msg = concat (map u32_bytes (sha_blocks sha_init (words_of (sha_pad msg))))"

definition hex_digit :: "nat \<Rightarrow> char" where
  "hex_digit n = char_of (if n < 10 then 48 + n else 87 + n)"

definition hexdigest :: "bytes \<Rightarrow> string" where
  "hexdigest msg = concat (map (\<lambda>b. [hex_digit (unat b div 16), hex_digit (unat b mod 16)]) (sha256 msg))"

lemma length_sha_round: "length st = 8 \<Longrightarrow> length (sha_round st kw) = 8"
  by (cases "(st, kw)" rule: sha_round.cases) (auto simp: Let_def)

lemma length_sha_rounds: "length st = 8 \<Longrightarrow> length (foldl sha_round st kws) = 8"
  by (induction kws arbitrary: st) (simp_all add: length_sha_round)

lemma length_sha_blocks: "length st = 8 \<Longrightarrow> length (sha_blocks st ws) = 8"
proof (induction st ws rule: sha_blocks.induct)
  case (1 st ws)
  have "length (sha_block st (take 16 ws)) = 8"
    using 1(2) by (simp add: sha_block_def length_sha_rounds)
  then show ?case using 1 by (subst sha_blocks.simps) simp
qed

lemma length_sha256 [simp]: "length (sha256 msg) = 32"
proof -
  have "length (sha_blocks sha_init ws) = 8" for ws by (rule length_sha_blocks) (simp add: sha_init_def)
  then show ?thesis by (simp add: sha256_def length_concat comp_def sum_list_triv)
qed

subsection \<open>Paths\<close>

definition after_last :: "char \<Rightarrow> string \<Rightarrow> string" where
  "after_last c s = rev (takeWhile (\<lambda>x. x \<noteq> c) (rev s))"

text \<open>\<open>path.rsplit("/", 1)[-1].rsplit("\<close>\<open>\\<close>\<open>", 1)[-1]\<close>.\<close>

definition base_name :: "string \<Rightarrow> string" where
  "base_name path = after_last (CHR 0x5C) (after_last (CHR ''/'') path)"

end
