(* ===== verification/Model_Transfer.thy ===== *)
theory Model_Transfer
  imports Bytes
begin

text \<open>
  Delivery of a model file to an edge device in chunks: \<open>MQTTBroker/model_distributor.py\<close>
  on the backend, \<open>Edge/model_receiver.py\<close> and the dispatch of model messages in
  \<open>Edge/comms.py\<close> on the device.  \<open>dumps\<close> is \<open>json.dumps(...).encode()\<close> and \<open>loads\<close> is
  \<open>json.loads(....decode())\<close>, which raises on bytes that are no JSON text; both are
  parameters.  When acknowledgements arrive is an input.  Logging, the pause between
  chunks and failures of the disk other than a missing file are left out.
\<close>

subsection \<open>The messages\<close>

definition model_type_meta :: "8 word" where "model_type_meta = 0x01"
definition model_type_chunk :: "8 word" where "model_type_chunk = 0x02"
definition model_type_ack :: "8 word" where "model_type_ack = 0x03"

definition model_chunk_size :: int where
  "model_chunk_size = 256 * 1024"

definition meta_json :: "string \<Rightarrow> int \<Rightarrow> int \<Rightarrow> string \<Rightarrow> int \<Rightarrow> json" where
  "meta_json filename total_chunks total_size sha chunk_size =
     JObj [(''filename'', JStr filename), (''total_chunks'', JInt total_chunks), (''total_size'', JInt total_size),
           (''sha256'', JStr sha), (''chunk_size'', JInt chunk_size)]"

text \<open>\<open>file_data[offset : offset + chunk_size]\<close> at a nonnegative offset.\<close>

definition chunk_data :: "int \<Rightarrow> bytes \<Rightarrow> int \<Rightarrow> bytes" where
  "chunk_data chunk_size file_data i = take (nat chunk_size) (drop (nat (i * chunk_size)) file_data)"

text \<open>A negative index or one beyond four bytes is rejected by \<open>struct.pack\<close>.\<close>

definition chunk_payload :: "int \<Rightarrow> bytes \<Rightarrow> int \<Rightarrow> bytes result" where
  "chunk_payload chunk_size file_data i =
     (let data = chunk_data chunk_size file_data i
      in bind_result (pack_u32 i) (\<lambda>idx. Inr (model_type_chunk # idx @ sha256 data @ data)))"

subsection \<open>\<open>ModelDistributor\<close>\<close>

text \<open>What the shared client was given to publish is recorded.\<close>

record distributor =
  ds_ack_event :: bool
  ds_ack_data :: "(string \<times> json) option"
  ds_published :: "(string \<times> bytes) list"

definition new_distributor :: distributor where
  "new_distributor = \<lparr>ds_ack_event = False, ds_ack_data = None, ds_published = []\<rparr>"

definition on_model_ack :: "string \<times> json \<Rightarrow> distributor \<Rightarrow> distributor" where
  "on_model_ack ack self = self\<lparr>ds_ack_data := Some ack, ds_ack_event := True\<rparr>"

text \<open>
  The two assignments are one step, and so are the end of a wait and the read of the data: an
  acknowledgement that the network thread delivers between them is left out.
\<close>

definition clear_ack :: "distributor \<Rightarrow> distributor" where
  "clear_ack self = self\<lparr>ds_ack_event := False, ds_ack_data := None\<rparr>"

text \<open>\<open>arrivals n\<close>: the acknowledgements that arrive after the \<open>n\<close>-th publication of the client.\<close>

type_synonym arrivals = "nat \<Rightarrow> (string \<times> json) list"

definition publish :: "arrivals \<Rightarrow> string \<Rightarrow> bytes \<Rightarrow> distributor \<Rightarrow> distributor" where
  "publish arrivals topic payload self =
     fold on_model_ack (arrivals (length (ds_published self)))
       (self\<lparr>ds_published := ds_published self @ [(topic, payload)]\<rparr>)"

fun publish_chunks :: "arrivals \<Rightarrow> string \<Rightarrow> int \<Rightarrow> bytes \<Rightarrow> int list \<Rightarrow> distributor \<Rightarrow> unit result \<times> distributor" where
  "publish_chunks arrivals topic chunk_size file_data [] self = (Inr (), self)"
| "publish_chunks arrivals topic chunk_size file_data (i # is) self =
     (case chunk_payload chunk_size file_data i of
        Inl e \<Rightarrow> (Inl e, self)
      | Inr payload \<Rightarrow> publish_chunks arrivals topic chunk_size file_data is (publish arrivals topic payload self))"

text \<open>
  \<open>self._ack_event.wait(timeout=...)\<close>: it returns at once when the event is set, else with
  the first acknowledgement that arrives in time.
\<close>

definition wait_ack :: "(string \<times> json) list \<Rightarrow> distributor \<Rightarrow> bool \<times> distributor" where
  "wait_ack in_time self =
     (if ds_ack_event self then (True, self)
      else case in_time of [] \<Rightarrow> (False, self) | ack # _ \<Rightarrow> (True, on_model_ack ack self))"

text \<open>An element of \<open>missing_chunks\<close> as an index: \<open>bool\<close> is an \<open>int\<close>, all else fails in slicing.\<close>

fun index_of_json :: "json \<Rightarrow> int result" where
  "index_of_json (JInt n) = Inr n"
| "index_of_json (JBool b) = Inr (of_bool b)"
| "index_of_json _ = Inl TypeError"

fun publish_missing :: "arrivals \<Rightarrow> string \<Rightarrow> int \<Rightarrow> bytes \<Rightarrow> json list \<Rightarrow> distributor \<Rightarrow> unit result \<times> distributor" where
  "publish_missing arrivals topic chunk_size file_data [] self = (Inr (), self)"
| "publish_missing arrivals topic chunk_size file_data (m # ms) self =
     (case bind_result (index_of_json m) (chunk_payload chunk_size file_data) of
        Inl e \<Rightarrow> (Inl e, self)
      | Inr payload \<Rightarrow> publish_missing arrivals topic chunk_size file_data ms (publish arrivals topic payload self))"

definition retry_chunks ::
    "arrivals \<Rightarrow> (string \<times> json) list \<Rightarrow> string \<Rightarrow> int \<Rightarrow> bytes \<Rightarrow> json list \<Rightarrow> distributor \<Rightarrow> bool result \<times> distributor" where
  "retry_chunks arrivals in_time topic chunk_size file_data missing self =
     (case publish_missing arrivals topic chunk_size file_data missing self of
        (Inl e, self) \<Rightarrow> (Inl e, self)
      | (Inr _, self) \<Rightarrow>
          (case wait_ack in_time (clear_ack self) of
             (False, self) \<Rightarrow> (Inr False, self)
           | (True, self) \<Rightarrow>
               ((case ds_ack_data self of
                   None \<Rightarrow> Inr False
                 | Some (_, body) \<Rightarrow>
                     bind_result (jget body ''status'' JNull) (\<lambda>status. Inr (status = JStr ''success''))), self)))"

definition total_chunks :: "int \<Rightarrow> int \<Rightarrow> int result" where
  "total_chunks total_size chunk_size =
     (if chunk_size = 0 then Inl ZeroDivisionError else Inr \<lceil>py_truediv total_size chunk_size\<rceil>)"

definition model_topic :: "string \<Rightarrow> string" where
  "model_topic device_id = ''edge/'' @ device_id @ ''/model''"

text \<open>The decision after the first wait.\<close>

definition after_ack ::
    "arrivals \<Rightarrow> (string \<times> json) list \<Rightarrow> string \<Rightarrow> int \<Rightarrow> bytes \<Rightarrow> distributor \<Rightarrow> bool result \<times> distributor" where
  "after_ack arrivals retry_in_time topic chunk_size file_data self =
     (case ds_ack_data self of
        None \<Rightarrow> (Inr False, self)
      | Some (_, body) \<Rightarrow>
          (case jget body ''status'' JNull of
             Inl e \<Rightarrow> (Inl e, self)
           | Inr status \<Rightarrow>
               if status = JStr ''success'' then (Inr True, self)
               else (case jget body ''missing_chunks'' (JArr []) of
                       Inl e \<Rightarrow> (Inl e, self)
                     | Inr missing \<Rightarrow>
                         if truthy missing
                         then (case missing of
                                 JArr ms \<Rightarrow> retry_chunks arrivals retry_in_time topic chunk_size file_data ms self
                               | _ \<Rightarrow> (Inl TypeError, self))
                         else (Inr False, self))))"

text \<open>\<open>file\<close> is the content of \<open>model_path\<close>, \<open>None\<close> when it cannot be opened.\<close>

definition distribute_model ::
    "(json \<Rightarrow> bytes) \<Rightarrow> int \<Rightarrow> arrivals \<Rightarrow> (string \<times> json) list \<Rightarrow> (string \<times> json) list \<Rightarrow> string \<Rightarrow> string \<Rightarrow>
     bytes option \<Rightarrow> distributor \<Rightarrow> bool result \<times> distributor" where
  "distribute_model dumps chunk_size arrivals in_time retry_in_time device_id model_path file self =
     (case file of
        None \<Rightarrow> (Inl FileNotFoundError, self)
      | Some file_data \<Rightarrow>
          (case total_chunks (int (length file_data)) chunk_size of
             Inl e \<Rightarrow> (Inl e, self)
           | Inr chunks \<Rightarrow>
               let topic = model_topic device_id;
                   meta = meta_json (base_name model_path) chunks (int (length file_data)) (hexdigest file_data) chunk_size;
                   self = publish arrivals topic (model_type_meta # dumps meta) (clear_ack self)
               in case publish_chunks arrivals topic chunk_size file_data [0..chunks - 1] self of
                    (Inl e, self) \<Rightarrow> (Inl e, self)
                  | (Inr _, self) \<Rightarrow>
                      (case wait_ack in_time self of
                         (False, self) \<Rightarrow> (Inr False, self)
                       | (True, self) \<Rightarrow> after_ack arrivals retry_in_time topic chunk_size file_data self)))"

subsection \<open>\<open>ModelReceiver\<close>\<close>

text \<open>
  What the operating system decides is the environment: whether \<open>mkstemp\<close> accepts the name
  of the model in its prefix, the text of a \<open>FileNotFoundError\<close> on a chunk file, and how a
  value that is no string prints.
\<close>

record receiver_env =
  re_mkstemp_ok :: "json \<Rightarrow> bool"
  re_missing_text :: "string \<Rightarrow> string"
  re_repr :: "json \<Rightarrow> string"

text \<open>
  \<open>rv_temp_dir\<close> holds the files of the temporary directory by name, \<open>None\<close> outside of a
  transfer.  The acknowledgements published and the files handed to \<open>on_model_ready\<close> are
  recorded.
\<close>

record receiver =
  rv_filename :: json
  rv_total_chunks :: json
  rv_total_size :: json
  rv_expected_sha256 :: json
  rv_chunk_size :: json
  rv_received_chunks :: "nat list"
  rv_temp_dir :: "(string, bytes) dict option"
  rv_acks :: "json list"
  rv_ready :: "bytes list"

definition reset_state :: "receiver \<Rightarrow> receiver" where
  "reset_state self = self\<lparr>rv_filename := JNull, rv_total_chunks := JInt 0, rv_total_size := JInt 0,
     rv_expected_sha256 := JNull, rv_chunk_size := JInt 0, rv_received_chunks := [], rv_temp_dir := None\<rparr>"

definition new_receiver :: receiver where
  "new_receiver = \<lparr>rv_filename = JNull, rv_total_chunks = JInt 0, rv_total_size = JInt 0,
     rv_expected_sha256 = JNull, rv_chunk_size = JInt 0, rv_received_chunks = [], rv_temp_dir = None,
     rv_acks = [], rv_ready = []\<rparr>"

text \<open>\<open>self._x = meta["x"]\<close>: a missing key raises with the fields before it assigned.\<close>

definition take_field ::
    "json \<Rightarrow> string \<Rightarrow> (json \<Rightarrow> receiver \<Rightarrow> receiver) \<Rightarrow> (receiver \<Rightarrow> unit result \<times> receiver) \<Rightarrow> receiver \<Rightarrow> unit result \<times> receiver" where
  "take_field meta key assign rest self =
     (case jindex meta key of Inl e \<Rightarrow> (Inl e, self) | Inr v \<Rightarrow> rest (assign v self))"

definition handle_meta :: "(bytes \<Rightarrow> json result) \<Rightarrow> bytes \<Rightarrow> receiver \<Rightarrow> unit result \<times> receiver" where
  "handle_meta loads data self =
     (case loads data of
        Inl e \<Rightarrow> (Inr (), self)
      | Inr meta \<Rightarrow>
          take_field meta ''filename'' (\<lambda>v. rv_filename_update (\<lambda>_. v))
         (take_field meta ''total_chunks'' (\<lambda>v. rv_total_chunks_update (\<lambda>_. v))
         (take_field meta ''total_size'' (\<lambda>v. rv_total_size_update (\<lambda>_. v))
         (take_field meta ''sha256'' (\<lambda>v. rv_expected_sha256_update (\<lambda>_. v))
         (take_field meta ''chunk_size'' (\<lambda>v. rv_chunk_size_update (\<lambda>_. v))
         (\<lambda>self. (Inr (), self\<lparr>rv_received_chunks := [], rv_temp_dir := Some []\<rparr>)))))) self)"

text \<open>\<open>f"{i:08d}.chunk"\<close>.\<close>

definition chunk_name :: "nat \<Rightarrow> string" where
  "chunk_name i = replicate (8 - length (digits i)) (CHR ''0'') @ digits i @ ''.chunk''"

text \<open>\<open>len(...) == self._total_chunks\<close> and \<open>range(self._total_chunks)\<close>.\<close>

fun equals_int :: "nat \<Rightarrow> json \<Rightarrow> bool" where
  "equals_int n (JInt m) = (int n = m)"
| "equals_int n (JFloat x) = (of_nat n = x)"
| "equals_int n (JBool b) = (n = of_bool b)"
| "equals_int n _ = False"

fun range_of :: "json \<Rightarrow> nat list result" where
  "range_of (JInt n) = Inr [0..<nat n]"
| "range_of (JBool b) = Inr [0..<of_bool b]"
| "range_of _ = Inl TypeError"

fun read_chunks :: "(string, bytes) dict \<Rightarrow> nat list \<Rightarrow> string + bytes" where
  "read_chunks dir [] = Inr []"
| "read_chunks dir (i # is) =
     (case dict_get dir (chunk_name i) of
        None \<Rightarrow> Inl (chunk_name i)
      | Some b \<Rightarrow> (case read_chunks dir is of Inl n \<Rightarrow> Inl n | Inr bs \<Rightarrow> Inr (b @ bs)))"

definition py_text :: "receiver_env \<Rightarrow> json \<Rightarrow> string" where
  "py_text env v = (case v of JStr s \<Rightarrow> s | _ \<Rightarrow> re_repr env v)"

definition success_ack :: "json \<Rightarrow> json" where
  "success_ack filename = JObj [(''filename'', filename), (''status'', JStr ''success''), (''sha256_verified'', JBool True)]"

definition error_ack :: "json \<Rightarrow> nat list \<Rightarrow> string \<Rightarrow> json" where
  "error_ack filename missing message =
     JObj [(''filename'', filename), (''status'', JStr ''error''),
           (''missing_chunks'', JArr (map (\<lambda>i. JInt (int i)) missing)), (''message'', JStr message)]"

definition send_ack :: "json \<Rightarrow> receiver \<Rightarrow> receiver" where
  "send_ack ack self = self\<lparr>rv_acks := rv_acks self @ [ack]\<rparr>"

definition send_error_ack :: "string \<Rightarrow> receiver \<Rightarrow> unit result \<times> receiver" where
  "send_error_ack message self =
     (case range_of (rv_total_chunks self) of
        Inl e \<Rightarrow> (Inl e, self)
      | Inr indices \<Rightarrow>
          (Inr (), send_ack (error_ack (rv_filename self)
             (filter (\<lambda>i. i \<notin> set (rv_received_chunks self)) indices) message) self))"

text \<open>Called with a transfer active; \<open>dir\<close> is its directory.\<close>

definition assemble_and_verify :: "receiver_env \<Rightarrow> (string, bytes) dict \<Rightarrow> receiver \<Rightarrow> unit result \<times> receiver" where
  "assemble_and_verify env dir self =
     (if \<not> re_mkstemp_ok env (rv_filename self) then (Inl FileNotFoundError, self)
      else case range_of (rv_total_chunks self) of
        Inl e \<Rightarrow> (Inl e, self)
      | Inr indices \<Rightarrow>
          (case read_chunks dir indices of
             Inl name \<Rightarrow> send_error_ack (''Missing chunk file: '' @ re_missing_text env name) self
           | Inr file \<Rightarrow>
               if JStr (hexdigest file) \<noteq> rv_expected_sha256 self
               then send_error_ack (''SHA256 mismatch: expected '' @ py_text env (rv_expected_sha256 self) @
                      '', got '' @ hexdigest file) self
               else let self = reset_state (send_ack (success_ack (rv_filename self)) self)
                    in (Inr (), self\<lparr>rv_ready := rv_ready self @ [file]\<rparr>)))"

definition handle_chunk :: "receiver_env \<Rightarrow> bytes \<Rightarrow> receiver \<Rightarrow> unit result \<times> receiver" where
  "handle_chunk env data self =
     (if length data < 36 then (Inr (), self)
      else case unpack_u32 (take 4 data) of
        Inl e \<Rightarrow> (Inl e, self)
      | Inr chunk_index \<Rightarrow>
          let expected_hash = take 32 (drop 4 data); chunk_data = drop 36 data
          in if sha256 chunk_data \<noteq> expected_hash then (Inr (), self)
             else case rv_temp_dir self of
               None \<Rightarrow> (Inr (), self)
             | Some dir \<Rightarrow>
                 let dir = dict_set dir (chunk_name chunk_index) chunk_data;
                     received = List.insert chunk_index (rv_received_chunks self);
                     self = self\<lparr>rv_temp_dir := Some dir, rv_received_chunks := received\<rparr>
                 in if equals_int (length received) (rv_total_chunks self)
                    then assemble_and_verify env dir self else (Inr (), self))"

subsection \<open>Dispatch on the device\<close>

text \<open>\<open>MQTTComms._handle_model\<close>; the receiver is \<open>None\<close> when none is attached.\<close>

definition handle_model_message ::
    "(bytes \<Rightarrow> json result) \<Rightarrow> receiver_env \<Rightarrow> bytes \<Rightarrow> receiver option \<Rightarrow> unit result \<times> receiver option" where
  "handle_model_message loads env payload receiver =
     (case receiver of
        None \<Rightarrow> (Inr (), None)
      | Some self \<Rightarrow>
          (case payload of
             [] \<Rightarrow> (Inr (), Some self)
           | msg_type # data \<Rightarrow>
               if msg_type = model_type_meta then map_prod id Some (handle_meta loads data self)
               else if msg_type = model_type_chunk then map_prod id Some (handle_chunk env data self)
               else (Inr (), Some self)))"

text \<open>The messages of a topic in the order of their delivery; an exception ends in the client library.\<close>

definition deliver :: "(bytes \<Rightarrow> json result) \<Rightarrow> receiver_env \<Rightarrow> bytes list \<Rightarrow> receiver \<Rightarrow> receiver" where
  "deliver loads env payloads self =
     the (fold (\<lambda>payload r. snd (handle_model_message loads env payload r)) payloads (Some self))"

end
