(* ===== verification/Model_Transfer_Properties.thy ===== *)
theory Model_Transfer_Properties
  imports Model_Transfer
begin

text \<open>
  The properties of the delivery of models: the chunks put the file together again in any
  order and with repetitions, an incomplete set of chunks stays silent, only verified files
  reach the device, and what the distributor's answer depends on.
\<close>

subsection \<open>Chunk files and chunks\<close>

lemma chunk_name_value:
  "digits_value (rev (drop 6 (rev (chunk_name i)))) = i"
proof -
  have "digits_value (replicate k (CHR ''0'') @ s) = digits_value s" for k s
    by (induction k) (simp_all add: digits_value_def)
  then show ?thesis by (simp add: chunk_name_def digits_value_digits)
qed

lemma chunk_name_inj [simp]: "chunk_name i = chunk_name j \<longleftrightarrow> i = j"
  by (metis chunk_name_value)

text \<open>The chunks of a file are the file.\<close>

lemma concat_chunks: "concat (map (\<lambda>i. take c (drop (i * c) xs)) [0..<n]) = take (n * c) xs"
proof (induction n)
  case (Suc n)
  then show ?case using take_add [of "n * c" c xs] by (simp add: add.commute)
qed simp

lemma chunk_data_nat: "chunk_data model_chunk_size xs (int i) = take 262144 (drop (i * 262144) xs)"
proof -
  have "nat (int i * model_chunk_size) = i * 262144" "nat model_chunk_size = 262144"
    by (simp_all add: model_chunk_size_def nat_mult_distrib)
  then show ?thesis by (simp add: chunk_data_def)
qed

text \<open>The number of chunks of a file of at most \<open>2 ^ 50\<close> bytes; the float division is exact.\<close>

definition chunk_count :: "bytes \<Rightarrow> nat" where
  "chunk_count xs = (length xs + 262143) div 262144"

lemma total_chunks_exact:
  assumes "length xs \<le> 2 ^ 50"
  shows "total_chunks (int (length xs)) model_chunk_size = Inr (int (chunk_count xs))"
proof -
  let ?m = "int (length xs)"
  have m: "?m \<le> 2 ^ 50" using assms by (metis of_nat_le_iff of_nat_numeral of_nat_power)
  have eq: "(of_int ?m / of_int model_chunk_size :: rat) = of_int ?m * pow2 (- 18)"
    by (simp add: model_chunk_size_def pow2_def)
  have "fl (of_int ?m * pow2 (- 18)) = of_int ?m * pow2 (- 18)"
    using m by (intro fl_representable) simp_all
  then have "py_truediv ?m model_chunk_size = of_int ?m / of_int model_chunk_size" by (simp only: py_truediv_def eq)
  moreover have "\<lceil>of_int ?m / of_int 262144 :: rat\<rceil> = (?m + 262143) div 262144"
  proof -
    have "\<lceil>of_int ?m / of_int 262144 :: rat\<rceil> = - ((- ?m) div 262144)"
      by (metis ceiling_def floor_divide_of_int_eq minus_divide_left of_int_minus)
    then show ?thesis by linarith
  qed
  ultimately have "\<lceil>py_truediv ?m model_chunk_size\<rceil> = (?m + 262143) div 262144"
    by (simp only: model_chunk_size_def mult_numeral_left) simp
  then show ?thesis
    by (simp add: total_chunks_def chunk_count_def zdiv_int) (simp add: model_chunk_size_def)
qed

lemma chunk_count_covers: "length xs \<le> chunk_count xs * 262144"
  unfolding chunk_count_def by linarith

lemma concat_chunk_data: "concat (map (\<lambda>i. chunk_data model_chunk_size xs (int i)) [0..<chunk_count xs]) = xs"
  using chunk_count_covers [of xs] by (simp add: chunk_data_nat concat_chunks)

lemma chunk_count_bound: "length xs \<le> 2 ^ 50 \<Longrightarrow> chunk_count xs \<le> 2 ^ 32"
  unfolding chunk_count_def by (rule div_le_mono [of _ "2 ^ 50 + 262143" 262144, THEN order_trans]) simp_all

lemma chunk_count_pos: "xs \<noteq> [] \<Longrightarrow> 0 < chunk_count xs"
  by (cases xs) (simp_all add: chunk_count_def)

subsection \<open>What is published\<close>

definition chunk_message :: "bytes \<Rightarrow> nat \<Rightarrow> bytes" where
  "chunk_message xs i =
     (let data = chunk_data model_chunk_size xs (int i)
      in model_type_chunk # u32_bytes (word_of_int (int i)) @ sha256 data @ data)"

definition file_meta :: "string \<Rightarrow> bytes \<Rightarrow> json" where
  "file_meta path xs = meta_json (base_name path) (int (chunk_count xs)) (int (length xs)) (hexdigest xs) model_chunk_size"

lemma fold_acks: "ds_published (fold on_model_ack acks self) = ds_published self"
  by (induction acks arbitrary: self) (simp_all add: on_model_ack_def)

lemma published_publish [simp]:
  "ds_published (publish arrivals topic payload self) = ds_published self @ [(topic, payload)]"
  by (simp add: publish_def fold_acks)

lemma index_fits: "i < chunk_count xs \<Longrightarrow> length xs \<le> 2 ^ 50 \<Longrightarrow> int i < 2 ^ 32"
  using chunk_count_bound [of xs] by (metis (no_types) less_le_trans of_nat_less_iff of_nat_numeral of_nat_power)

lemma chunk_payload_nat:
  "int i < 2 ^ 32 \<Longrightarrow> chunk_payload model_chunk_size xs (int i) = Inr (chunk_message xs i)"
  using pack_u32_range [of "int i"] by (simp add: chunk_payload_def chunk_message_def Let_def)

lemma publish_chunks_all:
  "list_all (\<lambda>i. int i < 2 ^ 32) ks \<Longrightarrow>
   \<exists>self'. publish_chunks arrivals topic model_chunk_size xs (map int ks) self = (Inr (), self') \<and>
     ds_published self' = ds_published self @ map (\<lambda>i. (topic, chunk_message xs i)) ks"
proof (induction ks arbitrary: self)
  case (Cons i ks)
  then show ?case using chunk_payload_nat [of i xs] by (simp del: of_nat_numeral) fastforce
qed simp

lemma upto_int: "[0..int n - 1] = map int [0..<n]"
  by (rule nth_equalityI) simp_all

text \<open>The messages of the first pass.\<close>

lemma first_pass:
  assumes "length xs \<le> 2 ^ 50"
  shows "\<exists>self'. publish_chunks arrivals topic model_chunk_size xs [0..int (chunk_count xs) - 1] self = (Inr (), self') \<and>
     ds_published self' = ds_published self @ map (\<lambda>i. (topic, chunk_message xs i)) [0..<chunk_count xs]"
  unfolding upto_int by (rule publish_chunks_all) (use assms index_fits in \<open>auto simp: list_all_iff\<close>)

definition transfer_messages :: "(json \<Rightarrow> bytes) \<Rightarrow> string \<Rightarrow> string \<Rightarrow> bytes \<Rightarrow> bytes list" where
  "transfer_messages dumps device path xs =
     map snd (ds_published (snd (distribute_model dumps model_chunk_size (\<lambda>_. []) [] [] device path (Some xs) new_distributor)))"

lemma publish_quiet: "publish (\<lambda>_. []) topic payload self = self\<lparr>ds_published := ds_published self @ [(topic, payload)]\<rparr>"
  by (simp add: publish_def)

lemma publish_chunks_quiet:
  "publish_chunks (\<lambda>_. []) topic cs xs ks self = (r, self') \<Longrightarrow>
   ds_ack_event self' = ds_ack_event self \<and> ds_ack_data self' = ds_ack_data self"
  by (induction ks arbitrary: self) (auto simp: publish_quiet split: sum.splits)

lemma transfer_messages_eq:
  assumes "length xs \<le> 2 ^ 50"
  shows "transfer_messages dumps device path xs =
    (model_type_meta # dumps (file_meta path xs)) # map (chunk_message xs) [0..<chunk_count xs]"
proof -
  let ?self = "publish (\<lambda>_. []) (model_topic device) (model_type_meta # dumps (file_meta path xs)) (clear_ack new_distributor)"
  obtain self' where p: "publish_chunks (\<lambda>_. []) (model_topic device) model_chunk_size xs [0..int (chunk_count xs) - 1] ?self = (Inr (), self')"
      "ds_published self' = ds_published ?self @ map (\<lambda>i. (model_topic device, chunk_message xs i)) [0..<chunk_count xs]"
    using first_pass [OF assms] by blast
  moreover have "\<not> ds_ack_event self'"
    using publish_chunks_quiet [OF p(1)] by (simp add: publish_quiet clear_ack_def)
  ultimately show ?thesis
    by (simp add: transfer_messages_def distribute_model_def total_chunks_exact [OF assms] file_meta_def wait_ack_def
        new_distributor_def clear_ack_def comp_def)
qed

subsection \<open>Receiving\<close>

text \<open>A transfer in progress: the chunks received so far are the chunks of the file.\<close>

definition receiving :: "string \<Rightarrow> bytes \<Rightarrow> json list \<Rightarrow> bytes list \<Rightarrow> receiver \<Rightarrow> bool" where
  "receiving path xs acks ready r \<longleftrightarrow>
     rv_filename r = JStr (base_name path) \<and> rv_total_chunks r = JInt (int (chunk_count xs)) \<and>
     rv_expected_sha256 r = JStr (hexdigest xs) \<and> rv_acks r = acks \<and> rv_ready r = ready \<and>
     distinct (rv_received_chunks r) \<and> set (rv_received_chunks r) \<subset> {..<chunk_count xs} \<and>
     (\<exists>dir. rv_temp_dir r = Some dir \<and>
        (\<forall>i \<in> set (rv_received_chunks r). dict_get dir (chunk_name i) = Some (chunk_data model_chunk_size xs (int i))))"

definition received_all :: "string \<Rightarrow> bytes \<Rightarrow> json list \<Rightarrow> bytes list \<Rightarrow> receiver \<Rightarrow> bool" where
  "received_all path xs acks ready r \<longleftrightarrow> rv_temp_dir r = None \<and>
     rv_acks r = acks @ [success_ack (JStr (base_name path))] \<and> rv_ready r = ready @ [xs]"

lemma chunk_message_parts:
  "drop 1 (chunk_message xs i) = u32_bytes (word_of_int (int i)) @ sha256 (chunk_data model_chunk_size xs (int i)) @ chunk_data model_chunk_size xs (int i)"
  "hd (chunk_message xs i) = model_type_chunk" "chunk_message xs i \<noteq> []"
  by (simp_all add: chunk_message_def Let_def)

lemma handle_chunk_message:
  assumes "int i < 2 ^ 32"
  shows "handle_chunk env (tl (chunk_message xs i)) r =
    (case rv_temp_dir r of
       None \<Rightarrow> (Inr (), r)
     | Some dir \<Rightarrow>
         let dir = dict_set dir (chunk_name i) (chunk_data model_chunk_size xs (int i));
             r = r\<lparr>rv_temp_dir := Some dir, rv_received_chunks := List.insert i (rv_received_chunks r)\<rparr>
         in if equals_int (length (rv_received_chunks r)) (rv_total_chunks r)
            then assemble_and_verify env dir r else (Inr (), r))"
proof -
  have i: "unat (word_of_nat i :: 32 word) = i" using unat_int [of "int i"] assms by simp
  show ?thesis
    using chunk_message_parts(1) [of xs i]
    by (simp add: handle_chunk_def drop_Suc unpack_u32_bytes i Let_def split: option.split)
qed

lemma read_chunks_all:
  "\<forall>i \<in> set ks. dict_get dir (chunk_name i) = Some (f i) \<Longrightarrow> read_chunks dir ks = Inr (concat (map f ks))"
  by (induction ks) auto

lemma receiving_step:
  assumes r: "receiving path xs acks ready r" and i: "i < chunk_count xs" "int i < 2 ^ 32"
    and env: "re_mkstemp_ok env (JStr (base_name path))"
    and r': "r' = snd (handle_chunk env (tl (chunk_message xs i)) r)"
  shows "if insert i (set (rv_received_chunks r)) = {..<chunk_count xs} then received_all path xs acks ready r'
    else receiving path xs acks ready r' \<and> set (rv_received_chunks r') = insert i (set (rv_received_chunks r))"
proof -
  define R where "R = List.insert i (rv_received_chunks r)"
  obtain dir where dir: "rv_temp_dir r = Some dir"
      "\<forall>i \<in> set (rv_received_chunks r). dict_get dir (chunk_name i) = Some (chunk_data model_chunk_size xs (int i))"
    using r by (auto simp: receiving_def)
  define dir' where "dir' = dict_set dir (chunk_name i) (chunk_data model_chunk_size xs (int i))"
  have get: "\<forall>j \<in> set R. dict_get dir' (chunk_name j) = Some (chunk_data model_chunk_size xs (int j))"
    using dir(2) by (auto simp: R_def dir'_def dict_get_set)
  have R: "distinct R" "set R = insert i (set (rv_received_chunks r))" "set R \<subseteq> {..<chunk_count xs}"
    using r i by (auto simp: R_def receiving_def)
  define r1 where "r1 = r\<lparr>rv_temp_dir := Some dir', rv_received_chunks := R\<rparr>"
  have step: "handle_chunk env (tl (chunk_message xs i)) r =
      (if equals_int (length R) (rv_total_chunks r) then assemble_and_verify env dir' r1 else (Inr (), r1))"
    using handle_chunk_message [OF i(2), of env xs r] dir(1) by (simp add: Let_def R_def dir'_def r1_def)
  have "set R = {..<chunk_count xs} \<longleftrightarrow> length R = chunk_count xs"
    using R(1,3) by (metis card_lessThan card_subset_eq distinct_card finite_lessThan)
  then have full: "equals_int (length R) (rv_total_chunks r) \<longleftrightarrow> set R = {..<chunk_count xs}"
    using r by (simp add: receiving_def)
  show ?thesis
  proof (cases "set R = {..<chunk_count xs}")
    case True
    have "read_chunks dir' [0..<chunk_count xs] = Inr xs"
      using read_chunks_all [of "[0..<chunk_count xs]" dir' "\<lambda>i. chunk_data model_chunk_size xs (int i)"] get True
      by (simp add: concat_chunk_data atLeast0LessThan)
    then have "received_all path xs acks ready r'"
      using r env True full unfolding r' step
      by (simp add: assemble_and_verify_def r1_def receiving_def received_all_def reset_state_def send_ack_def Let_def)
    then show ?thesis using R(2) True by simp
  next
    case False
    then have "r' = r1" using full r' step by simp
    moreover have "receiving path xs acks ready r1"
      using r get R(1,3) False by (simp add: receiving_def r1_def psubset_eq)
    ultimately show ?thesis using R(2) False by (simp add: r1_def)
  qed
qed

lemma deliver_Nil [simp]: "deliver loads env [] r = r"
  by (simp add: deliver_def)

lemma deliver_Cons: "deliver loads env (p # ps) r =
    deliver loads env ps (if p = [] then r
      else if hd p = model_type_meta then snd (handle_meta loads (tl p) r)
      else if hd p = model_type_chunk then snd (handle_chunk env (tl p) r) else r)"
  by (cases p) (simp_all add: deliver_def handle_model_message_def)

lemma deliver_chunk:
  "deliver loads env (chunk_message xs i # ps) r = deliver loads env ps (snd (handle_chunk env (tl (chunk_message xs i)) r))"
  by (simp add: deliver_Cons chunk_message_parts model_type_meta_def model_type_chunk_def)

lemma deliver_idle:
  assumes "rv_temp_dir r = None" "\<forall>i \<in> set ks. int i < 2 ^ 32"
  shows "deliver loads env (map (chunk_message xs) ks) r = r"
  using assms(2) by (induction ks) (simp_all add: deliver_chunk handle_chunk_message assms(1))

lemma deliver_chunks:
  assumes "receiving path xs acks ready r" "set ks \<subseteq> {..<chunk_count xs}" "length xs \<le> 2 ^ 50"
    and "re_mkstemp_ok env (JStr (base_name path))" "r' = deliver loads env (map (chunk_message xs) ks) r"
  shows "if set (rv_received_chunks r) \<union> set ks = {..<chunk_count xs} then received_all path xs acks ready r'
    else receiving path xs acks ready r' \<and> set (rv_received_chunks r') = set (rv_received_chunks r) \<union> set ks"
  using assms(1,2,5)
proof (induction ks arbitrary: r)
  case Nil
  then show ?case by (auto simp: receiving_def)
next
  case (Cons i ks)
  let ?r = "snd (handle_chunk env (tl (chunk_message xs i)) r)"
  have i: "i < chunk_count xs" "int i < 2 ^ 32" and small: "\<forall>i \<in> set ks. int i < 2 ^ 32"
    using Cons.prems(2) index_fits [OF _ assms(3)] by auto
  note step = receiving_step [OF Cons.prems(1) i assms(4) refl]
  have r': "r' = deliver loads env (map (chunk_message xs) ks) ?r" using Cons.prems(3) by (simp add: deliver_chunk)
  show ?case
  proof (cases "insert i (set (rv_received_chunks r)) = {..<chunk_count xs}")
    case True
    then have "received_all path xs acks ready ?r" using step by simp
    moreover have "r' = ?r" using r' deliver_idle [OF _ small] calculation by (simp add: received_all_def)
    moreover have "set (rv_received_chunks r) \<union> set (i # ks) = {..<chunk_count xs}" using True Cons.prems(2) by auto
    ultimately show ?thesis by simp
  next
    case False
    then show ?thesis using step Cons.IH [OF _ _ r'] Cons.prems(2) by simp
  qed
qed

lemma receiving_meta:
  assumes "loads (dumps (file_meta path xs)) = Inr (file_meta path xs)" "xs \<noteq> []"
  shows "receiving path xs (rv_acks r) (rv_ready r) (snd (handle_meta loads (dumps (file_meta path xs)) r)) \<and>
    rv_received_chunks (snd (handle_meta loads (dumps (file_meta path xs)) r)) = []"
  using assms chunk_count_pos [OF assms(2)]
  by (auto simp: handle_meta_def take_field_def file_meta_def meta_json_def dict_get_def receiving_def)

lemma deliver_meta:
  "deliver loads env ((model_type_meta # data) # ps) r = deliver loads env ps (snd (handle_meta loads data r))"
  by (simp add: deliver_Cons)

lemma chunk_message_index: "int i < 2 ^ 32 \<Longrightarrow> unpack_u32 (take 4 (tl (chunk_message xs i))) = Inr i"
  using chunk_message_parts(1) [of xs i] unat_int [of "int i"] by (simp add: drop_Suc unpack_u32_bytes)

text \<open>Any selection of the chunk messages, in any order.\<close>

lemma selection:
  assumes "length xs \<le> 2 ^ 50" "set ps \<subseteq> set (map (chunk_message xs) [0..<chunk_count xs])"
  shows "\<exists>ks. ps = map (chunk_message xs) ks \<and> set ks \<subseteq> {..<chunk_count xs} \<and>
    (set ks = {..<chunk_count xs} \<longleftrightarrow> set ps = set (map (chunk_message xs) [0..<chunk_count xs]))"
proof -
  have "ps \<in> lists (chunk_message xs ` {..<chunk_count xs})"
    using assms(2) by (auto simp: lists_eq_set atLeast0LessThan)
  then obtain ks where ks: "ps = map (chunk_message xs) ks" "set ks \<subseteq> {..<chunk_count xs}"
    unfolding lists_image by (auto simp: lists_eq_set)
  have "inj_on (chunk_message xs) {..<chunk_count xs}"
    using chunk_message_index index_fits [OF _ assms(1)] by (intro inj_onI) (metis lessThan_iff sum.inject(2))
  then have "chunk_message xs ` set ks = chunk_message xs ` {..<chunk_count xs} \<longleftrightarrow> set ks = {..<chunk_count xs}"
    using ks(2) by (metis inj_on_image_eq_iff order_refl)
  then show ?thesis using ks by (auto simp: atLeast0LessThan)
qed

subsection \<open>Only verified files\<close>

definition announced :: "(bytes \<Rightarrow> json result) \<Rightarrow> bytes list \<Rightarrow> json set" where
  "announced loads msgs = {v. \<exists>data meta. model_type_meta # data \<in> set msgs \<and> loads data = Inr meta \<and> jindex meta ''sha256'' = Inr v}"

definition verified :: "json set \<Rightarrow> receiver \<Rightarrow> bool" where
  "verified A r \<longleftrightarrow> rv_expected_sha256 r \<in> insert JNull A \<and> (\<forall>f \<in> set (rv_ready r). JStr (hexdigest f) \<in> A)"

lemma verified_meta:
  assumes "verified A r" "\<And>meta v. loads data = Inr meta \<Longrightarrow> jindex meta ''sha256'' = Inr v \<Longrightarrow> v \<in> A"
  shows "verified A (snd (handle_meta loads data r))"
proof (cases "loads data")
  case (Inr meta)
  show ?thesis
    using assms(1) assms(2) [OF Inr]
    by (simp add: handle_meta_def take_field_def verified_def Inr split: sum.split)
qed (simp add: handle_meta_def assms(1))

lemma verified_chunk:
  assumes "verified A r"
  shows "verified A (snd (handle_chunk env data r))"
proof -
  have asm: "verified A (snd (assemble_and_verify env dir r'))" if "verified A r'" for dir r'
    using that
    by (auto simp: assemble_and_verify_def send_error_ack_def send_ack_def reset_state_def verified_def Let_def
        split: sum.splits)
  have "verified A (r\<lparr>rv_temp_dir := d, rv_received_chunks := c\<rparr>) = verified A r" for d c
    by (simp add: verified_def)
  then show ?thesis
    using assms asm by (simp add: handle_chunk_def Let_def split: sum.split option.split)
qed

lemma verified_deliver: "verified A r \<Longrightarrow> announced loads msgs \<subseteq> A \<Longrightarrow> verified A (deliver loads env msgs r)"
proof (induction msgs arbitrary: r)
  case (Cons p ps)
  have "announced loads ps \<subseteq> A" using Cons.prems(2) by (auto simp: announced_def)
  moreover have "verified A (snd (handle_meta loads (tl p) r))" if "p \<noteq> []" "hd p = model_type_meta"
  proof (rule verified_meta [OF Cons.prems(1)])
    fix meta v assume "loads (tl p) = Inr meta" "jindex meta ''sha256'' = Inr v"
    moreover have "model_type_meta # tl p \<in> set (p # ps)" using that by (cases p) simp_all
    ultimately show "v \<in> A" using Cons.prems(2) unfolding announced_def by blast
  qed
  ultimately show ?case using Cons verified_chunk by (simp add: deliver_Cons)
qed simp

subsection \<open>The answer of the distributor\<close>

definition accepted_by :: "json \<Rightarrow> bool" where
  "accepted_by body \<longleftrightarrow> jget body ''status'' JNull = Inr (JStr ''success'')"

text \<open>The acknowledgement the distributor looks at: the last one of the first pass, else the first one in time.\<close>

definition decisive_ack :: "(string \<times> json) list \<Rightarrow> (string \<times> json) list \<Rightarrow> (string \<times> json) option" where
  "decisive_ack during in_time =
     (if during \<noteq> [] then Some (last during) else case in_time of [] \<Rightarrow> None | ack # _ \<Rightarrow> Some ack)"

definition pending_ack :: "distributor \<Rightarrow> (string \<times> json) list \<Rightarrow> bool" where
  "pending_ack self acks \<longleftrightarrow> ds_ack_event self = (acks \<noteq> []) \<and> (acks \<noteq> [] \<longrightarrow> ds_ack_data self = Some (last acks))"

lemma pending_fold: "pending_ack self acks \<Longrightarrow> pending_ack (fold on_model_ack news self) (acks @ news)"
proof (induction news arbitrary: self acks)
  case (Cons a news)
  have "pending_ack (on_model_ack a self) (acks @ [a])" by (simp add: pending_ack_def on_model_ack_def)
  from Cons.IH [OF this] show ?case by simp
qed simp

lemma pending_publish:
  "pending_ack self acks \<Longrightarrow> pending_ack (publish arrivals topic payload self) (acks @ arrivals (length (ds_published self)))"
  unfolding publish_def by (rule pending_fold) (simp add: pending_ack_def)

lemma pending_chunks:
  assumes "pending_ack self acks" "list_all (\<lambda>i. int i < 2 ^ 32) ks"
    and "publish_chunks arrivals topic model_chunk_size xs (map int ks) self = (Inr (), self')"
  shows "pending_ack self' (acks @ concat (map arrivals [length (ds_published self)..<length (ds_published self) + length ks]))"
  using assms
proof (induction ks arbitrary: self acks)
  case (Cons i ks)
  let ?self = "publish arrivals topic (chunk_message xs i) self"
  have "publish_chunks arrivals topic model_chunk_size xs (map int ks) ?self = (Inr (), self')"
    using Cons.prems(2,3) chunk_payload_nat [of i xs] by simp
  moreover have "[length (ds_published self)..<length (ds_published self) + length (i # ks)] =
      length (ds_published self) # [length (ds_published ?self)..<length (ds_published ?self) + length ks]"
    by (simp add: upt_conv_Cons del: upt_Suc)
  ultimately show ?case
    using Cons.IH [OF pending_publish [OF Cons.prems(1)]] Cons.prems(2) by (simp del: upt_Suc)
qed simp

lemma wait_ack_decisive:
  assumes "pending_ack self during"
  shows "wait_ack in_time self = (case decisive_ack during in_time of
     None \<Rightarrow> (False, self) | Some a \<Rightarrow> (True, if during \<noteq> [] then self else on_model_ack a self))"
    and "decisive_ack during in_time = Some a \<Longrightarrow> ds_ack_data (snd (wait_ack in_time self)) = Some a"
  using assms by (auto simp: wait_ack_def decisive_ack_def pending_ack_def on_model_ack_def split: list.splits)

lemma publish_missing_ok:
  "fst (publish_missing arrivals topic model_chunk_size xs ms self) = Inr () \<longleftrightarrow>
   (\<forall>m \<in> set ms. \<exists>i. index_of_json m = Inr i \<and> 0 \<le> i \<and> i < 2 ^ 32)"
proof (induction ms arbitrary: self)
  case (Cons m ms)
  show ?case
  proof (cases "\<exists>i. index_of_json m = Inr i \<and> 0 \<le> i \<and> i < 2 ^ 32")
    case True
    then obtain p where "bind_result (index_of_json m) (chunk_payload model_chunk_size xs) = Inr p"
      by (auto simp: chunk_payload_def pack_u32_def Let_def)
    then have "publish_missing arrivals topic model_chunk_size xs (m # ms) self =
        publish_missing arrivals topic model_chunk_size xs ms (publish arrivals topic p self)" by simp
    then show ?thesis using Cons.IH True by (simp only: list.set ball_simps simp_thms)
  next
    case False
    then obtain e where "bind_result (index_of_json m) (chunk_payload model_chunk_size xs) = Inl e"
      by (cases "index_of_json m") (auto simp: chunk_payload_def pack_u32_def Let_def)
    then have "fst (publish_missing arrivals topic model_chunk_size xs (m # ms) self) \<noteq> Inr ()" by simp
    then show ?thesis using False by (simp only: list.set ball_simps simp_thms)
  qed
qed simp

lemma retry_succeeds:
  "fst (retry_chunks arrivals in_time topic model_chunk_size xs ms self) = Inr True \<longleftrightarrow>
   (\<forall>m \<in> set ms. \<exists>i. index_of_json m = Inr i \<and> 0 \<le> i \<and> i < 2 ^ 32) \<and>
   (\<exists>dev body rest. in_time = (dev, body) # rest \<and> accepted_by body)"
proof (cases "publish_missing arrivals topic model_chunk_size xs ms self")
  case (Pair r self')
  show ?thesis
  proof (cases r)
    case (Inl e)
    then show ?thesis using Pair publish_missing_ok [of arrivals topic xs ms self] by (simp add: retry_chunks_def)
  next
    case (Inr u)
    then show ?thesis
      using Pair publish_missing_ok [of arrivals topic xs ms self]
      by (cases in_time) (auto simp: retry_chunks_def wait_ack_def clear_ack_def on_model_ack_def accepted_by_def
          bind_result_def split: sum.splits)
  qed
qed

lemma after_ack_succeeds:
  assumes "ds_ack_data self = Some (dev, body)"
  shows "fst (after_ack arrivals retry_in_time topic model_chunk_size xs self) = Inr True \<longleftrightarrow>
    accepted_by body \<or>
    (\<exists>ms. jget body ''missing_chunks'' (JArr []) = Inr (JArr ms) \<and> ms \<noteq> [] \<and>
       (\<forall>m \<in> set ms. \<exists>i. index_of_json m = Inr i \<and> 0 \<le> i \<and> i < 2 ^ 32) \<and>
       (\<exists>dev' body' rest. retry_in_time = (dev', body') # rest \<and> accepted_by body'))"
proof (cases body)
  case (JObj kvs)
  obtain status where status: "jget body ''status'' JNull = Inr status" using JObj by simp
  obtain missing where missing: "jget body ''missing_chunks'' (JArr []) = Inr missing" using JObj by simp
  show ?thesis
  proof (cases "status = JStr ''success''")
    case True
    then show ?thesis using assms status by (simp add: after_ack_def accepted_by_def)
  next
    case False
    then show ?thesis
      using assms status missing
      by (cases missing) (auto simp: after_ack_def accepted_by_def retry_succeeds)
  qed
qed (use assms in \<open>simp_all add: after_ack_def accepted_by_def\<close>)

lemma distribute_result:
  assumes "length xs \<le> 2 ^ 50"
  shows "\<exists>self'. pending_ack self' (concat (map arrivals [length (ds_published self)..<Suc (length (ds_published self)) + chunk_count xs])) \<and>
    distribute_model dumps model_chunk_size arrivals in_time retry_in_time device path (Some xs) self =
      (case wait_ack in_time self' of
         (False, self) \<Rightarrow> (Inr False, self)
       | (True, self) \<Rightarrow> after_ack arrivals retry_in_time (model_topic device) model_chunk_size xs self)"
proof -
  let ?topic = "model_topic device"
  let ?self = "publish arrivals ?topic (model_type_meta # dumps (file_meta path xs)) (clear_ack self)"
  obtain self' where p: "publish_chunks arrivals ?topic model_chunk_size xs [0..int (chunk_count xs) - 1] ?self = (Inr (), self')"
    using first_pass [OF assms] by blast
  have clear: "pending_ack (clear_ack self) []" "ds_published (clear_ack self) = ds_published self"
    by (simp_all add: pending_ack_def clear_ack_def)
  have "pending_ack ?self (arrivals (length (ds_published self)))"
    using pending_publish [OF clear(1), of arrivals ?topic] clear(2) by simp
  then have "pending_ack self' (arrivals (length (ds_published self)) @
      concat (map arrivals [Suc (length (ds_published self))..<Suc (length (ds_published self)) + chunk_count xs]))"
    using pending_chunks [where ks = "[0..<chunk_count xs]", OF _ _ p [unfolded upto_int]] index_fits [OF _ assms] clear(2)
    by (simp add: list_all_iff del: upt_Suc)
  then have "pending_ack self' (concat (map arrivals [length (ds_published self)..<Suc (length (ds_published self)) + chunk_count xs]))"
    by (simp add: upt_conv_Cons del: upt_Suc)
  moreover have "distribute_model dumps model_chunk_size arrivals in_time retry_in_time device path (Some xs) self =
      (case wait_ack in_time self' of
         (False, self) \<Rightarrow> (Inr False, self)
       | (True, self) \<Rightarrow> after_ack arrivals retry_in_time ?topic model_chunk_size xs self)"
    using p by (simp add: distribute_model_def total_chunks_exact [OF assms] file_meta_def Let_def)
  ultimately show ?thesis by blast
qed

lemma deliver_transfer:
  assumes "xs \<noteq> []" "length xs \<le> 2 ^ 50"
    and "loads (dumps (file_meta path xs)) = Inr (file_meta path xs)" "re_mkstemp_ok env (JStr (base_name path))"
    and "transfer_messages dumps device path xs = m # chunks" "set ps = set chunks"
  shows "rv_ready (deliver loads env (m # ps) r) = rv_ready r @ [xs] \<and>
    rv_acks (deliver loads env (m # ps) r) = rv_acks r @ [success_ack (JStr (base_name path))] \<and>
    rv_temp_dir (deliver loads env (m # ps) r) = None"
proof -
  have m: "m = model_type_meta # dumps (file_meta path xs)" "chunks = map (chunk_message xs) [0..<chunk_count xs]"
    using assms(5) transfer_messages_eq [OF assms(2)] by auto
  obtain ks where ks: "ps = map (chunk_message xs) ks" "set ks = {..<chunk_count xs}"
    using selection [OF assms(2), of ps] assms(6) m(2) by blast
  show ?thesis
    using deliver_chunks [OF receiving_meta [of loads dumps path xs r, OF assms(3,1), THEN conjunct1] _ assms(2,4) refl, of ks loads]
      receiving_meta [of loads dumps path xs r, OF assms(3,1), THEN conjunct2] ks
    unfolding m(1) deliver_meta by (simp add: received_all_def)
qed

lemma distribution_answer:
  assumes "length xs \<le> 2 ^ 50"
  shows "fst (distribute_model dumps model_chunk_size arrivals in_time retry_in_time device path (Some xs) self) = Inr True \<longleftrightarrow>
    (\<exists>dev body. decisive_ack (concat (map arrivals
        [length (ds_published self)..<Suc (length (ds_published self)) + chunk_count xs])) in_time = Some (dev, body) \<and>
      (accepted_by body \<or>
       (\<exists>ms. jget body ''missing_chunks'' (JArr []) = Inr (JArr ms) \<and> ms \<noteq> [] \<and>
          (\<forall>m \<in> set ms. \<exists>i. index_of_json m = Inr i \<and> 0 \<le> i \<and> i < 2 ^ 32) \<and>
          (\<exists>dev' body' rest. retry_in_time = (dev', body') # rest \<and> accepted_by body'))))"
proof -
  let ?during = "concat (map arrivals [length (ds_published self)..<Suc (length (ds_published self)) + chunk_count xs])"
  obtain self' where p: "pending_ack self' ?during"
    and d: "distribute_model dumps model_chunk_size arrivals in_time retry_in_time device path (Some xs) self =
      (case wait_ack in_time self' of
         (False, self) \<Rightarrow> (Inr False, self)
       | (True, self) \<Rightarrow> after_ack arrivals retry_in_time (model_topic device) model_chunk_size xs self)"
    using distribute_result [OF assms] by blast
  show ?thesis
  proof (cases "decisive_ack ?during in_time")
    case None
    then show ?thesis using wait_ack_decisive(1) [OF p, of in_time] d by simp
  next
    case (Some a)
    obtain dev body where a: "a = (dev, body)" by force
    obtain self1 where "wait_ack in_time self' = (True, self1)" "ds_ack_data self1 = Some (dev, body)"
      using wait_ack_decisive [OF p, of in_time] Some a by simp
    then show ?thesis using d Some a after_ack_succeeds [of self1 dev body] by simp
  qed
qed

subsection \<open>Properties\<close>

definition example_env :: receiver_env where
  "example_env = \<lparr>re_mkstemp_ok = (\<lambda>_. True), re_missing_text = (\<lambda>name. name), re_repr = (\<lambda>_. [])\<rparr>"

text \<open>
  C11: from the file on the backend to the file on the device.  For every model file of 1 to
  \<open>2 ^ 50\<close> bytes the messages published are one announcement and the chunks; whatever the
  receiver's state, once the announcement and then every chunk has arrived, in any order
  and with any repetitions, exactly the file sent has been handed over once and exactly
  one success has been acknowledged.
\<close>

theorem model_delivered:
  assumes "xs \<noteq> []" "length xs \<le> 2 ^ 50"
    and "loads (dumps (file_meta path xs)) = Inr (file_meta path xs)" "re_mkstemp_ok env (JStr (base_name path))"
    and "transfer_messages dumps device path xs = m # chunks" "set ps = set chunks"
  shows "rv_ready (deliver loads env (m # ps) r) = rv_ready r @ [xs] \<and>
    rv_acks (deliver loads env (m # ps) r) = rv_acks r @ [success_ack (JStr (base_name path))] \<and>
    rv_temp_dir (deliver loads env (m # ps) r) = None"
  using assms by (rule deliver_transfer)

theorem model_delivered_witness:
  "rv_ready (deliver (\<lambda>_. Inr (file_meta ''m.pt'' [1, 2])) example_env
     (transfer_messages (\<lambda>_. []) ''d1'' ''m.pt'' [1, 2]) new_receiver) = [[1, 2]]"
proof -
  have "transfer_messages (\<lambda>_. []) ''d1'' ''m.pt'' [1, 2] =
      [model_type_meta] # map (chunk_message [1, 2]) [0..<chunk_count [1, 2]]"
    by (rule transfer_messages_eq) simp
  then show ?thesis
    using model_delivered [where loads = "\<lambda>_. Inr (file_meta ''m.pt'' [1, 2])" and dumps = "\<lambda>_. []" and env = example_env
        and xs = "[1, 2]" and path = "''m.pt''" and device = "''d1''" and r = new_receiver, OF _ _ _ _ _ refl]
    by (simp add: example_env_def new_receiver_def)
qed

text \<open>
  A lost chunk is never reported.  As long as some chunk has not arrived, because it was
  lost or dropped as corrupt, the receiver acknowledges nothing, whatever the order and
  the repetitions of the others, so the retry of missing chunks is never asked for.
\<close>

theorem incomplete_transfer_is_silent:
  assumes "xs \<noteq> []" "length xs \<le> 2 ^ 50"
    and "loads (dumps (file_meta path xs)) = Inr (file_meta path xs)" "re_mkstemp_ok env (JStr (base_name path))"
    and "transfer_messages dumps device path xs = m # chunks" "set ps \<subset> set chunks"
  shows "rv_acks (deliver loads env (m # ps) r) = rv_acks r \<and> rv_ready (deliver loads env (m # ps) r) = rv_ready r"
proof -
  have m: "m = model_type_meta # dumps (file_meta path xs)" "chunks = map (chunk_message xs) [0..<chunk_count xs]"
    using assms(5) transfer_messages_eq [OF assms(2)] by auto
  obtain ks where ks: "ps = map (chunk_message xs) ks" "set ks \<subseteq> {..<chunk_count xs}" "set ks \<noteq> {..<chunk_count xs}"
    using selection [OF assms(2), of ps] assms(6) m(2) by blast
  show ?thesis
    using deliver_chunks [OF receiving_meta [of loads dumps path xs r, OF assms(3,1), THEN conjunct1] ks(2) assms(2,4) refl, of loads]
      receiving_meta [of loads dumps path xs r, OF assms(3,1), THEN conjunct2] ks
    unfolding m(1) deliver_meta by (simp add: receiving_def)
qed

theorem incomplete_transfer_is_silent_witness:
  "rv_acks (deliver (\<lambda>_. Inr (file_meta ''m.pt'' [1, 2])) example_env [[model_type_meta]] new_receiver) = []"
proof -
  have t: "transfer_messages (\<lambda>_. []) ''d1'' ''m.pt'' [1, 2] =
      [model_type_meta] # map (chunk_message [1, 2]) [0..<chunk_count [1, 2]]"
    by (rule transfer_messages_eq) simp
  have "set [] \<subset> set (map (chunk_message [1, 2]) [0..<chunk_count [1, 2]])"
    by (auto simp: chunk_count_def)
  then show ?thesis
    using incomplete_transfer_is_silent [where loads = "\<lambda>_. Inr (file_meta ''m.pt'' [1, 2])" and env = example_env
        and r = new_receiver, OF _ _ _ _ t, of "[]"]
    by (simp add: example_env_def new_receiver_def)
qed

text \<open>
  C17: the receiver hands over only verified files: whatever messages arrive, every file
  given to the model manager has the SHA-256 digest that some announcement among them
  carried.
\<close>

theorem only_verified_models:
  assumes "f \<in> set (rv_ready (deliver loads env msgs new_receiver))"
  shows "\<exists>data meta. model_type_meta # data \<in> set msgs \<and> loads data = Inr meta \<and>
    jindex meta ''sha256'' = Inr (JStr (hexdigest f))"
proof -
  have "verified (announced loads msgs) (deliver loads env msgs new_receiver)"
    by (rule verified_deliver) (simp_all add: verified_def new_receiver_def)
  then show ?thesis using assms by (auto simp: verified_def announced_def)
qed

theorem only_verified_models_witness:
  "\<exists>data meta. model_type_meta # data \<in> set (transfer_messages (\<lambda>_. []) ''d1'' ''m.pt'' [1, 2]) \<and>
     jindex meta ''sha256'' = Inr (JStr (hexdigest [1, 2]))"
proof -
  let ?loads = "\<lambda>_. Inr (file_meta ''m.pt'' [1, 2])"
  have t: "transfer_messages (\<lambda>_. []) ''d1'' ''m.pt'' [1, 2] =
      [model_type_meta] # map (chunk_message [1, 2]) [0..<chunk_count [1, 2]]"
    by (rule transfer_messages_eq) simp
  have env: "re_mkstemp_ok example_env (JStr (base_name ''m.pt''))" by (simp add: example_env_def)
  have "receiving ''m.pt'' [1, 2] [] [] (snd (handle_meta ?loads [] new_receiver)) \<and>
      rv_received_chunks (snd (handle_meta ?loads [] new_receiver)) = []"
    using receiving_meta [of ?loads "\<lambda>_. []" "''m.pt''" "[1, 2]" new_receiver] by (simp add: new_receiver_def)
  then have "received_all ''m.pt'' [1, 2] [] [] (deliver ?loads example_env (map (chunk_message [1, 2]) [0..<chunk_count [1, 2]])
      (snd (handle_meta ?loads [] new_receiver)))"
    using deliver_chunks [OF _ _ _ env refl, of "[1, 2]" "[]" "[]" "snd (handle_meta ?loads [] new_receiver)"
        "[0..<chunk_count [1, 2]]" ?loads]
    by (simp add: atLeast0LessThan)
  then have "[1, 2] \<in> set (rv_ready (deliver ?loads example_env (transfer_messages (\<lambda>_. []) ''d1'' ''m.pt'' [1, 2]) new_receiver))"
    unfolding t deliver_meta by (simp add: received_all_def)
  from only_verified_models [OF this] show ?thesis by blast
qed

text \<open>
  C21: when the distributor reports success.  It looks at the last acknowledgement that
  arrived while it was publishing, else at the first one in time; it succeeds when that one says success, or
  when it lists missing chunks and the first acknowledgement after the retry says success.
  Acknowledgements that arrive while the missing chunks are published again have no
  influence, and neither has the device that an acknowledgement comes from.
\<close>

theorem distribution_succeeds_iff:
  assumes "length xs \<le> 2 ^ 50"
  shows "fst (distribute_model dumps model_chunk_size arrivals in_time retry_in_time device path (Some xs) self) = Inr True \<longleftrightarrow>
    (\<exists>dev body. decisive_ack (concat (map arrivals
        [length (ds_published self)..<Suc (length (ds_published self)) + chunk_count xs])) in_time = Some (dev, body) \<and>
      (accepted_by body \<or>
       (\<exists>ms. jget body ''missing_chunks'' (JArr []) = Inr (JArr ms) \<and> ms \<noteq> [] \<and>
          (\<forall>m \<in> set ms. \<exists>i. index_of_json m = Inr i \<and> 0 \<le> i \<and> i < 2 ^ 32) \<and>
          (\<exists>dev' body' rest. retry_in_time = (dev', body') # rest \<and> accepted_by body'))))"
  using assms by (rule distribution_answer)

theorem distribution_succeeds_iff_witness:
  "fst (distribute_model (\<lambda>_. []) model_chunk_size (\<lambda>_. []) [(''other'', success_ack JNull)] [] ''d1'' ''m.pt'' (Some [1, 2])
     new_distributor) = Inr True"
  by (subst distribution_succeeds_iff)
    (simp_all add: new_distributor_def decisive_ack_def accepted_by_def success_ack_def dict_get_def del: upt_Suc)

text \<open>
  An empty model file is announced with no chunks, and the receiver never acknowledges
  it nor hands it over, so without another acknowledgement the distribution fails.
\<close>

theorem empty_model_never_delivered:
  "rv_acks (deliver loads env (transfer_messages dumps device path []) r) = rv_acks r \<and>
   rv_ready (deliver loads env (transfer_messages dumps device path []) r) = rv_ready r"
proof -
  have "transfer_messages dumps device path [] = [model_type_meta # dumps (file_meta path [])]"
    by (subst transfer_messages_eq) (simp_all add: chunk_count_def)
  then show ?thesis
    by (simp add: deliver_meta handle_meta_def take_field_def split: sum.split)
qed

end
