(* ===== verification/Broker.thy ===== *)
theory Broker
  imports Db_Writer_Properties Bytes Py_Text
begin

text \<open>
  The backend's message handler, \<open>MQTTBroker/broker_handler.py\<close>: the dispatch of device
  messages by topic, the handlers of crowd counts, images, logs, device status and model
  acknowledgements, and the sending of admin commands.  JSON text, the text of a number
  and what the database driver makes of a JSON value are the environment; clock readings
  are inputs.  The lock, TLS and the network loop of the client are left out.
\<close>

subsection \<open>Environment\<close>

text \<open>
  \<open>be_loads\<close> is \<open>json.loads(....decode())\<close>, \<open>be_dumps\<close> is \<open>json.dumps(...).encode()\<close>, \<open>be_str\<close> is
  \<open>str\<close>.  \<open>be_int\<close>, \<open>be_text\<close> and \<open>be_bool\<close> give the value that a column of type \<open>INTEGER\<close> or \<open>BIGINT\<close>,
  \<open>TEXT\<close> or \<open>BOOLEAN\<close> receives for a JSON value, or the error of the driver or the server.
\<close>

record broker_env =
  be_loads :: "bytes \<Rightarrow> json result"
  be_dumps :: "json \<Rightarrow> bytes"
  be_str :: "json \<Rightarrow> string"
  be_int :: "json \<Rightarrow> int option result"
  be_text :: "json \<Rightarrow> string option result"
  be_bool :: "json \<Rightarrow> bool option result"

text \<open>\<open>time.time()\<close> and the time of the database clock.\<close>

record instant =
  in_seconds :: pyfloat
  in_stamp :: timestamp

definition path_join :: "string \<Rightarrow> string \<Rightarrow> string" where
  "path_join a b = (if take 1 b = ''/'' then b else if a = [] \<or> last a = CHR ''/'' then a @ b else a @ ''/'' @ b)"

subsection \<open>State\<close>

record device_status =
  dv_online :: json
  dv_last_seen :: pyfloat

text \<open>
  \<open>bk_files\<close> are the files written, by path; \<open>bk_published\<close> and \<open>bk_subscriptions\<close> record what the
  client was given (topic, payload, QoS; pattern, QoS, no-local), \<open>bk_acks\<close> the calls of the
  registered callback.
\<close>

record broker =
  bk_writer :: "writer option"
  bk_session :: "database session"
  bk_devices :: "(string, device_status) dict"
  bk_callback :: bool
  bk_acks :: "(string \<times> json) list"
  bk_files :: "(string, bytes) dict"
  bk_published :: "(string \<times> bytes \<times> int) list"
  bk_subscriptions :: "(string \<times> int \<times> bool) list"

text \<open>\<open>opens\<close>: whether the pool can be opened; without it database writes are disabled.\<close>

definition new_broker :: "bool \<Rightarrow> outages \<Rightarrow> database session \<Rightarrow> broker" where
  "new_broker opens up s =
     (let (w, s') = if opens then map_prod Some id (new_writer True up s) else (None, s)
      in \<lparr>bk_writer = w, bk_session = s', bk_devices = [], bk_callback = False, bk_acks = [], bk_files = [],
          bk_published = [], bk_subscriptions = []\<rparr>)"

definition topic_patterns :: "(string \<times> string) list" where
  "topic_patterns =
     [(''crowdCount'', ''edge/+/crowdCount''), (''image'', ''edge/+/image''), (''log'', ''edge/+/log''),
      (''status'', ''edge/+/status''), (''model'', ''edge/+/model'')]"

definition topic_qos :: "string \<Rightarrow> int option" where
  "topic_qos = map_of [(''crowdCount'', 1), (''image'', 2), (''log'', 1), (''admin'', 2), (''model'', 2), (''status'', 1)]"

definition on_connect :: "bool \<Rightarrow> broker \<Rightarrow> broker" where
  "on_connect is_failure self =
     (if is_failure then self
      else self\<lparr>bk_subscriptions := bk_subscriptions self @
        map (\<lambda>(name, pattern). (pattern, case topic_qos name of Some q \<Rightarrow> q | None \<Rightarrow> 1, name = ''model'')) topic_patterns\<rparr>)"

text \<open>Closing the pool at shutdown.\<close>

definition disconnect :: "broker \<Rightarrow> broker" where
  "disconnect self = self\<lparr>bk_writer := map_option (dw_opened_update (\<lambda>_. False)) (bk_writer self)\<rparr>"

subsection \<open>Calls of the writer with JSON values\<close>

text \<open>A statement that the driver or the server rejects for its values.\<close>

definition rejected :: "writer \<Rightarrow> outages \<Rightarrow> database session \<Rightarrow> database session" where
  "rejected w up s = transaction [execute up (\<lambda>_. Inl DatabaseError)] (dw_opened w) up s"

text \<open>What \<open>datetime.fromtimestamp\<close> accepts.\<close>

fun json_time :: "json \<Rightarrow> pyfloat result" where
  "json_time (JInt n) = Inr (of_int n)"
| "json_time (JFloat x) = Inr x"
| "json_time (JBool b) = Inr (of_bool b)"
| "json_time _ = Inl TypeError"

definition crowd_count_call ::
    "broker_env \<Rightarrow> outages \<Rightarrow> string \<Rightarrow> json \<Rightarrow> json \<Rightarrow> json \<Rightarrow> writer \<times> database session \<Rightarrow> writer \<times> database session" where
  "crowd_count_call env up device_id tstamp cnt zone ws =
     (case ws of (w, s) \<Rightarrow>
       (case (json_time tstamp, be_int env cnt, be_text env zone) of
          (Inr t, Inr (Some n), Inr z) \<Rightarrow> snd (write_crowd_count up w device_id t n z s)
        | (t, _, _) \<Rightarrow>
            (case resolve_stop_id up w device_id s of
               (None, w', s') \<Rightarrow> (w', s')
             | (Some _, w', s') \<Rightarrow>
                 (w', case bind_result t fromtimestamp of Inl _ \<Rightarrow> s' | Inr _ \<Rightarrow> rejected w' up s'))))"

definition log_call ::
    "broker_env \<Rightarrow> outages \<Rightarrow> string \<Rightarrow> json \<Rightarrow> string \<Rightarrow> json \<Rightarrow> json \<Rightarrow> writer \<times> database session \<Rightarrow> writer \<times> database session" where
  "log_call env up device_id tstamp level message extra ws =
     (case ws of (w, s) \<Rightarrow>
       (w, case json_time tstamp of
             Inl e \<Rightarrow> s
           | Inr t \<Rightarrow>
               (case be_text env message of
                  Inr (Some m) \<Rightarrow> snd (write_log up w device_id t level m extra s)
                | _ \<Rightarrow> (case fromtimestamp t of Inl e \<Rightarrow> s | Inr _ \<Rightarrow> rejected w up s))))"

definition upsert_stop_call ::
    "broker_env \<Rightarrow> outages \<Rightarrow> timestamp \<Rightarrow> string \<Rightarrow> json \<Rightarrow> json \<Rightarrow> writer \<times> database session \<Rightarrow> writer \<times> database session" where
  "upsert_stop_call env up now device_id online zone ws =
     (case ws of (w, s) \<Rightarrow>
       (w, case (be_bool env online, be_text env zone) of
             (Inr (Some b), Inr z) \<Rightarrow> upsert_stop now device_id b z (dw_opened w) up s
           | _ \<Rightarrow> rejected w up s))"

definition register_call ::
    "broker_env \<Rightarrow> outages \<Rightarrow> json \<Rightarrow> json \<Rightarrow> json \<Rightarrow> json \<Rightarrow> writer \<times> database session \<Rightarrow> writer \<times> database session" where
  "register_call env up filename sha file_size path ws =
     (case ws of (w, s) \<Rightarrow>
       (w, case (be_text env filename, be_text env sha, be_int env file_size, be_text env path) of
             (Inr (Some f), Inr (Some h), Inr n, Inr (Some p)) \<Rightarrow> register_model_version f h n p (dw_opened w) up s
           | _ \<Rightarrow> rejected w up s))"

text \<open>A call made when the writer exists.\<close>

definition with_writer :: "(writer \<times> database session \<Rightarrow> writer \<times> database session) \<Rightarrow> broker \<Rightarrow> broker" where
  "with_writer f self =
     (case bk_writer self of
        None \<Rightarrow> self
      | Some w \<Rightarrow> (case f (w, bk_session self) of (w', s') \<Rightarrow> self\<lparr>bk_writer := Some w', bk_session := s'\<rparr>))"

subsection \<open>Topic handlers\<close>

definition handle_crowd_count :: "broker_env \<Rightarrow> outages \<Rightarrow> instant \<Rightarrow> string \<Rightarrow> bytes \<Rightarrow> broker \<Rightarrow> broker" where
  "handle_crowd_count env up now device_id payload self =
     (case be_loads env payload of
        Inl e \<Rightarrow> self
      | Inr data \<Rightarrow>
          (case (jget data ''timestamp'' (JFloat (in_seconds now)), jindex data ''count'', jget data ''zone'' JNull) of
             (Inr t, Inr n, Inr z) \<Rightarrow> with_writer (crowd_count_call env up device_id t n z) self
           | _ \<Rightarrow> self))"

text \<open>
  \<open>images_dir\<close> is \<open>RECEIVED_IMAGES_DIR\<close>.  An image header that is no object raises, as the header
  is read outside of the handler's \<open>try\<close>.
\<close>

definition image_path :: "broker_env \<Rightarrow> string \<Rightarrow> instant \<Rightarrow> string \<Rightarrow> json \<Rightarrow> json \<Rightarrow> string" where
  "image_path env images_dir now device_id filename tstamp =
     path_join (path_join images_dir device_id)
       (map (\<lambda>c. if c = CHR ''.'' then CHR ''_'' else c) (be_str env tstamp) @ ''_'' @ be_str env filename)"

definition handle_image :: "broker_env \<Rightarrow> string \<Rightarrow> instant \<Rightarrow> string \<Rightarrow> bytes \<Rightarrow> broker \<Rightarrow> unit result \<times> broker" where
  "handle_image env images_dir now device_id payload self =
     (if length payload < 4 then (Inr (), self)
      else case unpack_u32 (take 4 payload) of
        Inl e \<Rightarrow> (Inl e, self)
      | Inr header_len \<Rightarrow>
          if length payload < 4 + header_len then (Inr (), self)
          else case be_loads env (take header_len (drop 4 payload)) of
            Inl e \<Rightarrow> (Inr (), self)
          | Inr header \<Rightarrow>
              (case (jget header ''filename'' (JStr (device_id @ ''_'' @ be_str env (JFloat (in_seconds now)) @ ''.bin'')),
                     jget header ''timestamp'' (JFloat (in_seconds now))) of
                 (Inr filename, Inr tstamp) \<Rightarrow>
                   (Inr (), self\<lparr>bk_files := dict_set (bk_files self) (image_path env images_dir now device_id filename tstamp)
                      (drop (4 + header_len) payload)\<rparr>)
               | _ \<Rightarrow> (Inl AttributeError, self)))"

definition handle_log :: "broker_env \<Rightarrow> outages \<Rightarrow> instant \<Rightarrow> string \<Rightarrow> bytes \<Rightarrow> broker \<Rightarrow> broker" where
  "handle_log env up now device_id payload self =
     (case be_loads env payload of
        Inl e \<Rightarrow> self
      | Inr entry \<Rightarrow>
          (case (jget entry ''level'' (JStr ''info''), jget entry ''message'' (JStr []),
                 jget entry ''timestamp'' (JFloat (in_seconds now)), jget entry ''extra'' JNull) of
             (Inr (JStr level), Inr message, Inr t, Inr extra) \<Rightarrow>
               with_writer (log_call env up device_id t (py_upper level) message extra) self
           | _ \<Rightarrow> self))"

definition handle_status :: "broker_env \<Rightarrow> outages \<Rightarrow> instant \<Rightarrow> string \<Rightarrow> bytes \<Rightarrow> broker \<Rightarrow> broker" where
  "handle_status env up now device_id payload self =
     (case be_loads env payload of
        Inl e \<Rightarrow> self
      | Inr status \<Rightarrow>
          (case (jget status ''online'' (JBool False), jget status ''zone'' JNull) of
             (Inr online, Inr zone) \<Rightarrow>
               with_writer (upsert_stop_call env up (in_stamp now) device_id online zone)
                 (self\<lparr>bk_devices := dict_set (bk_devices self) device_id \<lparr>dv_online = online, dv_last_seen = in_seconds now\<rparr>\<rparr>)
           | _ \<Rightarrow> self))"

definition handle_model :: "broker_env \<Rightarrow> outages \<Rightarrow> string \<Rightarrow> bytes \<Rightarrow> broker \<Rightarrow> broker" where
  "handle_model env up device_id payload self =
     (case payload of
        [] \<Rightarrow> self
      | msg_type # data \<Rightarrow>
          if msg_type \<noteq> 0x03 then self
          else case be_loads env data of
            Inl e \<Rightarrow> self
          | Inr ack \<Rightarrow>
              (case (bk_writer self, ack) of
                 (Some w, JObj kvs) \<Rightarrow>
                   let get = (\<lambda>key dflt. case dict_get kvs key of None \<Rightarrow> dflt | Some v \<Rightarrow> v);
                       self = (if get ''status'' JNull = JStr ''ok''
                               then with_writer (register_call env up (get ''filename'' (JStr ''unknown''))
                                 (get ''sha256'' (JStr [])) (get ''file_size'' JNull) (get ''file_path'' (JStr []))) self
                               else self)
                   in if bk_callback self then self\<lparr>bk_acks := bk_acks self @ [(device_id, ack)]\<rparr> else self
               | (Some w, _) \<Rightarrow> self
               | (None, _) \<Rightarrow> if bk_callback self then self\<lparr>bk_acks := bk_acks self @ [(device_id, ack)]\<rparr> else self))"

definition on_message ::
    "broker_env \<Rightarrow> string \<Rightarrow> outages \<Rightarrow> instant \<Rightarrow> string \<Rightarrow> bytes \<Rightarrow> broker \<Rightarrow> unit result \<times> broker" where
  "on_message env images_dir up now topic payload self =
     (case split_on (CHR ''/'') topic of
        area # device_id # kind # rest \<Rightarrow>
          if area \<noteq> ''edge'' then (Inr (), self)
          else if kind = ''crowdCount'' then (Inr (), handle_crowd_count env up now device_id payload self)
          else if kind = ''image'' then handle_image env images_dir now device_id payload self
          else if kind = ''log'' then (Inr (), handle_log env up now device_id payload self)
          else if kind = ''status'' then (Inr (), handle_status env up now device_id payload self)
          else if kind = ''model'' then (Inr (), handle_model env up device_id payload self)
          else (Inr (), self)
      | _ \<Rightarrow> (Inr (), self))"

subsection \<open>Public methods\<close>

definition set_model_ack_callback :: "broker \<Rightarrow> broker" where
  "set_model_ack_callback self = self\<lparr>bk_callback := True\<rparr>"

definition log_admin_call ::
    "broker_env \<Rightarrow> outages \<Rightarrow> string \<Rightarrow> json \<Rightarrow> json \<Rightarrow> json \<Rightarrow> writer \<times> database session \<Rightarrow> writer \<times> database session" where
  "log_admin_call env up device_id action command initiated_by ws =
     (case ws of (w, s) \<Rightarrow>
       (w, case (be_text env action, be_text env initiated_by) of
             (Inr (Some a), Inr (Some b)) \<Rightarrow> log_admin_action (Some device_id) a command b (dw_opened w) up s
           | _ \<Rightarrow> rejected w up s))"

definition pipeline_call ::
    "outages \<Rightarrow> string \<Rightarrow> json \<Rightarrow> writer \<times> database session \<Rightarrow> writer \<times> database session" where
  "pipeline_call up device_id action ws =
     (case ws of (w, s) \<Rightarrow>
       (w, if action \<in> {JStr ''start_pipeline'', JStr ''stop_pipeline''}
           then update_pipeline_active device_id (action = JStr ''start_pipeline'') (dw_opened w) up s else s))"

text \<open>
  A command that is no object is published all the same; the exception of its \<open>get\<close> is
  caught and nothing is written.  The client is taken to accept the topic, which it refuses
  for a \<open>device_id\<close> with a wildcard in it.
\<close>

definition send_admin :: "broker_env \<Rightarrow> outages \<Rightarrow> string \<Rightarrow> json \<Rightarrow> broker \<Rightarrow> broker" where
  "send_admin env up device_id command self =
     (let self = self\<lparr>bk_published := bk_published self @ [(''edge/'' @ device_id @ ''/admin'', be_dumps env command, 2)]\<rparr>
      in case (jget command ''action'' (JStr ''unknown''), jget command ''initiated_by'' (JStr ''system'')) of
           (Inr action, Inr initiated_by) \<Rightarrow>
             with_writer (pipeline_call up device_id action)
               (with_writer (log_admin_call env up device_id action command initiated_by) self)
         | _ \<Rightarrow> self)"

definition get_devices :: "broker \<Rightarrow> (string, device_status) dict" where
  "get_devices self = bk_devices self"

end
