(* ===== verification/Broker_Properties.thy ===== *)
theory Broker_Properties
  imports Broker Model_Transfer
begin

text \<open>
  The properties of the message handler: the tables stay consistent whatever devices send
  and whatever fails, the known status of a device is its last one, and the
  acknowledgements that the model receiver sends register no model version.
\<close>

subsection \<open>Sequences of messages and commands\<close>

datatype broker_event =
    Message instant string bytes
  | Admin string json

fun broker_step :: "broker_env \<Rightarrow> string \<Rightarrow> outages \<Rightarrow> broker_event \<Rightarrow> broker \<Rightarrow> broker" where
  "broker_step env dir up (Message now topic payload) self = snd (on_message env dir up now topic payload self)"
| "broker_step env dir up (Admin device_id command) self = send_admin env up device_id command self"

definition broker_run :: "broker_env \<Rightarrow> string \<Rightarrow> outages \<Rightarrow> broker_event list \<Rightarrow> broker \<Rightarrow> broker" where
  "broker_run env dir up evs self = fold (broker_step env dir up) evs self"

lemma rejected_keeps:
  assumes "idle s"
  shows "idle (rejected w up s) \<and> se_committed (rejected w up s) = se_committed s \<and> se_delivered (rejected w up s) = se_delivered s"
  using transaction_outcome [OF implements_one assms, of up "\<lambda>_. Inl DatabaseError" "dw_opened w"] transaction_idle [OF assms]
  by (auto simp: rejected_def)

context table_invariant
begin

definition safe :: "writer \<times> database session \<Rightarrow> bool" where
  "safe ws \<longleftrightarrow> idle (snd ws) \<and> I (se_committed (snd ws))"

lemma safe_op: "safe (w, s) \<Longrightarrow> safe (apply_op up op (w, s))"
  using apply_op_keeps by (simp add: safe_def)

lemma safe_rejected: "safe (w, s) \<Longrightarrow> safe (w, rejected w' up s)"
  using rejected_keeps by (simp add: safe_def)

lemma safe_resolve: "safe (w, s) \<Longrightarrow> resolve_stop_id up w dev s = (st, w', s') \<Longrightarrow> safe (w', s')"
  using resolve_keeps [of s up w dev st w' s'] by (simp add: safe_def)

lemma safe_crowd: "safe ws \<Longrightarrow> safe (crowd_count_call env up dev t n z ws)"
proof -
  assume s: "safe ws"
  obtain w s where ws: "ws = (w, s)" by force
  obtain st w' s' where res: "resolve_stop_id up w dev s = (st, w', s')" by (metis prod_cases3)
  note safe_resolve [OF s [unfolded ws] res]
  then show ?thesis
    using safe_op [OF s [unfolded ws], where op = "Op_crowd_count dev _ _ _"] safe_rejected res ws
    by (auto simp: crowd_count_call_def split: sum.splits option.splits)
qed

lemma safe_log: "safe ws \<Longrightarrow> safe (log_call env up dev t l m x ws)"
  using safe_op [where op = "Op_log dev _ l _ x"] safe_rejected
  by (cases ws) (auto simp: log_call_def split: sum.splits option.splits)

lemma safe_stop: "safe ws \<Longrightarrow> safe (upsert_stop_call env up now dev b z ws)"
  using safe_op [where op = "Op_stop now dev _ _"] safe_rejected
  by (cases ws) (auto simp: upsert_stop_call_def split: sum.splits option.splits)

lemma safe_register: "safe ws \<Longrightarrow> safe (register_call env up f h n p ws)"
  using safe_op [where op = "Op_model _ _ _ _"] safe_rejected
  by (cases ws) (auto simp: register_call_def split: sum.splits option.splits)

definition broker_safe :: "broker \<Rightarrow> bool" where
  "broker_safe self \<longleftrightarrow> idle (bk_session self) \<and> I (se_committed (bk_session self))"

lemma broker_safe_with: "broker_safe self \<Longrightarrow> (\<And>ws. safe ws \<Longrightarrow> safe (f ws)) \<Longrightarrow> broker_safe (with_writer f self)"
  by (auto simp: with_writer_def broker_safe_def safe_def split: option.split prod.split) (metis snd_conv)+

lemma broker_safe_files [simp]:
  "broker_safe (self\<lparr>bk_files := x\<rparr>) = broker_safe self" "broker_safe (self\<lparr>bk_acks := y\<rparr>) = broker_safe self"
  "broker_safe (self\<lparr>bk_devices := z\<rparr>) = broker_safe self" "broker_safe (self\<lparr>bk_published := u\<rparr>) = broker_safe self"
  by (simp_all add: broker_safe_def)

lemma safe_log_admin: "safe ws \<Longrightarrow> safe (log_admin_call env up dev action command by ws)"
  using safe_op [where op = "Op_admin (Some dev) _ command _"] safe_rejected
  by (cases ws) (auto simp: log_admin_call_def split: sum.splits option.splits)

lemma safe_pipeline: "safe ws \<Longrightarrow> safe (pipeline_call up dev action ws)"
  using safe_op [where op = "Op_pipeline dev _"] by (cases ws) (auto simp: pipeline_call_def)

lemma broker_safe_admin: "broker_safe self \<Longrightarrow> broker_safe (send_admin env up dev command self)"
  using broker_safe_with [OF broker_safe_with [OF _ safe_log_admin] safe_pipeline]
  by (simp add: send_admin_def Let_def split: sum.split)

lemma broker_safe_message: "broker_safe self \<Longrightarrow> broker_safe (snd (on_message env dir up now topic payload self))"
proof -
  assume s: "broker_safe self"
  have crowd: "broker_safe (handle_crowd_count env up now dev payload self)" for dev
    using s broker_safe_with [OF s safe_crowd] by (simp add: handle_crowd_count_def split: sum.split)
  have log: "broker_safe (handle_log env up now dev payload self)" for dev
    using s broker_safe_with [OF s safe_log] by (simp add: handle_log_def split: sum.split json.split)
  have status: "broker_safe (handle_status env up now dev payload self)" for dev
    using s broker_safe_with [OF _ safe_stop] by (simp add: handle_status_def split: sum.split)
  have image: "broker_safe (snd (handle_image env dir now dev payload self))" for dev
    using s by (auto simp: handle_image_def split: sum.splits)
  have model: "broker_safe (handle_model env up dev payload self)" for dev
    using s broker_safe_with [OF s safe_register]
    by (simp add: handle_model_def Let_def split: list.split sum.split option.split json.split)
  show ?thesis
    using s crowd log status image model by (simp add: on_message_def split: list.split)
qed

lemma broker_safe_run: "broker_safe self \<Longrightarrow> broker_safe (broker_run env dir up evs self)"
proof (induction evs arbitrary: self)
  case (Cons ev evs)
  have "broker_safe (broker_step env dir up ev self)"
    using Cons.prems broker_safe_message broker_safe_admin by (cases ev) simp_all
  from Cons.IH [OF this] show ?case by (simp add: broker_run_def)
qed (simp add: broker_run_def)

lemma broker_safe_new:
  assumes "idle s" "I (se_committed s)"
  shows "broker_safe (new_broker opens up s)"
proof -
  obtain w s' where new: "new_writer True up s = (w, s')" by force
  then have "idle s' \<and> se_committed s' = se_committed s"
    using load_cache_keeps [OF assms(1)] unfolding new_writer_def by blast
  then show ?thesis using assms new by (simp add: new_broker_def broker_safe_def)
qed

end

subsection \<open>Topics\<close>

lemma device_topic:
  assumes "CHR ''/'' \<notin> set dev" "CHR ''/'' \<notin> set kind"
  shows "split_on (CHR ''/'') (''edge/'' @ dev @ ''/'' @ kind) = [''edge'', dev, kind]"
proof -
  have "''edge/'' @ dev @ ''/'' @ kind = ''edge'' @ CHR ''/'' # dev @ CHR ''/'' # kind" by simp
  then show ?thesis
    using split_on_append [of "CHR ''/''" "''edge''" "dev @ CHR ''/'' # kind"]
      split_on_append [OF assms(1), of kind] split_on_none [OF assms(2)] by simp
qed

subsection \<open>The known devices\<close>

text \<open>The entry that an event makes in the table of devices.\<close>

definition status_entry :: "broker_env \<Rightarrow> broker_event \<Rightarrow> (string \<times> device_status) option" where
  "status_entry env ev =
     (case ev of
        Admin device_id command \<Rightarrow> None
      | Message now topic payload \<Rightarrow>
          (case split_on (CHR ''/'') topic of
             area # dev # kind # rest \<Rightarrow>
               (if area = ''edge'' \<and> kind = ''status'' then
                  case be_loads env payload of
                    Inr (JObj kvs) \<Rightarrow> Some (dev, \<lparr>dv_online = (case dict_get kvs ''online'' of None \<Rightarrow> JBool False | Some v \<Rightarrow> v),
                      dv_last_seen = in_seconds now\<rparr>)
                  | _ \<Rightarrow> None
                else None)
           | _ \<Rightarrow> None))"

lemma devices_with [simp]: "bk_devices (with_writer f self) = bk_devices self"
  by (simp add: with_writer_def split: option.split prod.split)

lemma devices_step:
  "bk_devices (broker_step env dir up ev self) =
   (case status_entry env ev of None \<Rightarrow> bk_devices self | Some (dev, st) \<Rightarrow> dict_set (bk_devices self) dev st)"
proof (cases ev)
  case (Admin dev command)
  then show ?thesis by (simp add: status_entry_def send_admin_def Let_def split: sum.split)
next
  case (Message now topic payload)
  have other: "bk_devices (handle_crowd_count env up now dev payload self) = bk_devices self"
      "bk_devices (handle_log env up now dev payload self) = bk_devices self"
      "bk_devices (snd (handle_image env dir now dev payload self)) = bk_devices self"
      "bk_devices (handle_model env up dev payload self) = bk_devices self" for dev
    by (simp_all add: handle_crowd_count_def handle_log_def handle_image_def handle_model_def Let_def
        split: sum.split json.split list.split option.split)
  have status: "bk_devices (handle_status env up now dev payload self) =
      (case be_loads env payload of
         Inr (JObj kvs) \<Rightarrow> dict_set (bk_devices self) dev
           \<lparr>dv_online = (case dict_get kvs ''online'' of None \<Rightarrow> JBool False | Some v \<Rightarrow> v), dv_last_seen = in_seconds now\<rparr>
       | _ \<Rightarrow> bk_devices self)" for dev
    by (simp add: handle_status_def split: sum.split json.split)
  show ?thesis
    using Message other status
    by (simp add: on_message_def status_entry_def split: list.split sum.split json.split)
qed

lemma ack_message:
  assumes "ack = success_ack name \<or> ack = error_ack name missing message" "be_loads env data = Inr ack"
    and "CHR ''/'' \<notin> set dev" "bk_callback self"
  shows "on_message env dir up now (''edge/'' @ dev @ ''/model'') (model_type_ack # data) self =
    (Inr (), self\<lparr>bk_acks := bk_acks self @ [(dev, ack)]\<rparr>)"
proof -
  have topic: "split_on (CHR ''/'') (''edge/'' @ dev @ ''/model'') = [''edge'', dev, ''model'']"
    using device_topic [OF assms(3), of "''model''"] by simp
  show ?thesis
    using assms(1)
  proof
    assume "ack = success_ack name"
    then show ?thesis
      using topic assms(2,4)
      by (simp add: on_message_def handle_model_def model_type_ack_def success_ack_def dict_get_def split: option.split)
  next
    assume "ack = error_ack name missing message"
    then show ?thesis
      using topic assms(2,4)
      by (simp add: on_message_def handle_model_def model_type_ack_def error_ack_def dict_get_def split: option.split)
  qed
qed

subsection \<open>Properties\<close>

text \<open>
  C18: the tables behind the message handler stay consistent: whatever messages devices
  send on whatever topics, whatever commands are sent, whatever the driver rejects and
  whatever calls to the server fail, the keys of the schema hold and the latest counts
  agree with the history of counts.
\<close>

theorem broker_keeps_counts:
  assumes "keys_ok d" "counts_agree d"
  shows "keys_ok (se_committed (bk_session (broker_run env dir up evs (new_broker opens up (new_session d))))) \<and>
    counts_agree (se_committed (bk_session (broker_run env dir up evs (new_broker opens up (new_session d)))))"
proof -
  have s: "idle (new_session d)" "se_committed (new_session d) = d" by (simp_all add: new_session_def idle_def)
  have "keys.broker_safe (new_broker opens up (new_session d))" "counts.broker_safe (new_broker opens up (new_session d))"
    using assms by (auto intro!: keys.broker_safe_new counts.broker_safe_new simp: s)
  from keys.broker_safe_run [OF this(1)] counts.broker_safe_run [OF this(2)] show ?thesis
    by (simp add: s(2) keys.broker_safe_def counts.broker_safe_def)
qed

definition quiet_env :: "json \<Rightarrow> broker_env" where
  "quiet_env v = \<lparr>be_loads = (\<lambda>_. Inr v), be_dumps = (\<lambda>_. []), be_str = (\<lambda>_. []),
     be_int = (\<lambda>v. case v of JInt n \<Rightarrow> Inr (Some n) | JNull \<Rightarrow> Inr None | _ \<Rightarrow> Inl TypeError),
     be_text = (\<lambda>v. case v of JStr s \<Rightarrow> Inr (Some s) | JNull \<Rightarrow> Inr None | _ \<Rightarrow> Inl TypeError),
     be_bool = (\<lambda>v. case v of JBool b \<Rightarrow> Inr (Some b) | JNull \<Rightarrow> Inr None | _ \<Rightarrow> Inl TypeError)\<rparr>"

theorem broker_keeps_counts_witness:
  "counts_agree (se_committed (bk_session (broker_run (quiet_env (JObj [(''timestamp'', JInt 10), (''count'', JInt 4)])) ''img'' (\<lambda>n. n \<noteq> 2)
     [Message \<lparr>in_seconds = 0, in_stamp = 0\<rparr> ''edge/d1/crowdCount'' [], Admin ''d1'' (JObj [(''action'', JStr ''stop_pipeline'')])]
     (new_broker True (\<lambda>n. n \<noteq> 2) (new_session example_db)))))"
  using broker_keeps_counts [OF example_db_ok] by (rule conjunct2)

text \<open>
  The known devices after any events are the status messages among them, each device
  with its last one, independently of the database and of all other messages; a status
  that is no JSON object changes nothing.
\<close>

theorem devices_follow_status:
  "get_devices (broker_run env dir up evs self) =
   foldl (\<lambda>devs (dev, st). dict_set devs dev st) (get_devices self) (List.map_filter (status_entry env) evs)"
proof (induction evs arbitrary: self)
  case (Cons ev evs)
  have "broker_run env dir up (ev # evs) self = broker_run env dir up evs (broker_step env dir up ev self)"
    by (simp add: broker_run_def)
  then show ?case
    using Cons.IH [of "broker_step env dir up ev self"] devices_step [of env dir up ev self]
    by (cases "status_entry env ev") (auto simp: get_devices_def map_filter_simps)
qed (simp add: broker_run_def map_filter_simps)

text \<open>
  The acknowledgements that the model receiver of a device sends, success or error,
  reach the registered callback unchanged, but none of them registers a model version:
  the receiver reports the status \<open>success\<close>, the handler looks for \<open>ok\<close>.
\<close>

theorem receiver_acks_register_nothing:
  assumes "ack = success_ack name \<or> ack = error_ack name missing message" "be_loads env data = Inr ack"
    and "CHR ''/'' \<notin> set dev" "bk_callback self"
  shows "on_message env dir up now (''edge/'' @ dev @ ''/model'') (model_type_ack # data) self =
    (Inr (), self\<lparr>bk_acks := bk_acks self @ [(dev, ack)]\<rparr>)"
  using assms by (rule ack_message)

theorem receiver_acks_register_nothing_witness:
  "bk_acks (snd (on_message (quiet_env (success_ack (JStr ''m.pt''))) ''img'' (\<lambda>_. True) \<lparr>in_seconds = 0, in_stamp = 0\<rparr>
     ''edge/d1/model'' [model_type_ack] (set_model_ack_callback (new_broker True (\<lambda>_. True) (new_session example_db))))) =
   [(''d1'', success_ack (JStr ''m.pt''))]"
proof -
  let ?self = "set_model_ack_callback (new_broker True (\<lambda>_. True) (new_session example_db))"
  have "bk_acks ?self = []" by (simp add: set_model_ack_callback_def new_broker_def Let_def split: prod.split)
  then show ?thesis
    using receiver_acks_register_nothing [where ack = "success_ack (JStr ''m.pt'')" and name = "JStr ''m.pt''"
        and env = "quiet_env (success_ack (JStr ''m.pt''))" and data = "[]" and dev = "''d1''" and self = ?self
        and dir = "''img''" and up = "\<lambda>_. True" and now = "\<lparr>in_seconds = 0, in_stamp = 0\<rparr>"]
    by (simp add: quiet_env_def set_model_ack_callback_def)
qed

end
