(* ===== verification/Edge_Device.thy ===== *)
theory Edge_Device
  imports Bytes
begin

text \<open>
  The edge device: the settings that commands change (\<open>Edge/config.py\<close>), the messages the
  device publishes (\<open>Edge/comms.py\<close>), the frame buffer between camera and inference
  (\<open>Edge/camera.py\<close>), the counter with its model and pause (\<open>Edge/inference.py\<close>), the
  installation of new models (\<open>Edge/model_manager.py\<close>), and the wiring of \<open>Edge/main.py\<close>:
  the dispatch of commands and one pass of the capture and the inference loop.  JSON text,
  the parsing and printing of numbers, the frames read and the detections are inputs or
  the environment.  Locks, TLS and the network loop are left out.
\<close>

record device_env =
  de_dumps :: "json \<Rightarrow> bytes"
  de_loads :: "bytes \<Rightarrow> json result"
  de_str :: "json \<Rightarrow> string"
  de_parse_float :: "string \<Rightarrow> pyfloat result"

subsection \<open>\<open>RuntimeSettings\<close>\<close>

record settings =
  cf_pipeline_active :: bool
  cf_capture_interval :: pyfloat
  cf_image_send_interval :: pyfloat
  cf_conf_threshold :: pyfloat
  cf_zone :: string

definition new_settings :: settings where
  "new_settings = \<lparr>cf_pipeline_active = True, cf_capture_interval = 10, cf_image_send_interval = 30,
     cf_conf_threshold = 1 / 4, cf_zone = ''default''\<rparr>"

text \<open>\<open>float(value)\<close>.\<close>

fun float_of :: "device_env \<Rightarrow> json \<Rightarrow> pyfloat result" where
  "float_of env (JFloat x) = Inr x"
| "float_of env (JInt n) = Inr (py_float n)"
| "float_of env (JBool b) = Inr (of_bool b)"
| "float_of env (JStr s) = de_parse_float env s"
| "float_of env _ = Inl TypeError"

definition known_keys :: "string list" where
  "known_keys = [''pipeline_active'', ''capture_interval'', ''image_send_interval'', ''conf_threshold'', ''zone'']"

definition get_setting :: "settings \<Rightarrow> string \<Rightarrow> json" where
  "get_setting self key =
     (if key = ''pipeline_active'' then JBool (cf_pipeline_active self)
      else if key = ''capture_interval'' then JFloat (cf_capture_interval self)
      else if key = ''image_send_interval'' then JFloat (cf_image_send_interval self)
      else if key = ''conf_threshold'' then JFloat (cf_conf_threshold self)
      else JStr (cf_zone self))"

text \<open>The converted value, and the assignment of it.\<close>

definition convert_setting :: "device_env \<Rightarrow> string \<Rightarrow> json \<Rightarrow> json result" where
  "convert_setting env key v =
     (if key = ''pipeline_active'' then Inr (JBool (truthy v))
      else if key = ''zone'' then Inr (JStr (case v of JStr s \<Rightarrow> s | _ \<Rightarrow> de_str env v))
      else bind_result (float_of env v) (\<lambda>x. Inr (JFloat x)))"

fun set_setting :: "string \<Rightarrow> json \<Rightarrow> settings \<Rightarrow> settings" where
  "set_setting key (JBool b) self = self\<lparr>cf_pipeline_active := b\<rparr>"
| "set_setting key (JStr s) self = self\<lparr>cf_zone := s\<rparr>"
| "set_setting key (JFloat x) self =
     (if key = ''capture_interval'' then self\<lparr>cf_capture_interval := x\<rparr>
      else if key = ''image_send_interval'' then self\<lparr>cf_image_send_interval := x\<rparr>
      else self\<lparr>cf_conf_threshold := x\<rparr>)"
| "set_setting key _ self = self"

text \<open>\<open>RuntimeSettings.update\<close>: a conversion that raises leaves the settings changed so far.\<close>

fun update_items ::
    "device_env \<Rightarrow> (string \<times> json) list \<Rightarrow> (string, json) dict \<Rightarrow> settings \<Rightarrow> (string, json) dict result \<times> settings" where
  "update_items env [] applied self = (Inr applied, self)"
| "update_items env ((key, v) # items) applied self =
     (if key \<notin> set known_keys then update_items env items applied self
      else case convert_setting env key v of
        Inl e \<Rightarrow> (Inl e, self)
      | Inr v' \<Rightarrow>
          if get_setting self key \<noteq> v'
          then update_items env items (dict_set applied key v') (set_setting key v' self)
          else update_items env items applied self)"

definition update_settings :: "device_env \<Rightarrow> json \<Rightarrow> settings \<Rightarrow> json result \<times> settings" where
  "update_settings env changes self =
     (case changes of
        JObj items \<Rightarrow> (case update_items env items [] self of (r, self) \<Rightarrow> (bind_result r (\<lambda>d. Inr (JObj d)), self))
      | _ \<Rightarrow> (Inl AttributeError, self))"

subsection \<open>\<open>MQTTComms\<close>\<close>

text \<open>What the client was given: topic, payload, QoS and retain flag; and subscriptions as pattern, QoS, no-local.\<close>

record comms =
  cm_device_id :: string
  cm_will :: "string \<times> bytes \<times> int \<times> bool"
  cm_published :: "(string \<times> bytes \<times> int \<times> bool) list"
  cm_subscriptions :: "(string \<times> int \<times> bool) list"

definition topic_prefix :: "comms \<Rightarrow> string" where
  "topic_prefix self = ''edge/'' @ cm_device_id self"

definition device_qos :: "(string \<times> int) list" where
  "device_qos = [(''crowdCount'', 1), (''image'', 2), (''log'', 1), (''admin'', 2), (''model'', 2), (''status'', 1)]"

definition comms_publish :: "string \<Rightarrow> bytes \<Rightarrow> bool \<Rightarrow> comms \<Rightarrow> comms" where
  "comms_publish kind payload retain self =
     self\<lparr>cm_published := cm_published self @
       [(topic_prefix self @ ''/'' @ kind, payload, the (map_of device_qos kind), retain)]\<rparr>"

definition new_comms :: "device_env \<Rightarrow> string \<Rightarrow> comms" where
  "new_comms env device_id =
     \<lparr>cm_device_id = device_id,
      cm_will = (''edge/'' @ device_id @ ''/status'', de_dumps env (JObj [(''online'', JBool False)]), 1, True),
      cm_published = [], cm_subscriptions = []\<rparr>"

definition comms_disconnect :: "device_env \<Rightarrow> comms \<Rightarrow> comms" where
  "comms_disconnect env self = comms_publish ''status'' (de_dumps env (JObj [(''online'', JBool False)])) True self"

definition comms_on_connect :: "device_env \<Rightarrow> bool \<Rightarrow> comms \<Rightarrow> comms" where
  "comms_on_connect env is_failure self =
     (if is_failure then self
      else let self = comms_publish ''status'' (de_dumps env (JObj [(''online'', JBool True)])) True self
           in self\<lparr>cm_subscriptions := cm_subscriptions self @
                [(topic_prefix self @ ''/admin'', 2, False), (topic_prefix self @ ''/model'', 2, True)]\<rparr>)"

text \<open>The suffix that \<open>_on_message\<close> dispatches on.\<close>

definition topic_suffix :: "comms \<Rightarrow> string \<Rightarrow> string" where
  "topic_suffix self topic = drop (length (topic_prefix self) + 1) topic"

definition send_crowd_count :: "device_env \<Rightarrow> json \<Rightarrow> comms \<Rightarrow> comms" where
  "send_crowd_count env data self = comms_publish ''crowdCount'' (de_dumps env data) False self"

text \<open>\<open>file\<close> is the content of the file, \<open>None\<close> when it cannot be opened.\<close>

definition send_image ::
    "device_env \<Rightarrow> pyfloat \<Rightarrow> string \<Rightarrow> bytes option \<Rightarrow> json \<Rightarrow> comms \<Rightarrow> unit result \<times> comms" where
  "send_image env now image_path file metadata self =
     (case file of
        None \<Rightarrow> (Inl FileNotFoundError, self)
      | Some image_bytes \<Rightarrow>
          let header = [(''device_id'', JStr (cm_device_id self)), (''timestamp'', JFloat now),
                        (''filename'', JStr (base_name image_path))] @
                       (if truthy metadata then [(''metadata'', metadata)] else []);
              header_bytes = de_dumps env (JObj header)
          in case pack_u32 (int (length header_bytes)) of
               Inl e \<Rightarrow> (Inl e, self)
             | Inr header_length \<Rightarrow> (Inr (), comms_publish ''image'' (header_length @ header_bytes @ image_bytes) False self))"

definition log_entry :: "pyfloat \<Rightarrow> string \<Rightarrow> string \<Rightarrow> json \<Rightarrow> json" where
  "log_entry now level message extra =
     JObj ([(''level'', JStr level), (''message'', JStr message), (''timestamp'', JFloat now)] @
       (if truthy extra then [(''extra'', extra)] else []))"

definition send_log :: "device_env \<Rightarrow> pyfloat \<Rightarrow> string \<Rightarrow> string \<Rightarrow> json \<Rightarrow> comms \<Rightarrow> comms" where
  "send_log env now level message extra self =
     comms_publish ''log'' (de_dumps env (log_entry now level message extra)) False self"

subsection \<open>\<open>MQTTLogHandler\<close>\<close>

text \<open>A record with its level in lower case, and the records logged while it is being sent.\<close>

datatype log_record = Log string string "log_record list"

fun emit :: "device_env \<Rightarrow> pyfloat \<Rightarrow> log_record \<Rightarrow> bool \<times> comms \<Rightarrow> bool \<times> comms" where
  "emit env now (Log level message nested) (reentrant, self) =
     (if reentrant then (reentrant, self)
      else case fold (emit env now) nested (True, send_log env now level message JNull self) of
             (_, self) \<Rightarrow> (False, self))"

subsection \<open>\<open>CrowdCounter\<close> and \<open>ModelManager\<close>\<close>

text \<open>
  The model files and the model in memory as file contents; \<open>mg_paused\<close> is the cleared
  event of the counter.  \<open>mg_notices\<close> are the log messages that the manager makes the device
  send, as level, message and extra: the notices of \<open>notify_fn\<close>, and the records of its
  logger of level \<open>ERROR\<close>, which the log handler forwards without extra.
\<close>

record manager =
  mg_filename :: string
  mg_backup_path :: string
  mg_current :: "bytes option"
  mg_backup :: "bytes option"
  mg_model :: bytes
  mg_paused :: bool
  mg_notices :: "(string \<times> string \<times> json) list"

text \<open>
  What goes wrong: the copy to the backup, the move and the copy back succeed for \<open>None\<close>, and
  raise for \<open>Some left\<close>, where \<open>left\<close> is what is at the target afterwards, which may be the file
  before, nothing or a part of the copy.  \<open>ft_notify\<close>: logs can be sent.  \<open>ft_loads\<close> tells which
  files the inference library can load.  \<open>ft_trace\<close> is what the logging appends to the message
  of an exception: a new line and the traceback.
\<close>

record faults =
  ft_backup :: "bytes option option"
  ft_move :: "bytes option option"
  ft_notify :: bool
  ft_restore :: "bytes option option"
  ft_loads :: "bytes \<Rightarrow> bool"
  ft_trace :: string

definition counter_pause :: "manager \<Rightarrow> manager" where "counter_pause self = self\<lparr>mg_paused := True\<rparr>"
definition counter_resume :: "manager \<Rightarrow> manager" where "counter_resume self = self\<lparr>mg_paused := False\<rparr>"

definition reload_model :: "faults \<Rightarrow> bytes \<Rightarrow> manager \<Rightarrow> unit result \<times> manager" where
  "reload_model ft file self = (if ft_loads ft file then (Inr (), self\<lparr>mg_model := file\<rparr>) else (Inl RuntimeError, self))"

definition send_notice :: "faults \<Rightarrow> string \<Rightarrow> string \<Rightarrow> manager \<Rightarrow> unit result \<times> manager" where
  "send_notice ft level message self =
     (if ft_notify ft then 
      (Inr (), self\<lparr>mg_notices := mg_notices self @ [(level, message, JObj [(''model'', JStr (mg_filename self))])]\<rparr>)
      else (Inl RuntimeError, self))"

text \<open>An error record: the log handler catches what it raises.\<close>

definition log_error :: "faults \<Rightarrow> string \<Rightarrow> manager \<Rightarrow> manager" where
  "log_error ft message self =
     (if ft_notify ft then self\<lparr>mg_notices := mg_notices self @ [(''error'', message, JNull)]\<rparr> else self)"

definition rollback_model :: "faults \<Rightarrow> manager \<Rightarrow> unit result \<times> manager" where
  "rollback_model ft self =
     (case mg_backup self of
        None \<Rightarrow> (Inr (), log_error ft (''No backup model available at '' @ mg_backup_path self) self)
      | Some old \<Rightarrow>
          (case ft_restore ft of
             Some left \<Rightarrow> (Inl OSError, self\<lparr>mg_current := left\<rparr>)
           | None \<Rightarrow>
               (case reload_model ft old (self\<lparr>mg_current := Some old\<rparr>) of
                  (Inl e, self) \<Rightarrow> (Inr (), log_error ft (''Failed to reload backup model'' @ ft_trace ft) self)
                | (Inr _, self) \<Rightarrow> (Inr (), self))))"

text \<open>The body of the \<open>try\<close>; \<open>new\<close> is the received file, \<open>None\<close> when it is gone.\<close>

definition swap_model :: "faults \<Rightarrow> bytes option \<Rightarrow> manager \<Rightarrow> unit result \<times> manager" where
  "swap_model ft new self =
     (case (mg_current self, ft_backup ft) of
        (Some _, Some left) \<Rightarrow> (Inl OSError, self\<lparr>mg_backup := left\<rparr>)
      | _ \<Rightarrow>
          let self = (if mg_current self \<noteq> None then self\<lparr>mg_backup := mg_current self\<rparr> else self)
          in case new of
               None \<Rightarrow> (Inl FileNotFoundError, self)
             | Some file \<Rightarrow>
                 (case ft_move ft of
                    Some left \<Rightarrow> (Inl OSError, self\<lparr>mg_current := left\<rparr>)
                  | None \<Rightarrow>
                      (case reload_model ft file (self\<lparr>mg_current := Some file\<rparr>) of
                         (Inl e, self) \<Rightarrow> (Inl e, self)
                       | (Inr _, self) \<Rightarrow> send_notice ft ''info'' ''Model swap successful'' self)))"

definition install_new_model :: "faults \<Rightarrow> bytes option \<Rightarrow> manager \<Rightarrow> unit result \<times> manager" where
  "install_new_model ft new self =
     (case swap_model ft new (counter_pause self) of
        (Inr _, self) \<Rightarrow> (Inr (), counter_resume self)
      | (Inl e, self) \<Rightarrow>
          (case rollback_model ft (log_error ft (''Failed to load new model, rolling back'' @ ft_trace ft) self) of
             (Inl e, self) \<Rightarrow> (Inl e, counter_resume self)
           | (Inr _, self) \<Rightarrow>
               (case send_notice ft ''error'' ''Model swap failed, rolled back to backup'' self of
                  (r, self) \<Rightarrow> (r, counter_resume self))))"

subsection \<open>\<open>FrameBuffer\<close> and the loops\<close>

text \<open>\<open>ed_files\<close> are the frame files on disk, \<open>ed_last_image\<close> is \<open>image_send_tracker\<close>.\<close>

record edge =
  ed_settings :: settings
  ed_comms :: comms
  ed_buffer :: "string option"
  ed_files :: "string list"
  ed_last_image :: pyfloat

definition buffer_put :: "string \<Rightarrow> edge \<Rightarrow> edge" where
  "buffer_put image_path self = self\<lparr>ed_buffer := Some image_path\<rparr>"

text \<open>A \<open>get\<close> that runs into its timeout returns \<open>None\<close>.\<close>

definition buffer_get :: "edge \<Rightarrow> string option \<times> edge" where
  "buffer_get self = (ed_buffer self, self\<lparr>ed_buffer := None\<rparr>)"

text \<open>One pass of the capture loop: whether a frame could be read, and the name of its file.\<close>

definition capture_frame :: "bool \<Rightarrow> string \<Rightarrow> edge \<Rightarrow> edge" where
  "capture_frame ret path self = (if \<not> ret then self else buffer_put path (self\<lparr>ed_files := List.insert path (ed_files self)\<rparr>))"

definition capture_step :: "bool \<Rightarrow> string \<Rightarrow> edge \<Rightarrow> edge" where
  "capture_step ret path self = (if \<not> cf_pipeline_active (ed_settings self) then self else capture_frame ret path self)"

text \<open>The result of \<open>CrowdCounter.count\<close> for the number of boxes found.\<close>

definition count_result :: "pyfloat \<Rightarrow> nat \<Rightarrow> edge \<Rightarrow> json" where
  "count_result now boxes self =
     JObj [(''device_id'', JStr (cm_device_id (ed_comms self))), (''timestamp'', JFloat now),
           (''count'', JInt (int boxes)), (''zone'', JStr (cf_zone (ed_settings self)))]"

text \<open>
  What the inference loop does with a frame while the counter is not paused: the boxes found, or the
  exception of the model, the clock at the count and after it, and the content of the file.
\<close>

definition infer_frame ::
    "device_env \<Rightarrow> nat result \<Rightarrow> pyfloat \<Rightarrow> pyfloat \<Rightarrow> bytes option \<Rightarrow> string \<Rightarrow> edge \<Rightarrow> edge" where
  "infer_frame env boxes t now file path self =
     (let self = (case boxes of
            Inl e \<Rightarrow> self
          | Inr n \<Rightarrow>
              let self = self\<lparr>ed_comms := send_crowd_count env (count_result t n self) (ed_comms self)\<rparr>
              in if cf_image_send_interval (ed_settings self) \<le> fsub now (ed_last_image self)
                 then case send_image env now path file JNull (ed_comms self) of
                        (Inl e, c) \<Rightarrow> self\<lparr>ed_comms := c\<rparr>
                      | (Inr _, c) \<Rightarrow> self\<lparr>ed_comms := c, ed_last_image := now\<rparr>
                 else self)
      in self\<lparr>ed_files := removeAll path (ed_files self)\<rparr>)"

definition inference_step ::
    "device_env \<Rightarrow> nat result \<Rightarrow> pyfloat \<Rightarrow> pyfloat \<Rightarrow> bytes option \<Rightarrow> edge \<Rightarrow> edge" where
  "inference_step env boxes t now file self =
     (case buffer_get self of
        (None, self) \<Rightarrow> self
      | (Some path, self) \<Rightarrow> infer_frame env boxes t now file path self)"

subsection \<open>Commands\<close>

text \<open>\<open>handle_admin\<close> of \<open>main.py\<close>; an exception is caught by \<open>MQTTComms._handle_admin\<close>.\<close>

definition handle_admin :: "device_env \<Rightarrow> pyfloat \<Rightarrow> json \<Rightarrow> edge \<Rightarrow> unit result \<times> edge" where
  "handle_admin env now command self =
     (case jget command ''action'' JNull of
        Inl e \<Rightarrow> (Inl e, self)
      | Inr action \<Rightarrow>
          let say = (\<lambda>level message extra self. self\<lparr>ed_comms := send_log env now level message extra (ed_comms self)\<rparr>);
              switch = (\<lambda>b. self\<lparr>ed_settings := (ed_settings self)\<lparr>cf_pipeline_active := b\<rparr>\<rparr>)
          in if action = JStr ''update_config'' then
               (case jget command ''settings'' (JObj []) of
                  Inl e \<Rightarrow> (Inl e, self)
                | Inr changes \<Rightarrow>
                    (case update_settings env changes (ed_settings self) of
                       (Inl e, st) \<Rightarrow> (Inl e, self\<lparr>ed_settings := st\<rparr>)
                     | (Inr changed, st) \<Rightarrow> (Inr (), say ''info'' ''Config updated'' changed (self\<lparr>ed_settings := st\<rparr>))))
             else if action = JStr ''stop_pipeline'' then (Inr (), say ''info'' ''Pipeline stopped by admin'' JNull (switch False))
             else if action = JStr ''start_pipeline'' then (Inr (), say ''info'' ''Pipeline started by admin'' JNull (switch True))
             else if action = JStr ''restart'' then (Inr (), self)
             else if action = JStr ''status'' then (Inr (), self)
             else (Inr (), say ''warning'' (''Unknown admin action: '' @ (case action of JStr s \<Rightarrow> s | _ \<Rightarrow> de_str env action)) JNull self))"

text \<open>\<open>trace\<close> is the text that the logging appends for the exception, as for \<open>ft_trace\<close>.\<close>

definition on_admin_message :: "device_env \<Rightarrow> string \<Rightarrow> pyfloat \<Rightarrow> bytes \<Rightarrow> edge \<Rightarrow> edge" where
  "on_admin_message env trace now payload self =
     (let failed = (\<lambda>self. self\<lparr>ed_comms :=
            send_log env now ''error'' (''Failed to process admin message'' @ trace) JNull (ed_comms self)\<rparr>)
      in case de_loads env payload of
           Inl e \<Rightarrow> failed self
         | Inr command \<Rightarrow>
             (case handle_admin env now command self of
                (Inl e, self) \<Rightarrow> failed self
              | (Inr _, self) \<Rightarrow> self))"

end
