(* ===== verification/Edge_Properties.thy ===== *)
theory Edge_Properties
  imports Edge_Device Broker_Properties
begin

text \<open>
  The properties of the edge device: what it publishes is what the backend stores, what an
  update of the settings leaves behind, and what the installation of a model guarantees.
\<close>

subsection \<open>Settings\<close>

text \<open>Whether an item of an update is ignored or converts.\<close>

definition item_ok :: "device_env \<Rightarrow> string \<times> json \<Rightarrow> bool" where
  "item_ok env item \<longleftrightarrow> fst item \<in> set known_keys \<longrightarrow> (\<exists>v. convert_setting env (fst item) (snd item) = Inr v)"

text \<open>The settings that an item assigns.\<close>

definition assign_item :: "device_env \<Rightarrow> string \<times> json \<Rightarrow> settings \<Rightarrow> settings" where
  "assign_item env item self =
     (if fst item \<in> set known_keys
      then case convert_setting env (fst item) (snd item) of Inl e \<Rightarrow> self | Inr v \<Rightarrow> set_setting (fst item) v self
      else self)"

lemma set_same: "key \<in> set known_keys \<Longrightarrow> convert_setting env key v = Inr v' \<Longrightarrow> get_setting self key = v' \<Longrightarrow> set_setting key v' self = self"
  by (auto simp: known_keys_def convert_setting_def get_setting_def bind_result_def split: if_splits sum.splits json.splits)

lemma update_items_effect:
  "snd (update_items env items applied self) = fold (assign_item env) (takeWhile (item_ok env) items) self \<and>
   ((\<exists>d. fst (update_items env items applied self) = Inr d) \<longleftrightarrow> list_all (item_ok env) items)"
proof (induction items arbitrary: applied self)
  case (Cons item items)
  obtain key v where item: "item = (key, v)" by force
  show ?case
  proof (cases "key \<in> set known_keys")
    case False
    then show ?thesis using Cons.IH item by (simp add: item_ok_def assign_item_def)
  next
    case known: True
    show ?thesis
    proof (cases "convert_setting env key v")
      case (Inl e)
      then show ?thesis using known item by (simp add: item_ok_def)
    next
      case (Inr v')
      then show ?thesis
        using known item Cons.IH set_same [OF known Inr, of self] by (simp add: item_ok_def assign_item_def)
    qed
  qed
qed simp

subsection \<open>Frames\<close>

text \<open>A step of the capture or of the inference loop.\<close>

datatype frame_event =
    Capture bool string
  | Infer "nat result" pyfloat pyfloat "bytes option"

fun frame_step :: "device_env \<Rightarrow> frame_event \<Rightarrow> edge \<Rightarrow> edge" where
  "frame_step env (Capture ret path) self = capture_step ret path self"
| "frame_step env (Infer boxes t now file) self = inference_step env boxes t now file self"

definition frame_run :: "device_env \<Rightarrow> frame_event list \<Rightarrow> edge \<Rightarrow> edge" where
  "frame_run env evs self = fold (frame_step env) evs self"

lemma inference_files:
  "ed_files (inference_step env boxes t now file self) =
     (case ed_buffer self of None \<Rightarrow> ed_files self | Some path \<Rightarrow> removeAll path (ed_files self))"
  "ed_buffer (inference_step env boxes t now file self) = None"
  by (auto simp: inference_step_def infer_frame_def buffer_get_def Let_def split: option.split sum.split prod.split)

lemma orphan_step:
  assumes "p \<in> set (ed_files self)" "ed_buffer self \<noteq> Some p" "\<forall>ret. ev \<noteq> Capture ret p"
  shows "p \<in> set (ed_files (frame_step env ev self)) \<and> ed_buffer (frame_step env ev self) \<noteq> Some p"
  using assms by (cases ev) (auto simp: inference_files capture_step_def capture_frame_def buffer_put_def split: option.split)

lemma orphan_run:
  assumes "p \<in> set (ed_files self)" "ed_buffer self \<noteq> Some p" "\<forall>ret. Capture ret p \<notin> set evs"
  shows "p \<in> set (ed_files (frame_run env evs self))"
  using assms
proof (induction evs arbitrary: self)
  case (Cons ev evs)
  have "p \<in> set (ed_files (frame_step env ev self)) \<and> ed_buffer (frame_step env ev self) \<noteq> Some p"
    using Cons.prems by (intro orphan_step) auto
  then show ?case using Cons.IH [of "frame_step env ev self"] Cons.prems(3) by (auto simp: frame_run_def)
qed (simp add: frame_run_def)

subsection \<open>From the device to the backend\<close>

text \<open>The driver passes integers, strings and null as they are.\<close>

definition plain_driver :: "broker_env \<Rightarrow> bool" where
  "plain_driver env \<longleftrightarrow> (\<forall>n. be_int env (JInt n) = Inr (Some n)) \<and> (\<forall>s. be_text env (JStr s) = Inr (Some s)) \<and>
     be_text env JNull = Inr None"

lemma crowd_message:
  assumes "be_loads env payload = Inr (JObj kvs)" "dict_get kvs ''timestamp'' = Some (JFloat t)"
    "dict_get kvs ''count'' = Some (JInt n)" "dict_get kvs ''zone'' = Some (JStr zone)" "plain_driver env"
    and "CHR ''/'' \<notin> set dev" "bk_writer bk = Some w"
  shows "snd (on_message env dir up now (''edge/'' @ dev @ ''/crowdCount'') payload bk) =
    (case snd (write_crowd_count up w dev t n (Some zone) (bk_session bk)) of
       (w', s') \<Rightarrow> bk\<lparr>bk_writer := Some w', bk_session := s'\<rparr>)"
proof -
  have "split_on (CHR ''/'') (''edge/'' @ dev @ ''/crowdCount'') = [''edge'', dev, ''crowdCount'']"
    using device_topic [OF assms(6), of "''crowdCount''"] by simp
  then show ?thesis
    using assms
    by (simp add: on_message_def handle_crowd_count_def with_writer_def crowd_count_call_def plain_driver_def)
qed

text \<open>What the table of counts gains from such a message.\<close>

definition count_row_of :: "writer \<Rightarrow> stop_row \<Rightarrow> timestamp \<Rightarrow> int \<Rightarrow> string \<Rightarrow> crowd_row" where
  "count_row_of w row ts n zone =
     \<lparr>cr_time = ts, cr_device_id = st_device_id row,
      cr_stop_id = (case dict_get (dw_stop_id_cache w) (st_device_id row) of Some st \<Rightarrow> st | None \<Rightarrow> st_stop_id row),
      cr_count = n, cr_zone = Some zone\<rparr>"

lemma inference_publishes:
  assumes "ed_buffer self = Some path" "cm_device_id (ed_comms self) = dev"
  shows "\<exists>rest. cm_published (ed_comms (inference_step env (Inr boxes) t now img self)) =
    cm_published (ed_comms self) @ (''edge/'' @ dev @ ''/crowdCount'', de_dumps env (count_result t boxes self), 1, False) # rest"
proof -
  have same: "count_result t boxes (self\<lparr>ed_buffer := None\<rparr>) = count_result t boxes self"
    by (simp add: count_result_def)
  show ?thesis
    using assms same
    by (auto simp: inference_step_def infer_frame_def buffer_get_def send_crowd_count_def comms_publish_def topic_prefix_def device_qos_def
        send_image_def Let_def split: option.split sum.split prod.split)
qed

lemma crowd_message_recorded:
  assumes "be_loads env payload = Inr (JObj kvs)" "dict_get kvs ''timestamp'' = Some (JFloat t)"
    "dict_get kvs ''count'' = Some (JInt n)" "dict_get kvs ''zone'' = Some (JStr zone)" "plain_driver env"
    and "CHR ''/'' \<notin> set dev" "bk_writer bk = Some w" "dw_opened w" "\<forall>n. up n" "idle (bk_session bk)"
    and "keys_ok (se_committed (bk_session bk))" "counts_agree (se_committed (bk_session bk))"
    and "row \<in> set (db_stops (se_committed (bk_session bk)))" "st_device_id row = dev"
    and "fromtimestamp t = Inr ts" "int4 n"
    and d: "d = se_committed (bk_session (snd (on_message env dir up now (''edge/'' @ dev @ ''/crowdCount'') payload bk)))"
  shows "device_history d dev = count_row_of w row ts n zone # device_history (se_committed (bk_session bk)) dev \<and> counts_agree d"
proof -
  obtain w' s' where wr: "write_crowd_count up w dev t n (Some zone) (bk_session bk) = (Inr (), w', s')"
      "device_history (se_committed s') dev = count_row_of w row ts n zone # device_history (se_committed (bk_session bk)) dev"
      "counts_agree (se_committed s')"
    using crowd_count_written [OF assms(10,8,9,11-16), of "Some zone"] assms(14) by (auto simp: count_row_of_def)
  then show ?thesis using crowd_message [OF assms(1-7), of dir up now] by (simp add: d)
qed

lemma image_message:
  assumes "be_loads env header_bytes = Inr (JObj kvs)" "int (length header_bytes) < 2 ^ 32"
    and "CHR ''/'' \<notin> set dev" "dict_get kvs ''filename'' = Some f" "dict_get kvs ''timestamp'' = Some t"
  shows "on_message env dir up now (''edge/'' @ dev @ ''/image'')
      (u32_bytes (word_of_int (int (length header_bytes))) @ header_bytes @ img) bk =
    (Inr (), bk\<lparr>bk_files := dict_set (bk_files bk) (image_path env dir now dev f t) img\<rparr>)"
proof -
  have "split_on (CHR ''/'') (''edge/'' @ dev @ ''/image'') = [''edge'', dev, ''image'']"
    using device_topic [OF assms(3), of "''image''"] by simp
  moreover have "unat (word_of_nat (length header_bytes) :: 32 word) = length header_bytes"
    using unat_int [of "int (length header_bytes)"] assms(2) by simp
  ultimately show ?thesis
    using assms(1,4,5) by (simp add: on_message_def handle_image_def unpack_u32_bytes)
qed

text \<open>What the device logs about an installation.\<close>

definition swap_logs :: "faults \<Rightarrow> bytes \<Rightarrow> string \<Rightarrow> (string \<times> string \<times> json) list" where
  "swap_logs ft new filename =
     (if ft_loads ft new then [(''info'', ''Model swap successful'', JObj [(''model'', JStr filename)])]
      else [(''error'', ''Failed to load new model, rolling back'' @ ft_trace ft, JNull),
            (''error'', ''Model swap failed, rolled back to backup'', JObj [(''model'', JStr filename)])])"

lemma install_outcome:
  assumes "mg_current self = Some cur" "mg_model self = cur" "ft_loads ft cur"
    and "ft_backup ft = None" "ft_move ft = None" "ft_notify ft" "ft_restore ft = None"
  shows "install_new_model ft (Some new) self =
    (Inr (), self\<lparr>mg_current := Some (if ft_loads ft new then new else cur), mg_backup := Some cur,
       mg_model := (if ft_loads ft new then new else cur), mg_paused := False,
       mg_notices := mg_notices self @ swap_logs ft new (mg_filename self)\<rparr>)"
  using assms
  by (cases "ft_loads ft new"; cases self)
    (auto simp: install_new_model_def swap_model_def counter_pause_def counter_resume_def reload_model_def send_notice_def
      rollback_model_def log_error_def swap_logs_def Let_def)

subsection \<open>Properties\<close>

definition example_device_env :: "json \<Rightarrow> device_env" where
  "example_device_env v = \<lparr>de_dumps = (\<lambda>_. []), de_loads = (\<lambda>_. Inr v), de_str = (\<lambda>_. []), de_parse_float = (\<lambda>_. Inl ValueError)\<rparr>"

definition example_edge :: edge where
  "example_edge = \<lparr>ed_settings = new_settings\<lparr>cf_zone := ''z''\<rparr>,
     ed_comms = \<lparr>cm_device_id = ''d1'', cm_will = ([], [], 1, True), cm_published = [], cm_subscriptions = []\<rparr>,
     ed_buffer = Some ''f.jpg'', ed_files = [''f.jpg''], ed_last_image = 0\<rparr>"

text \<open>
  C8: from the frame to the table.  A pass of the inference loop over a buffered frame
  publishes a message which the backend, with its database up, records as the newest
  count of the device: the number of boxes, the zone set on the device and the time of
  the detection, in agreement with the table of latest counts.
\<close>

theorem frame_count_recorded:
  assumes "ed_buffer self = Some path" "cm_device_id (ed_comms self) = dev" "CHR ''/'' \<notin> set dev"
    and "be_loads benv (de_dumps env (count_result t boxes self)) = Inr (count_result t boxes self)" "plain_driver benv"
    and "bk_writer bk = Some w" "dw_opened w" "\<forall>n. up n" "idle (bk_session bk)"
    and "keys_ok (se_committed (bk_session bk))" "counts_agree (se_committed (bk_session bk))"
    and "row \<in> set (db_stops (se_committed (bk_session bk)))" "st_device_id row = dev"
    and "fromtimestamp t = Inr ts" "int4 (int boxes)"
  shows "\<exists>topic payload rest.
    cm_published (ed_comms (inference_step env (Inr boxes) t now img self)) =
      cm_published (ed_comms self) @ (topic, payload, 1, False) # rest \<and>
    (let d = se_committed (bk_session (snd (on_message benv dir up clk topic payload bk)))
     in device_history d dev =
          \<lparr>cr_time = ts, cr_device_id = dev,
           cr_stop_id = (case dict_get (dw_stop_id_cache w) dev of Some st \<Rightarrow> st | None \<Rightarrow> st_stop_id row),
           cr_count = int boxes, cr_zone = Some (cf_zone (ed_settings self))\<rparr>
          # device_history (se_committed (bk_session bk)) dev \<and> counts_agree d)"
proof -
  let ?payload = "de_dumps env (count_result t boxes self)" and ?topic = "''edge/'' @ dev @ ''/crowdCount''"
  have "\<exists>rest. cm_published (ed_comms (inference_step env (Inr boxes) t now img self)) =
      cm_published (ed_comms self) @ (?topic, ?payload, 1, False) # rest"
    by (rule inference_publishes [OF assms(1,2)])
  moreover have "device_history d dev = count_row_of w row ts (int boxes) (cf_zone (ed_settings self)) #
      device_history (se_committed (bk_session bk)) dev \<and> counts_agree d"
    if "d = se_committed (bk_session (snd (on_message benv dir up clk ?topic ?payload bk)))" for d
    by (rule crowd_message_recorded [OF assms(4) [unfolded count_result_def] _ _ _ assms(5,3,6-15) that [unfolded count_result_def]])
      (simp_all add: dict_get_def)
  ultimately show ?thesis using assms(13) by (auto simp: Let_def count_row_of_def)
qed

definition example_broker :: broker where
  "example_broker = \<lparr>bk_writer = Some \<lparr>dw_opened = True, dw_stop_id_cache = []\<rparr>, bk_session = new_session example_db,
     bk_devices = [], bk_callback = False, bk_acks = [], bk_files = [], bk_published = [], bk_subscriptions = []\<rparr>"

lemma example_broker_ok:
  "bk_writer example_broker = Some \<lparr>dw_opened = True, dw_stop_id_cache = []\<rparr>" "dw_opened \<lparr>dw_opened = True, dw_stop_id_cache = []\<rparr>"
  "\<forall>n. (\<lambda>_. True) n" "idle (bk_session example_broker)" "keys_ok (se_committed (bk_session example_broker))"
  "counts_agree (se_committed (bk_session example_broker))"
  "hd (db_stops example_db) \<in> set (db_stops (se_committed (bk_session example_broker)))" "st_device_id (hd (db_stops example_db)) = ''d1''"
  using example_db_ok idle_new_session [of example_db]
  by (simp_all add: example_broker_def new_session_def, simp_all add: example_db_def)

theorem frame_count_recorded_witness:
  "\<exists>topic payload. (topic, payload, 1, False) \<in>
      set (cm_published (ed_comms (inference_step (example_device_env JNull) (Inr 3) 10 12 None example_edge))) \<and>
    counts_agree (se_committed (bk_session (snd (on_message (quiet_env (count_result 10 3 example_edge)) ''img'' (\<lambda>_. True)
      \<lparr>in_seconds = 0, in_stamp = 0\<rparr> topic payload example_broker))))"
proof -
  have edge: "ed_buffer example_edge = Some ''f.jpg''" "cm_device_id (ed_comms example_edge) = ''d1''" "CHR ''/'' \<notin> set ''d1''"
    by (simp_all add: example_edge_def)
  have env: "be_loads (quiet_env (count_result 10 3 example_edge)) (de_dumps (example_device_env JNull) (count_result 10 3 example_edge)) =
      Inr (count_result 10 3 example_edge)" "plain_driver (quiet_env (count_result 10 3 example_edge))"
    by (simp_all add: quiet_env_def plain_driver_def)
  note bk = example_broker_ok
  have n: "int4 (int 3)" by (simp add: int4_def)
  show ?thesis
    using frame_count_recorded [OF edge env bk example_time n, of 12 None "''img''" "\<lparr>in_seconds = 0, in_stamp = 0\<rparr>"]
    unfolding Let_def by (elim exE conjE) (intro exI conjI, simp_all)
qed

text \<open>
  Images arrive as they are.  What \<open>send_image\<close> publishes for a file whose header is
  shorter than \<open>2 ^ 32\<close> bytes the backend stores byte for byte in the device's directory,
  under the time of sending and the last component of the path.
\<close>

theorem image_stored:
  assumes "cm_device_id self = dev" "CHR ''/'' \<notin> set dev"
    and header: "header = JObj [(''device_id'', JStr dev), (''timestamp'', JFloat now), (''filename'', JStr (base_name path))]"
    and "be_loads benv (de_dumps env header) = Inr header" "int (length (de_dumps env header)) < 2 ^ 32"
    and "send_image env now path (Some img) JNull self = (r, self')"
  shows "\<exists>topic payload. r = Inr () \<and> cm_published self' = cm_published self @ [(topic, payload, 2, False)] \<and>
    dict_get (bk_files (snd (on_message benv dir up clk topic payload bk)))
      (image_path benv dir clk dev (JStr (base_name path)) (JFloat now)) = Some img"
proof -
  let ?payload = "u32_bytes (word_of_int (int (length (de_dumps env header)))) @ de_dumps env header @ img"
  have "r = Inr () \<and> self' = comms_publish ''image'' ?payload False self"
    using assms(1,6) pack_u32_range [of "int (length (de_dumps env header))"] assms(5)
    by (simp add: send_image_def header Let_def)
  moreover have "dict_get (bk_files (snd (on_message benv dir up clk (''edge/'' @ dev @ ''/image'') ?payload bk)))
      (image_path benv dir clk dev (JStr (base_name path)) (JFloat now)) = Some img"
    using image_message [OF assms(4) [unfolded header] assms(5) [unfolded header] assms(2), of "JStr (base_name path)" "JFloat now"]
    by (simp add: header dict_get_def dict_get_set [unfolded dict_get_def])
  ultimately show ?thesis using assms(1) by (auto simp: comms_publish_def topic_prefix_def device_qos_def)
qed

theorem image_stored_witness:
  "\<exists>topic payload self'. send_image (example_device_env JNull) 10 ''/tmp/f.jpg'' (Some [7]) JNull (ed_comms example_edge) =
      (Inr (), self') \<and> cm_published self' = [(topic, payload, 2, False)]"
proof -
  let ?h = "JObj [(''device_id'', JStr ''d1''), (''timestamp'', JFloat 10), (''filename'', JStr (base_name ''/tmp/f.jpg''))]"
  obtain r self' where send: "send_image (example_device_env JNull) 10 ''/tmp/f.jpg'' (Some [7]) JNull (ed_comms example_edge) = (r, self')"
    by force
  show ?thesis
    using image_stored [where dev = "''d1''" and header = ?h and benv = "quiet_env ?h" and dir = "[]" and up = "\<lambda>_. True"
        and clk = "\<lparr>in_seconds = 0, in_stamp = 0\<rparr>" and bk = "new_broker False (\<lambda>_. True) (new_session example_db)",
        OF _ _ _ _ _ send] send
    unfolding example_device_env_def quiet_env_def by (simp add: example_edge_def) blast
qed

text \<open>
  Where an image goes is up to the sender of its header.  A time stamp in the header
  that is a string starting with a slash, with no dot in it, makes the path absolute: the
  configured directory and the device's directory are ignored.
\<close>

theorem image_header_escapes_directory:
  assumes "\<forall>s. be_str env (JStr s) = s" "take 1 ts = ''/''" "CHR ''.'' \<notin> set ts"
  shows "image_path env dir now dev (JStr name) (JStr ts) = ts @ ''_'' @ name"
proof -
  have "map (\<lambda>c. if c = CHR ''.'' then CHR ''_'' else c) ts = ts" using assms(3) by (auto intro: map_idI)
  moreover have "take 1 (ts @ ''_'' @ name) = ''/''" using assms(2) by (cases ts) simp_all
  ultimately show ?thesis using assms(1) by (simp add: image_path_def path_join_def)
qed

theorem image_header_escapes_directory_witness:
  "image_path (\<lparr>be_loads = (\<lambda>_. Inl ValueError), be_dumps = (\<lambda>_. []), be_str = (\<lambda>v. case v of JStr s \<Rightarrow> s | _ \<Rightarrow> []),
     be_int = (\<lambda>_. Inr None), be_text = (\<lambda>_. Inr None), be_bool = (\<lambda>_. Inr None)\<rparr>) ''received'' \<lparr>in_seconds = 0, in_stamp = 0\<rparr>
     ''d1'' (JStr ''x'') (JStr ''/etc/cron'') = ''/etc/cron_x''"
  by (subst image_header_escapes_directory) simp_all

text \<open>
  What an update of the settings leaves behind.  The settings are those before with the
  items of the update assigned in their order up to the first known key whose value does
  not convert; the update returns exactly when there is no such item, so one that raises
  has been applied in part.
\<close>

theorem update_applies_prefix:
  "snd (update_settings env (JObj items) self) = fold (assign_item env) (takeWhile (item_ok env) items) self \<and>
   ((\<exists>changed. fst (update_settings env (JObj items) self) = Inr changed) = list_all (item_ok env) items)"
  using update_items_effect [of env items "[]" self]
  by (cases "update_items env items [] self") (auto simp: update_settings_def bind_result_def split: sum.splits)

text \<open>
  Installing a model swaps or restores.  From a device running its current file, with
  no failing copy, move or notice, a file that loads becomes the current file and the
  model in memory with the former one as backup, and a file that does not load leaves the
  former file and model in place; inference is never left paused.
\<close>

theorem install_swaps_or_restores:
  assumes "mg_current self = Some cur" "mg_model self = cur" "ft_loads ft cur"
    and "ft_backup ft = None" "ft_move ft = None" "ft_notify ft" "ft_restore ft = None"
  shows "install_new_model ft (Some new) self =
    (Inr (), self\<lparr>mg_current := Some (if ft_loads ft new then new else cur), mg_backup := Some cur,
       mg_model := (if ft_loads ft new then new else cur), mg_paused := False,
       mg_notices := mg_notices self @ swap_logs ft new (mg_filename self)\<rparr>)"
  using assms by (rule install_outcome)

theorem install_swaps_or_restores_witness:
  "mg_model (snd (install_new_model \<lparr>ft_backup = None, ft_move = None, ft_notify = True, ft_restore = None, ft_loads = (\<lambda>f. f = [1]), ft_trace = []\<rparr>
     (Some [2]) \<lparr>mg_filename = ''best.pt'', mg_backup_path = ''backup/best.pt'', mg_current = Some [1], mg_backup = None, mg_model = [1], mg_paused = False, mg_notices = []\<rparr>)) = [1]"
  using install_swaps_or_restores [where cur = "[1]" and new = "[2]" and self = "\<lparr>mg_filename = ''best.pt'', mg_backup_path = ''backup/best.pt'',
      mg_current = Some [1], mg_backup = None, mg_model = [1], mg_paused = False, mg_notices = []\<rparr>"
      and ft = "\<lparr>ft_backup = None, ft_move = None, ft_notify = True, ft_restore = None, ft_loads = (\<lambda>f. f = [1]), ft_trace = []\<rparr>"]
  by simp

text \<open>
  A failing backup brings an older model back.  When the current file cannot be copied
  to the backup, the rollback replaces the current file, which was untouched so far, by
  what the failed copy left as the backup: the file of an earlier installation, or a part
  of a file, which becomes the current file even when it does not load.
\<close>

theorem failed_backup_restores_older:
  assumes "mg_current self = Some cur" "ft_backup ft = Some (Some old)" "ft_restore ft = None"
  shows "mg_current (snd (install_new_model ft new self)) = Some old \<and>
    mg_model (snd (install_new_model ft new self)) = (if ft_loads ft old then old else mg_model self) \<and>
    \<not> mg_paused (snd (install_new_model ft new self))"
  using assms
  by (auto simp: install_new_model_def swap_model_def counter_pause_def counter_resume_def reload_model_def send_notice_def
      rollback_model_def log_error_def Let_def)

theorem failed_backup_restores_older_witness:
  "mg_model (snd (install_new_model \<lparr>ft_backup = Some (Some [1]), ft_move = None, ft_notify = True, ft_restore = None, ft_loads = (\<lambda>_. True), ft_trace = []\<rparr>
     (Some [3]) \<lparr>mg_filename = ''best.pt'', mg_backup_path = ''backup/best.pt'', mg_current = Some [2], mg_backup = Some [1], mg_model = [2], mg_paused = False, mg_notices = []\<rparr>)) = [1]"
  by (subst failed_backup_restores_older [where cur = "[2]" and old = "[1]", THEN conjunct2, THEN conjunct1]) simp_all

text \<open>
  A frame that is overwritten in the buffer before inference takes it stays on disk:
  whatever the two loops do afterwards, unless a later frame gets the same name, its file
  is never removed.
\<close>

theorem overwritten_frames_leak:
  assumes "cf_pipeline_active (ed_settings self)" "p \<noteq> q" "\<forall>ret. Capture ret p \<notin> set evs"
  shows "p \<in> set (ed_files (frame_run env (Capture True p # Capture True q # evs) self))"
proof -
  have "p \<in> set (ed_files (frame_run env evs (capture_step True q (capture_step True p self))))"
    using assms by (intro orphan_run) (auto simp: capture_step_def capture_frame_def buffer_put_def)
  then show ?thesis by (simp add: frame_run_def)
qed

theorem overwritten_frames_leak_witness:
  "''a.jpg'' \<in> set (ed_files (frame_run (example_device_env JNull)
     [Capture True ''a.jpg'', Capture True ''b.jpg'', Infer (Inr 2) 10 12 None, Infer (Inr 2) 20 22 None] example_edge))"
  by (rule overwritten_frames_leak) (simp_all add: example_edge_def new_settings_def)

end
