(* ===== verification/Edge_System.thy ===== *)
theory Edge_System
  imports Edge_Properties Model_Transfer_Properties
begin

text \<open>
  The device as \<open>Edge/main.py\<close> wires it: \<open>MQTTComms._on_message\<close> dispatches a message to the
  command handler or to the model receiver, whose acknowledgements are published and whose
  files are installed, with the logs of both; and what a distribution of the backend does on
  such a device.
\<close>

record device =
  dc_edge :: edge
  dc_receiver :: receiver
  dc_manager :: manager

text \<open>\<open>_publish_ack\<close> through \<open>publish_raw\<close>.\<close>

definition publish_ack :: "device_env \<Rightarrow> json \<Rightarrow> comms \<Rightarrow> comms" where
  "publish_ack env ack self = comms_publish ''model'' (model_type_ack # de_dumps env ack) False self"

text \<open>An exception of \<open>install_new_model\<close> is caught by the receiver, and logged.\<close>

definition on_model_ready :: "faults \<Rightarrow> bytes \<Rightarrow> manager \<Rightarrow> manager" where
  "on_model_ready ft file self =
     (case install_new_model ft (Some file) self of
        (Inl e, self) \<Rightarrow> log_error ft (''on_model_ready callback failed'' @ ft_trace ft) self
      | (Inr _, self) \<Rightarrow> self)"

subsection \<open>What the receiver logs\<close>

text \<open>
  The log handler sends every record of level \<open>WARNING\<close> or above to the backend.  These are the
  records that a message makes the receiver log, as level and message; each comes before
  the acknowledgement, if there is one.
\<close>

definition hex_text :: "bytes \<Rightarrow> string" where
  "hex_text bs = concat (map (\<lambda>b. [hex_digit (unat b div 16), hex_digit (unat b mod 16)]) bs)"

definition assembly_records :: "receiver_env \<Rightarrow> (string, bytes) dict \<Rightarrow> receiver \<Rightarrow> (string \<times> string) list" where
  "assembly_records env dir self =
     (if \<not> re_mkstemp_ok env (rv_filename self) then []
      else case range_of (rv_total_chunks self) of
        Inl e \<Rightarrow> []
      | Inr indices \<Rightarrow>
          (case read_chunks dir indices of
             Inl name \<Rightarrow> [(''error'', ''Missing chunk file during assembly: '' @ re_missing_text env name)]
           | Inr file \<Rightarrow>
               if JStr (hexdigest file) \<noteq> rv_expected_sha256 self
               then [(''error'', ''Full-file SHA-256 mismatch (expected='' @ py_text env (rv_expected_sha256 self) @
                        '', got='' @ hexdigest file @ '')'')]
               else []))"

definition chunk_records :: "receiver_env \<Rightarrow> bytes \<Rightarrow> receiver \<Rightarrow> (string \<times> string) list" where
  "chunk_records env data self =
     (if length data < 36 then [(''warning'', ''Chunk message too short ('' @ digits (length data) @ '' bytes)'')]
      else case unpack_u32 (take 4 data) of
        Inl e \<Rightarrow> []
      | Inr chunk_index \<Rightarrow>
          let expected_hash = take 32 (drop 4 data); chunk_data = drop 36 data; actual_hash = sha256 chunk_data
          in if actual_hash \<noteq> expected_hash
             then [(''warning'', ''Chunk '' @ digits chunk_index @ '' SHA-256 mismatch (expected='' @ hex_text expected_hash @
                      '', got='' @ hex_text actual_hash @ '')'')]
             else case rv_temp_dir self of
               None \<Rightarrow> [(''warning'', ''Chunk '' @ digits chunk_index @ '' received but no active transfer'')]
             | Some dir \<Rightarrow>
                 let dir = dict_set dir (chunk_name chunk_index) chunk_data;
                     received = List.insert chunk_index (rv_received_chunks self);
                     self = self\<lparr>rv_temp_dir := Some dir, rv_received_chunks := received\<rparr>
                 in if equals_int (length received) (rv_total_chunks self) then assembly_records env dir self else [])"

definition model_records :: "device_env \<Rightarrow> receiver_env \<Rightarrow> string \<Rightarrow> bytes \<Rightarrow> receiver \<Rightarrow> (string \<times> string) list" where
  "model_records env renv trace payload self =
     (case payload of
        [] \<Rightarrow> [(''warning'', ''Empty model message received'')]
      | msg_type # data \<Rightarrow>
          if msg_type = model_type_meta
          then (case de_loads env data of Inl e \<Rightarrow> [(''error'', ''Failed to decode model meta JSON'' @ trace)] | Inr _ \<Rightarrow> [])
          else if msg_type = model_type_chunk then chunk_records renv data self else [])"

subsection \<open>The dispatch\<close>

definition send_record :: "device_env \<Rightarrow> pyfloat \<Rightarrow> string \<times> string \<Rightarrow> comms \<Rightarrow> comms" where
  "send_record env now = (\<lambda>(level, message). send_log env now level message JNull)"

definition send_notices :: "device_env \<Rightarrow> pyfloat \<Rightarrow> (string \<times> string \<times> json) list \<Rightarrow> comms \<Rightarrow> comms" where
  "send_notices env now = fold (\<lambda>(level, message, extra). send_log env now level message extra)"

text \<open>
  \<open>now\<close> is the clock while the message is handled.  A file is handed over after its
  acknowledgement, and the messages of the manager follow it.
\<close>

definition comms_on_message ::
    "device_env \<Rightarrow> receiver_env \<Rightarrow> faults \<Rightarrow> pyfloat \<Rightarrow> string \<Rightarrow> bytes \<Rightarrow> device \<Rightarrow> unit result \<times> device" where
  "comms_on_message env renv ft now topic payload self =
     (let suffix = topic_suffix (ed_comms (dc_edge self)) topic
      in if suffix = ''admin''
         then (Inr (), self\<lparr>dc_edge := on_admin_message env (ft_trace ft) now payload (dc_edge self)\<rparr>)
         else if suffix = ''model'' then
           (case handle_model_message (de_loads env) renv payload (Some (dc_receiver self)) of
              (r, receiver) \<Rightarrow>
                let rv = the receiver;
                    records = model_records env renv (ft_trace ft) payload (dc_receiver self);
                    acks = drop (length (rv_acks (dc_receiver self))) (rv_acks rv);
                    files = drop (length (rv_ready (dc_receiver self))) (rv_ready rv);
                    mg = fold (on_model_ready ft) files (dc_manager self);
                    notices = drop (length (mg_notices (dc_manager self))) (mg_notices mg);
                    say = send_notices env now notices \<circ> fold (publish_ack env) acks \<circ> fold (send_record env now) records
                in (r, \<lparr>dc_edge = (dc_edge self)\<lparr>ed_comms := say (ed_comms (dc_edge self))\<rparr>, dc_receiver = rv, dc_manager = mg\<rparr>))
         else (Inr (), self\<lparr>dc_edge := (dc_edge self)\<lparr>ed_comms :=
                 send_record env now (''warning'', ''Message on unexpected topic: '' @ topic) (ed_comms (dc_edge self))\<rparr>\<rparr>))"

text \<open>Messages on one topic, each with the clock at which it is handled.\<close>

definition receive_all ::
    "device_env \<Rightarrow> receiver_env \<Rightarrow> faults \<Rightarrow> string \<Rightarrow> (pyfloat \<times> bytes) list \<Rightarrow> device \<Rightarrow> device" where
  "receive_all env renv ft topic payloads self =
     fold (\<lambda>(now, payload) d. snd (comms_on_message env renv ft now topic payload d)) payloads self"

subsection \<open>A model on the device\<close>

text \<open>The receiver only adds to its acknowledgements and files.\<close>

definition grows :: "receiver \<Rightarrow> receiver \<Rightarrow> bool" where
  "grows r r' \<longleftrightarrow> (\<exists>acks ready. rv_acks r' = rv_acks r @ acks \<and> rv_ready r' = rv_ready r @ ready)"

lemma grows_refl [simp]: "grows r r"
  by (simp add: grows_def)

lemma grows_trans: "grows r r' \<Longrightarrow> grows r' r'' \<Longrightarrow> grows r r''"
  by (auto simp: grows_def)

lemma grows_meta: "grows r (snd (handle_meta loads data r))"
  by (simp add: handle_meta_def take_field_def grows_def split: sum.split)

lemma grows_chunk: "grows r (snd (handle_chunk env data r))"
proof -
  have "grows r (snd (assemble_and_verify env dir r'))" if "rv_acks r' = rv_acks r" "rv_ready r' = rv_ready r" for dir r'
    using that
    by (auto simp: assemble_and_verify_def send_error_ack_def send_ack_def reset_state_def grows_def Let_def split: sum.splits)
  then show ?thesis by (auto simp: handle_chunk_def Let_def grows_def split: sum.split option.split)
qed

lemma handle_model_message_Some:
  "\<exists>r res. handle_model_message loads env payload (Some self) = (res, Some r) \<and> r = deliver loads env [payload] self \<and> grows self r"
  using grows_meta [of self loads "tl payload"] grows_chunk [of self env "tl payload"]
  by (cases payload) (auto simp: handle_model_message_def deliver_def map_prod_def split: prod.split)

lemma topic_suffix_model: "cm_device_id c = dev \<Longrightarrow> topic_suffix c (''edge/'' @ dev @ ''/model'') = ''model''"
  by (simp add: topic_suffix_def topic_prefix_def)

text \<open>What is published, of a device called \<open>dev\<close>.\<close>

definition log_message :: "device_env \<Rightarrow> string \<Rightarrow> json \<Rightarrow> string \<times> bytes \<times> int \<times> bool" where
  "log_message env dev entry = (''edge/'' @ dev @ ''/log'', de_dumps env entry, 1, False)"

lemma send_log_published [simp]:
  "cm_device_id (send_log env now level message extra c) = cm_device_id c"
  "cm_published (send_log env now level message extra c) =
     cm_published c @ [log_message env (cm_device_id c) (log_entry now level message extra)]"
  by (simp_all add: send_log_def comms_publish_def topic_prefix_def device_qos_def log_message_def)

lemma send_record_published [simp]:
  "cm_device_id (send_record env now r c) = cm_device_id c"
  "cm_published (send_record env now r c) =
     cm_published c @ [log_message env (cm_device_id c) (log_entry now (fst r) (snd r) JNull)]"
  by (simp_all add: send_record_def split: prod.split)

lemma publish_ack_published [simp]:
  "cm_device_id (publish_ack env ack c) = cm_device_id c"
  "cm_published (publish_ack env ack c) =
     cm_published c @ [(''edge/'' @ cm_device_id c @ ''/model'', model_type_ack # de_dumps env ack, 2, False)]"
  by (simp_all add: publish_ack_def comms_publish_def topic_prefix_def device_qos_def)

lemma send_notices_published [simp]:
  "cm_device_id (send_notices env now ns c) = cm_device_id c \<and>
   cm_published (send_notices env now ns c) =
     cm_published c @ map (\<lambda>(level, message, extra). log_message env (cm_device_id c) (log_entry now level message extra)) ns"
  by (induction ns arbitrary: c) (auto simp: send_notices_def)

text \<open>What a device changes: its messages, its receiver and its manager.\<close>

definition device_says :: "string \<Rightarrow> (string \<times> bytes \<times> int \<times> bool) list \<Rightarrow> device \<Rightarrow> device \<Rightarrow> bool" where
  "device_says dev ms d d' \<longleftrightarrow> cm_device_id (ed_comms (dc_edge d)) = dev \<and> cm_device_id (ed_comms (dc_edge d')) = dev \<and>
     cm_published (ed_comms (dc_edge d')) = cm_published (ed_comms (dc_edge d)) @ ms"

lemma device_says_trans: "device_says dev ms d d' \<Longrightarrow> device_says dev ns d' d'' \<Longrightarrow> device_says dev (ms @ ns) d d''"
  by (simp add: device_says_def)

text \<open>A message that neither acknowledges nor hands over anything.\<close>

lemma quiet_message:
  assumes "cm_device_id (ed_comms (dc_edge d)) = dev" "handle_model_message (de_loads env) renv p (Some (dc_receiver d)) = (res, Some r)"
    and "rv_acks r = rv_acks (dc_receiver d)" "rv_ready r = rv_ready (dc_receiver d)"
    and "d' = snd (comms_on_message env renv ft now (''edge/'' @ dev @ ''/model'') p d)"
    and "model_records env renv (ft_trace ft) p (dc_receiver d) = records" "length records \<le> 1"
  shows "device_says dev (map (\<lambda>(level, message). log_message env dev (log_entry now level message JNull)) records) d d' \<and>
    dc_receiver d' = r \<and> dc_manager d' = dc_manager d"
  using assms topic_suffix_model [OF assms(1)]
  by (cases records) (auto simp: comms_on_message_def Let_def device_says_def send_notices_def split: prod.split)

text \<open>A message on which one file is acknowledged and handed over.\<close>

lemma handover_message:
  assumes "cm_device_id (ed_comms (dc_edge d)) = dev" "handle_model_message (de_loads env) renv p (Some (dc_receiver d)) = (res, Some r)"
    and "rv_acks r = rv_acks (dc_receiver d) @ [ack]" "rv_ready r = rv_ready (dc_receiver d) @ [file]"
    and "d' = snd (comms_on_message env renv ft now (''edge/'' @ dev @ ''/model'') p d)"
    and "model_records env renv (ft_trace ft) p (dc_receiver d) = []" "install_new_model ft (Some file) (dc_manager d) = (Inr (), mg)"
    and "mg_notices mg = mg_notices (dc_manager d) @ ns"
  shows "device_says dev ((''edge/'' @ dev @ ''/model'', model_type_ack # de_dumps env ack, 2, False) #
      map (\<lambda>(level, message, extra). log_message env dev (log_entry now level message extra)) ns) d d' \<and>
    dc_receiver d' = r \<and> dc_manager d' = mg"
  using assms topic_suffix_model [OF assms(1)]
  by (auto simp: comms_on_message_def Let_def device_says_def on_model_ready_def)

subsection \<open>The chunks of a model on the device\<close>

lemma model_chunk:
  "handle_model_message loads renv (chunk_message xs i) (Some r) = map_prod id Some (handle_chunk renv (tl (chunk_message xs i)) r)"
  "model_records env renv trace (chunk_message xs i) r = chunk_records renv (tl (chunk_message xs i)) r"
  using chunk_message_parts(2,3) [of xs i]
  by (cases "chunk_message xs i"; simp add: handle_model_message_def model_records_def model_type_meta_def model_type_chunk_def)+

lemma chunk_records_message:
  assumes "int i < 2 ^ 32"
  shows "chunk_records renv (tl (chunk_message xs i)) r =
    (case rv_temp_dir r of
       None \<Rightarrow> [(''warning'', ''Chunk '' @ digits i @ '' received but no active transfer'')]
     | Some dir \<Rightarrow>
         let dir = dict_set dir (chunk_name i) (chunk_data model_chunk_size xs (int i));
             r = r\<lparr>rv_temp_dir := Some dir, rv_received_chunks := List.insert i (rv_received_chunks r)\<rparr>
         in if equals_int (length (rv_received_chunks r)) (rv_total_chunks r) then assembly_records renv dir r else [])"
proof -
  have i: "unat (word_of_nat i :: 32 word) = i" using unat_int [of "int i"] assms by simp
  show ?thesis
    using chunk_message_parts(1) [of xs i]
    by (simp add: chunk_records_def drop_Suc unpack_u32_bytes i Let_def split: option.split)
qed

lemma assembly_recorded:
  "assembly_records renv dir r \<noteq> [] \<Longrightarrow>
   rv_acks (snd (assemble_and_verify renv dir r)) \<noteq> rv_acks r \<and> rv_ready (snd (assemble_and_verify renv dir r)) = rv_ready r"
  by (auto simp: assembly_records_def assemble_and_verify_def send_error_ack_def send_ack_def Let_def split: sum.splits if_splits)

lemma chunk_recorded:
  assumes "int i < 2 ^ 32" "rv_temp_dir r = Some dir" "chunk_records renv (tl (chunk_message xs i)) r \<noteq> []"
  shows "rv_acks (snd (handle_chunk renv (tl (chunk_message xs i)) r)) \<noteq> rv_acks r \<and>
    rv_ready (snd (handle_chunk renv (tl (chunk_message xs i)) r)) = rv_ready r"
  using assms(2,3) assembly_recorded
  unfolding handle_chunk_message [OF assms(1)] chunk_records_message [OF assms(1)]
  by (fastforce simp: Let_def split: if_splits)

text \<open>A chunk during the transfer.\<close>

lemma receiving_chunk:
  assumes "receiving path xs acks ready (dc_receiver d)" "i < chunk_count xs" "int i < 2 ^ 32"
    and "re_mkstemp_ok renv (JStr (base_name path))" "cm_device_id (ed_comms (dc_edge d)) = dev"
    and "install_new_model ft (Some xs) (dc_manager d) = (Inr (), mg)" "mg_notices mg = mg_notices (dc_manager d) @ ns"
    and "d' = snd (comms_on_message env renv ft now (''edge/'' @ dev @ ''/model'') (chunk_message xs i) d)"
  shows "if insert i (set (rv_received_chunks (dc_receiver d))) = {..<chunk_count xs}
    then rv_temp_dir (dc_receiver d') = None \<and> dc_manager d' = mg \<and>
      device_says dev ((''edge/'' @ dev @ ''/model'', model_type_ack # de_dumps env (success_ack (JStr (base_name path))), 2, False) #
        map (\<lambda>(level, message, extra). log_message env dev (log_entry now level message extra)) ns) d d'
    else receiving path xs acks ready (dc_receiver d') \<and> dc_manager d' = dc_manager d \<and> device_says dev [] d d' \<and>
      set (rv_received_chunks (dc_receiver d')) = insert i (set (rv_received_chunks (dc_receiver d)))"
proof -
  obtain res r where h: "handle_chunk renv (tl (chunk_message xs i)) (dc_receiver d) = (res, r)" by force
  then have m: "handle_model_message (de_loads env) renv (chunk_message xs i) (Some (dc_receiver d)) = (res, Some r)"
    by (simp add: model_chunk)
  have r: "r = snd (handle_chunk renv (tl (chunk_message xs i)) (dc_receiver d))" using h by simp
  note step = receiving_step [OF assms(1-4) r]
  obtain dir where dir: "rv_temp_dir (dc_receiver d) = Some dir" and old: "rv_acks (dc_receiver d) = acks" "rv_ready (dc_receiver d) = ready"
    using assms(1) by (auto simp: receiving_def)
  have "chunk_records renv (tl (chunk_message xs i)) (dc_receiver d) = []"
    using chunk_recorded [OF assms(3) dir, of renv xs] step old h
    by (auto simp: receiving_def received_all_def split: if_splits)
  then have quiet: "model_records env renv (ft_trace ft) (chunk_message xs i) (dc_receiver d) = []" by (simp add: model_chunk)
  show ?thesis
  proof (cases "insert i (set (rv_received_chunks (dc_receiver d))) = {..<chunk_count xs}")
    case True
    then have "rv_temp_dir r = None" "rv_acks r = rv_acks (dc_receiver d) @ [success_ack (JStr (base_name path))]"
        "rv_ready r = rv_ready (dc_receiver d) @ [xs]"
      using step old by (simp_all add: received_all_def)
    then show ?thesis using True handover_message [OF assms(5) m _ _ assms(8) quiet assms(6,7)] by simp
  next
    case False
    then have "receiving path xs acks ready r" "set (rv_received_chunks r) = insert i (set (rv_received_chunks (dc_receiver d)))"
      using step by simp_all
    then show ?thesis using False old quiet_message [OF assms(5) m _ _ assms(8) quiet] by (simp add: receiving_def)
  qed
qed

text \<open>A chunk after it.\<close>

definition late_warning :: "pyfloat \<times> nat \<Rightarrow> json" where
  "late_warning = (\<lambda>(now, i). log_entry now ''warning'' (''Chunk '' @ digits i @ '' received but no active transfer'') JNull)"

lemma late_chunk:
  assumes "rv_temp_dir (dc_receiver d) = None" "int i < 2 ^ 32" "cm_device_id (ed_comms (dc_edge d)) = dev"
    and "d' = snd (comms_on_message env renv ft now (''edge/'' @ dev @ ''/model'') (chunk_message xs i) d)"
  shows "device_says dev [log_message env dev (late_warning (now, i))] d d' \<and> dc_receiver d' = dc_receiver d \<and> dc_manager d' = dc_manager d"
proof -
  have m: "handle_model_message (de_loads env) renv (chunk_message xs i) (Some (dc_receiver d)) = (Inr (), Some (dc_receiver d))"
    using handle_chunk_message [OF assms(2), of renv xs "dc_receiver d"] assms(1) by (simp add: model_chunk)
  have "model_records env renv (ft_trace ft) (chunk_message xs i) (dc_receiver d) =
      [(''warning'', ''Chunk '' @ digits i @ '' received but no active transfer'')]"
    using chunk_records_message [OF assms(2), of renv xs "dc_receiver d"] assms(1) by (simp add: model_chunk)
  from quiet_message [OF assms(3) m refl refl assms(4) this] show ?thesis by (simp add: late_warning_def)
qed

lemma receive_all_Cons:
  "receive_all env renv ft topic ((now, p) # ps) d = receive_all env renv ft topic ps (snd (comms_on_message env renv ft now topic p d))"
  by (simp add: receive_all_def)

lemma late_chunks:
  assumes "rv_temp_dir (dc_receiver d) = None" "\<forall>i \<in> set ks. int i < 2 ^ 32" "cm_device_id (ed_comms (dc_edge d)) = dev"
    and "d' = receive_all env renv ft (''edge/'' @ dev @ ''/model'') (map (\<lambda>(now, i). (now, chunk_message xs i)) (zip ts ks)) d"
  shows "device_says dev (map (log_message env dev) (map late_warning (zip ts ks))) d d' \<and> dc_manager d' = dc_manager d"
  using assms
proof (induction ks arbitrary: ts d)
  case (Cons i ks)
  show ?case
  proof (cases ts)
    case ts: (Cons t us)
    let ?d = "snd (comms_on_message env renv ft t (''edge/'' @ dev @ ''/model'') (chunk_message xs i) d)"
    have one: "device_says dev [log_message env dev (late_warning (t, i))] d ?d" "dc_receiver ?d = dc_receiver d" "dc_manager ?d = dc_manager d"
      using late_chunk [OF Cons.prems(1) _ Cons.prems(3) refl, where i = i and now = t and env = env and renv = renv and ft = ft and xs = xs]
        Cons.prems(2) by simp_all
    have "d' = receive_all env renv ft (''edge/'' @ dev @ ''/model'') (map (\<lambda>(now, i). (now, chunk_message xs i)) (zip us ks)) ?d"
      using Cons.prems(4) by (simp add: ts receive_all_Cons)
    from Cons.IH [OF _ _ _ this] one Cons.prems(1,2)
    have "device_says dev (map (log_message env dev) (map late_warning (zip us ks))) ?d d' \<and> dc_manager d' = dc_manager ?d"
      by (simp add: device_says_def)
    then show ?thesis using device_says_trans [OF one(1)] one(3) by (fastforce simp: ts)
  qed (use Cons.prems in \<open>simp add: receive_all_def device_says_def\<close>)
qed (simp add: receive_all_def device_says_def)

lemma receiving_chunks:
  assumes "receiving path xs acks ready (dc_receiver d)" "set ks \<subseteq> {..<chunk_count xs}" "length xs \<le> 2 ^ 50" "length ts = length ks"
    and "re_mkstemp_ok renv (JStr (base_name path))" "cm_device_id (ed_comms (dc_edge d)) = dev"
    and "install_new_model ft (Some xs) (dc_manager d) = (Inr (), mg)" "mg_notices mg = mg_notices (dc_manager d) @ ns"
    and "set (rv_received_chunks (dc_receiver d)) \<union> set ks = {..<chunk_count xs}"
    and "d' = receive_all env renv ft (''edge/'' @ dev @ ''/model'') (map (\<lambda>(now, i). (now, chunk_message xs i)) (zip ts ks)) d"
  shows "dc_manager d' = mg \<and> (\<exists>now late.
    device_says dev ((''edge/'' @ dev @ ''/model'', model_type_ack # de_dumps env (success_ack (JStr (base_name path))), 2, False) #
      map (\<lambda>(level, message, extra). log_message env dev (log_entry now level message extra)) ns @
      map (log_message env dev) (map late_warning late)) d d')"
  using assms(1,2,4,6-)
proof (induction ks arbitrary: ts d)
  case Nil
  then show ?case by (auto simp: receiving_def)
next
  case (Cons i ks)
  obtain t us where ts: "ts = t # us" "length us = length ks" using Cons.prems(3) by (cases ts) auto
  let ?d = "snd (comms_on_message env renv ft t (''edge/'' @ dev @ ''/model'') (chunk_message xs i) d)"
  have i: "i < chunk_count xs" "int i < 2 ^ 32" and small: "\<forall>i \<in> set ks. int i < 2 ^ 32"
    using Cons.prems(2) index_fits [OF _ assms(3)] by auto
  have d': "d' = receive_all env renv ft (''edge/'' @ dev @ ''/model'') (map (\<lambda>(now, i). (now, chunk_message xs i)) (zip us ks)) ?d"
    using Cons.prems(8) by (simp add: ts receive_all_Cons)
  note one = receiving_chunk [OF Cons.prems(1) i assms(5) Cons.prems(4-6) refl, where env = env and now = t]
  show ?case
  proof (cases "insert i (set (rv_received_chunks (dc_receiver d))) = {..<chunk_count xs}")
    case True
    note one' = one [unfolded if_P [OF True]]
    have "device_says dev (map (log_message env dev) (map late_warning (zip us ks))) ?d d' \<and> dc_manager d' = dc_manager ?d"
      using late_chunks [OF _ small _ d'] one' by (simp add: device_says_def)
    then show ?thesis using one' device_says_trans [OF one' [THEN conjunct2, THEN conjunct2]]
      by (intro conjI exI [of _ t] exI [of _ "zip us ks"]) (auto simp del: map_map)
  next
    case False
    note one' = one [unfolded if_not_P [OF False]]
    have ih: "dc_manager d' = mg \<and> (\<exists>now late.
      device_says dev ((''edge/'' @ dev @ ''/model'', model_type_ack # de_dumps env (success_ack (JStr (base_name path))), 2, False) #
        map (\<lambda>(level, message, extra). log_message env dev (log_entry now level message extra)) ns @
        map (log_message env dev) (map late_warning late)) ?d d')"
    proof (rule Cons.IH [OF _ _ _ _ _ _ _ d'])
      show "set (rv_received_chunks (dc_receiver ?d)) \<union> set ks = {..<chunk_count xs}" using one' Cons.prems(7) by auto
    qed (use one' Cons.prems(2,5,6) ts in \<open>simp_all add: device_says_def\<close>)
    have "device_says dev ms d d'" if "device_says dev ms ?d d'" for ms
      using device_says_trans [of dev "[]" d ?d ms d'] one' that by simp
    then show ?thesis using ih by (elim conjE exE) (rule conjI, assumption, rule exI, rule exI)
  qed
qed

subsection \<open>Properties\<close>


definition example_device :: device where
  "example_device = \<lparr>dc_edge = example_edge, dc_receiver = new_receiver,
     dc_manager = \<lparr>mg_filename = ''best.pt'', mg_backup_path = ''backup/best.pt'', mg_current = Some [1], mg_backup = None, mg_model = [1], mg_paused = False, mg_notices = []\<rparr>\<rparr>"


end
