(* ===== verification/Edge_Run.thy ===== *)
theory Edge_Run
  imports Edge_System
begin

text \<open>
  The process of \<open>Edge/main.py\<close>: its start, the threads of the camera, of the inference and of the
  network, and the end of the main thread.  A run is a list of actions of the threads; an action
  that is not possible where its thread is changes nothing.  Properties: what a stop command and a
  shutdown leave to be counted, and how a device leaves.
\<close>

subsection \<open>The threads\<close>

text \<open>
  The camera thread looks at its flags or reads a frame; the inference thread looks at the shutdown
  event, waits for a frame or has one; the main thread loads the model, waits for the shutdown,
  joins the other two, publishes that it is offline, disconnects the client, stops the network
  loop, and has returned or died.  The other threads can act between any two of its steps.
\<close>

datatype camera_place = Camera_none | Camera_top | Camera_reading | Camera_ended
datatype infer_place = Infer_none | Infer_top | Infer_waiting | Infer_frame string | Infer_ended
datatype main_place = Main_loading | Main_waiting | Main_joins_camera | Main_joins_infer
  | Main_publishes | Main_disconnects | Main_stops_loop | Main_returned | Main_died

record edge_process =
  ep_device :: device
  ep_camera :: camera_place
  ep_infer :: infer_place
  ep_main :: main_place
  ep_stopped :: bool
  ep_shutdown :: bool
  ep_network :: bool

record edge_config =
  ec_device_id :: string
  ec_camera_index :: string
  ec_model_filename :: string
  ec_backup_path :: string

definition on_edge :: "(edge \<Rightarrow> edge) \<Rightarrow> edge_process \<Rightarrow> edge_process" where
  "on_edge f p = p\<lparr>ep_device := (ep_device p)\<lparr>dc_edge := f (dc_edge (ep_device p))\<rparr>\<rparr>"

definition on_comms :: "(comms \<Rightarrow> comms) \<Rightarrow> edge_process \<Rightarrow> edge_process" where
  "on_comms f = on_edge (\<lambda>e. e\<lparr>ed_comms := f (ed_comms e)\<rparr>)"

text \<open>
  Before the model is loaded: the broker was reached and the network loop is started, neither the
  receiver nor the command handler is registered.  \<open>current\<close> and \<open>backup\<close> are the model files.
\<close>

definition new_process :: "device_env \<Rightarrow> edge_config \<Rightarrow> bytes option \<Rightarrow> bytes option \<Rightarrow> edge_process" where
  "new_process env cfg current backup =
     \<lparr>ep_device = \<lparr>dc_edge = \<lparr>ed_settings = new_settings, ed_comms = new_comms env (ec_device_id cfg), ed_buffer = None,
          ed_files = [], ed_last_image = 0\<rparr>,
        dc_receiver = new_receiver,
        dc_manager = \<lparr>mg_filename = ec_model_filename cfg, mg_backup_path = ec_backup_path cfg, mg_current = current, mg_backup = backup, mg_model = [], mg_paused = False, mg_notices = []\<rparr>\<rparr>,
      ep_camera = Camera_none, ep_infer = Infer_none, ep_main = Main_loading,
      ep_stopped = False, ep_shutdown = False, ep_network = True\<rparr>"

text \<open>\<open>sys.exit(1)\<close> when the broker cannot be reached.\<close>

definition edge_start :: "device_env \<Rightarrow> edge_config \<Rightarrow> bytes option \<Rightarrow> bytes option \<Rightarrow> bool \<Rightarrow> int + edge_process" where
  "edge_start env cfg current backup reached = (if reached then Inr (new_process env cfg current backup) else Inl 1)"

subsection \<open>The actions\<close>

text \<open>
  \<open>Loads\<close> has which files the inference library can load, whether the camera opens, and the clock;
  \<open>Camera_raises\<close> is an exception in the capture loop, which nothing catches; \<open>Logs\<close> is a record of
  level \<open>WARNING\<close> or above, other than those of the messages received; \<open>Main_goes\<close> tells whether a join ran into its timeout.
\<close>

datatype edge_action =
    Loads "bytes \<Rightarrow> bool" bool pyfloat
  | Camera_checks
  | Camera_reads bool string
  | Camera_raises
  | Infer_checks
  | Infer_takes
  | Infer_counts "nat result" pyfloat pyfloat "bytes option"
  | Connects bool
  | Receives faults pyfloat string bytes
  | Logs string string pyfloat
  | Signals
  | Main_goes bool

text \<open>A message once the callbacks are registered.  An exception ends the network thread.\<close>

definition device_receives ::
    "device_env \<Rightarrow> receiver_env \<Rightarrow> faults \<Rightarrow> pyfloat \<Rightarrow> string \<Rightarrow> bytes \<Rightarrow> edge_process \<Rightarrow> edge_process" where
  "device_receives env renv ft now topic payload p =
     (case comms_on_message env renv ft now topic payload (ep_device p) of
        (r, d) \<Rightarrow> p\<lparr>ep_device := d, ep_network := (r = Inr ())\<rparr>)"

text \<open>\<open>CrowdCounter.__init__\<close>, which raises unless the model loads, and \<open>ThermalCamera.start\<close>.\<close>

definition load_counter :: "(bytes \<Rightarrow> bool) \<Rightarrow> edge_process \<Rightarrow> edge_process option" where
  "load_counter loads p =
     (case mg_current (dc_manager (ep_device p)) of
        None \<Rightarrow> None
      | Some file \<Rightarrow>
          if loads file then Some (p\<lparr>ep_device := (ep_device p)\<lparr>dc_manager := (dc_manager (ep_device p))\<lparr>mg_model := file, mg_paused := False\<rparr>\<rparr>\<rparr>)
          else None)"

definition camera_start :: "device_env \<Rightarrow> edge_config \<Rightarrow> bool \<Rightarrow> pyfloat \<Rightarrow> edge_process \<Rightarrow> edge_process" where
  "camera_start env cfg opened now p =
     (if opened then p\<lparr>ep_stopped := False, ep_camera := Camera_top\<rparr>
      else on_comms (send_log env now ''error'' (''Failed to open camera device: '' @ ec_camera_index cfg) JNull) p)"

text \<open>What follows the start of the network loop: the model, the wiring, the camera and the inference thread.\<close>

definition finish_start :: "device_env \<Rightarrow> edge_config \<Rightarrow> (bytes \<Rightarrow> bool) \<Rightarrow> bool \<Rightarrow> pyfloat \<Rightarrow> edge_process \<Rightarrow> edge_process" where
  "finish_start env cfg loads opened now p =
     (case load_counter loads p of
        None \<Rightarrow> p\<lparr>ep_main := Main_died\<rparr>
      | Some p \<Rightarrow>
          let p = on_edge (\<lambda>e. e\<lparr>ed_last_image := now\<rparr>) ((camera_start env cfg opened now p)\<lparr>ep_infer := Infer_top\<rparr>)
          in on_comms (send_log env now ''info'' ''Edge device started'' (JObj [(''device_id'', JStr (ec_device_id cfg))]))
               (p\<lparr>ep_main := Main_waiting\<rparr>))"

text \<open>\<open>ThermalCamera.stop\<close> up to its join and after it.\<close>

definition camera_stop :: "edge_process \<Rightarrow> edge_process" where
  "camera_stop p = p\<lparr>ep_stopped := True, ep_main := Main_joins_camera\<rparr>"

definition camera_joined :: "bool \<Rightarrow> edge_process \<Rightarrow> edge_process" where
  "camera_joined timed_out p =
     (if timed_out \<or> ep_camera p = Camera_none \<or> ep_camera p = Camera_ended then p\<lparr>ep_main := Main_joins_infer\<rparr> else p)"

text \<open>
  \<open>MQTTComms.disconnect\<close> is two steps, the publication of the status and \<open>client.disconnect\<close>,
  and \<open>loop_stop\<close> waits for the network thread.
\<close>

definition main_goes :: "device_env \<Rightarrow> bool \<Rightarrow> edge_process \<Rightarrow> edge_process" where
  "main_goes env timed_out p =
     (case ep_main p of
        Main_waiting \<Rightarrow> if ep_shutdown p then camera_stop p else p
      | Main_joins_camera \<Rightarrow> camera_joined timed_out p
      | Main_joins_infer \<Rightarrow> if timed_out \<or> ep_infer p = Infer_ended then p\<lparr>ep_main := Main_publishes\<rparr> else p
      | Main_publishes \<Rightarrow> on_comms (comms_disconnect env) (p\<lparr>ep_main := Main_disconnects\<rparr>)
      | Main_disconnects \<Rightarrow> p\<lparr>ep_main := Main_stops_loop\<rparr>
      | Main_stops_loop \<Rightarrow> p\<lparr>ep_main := Main_returned, ep_network := False\<rparr>
      | _ \<Rightarrow> p)"

text \<open>The signal handlers are installed once everything is started; a signal before kills the process.\<close>

fun edge_act :: "device_env \<Rightarrow> receiver_env \<Rightarrow> edge_config \<Rightarrow> edge_action \<Rightarrow> edge_process \<Rightarrow> edge_process" where
  "edge_act env renv cfg (Loads loads opened now) p = (if ep_main p = Main_loading then finish_start env cfg loads opened now p else p)"
| "edge_act env renv cfg Camera_checks p =
     (if ep_camera p = Camera_top then
        p\<lparr>ep_camera := (if ep_stopped p then Camera_ended
           else if cf_pipeline_active (ed_settings (dc_edge (ep_device p))) then Camera_reading else Camera_top)\<rparr>
      else p)"
| "edge_act env renv cfg (Camera_reads ret path) p =
     (if ep_camera p = Camera_reading then on_edge (capture_frame ret path) (p\<lparr>ep_camera := Camera_top\<rparr>) else p)"
| "edge_act env renv cfg Camera_raises p = (if ep_camera p = Camera_reading then p\<lparr>ep_camera := Camera_ended\<rparr> else p)"
| "edge_act env renv cfg Infer_checks p =
     (if ep_infer p = Infer_top then p\<lparr>ep_infer := (if ep_shutdown p then Infer_ended else Infer_waiting)\<rparr> else p)"
| "edge_act env renv cfg Infer_takes p =
     (if ep_infer p = Infer_waiting then
        p\<lparr>ep_infer := (case ed_buffer (dc_edge (ep_device p)) of None \<Rightarrow> Infer_top | Some path \<Rightarrow> Infer_frame path),
          ep_device := (ep_device p)\<lparr>dc_edge := snd (buffer_get (dc_edge (ep_device p)))\<rparr>\<rparr>
      else p)"
| "edge_act env renv cfg (Infer_counts boxes t now file) p =
     (case ep_infer p of
        Infer_frame path \<Rightarrow>
          if mg_paused (dc_manager (ep_device p)) then p
          else on_edge (infer_frame env boxes t now file path) (p\<lparr>ep_infer := Infer_top\<rparr>)
      | _ \<Rightarrow> p)"
| "edge_act env renv cfg (Connects is_failure) p = (if ep_network p then on_comms (comms_on_connect env is_failure) p else p)"
| "edge_act env renv cfg (Receives ft now topic payload) p =
     (if ep_network p \<and> ep_main p \<noteq> Main_loading then device_receives env renv ft now topic payload p else p)"
| "edge_act env renv cfg (Logs level message now) p = on_comms (send_log env now level message JNull) p"
| "edge_act env renv cfg Signals p = (if ep_main p = Main_loading then p\<lparr>ep_main := Main_died\<rparr> else p\<lparr>ep_shutdown := True\<rparr>)"
| "edge_act env renv cfg (Main_goes timed_out) p = main_goes env timed_out p"

text \<open>The other threads are daemons: they end with the main thread.\<close>

definition edge_step :: "device_env \<Rightarrow> receiver_env \<Rightarrow> edge_config \<Rightarrow> edge_action \<Rightarrow> edge_process \<Rightarrow> edge_process" where
  "edge_step env renv cfg a p =
     (if ep_main p = Main_returned \<or> ep_main p = Main_died then p else edge_act env renv cfg a p)"

definition edge_run :: "device_env \<Rightarrow> receiver_env \<Rightarrow> edge_config \<Rightarrow> edge_action list \<Rightarrow> edge_process \<Rightarrow> edge_process" where
  "edge_run env renv cfg acts p = fold (edge_step env renv cfg) acts p"

subsection \<open>What is counted\<close>

text \<open>The counts published, and the frames that may still be counted.\<close>

definition counts_sent :: "comms \<Rightarrow> nat" where
  "counts_sent c = length (filter (\<lambda>m. fst m = topic_prefix c @ ''/crowdCount'') (cm_published c))"

definition counted :: "edge_process \<Rightarrow> nat" where
  "counted p = counts_sent (ed_comms (dc_edge (ep_device p)))"

definition held :: "edge_process \<Rightarrow> nat" where
  "held p = (case ep_infer p of Infer_frame _ \<Rightarrow> 1 | _ \<Rightarrow> 0)"

definition pending :: "edge_process \<Rightarrow> nat" where
  "pending p = of_bool (ep_camera p = Camera_reading) + of_bool (ed_buffer (dc_edge (ep_device p)) \<noteq> None) + held p"

text \<open>What only publishes messages of some kinds, and what does not publish a count.\<close>

definition adds :: "string set \<Rightarrow> (comms \<Rightarrow> comms) \<Rightarrow> bool" where
  "adds kinds f \<longleftrightarrow> (\<forall>c. cm_device_id (f c) = cm_device_id c \<and>
     (\<exists>ms. cm_published (f c) = cm_published c @ ms \<and> (\<forall>m \<in> set ms. \<exists>k \<in> kinds. fst m = topic_prefix c @ ''/'' @ k)))"

definition speaks :: "(comms \<Rightarrow> comms) \<Rightarrow> bool" where
  "speaks f \<longleftrightarrow> (\<forall>c. counts_sent (f c) = counts_sent c \<and> cm_device_id (f c) = cm_device_id c)"

lemma adds_speaks: "adds kinds f \<Longrightarrow> ''crowdCount'' \<notin> kinds \<Longrightarrow> speaks f"
  unfolding speaks_def
proof (rule allI)
  fix c
  assume f: "adds kinds f" "''crowdCount'' \<notin> kinds"
  then obtain ms where ms: "cm_device_id (f c) = cm_device_id c" "cm_published (f c) = cm_published c @ ms"
      "\<forall>m \<in> set ms. \<exists>k \<in> kinds. fst m = topic_prefix c @ ''/'' @ k"
    unfolding adds_def by blast
  then have "filter (\<lambda>m. fst m = topic_prefix c @ ''/crowdCount'') ms = []"
    using f(2) by (fastforce simp: filter_empty_conv)
  then show "counts_sent (f c) = counts_sent c \<and> cm_device_id (f c) = cm_device_id c"
    using ms(1,2) by (simp add: counts_sent_def topic_prefix_def)
qed

lemma adds_mono: "adds kinds f \<Longrightarrow> kinds \<subseteq> kinds' \<Longrightarrow> adds kinds' f"
  unfolding adds_def by (meson subsetD)

lemma adds_id [simp]: "adds kinds id"
  by (simp add: adds_def)

lemma adds_comp: "adds kinds f \<Longrightarrow> adds kinds g \<Longrightarrow> adds kinds (f \<circ> g)"
  unfolding adds_def topic_prefix_def comp_def
proof (rule allI)
  fix c
  assume f: "\<forall>c. cm_device_id (f c) = cm_device_id c \<and> (\<exists>ms. cm_published (f c) = cm_published c @ ms \<and>
      (\<forall>m \<in> set ms. \<exists>k \<in> kinds. fst m = (''edge/'' @ cm_device_id c) @ ''/'' @ k))"
    and g: "\<forall>c. cm_device_id (g c) = cm_device_id c \<and> (\<exists>ms. cm_published (g c) = cm_published c @ ms \<and>
      (\<forall>m \<in> set ms. \<exists>k \<in> kinds. fst m = (''edge/'' @ cm_device_id c) @ ''/'' @ k))"
  obtain ms where ms: "cm_device_id (g c) = cm_device_id c" "cm_published (g c) = cm_published c @ ms"
      "\<forall>m \<in> set ms. \<exists>k \<in> kinds. fst m = (''edge/'' @ cm_device_id c) @ ''/'' @ k" using g by blast
  obtain ns where ns: "cm_device_id (f (g c)) = cm_device_id (g c)" "cm_published (f (g c)) = cm_published (g c) @ ns"
      "\<forall>m \<in> set ns. \<exists>k \<in> kinds. fst m = (''edge/'' @ cm_device_id (g c)) @ ''/'' @ k" using f by blast
  show "cm_device_id (f (g c)) = cm_device_id c \<and> (\<exists>ms. cm_published (f (g c)) = cm_published c @ ms \<and>
      (\<forall>m \<in> set ms. \<exists>k \<in> kinds. fst m = (''edge/'' @ cm_device_id c) @ ''/'' @ k))"
    using ms ns by (intro conjI exI [of _ "ms @ ns"]) (simp_all add: ball_Un)
qed

lemma adds_publish: "kind \<in> kinds \<Longrightarrow> adds kinds (comms_publish kind payload retain)"
  by (simp add: adds_def comms_publish_def topic_prefix_def)

lemma adds_log [simp]: "''log'' \<in> kinds \<Longrightarrow> adds kinds (send_log env now level message extra)"
  by (simp add: send_log_def [abs_def] adds_publish)

lemma adds_record [simp]: "''log'' \<in> kinds \<Longrightarrow> adds kinds (send_record env now r)"
  by (simp add: send_record_def split: prod.split)

lemma adds_ack [simp]: "''model'' \<in> kinds \<Longrightarrow> adds kinds (publish_ack env ack)"
  by (simp add: publish_ack_def [abs_def] adds_publish)

lemma adds_fold: "(\<And>x. x \<in> set xs \<Longrightarrow> adds kinds (f x)) \<Longrightarrow> adds kinds (fold f xs)"
  by (induction xs) (simp_all add: adds_comp)

lemma adds_notices [simp]: "''log'' \<in> kinds \<Longrightarrow> adds kinds (send_notices env now notices)"
  unfolding send_notices_def by (rule adds_fold) (simp split: prod.split)

lemma speaks_log [simp]: "speaks (send_log env now level message extra)"
  by (rule adds_speaks [of "{''log''}"]) simp_all

lemma speaks_disconnect [simp]: "speaks (comms_disconnect env)"
  unfolding comms_disconnect_def [abs_def] by (rule adds_speaks [OF adds_publish [of _ "{''status''}"]]) simp_all

lemma speaks_connect [simp]: "speaks (comms_on_connect env is_failure)"
  by (simp add: speaks_def comms_on_connect_def Let_def comms_publish_def counts_sent_def topic_prefix_def)

lemma adds_send_image: "adds {''image''} (\<lambda>c. snd (send_image env now path file meta c))"
  by (simp add: adds_def send_image_def comms_publish_def topic_prefix_def Let_def split: option.split sum.split)

lemma speaks_send_image:
  "counts_sent (snd (send_image env now path file meta c)) = counts_sent c \<and> cm_device_id (snd (send_image env now path file meta c)) = cm_device_id c"
  using adds_speaks [OF adds_send_image] by (simp add: speaks_def)

lemma on_comms_simps [simp]:
  "ep_camera (on_comms f p) = ep_camera p" "ep_infer (on_comms f p) = ep_infer p" "ep_main (on_comms f p) = ep_main p"
  "ep_shutdown (on_comms f p) = ep_shutdown p" "ep_stopped (on_comms f p) = ep_stopped p" "ep_network (on_comms f p) = ep_network p"
  "ed_settings (dc_edge (ep_device (on_comms f p))) = ed_settings (dc_edge (ep_device p))"
  "ed_buffer (dc_edge (ep_device (on_comms f p))) = ed_buffer (dc_edge (ep_device p))"
  "ed_comms (dc_edge (ep_device (on_comms f p))) = f (ed_comms (dc_edge (ep_device p)))"
  "dc_manager (ep_device (on_comms f p)) = dc_manager (ep_device p)"
  by (simp_all add: on_comms_def on_edge_def)

lemma counted_on_comms: "speaks f \<Longrightarrow> counted (on_comms f p) = counted p"
  by (simp add: counted_def speaks_def)

lemma infer_frame_effect:
  "counts_sent (ed_comms (infer_frame env boxes t now file path e)) \<le> counts_sent (ed_comms e) + 1"
  "ed_buffer (infer_frame env boxes t now file path e) = ed_buffer e"
  "ed_settings (infer_frame env boxes t now file path e) = ed_settings e"
  "cm_device_id (ed_comms (infer_frame env boxes t now file path e)) = cm_device_id (ed_comms e)"
proof -
  have c: "counts_sent (send_crowd_count env data c) = counts_sent c + 1" "cm_device_id (send_crowd_count env data c) = cm_device_id c" for data c
    by (simp_all add: send_crowd_count_def comms_publish_def counts_sent_def topic_prefix_def)
  have i: "send_image env now path file JNull c = (r, c') \<Longrightarrow> counts_sent c' = counts_sent c \<and> cm_device_id c' = cm_device_id c" for c r c'
    using speaks_send_image by (metis snd_conv)
  show "counts_sent (ed_comms (infer_frame env boxes t now file path e)) \<le> counts_sent (ed_comms e) + 1"
    "ed_buffer (infer_frame env boxes t now file path e) = ed_buffer e"
    "ed_settings (infer_frame env boxes t now file path e) = ed_settings e"
    "cm_device_id (ed_comms (infer_frame env boxes t now file path e)) = cm_device_id (ed_comms e)"
    by (auto simp: infer_frame_def Let_def c dest!: i split: sum.split prod.split)
qed

subsection \<open>While the pipeline is stopped\<close>

definition active :: "edge_process \<Rightarrow> bool" where
  "active p \<longleftrightarrow> cf_pipeline_active (ed_settings (dc_edge (ep_device p)))"

definition device_id :: "edge_process \<Rightarrow> string" where
  "device_id p = cm_device_id (ed_comms (dc_edge (ep_device p)))"

text \<open>A message that is dispatched to the command handler.\<close>

fun commands :: "string \<Rightarrow> edge_action \<Rightarrow> bool" where
  "commands dev (Receives ft now topic payload) \<longleftrightarrow> drop (length (''edge/'' @ dev @ ''/'')) topic = ''admin''"
| "commands dev _ \<longleftrightarrow> False"

text \<open>A message changes the settings only when it is a command, and publishes logs and acknowledgements.\<close>

lemma command_adds:
  "adds {''log''} (\<lambda>c. ed_comms (snd (handle_admin env now command (e\<lparr>ed_comms := c\<rparr>))))"
  using adds_log [of "{''log''}" env now]
  by (auto simp: adds_def handle_admin_def Let_def split: sum.split prod.split)

lemma handle_admin_effect:
  "\<exists>f. adds {''log''} f \<and> ed_comms (snd (handle_admin env now command e)) = f (ed_comms e)"
  using command_adds [of env now command e] by (intro exI [of _ "\<lambda>c. ed_comms (snd (handle_admin env now command (e\<lparr>ed_comms := c\<rparr>)))"]) simp

lemma admin_message:
  "\<exists>f. adds {''log''} f \<and> ed_comms (on_admin_message env trace now payload e) = f (ed_comms e)"
proof (cases "de_loads env payload")
  case (Inl err)
  then show ?thesis by (intro exI [of _ "send_log env now ''error'' (''Failed to process admin message'' @ trace) JNull"])
      (simp add: on_admin_message_def)
next
  case (Inr command)
  obtain f where f: "adds {''log''} f" "ed_comms (snd (handle_admin env now command e)) = f (ed_comms e)"
    using handle_admin_effect by blast
  obtain r e' where h: "handle_admin env now command e = (r, e')" by force
  show ?thesis
  proof (cases r)
    case (Inl err)
    then show ?thesis using f h Inr
      by (intro exI [of _ "send_log env now ''error'' (''Failed to process admin message'' @ trace) JNull \<circ> f"])
        (simp add: on_admin_message_def adds_comp)
  next
    case r: (Inr u)
    then show ?thesis using f h Inr by (intro exI [of _ f]) (simp add: on_admin_message_def)
  qed
qed

lemma other_message:
  assumes "\<not> commands (device_id p) (Receives ft now topic payload)"
  shows "\<exists>f r d. adds {''log'', ''model''} f \<and> comms_on_message env renv ft now topic payload (ep_device p) = (r, d) \<and>
    dc_edge d = (dc_edge (ep_device p))\<lparr>ed_comms := f (ed_comms (dc_edge (ep_device p)))\<rparr>"
proof -
  have no: "topic_suffix (ed_comms (dc_edge (ep_device p))) topic \<noteq> ''admin''"
    using assms by (simp add: topic_suffix_def topic_prefix_def device_id_def)
  show ?thesis
  proof (cases "topic_suffix (ed_comms (dc_edge (ep_device p))) topic = ''model''")
    case True
    obtain r res where m: "handle_model_message (de_loads env) renv payload (Some (dc_receiver (ep_device p))) = (res, Some r)"
      using handle_model_message_Some by metis
    let ?d = "ep_device p"
    define say where "say = send_notices env now (drop (length (mg_notices (dc_manager ?d)))
          (mg_notices (fold (on_model_ready ft) (drop (length (rv_ready (dc_receiver ?d))) (rv_ready r)) (dc_manager ?d)))) \<circ>
        fold (publish_ack env) (drop (length (rv_acks (dc_receiver ?d))) (rv_acks r)) \<circ>
        fold (send_record env now) (model_records env renv (ft_trace ft) payload (dc_receiver ?d))"
    have "adds {''log'', ''model''} say"
      unfolding say_def by (intro adds_comp adds_notices adds_fold) simp_all
    then show ?thesis
      by (intro exI [of _ say]) (simp add: comms_on_message_def Let_def True m say_def)
  next
    case False
    then show ?thesis using no
      by (intro exI [of _ "send_record env now (''warning'', ''Message on unexpected topic: '' @ topic)"])
        (simp add: comms_on_message_def Let_def)
  qed
qed

lemma message_adds:
  fixes p :: edge_process
  shows "\<exists>f r d. adds {''log'', ''model''} f \<and> comms_on_message env renv ft now topic payload (ep_device p) = (r, d) \<and>
    ed_comms (dc_edge d) = f (ed_comms (dc_edge (ep_device p)))"
proof (cases "commands (device_id p) (Receives ft now topic payload)")
  case True
  then have "topic_suffix (ed_comms (dc_edge (ep_device p))) topic = ''admin''"
    by (simp add: topic_suffix_def topic_prefix_def device_id_def)
  moreover obtain f where "adds {''log''} f"
      "ed_comms (on_admin_message env (ft_trace ft) now payload (dc_edge (ep_device p))) = f (ed_comms (dc_edge (ep_device p)))"
    using admin_message by blast
  moreover have "adds {''log'', ''model''} f" by (rule adds_mono [OF calculation(2)]) simp
  ultimately show ?thesis by (intro exI [of _ f]) (simp add: comms_on_message_def Let_def)
next
  case False
  from other_message [OF this, of env renv] obtain f r d where "adds {''log'', ''model''} f"
      "comms_on_message env renv ft now topic payload (ep_device p) = (r, d)"
      "dc_edge d = (dc_edge (ep_device p))\<lparr>ed_comms := f (ed_comms (dc_edge (ep_device p)))\<rparr>" by blast
  then show ?thesis by (intro exI [of _ f] exI [of _ r] exI [of _ d]) simp
qed

lemma other_message_effect:
  assumes "\<not> commands (device_id p) (Receives ft now topic payload)" "q = device_receives env renv ft now topic payload p"
  shows "counted q = counted p" "pending q = pending p" "active q = active p" "device_id q = device_id p" "ep_main q = ep_main p"
proof -
  obtain f r d where f: "adds {''log'', ''model''} f" "comms_on_message env renv ft now topic payload (ep_device p) = (r, d)"
      "dc_edge d = (dc_edge (ep_device p))\<lparr>ed_comms := f (ed_comms (dc_edge (ep_device p)))\<rparr>"
    using other_message [OF assms(1)] by blast
  then have "speaks f" "q = p\<lparr>ep_device := d, ep_network := (r = Inr ())\<rparr>"
    using assms(2) by (auto simp: device_receives_def intro: adds_speaks)
  then show "counted q = counted p" "pending q = pending p" "active q = active p" "device_id q = device_id p" "ep_main q = ep_main p"
    using f(3) by (simp_all add: counted_def pending_def held_def active_def device_id_def speaks_def)
qed

lemma inactive_act:
  assumes "\<not> active p" "ep_main p \<noteq> Main_loading" "\<not> commands (device_id p) a" "q = edge_act env renv cfg a p"
  shows "counted q + pending q \<le> counted p + pending p \<and> \<not> active q \<and> ep_main q \<noteq> Main_loading \<and> device_id q = device_id p"
proof (cases a)
  case (Receives ft now topic payload)
  then show ?thesis using assms other_message_effect [of p ft now topic payload _ env renv, OF _ refl] by auto
next
  case (Infer_counts boxes t now content)
  then show ?thesis
    using assms infer_frame_effect [of env boxes t now content _ "dc_edge (ep_device p)"]
    by (auto simp: counted_def pending_def held_def active_def device_id_def on_edge_def split: infer_place.split)
next
  case (Main_goes timed_out)
  then show ?thesis using assms speaks_disconnect [of env]
    by (cases "ep_main p")
      (simp_all add: main_goes_def camera_stop_def camera_joined_def counted_def pending_def held_def active_def device_id_def speaks_def split: if_splits)
next
  case (Connects is_failure)
  then show ?thesis using assms speaks_connect [of env is_failure]
    by (auto simp: counted_def pending_def held_def active_def device_id_def speaks_def)
next
  case (Logs level message now)
  then show ?thesis using assms speaks_log [of env now level message JNull]
    by (auto simp: counted_def pending_def held_def active_def device_id_def speaks_def)
next
  case Infer_takes
  then show ?thesis using assms
    by (auto simp: counted_def pending_def held_def active_def device_id_def buffer_get_def split: option.split)
next
  case (Camera_reads ret path)
  then show ?thesis using assms
    by (auto simp: counted_def pending_def held_def active_def device_id_def on_edge_def capture_frame_def buffer_put_def)
qed (use assms in \<open>auto simp: counted_def pending_def held_def active_def device_id_def\<close>)

lemma inactive_run:
  assumes "\<not> active p" "ep_main p \<noteq> Main_loading" "\<forall>a \<in> set acts. \<not> commands (device_id p) a"
  shows "counted (edge_run env renv cfg acts p) + pending (edge_run env renv cfg acts p) \<le> counted p + pending p"
  using assms
proof (induction acts arbitrary: p)
  case (Cons a acts)
  have a: "\<not> commands (device_id p) a" using Cons.prems(3) by simp
  let ?q = "edge_step env renv cfg a p"
  have "counted ?q + pending ?q \<le> counted p + pending p \<and> \<not> active ?q \<and> ep_main ?q \<noteq> Main_loading \<and> device_id ?q = device_id p"
    using inactive_act [OF Cons.prems(1,2) a refl, of env renv cfg] Cons.prems(1,2) by (simp add: edge_step_def)
  then show ?case using Cons.IH [of ?q] Cons.prems(3) by (simp add: edge_run_def)
qed (simp add: edge_run_def)

lemma pending_le: "pending p \<le> 3"
  by (simp add: pending_def held_def split: infer_place.split)

text \<open>What a stop command does.\<close>

lemma stop_command:
  assumes "ep_network p" "ep_main p = Main_waiting" "de_loads env payload = Inr (JObj [(''action'', JStr ''stop_pipeline'')])"
    and "q = edge_step env renv cfg (Receives ft now (''edge/'' @ device_id p @ ''/admin'') payload) p"
  shows "\<not> active q \<and> counted q = counted p \<and> ep_main q = Main_waiting \<and> device_id q = device_id p"
proof -
  have "topic_suffix (ed_comms (dc_edge (ep_device p))) (''edge/'' @ device_id p @ ''/admin'') = ''admin''"
    by (simp add: topic_suffix_def topic_prefix_def device_id_def)
  then obtain d where d: "q = p\<lparr>ep_device := d, ep_network := True\<rparr>"
      "d = (ep_device p)\<lparr>dc_edge := on_admin_message env (ft_trace ft) now payload (dc_edge (ep_device p))\<rparr>"
    using assms(1,2,4) by (auto simp: edge_step_def device_receives_def comms_on_message_def Let_def)
  have "ed_comms (dc_edge d) = send_log env now ''info'' ''Pipeline stopped by admin'' JNull (ed_comms (dc_edge (ep_device p)))"
      "\<not> cf_pipeline_active (ed_settings (dc_edge d))"
    using assms(3) by (simp_all add: d(2) on_admin_message_def handle_admin_def dict_get_def Let_def)
  then show ?thesis using d(1) assms(2) speaks_log [of env now "''info''" "''Pipeline stopped by admin''" JNull]
    by (simp add: active_def counted_def device_id_def speaks_def)
qed

text \<open>
  C9: after a command has stopped the pipeline, at most three more frames are counted, the one
  that is being read, the one in the buffer and the one with the inference thread, however
  the threads go on, as long as no other command arrives.
\<close>

theorem stop_command_bounds_counts:
  assumes "ep_network p" "ep_main p = Main_waiting" "de_loads env payload = Inr (JObj [(''action'', JStr ''stop_pipeline'')])"
    and "\<forall>a \<in> set acts. \<not> commands (device_id p) a"
  shows "counted (edge_run env renv cfg (Receives ft now (''edge/'' @ device_id p @ ''/admin'') payload # acts) p) \<le> counted p + 3"
proof -
  let ?q = "edge_step env renv cfg (Receives ft now (''edge/'' @ device_id p @ ''/admin'') payload) p"
  have q: "\<not> active ?q" "counted ?q = counted p" "ep_main ?q = Main_waiting" "device_id ?q = device_id p"
    using stop_command [OF assms(1-3) refl] by simp_all
  have "counted (edge_run env renv cfg acts ?q) \<le> counted ?q + pending ?q"
    using inactive_run [of ?q acts env renv cfg] q(1,3,4) assms(4) by simp
  also have "\<dots> \<le> counted p + 3" using q(2) pending_le [of ?q] by simp
  finally show ?thesis by (simp add: edge_run_def)
qed

subsection \<open>The end\<close>

definition may_count :: "edge_process \<Rightarrow> nat" where
  "may_count p = (case ep_infer p of Infer_frame _ \<Rightarrow> 1 | Infer_waiting \<Rightarrow> 1 | _ \<Rightarrow> 0)"

lemma message_effect:
  assumes "q = device_receives env renv ft now topic payload p"
  shows "counted q = counted p \<and> ep_main q = ep_main p \<and> ep_infer q = ep_infer p \<and> ep_shutdown q = ep_shutdown p"
proof -
  obtain f r d where f: "adds {''log'', ''model''} f" "comms_on_message env renv ft now topic payload (ep_device p) = (r, d)"
      "ed_comms (dc_edge d) = f (ed_comms (dc_edge (ep_device p)))"
    using message_adds by blast
  have "speaks f" by (rule adds_speaks [OF f(1)]) simp
  then show ?thesis using f(2,3) assms by (simp add: device_receives_def counted_def speaks_def)
qed

lemma shutdown_act:
  assumes "ep_shutdown p" "ep_main p \<noteq> Main_loading" "q = edge_act env renv cfg a p"
  shows "counted q + may_count q \<le> counted p + may_count p \<and> ep_shutdown q \<and> ep_main q \<noteq> Main_loading"
proof (cases a)
  case (Receives ft now topic payload)
  then show ?thesis using assms message_effect [of _ env renv ft now topic payload p, OF refl] by (auto simp: may_count_def)
next
  case (Infer_counts boxes t now content)
  then show ?thesis
    using assms infer_frame_effect(1) [of env boxes t now content _ "dc_edge (ep_device p)"]
    by (auto simp: counted_def may_count_def on_edge_def split: infer_place.split)
next
  case (Main_goes timed_out)
  then show ?thesis using assms speaks_disconnect [of env]
    by (cases "ep_main p") (simp_all add: main_goes_def camera_stop_def camera_joined_def counted_def may_count_def speaks_def split: if_splits)
next
  case (Connects is_failure)
  then show ?thesis using assms speaks_connect [of env is_failure] by (auto simp: counted_def may_count_def speaks_def)
next
  case (Logs level message now)
  then show ?thesis using assms speaks_log [of env now level message JNull] by (auto simp: counted_def may_count_def speaks_def)
next
  case Infer_takes
  then show ?thesis using assms by (auto simp: counted_def may_count_def buffer_get_def split: option.split)
next
  case (Camera_reads ret path)
  then show ?thesis using assms by (auto simp: counted_def may_count_def on_edge_def capture_frame_def buffer_put_def)
qed (use assms in \<open>auto simp: counted_def may_count_def\<close>)

text \<open>The status messages, and where the main thread is in its end.\<close>

definition status_message :: "device_env \<Rightarrow> string \<Rightarrow> bool \<Rightarrow> string \<times> bytes \<times> int \<times> bool" where
  "status_message env dev b = (''edge/'' @ dev @ ''/status'', de_dumps env (JObj [(''online'', JBool b)]), 1, True)"

definition statuses :: "edge_process \<Rightarrow> (string \<times> bytes \<times> int \<times> bool) list" where
  "statuses p = filter (\<lambda>m. fst m = ''edge/'' @ device_id p @ ''/status'') (cm_published (ed_comms (dc_edge (ep_device p))))"

definition ending :: "main_place set" where
  "ending = {Main_waiting, Main_joins_camera, Main_joins_infer, Main_publishes, Main_disconnects, Main_stops_loop}"

definition said_offline :: "edge_process \<Rightarrow> bool" where
  "said_offline p \<longleftrightarrow> ep_main p \<in> {Main_disconnects, Main_stops_loop, Main_returned}"

definition main_left :: "edge_process \<Rightarrow> nat" where
  "main_left p = (case ep_main p of Main_waiting \<Rightarrow> 6 | Main_joins_camera \<Rightarrow> 5 | Main_joins_infer \<Rightarrow> 4
     | Main_publishes \<Rightarrow> 3 | Main_disconnects \<Rightarrow> 2 | Main_stops_loop \<Rightarrow> 1 | _ \<Rightarrow> 0)"

lemma status_not_added:
  assumes "adds kinds f" "''status'' \<notin> kinds" "ed_comms (dc_edge (ep_device q)) = f (ed_comms (dc_edge (ep_device p)))"
  shows "statuses q = statuses p \<and> device_id q = device_id p"
proof -
  let ?c = "ed_comms (dc_edge (ep_device p))"
  obtain ms where ms: "cm_device_id (f ?c) = cm_device_id ?c" "cm_published (f ?c) = cm_published ?c @ ms"
      "\<forall>m \<in> set ms. \<exists>k \<in> kinds. fst m = topic_prefix ?c @ ''/'' @ k"
    using assms(1) unfolding adds_def by blast
  then have "filter (\<lambda>m. fst m = ''edge/'' @ cm_device_id ?c @ ''/status'') ms = []"
    using assms(2) by (fastforce simp: filter_empty_conv topic_prefix_def)
  then show ?thesis using ms assms(3) by (simp add: statuses_def device_id_def)
qed

lemma adds_infer_frame:
  "\<exists>f. adds {''crowdCount'', ''image''} f \<and> ed_comms (infer_frame env boxes t now file path e) = f (ed_comms e)"
proof -
  let ?send = "\<lambda>n. send_crowd_count env (count_result t n e)" and ?image = "\<lambda>c. snd (send_image env now path file JNull c)"
  have k: "adds {''crowdCount'', ''image''} ?image" "adds {''crowdCount'', ''image''} (?send n)" for n
    by (rule adds_mono [OF adds_send_image]) (simp_all add: send_crowd_count_def [abs_def] adds_publish)
  show ?thesis
  proof (cases boxes)
    case (Inl e)
    then show ?thesis by (intro exI [of _ id]) (simp add: infer_frame_def)
  next
    case (Inr n)
    show ?thesis
    proof (cases "cf_image_send_interval (ed_settings e) \<le> fsub now (ed_last_image e)")
      case True
      then show ?thesis using Inr adds_comp [OF k(1) k(2) [of n]]
        by (intro exI [of _ "?image \<circ> ?send n"]) (simp add: infer_frame_def Let_def split: prod.split sum.split)
    next
      case False
      then show ?thesis using Inr k(2) [of n] by (intro exI [of _ "?send n"]) (simp add: infer_frame_def Let_def)
    qed
  qed
qed

text \<open>What an action adds to the status messages.\<close>

lemma status_act:
  assumes "ep_main p \<in> ending" "q = edge_act env renv cfg a p" "ep_shutdown p"
  shows "device_id q = device_id p \<and> ep_main q \<in> insert Main_returned ending \<and> (said_offline p \<longrightarrow> said_offline q) \<and>
    main_left q + (if a = Main_goes True then 1 else 0) \<le> main_left p \<and>
    statuses q = statuses p @ (if \<not> said_offline p \<and> said_offline q then [status_message env (device_id p) False]
      else if a = Connects False \<and> ep_network p then [status_message env (device_id p) True] else [])"
proof -
  have same: ?thesis if "adds kinds f" "''status'' \<notin> kinds" "ep_main q = ep_main p" "\<forall>b. a \<noteq> Main_goes b" "\<not> (a = Connects False \<and> ep_network p)"
      "ed_comms (dc_edge (ep_device q)) = f (ed_comms (dc_edge (ep_device p)))" for kinds f
    using status_not_added [OF that(1,2,6)] that(3-5) assms(1) by (auto simp: said_offline_def main_left_def)
  have idle: ?thesis if "ep_main q = ep_main p" "\<forall>b. a \<noteq> Main_goes b" "\<not> (a = Connects False \<and> ep_network p)"
      "ed_comms (dc_edge (ep_device q)) = ed_comms (dc_edge (ep_device p))"
    by (rule same [of "{}" id]) (use that in simp_all)
  have prefix: "topic_prefix (ed_comms (dc_edge (ep_device p))) = ''edge/'' @ device_id p"
    by (simp add: topic_prefix_def device_id_def)
  show ?thesis
  proof (cases a)
    case (Receives ft now topic payload)
    obtain f r d where f: "adds {''log'', ''model''} f" "comms_on_message env renv ft now topic payload (ep_device p) = (r, d)"
        "ed_comms (dc_edge d) = f (ed_comms (dc_edge (ep_device p)))"
      using message_adds by blast
    show ?thesis
    proof (cases "ep_network p")
      case True
      then show ?thesis using f assms(1,2) Receives by (intro same [OF f(1)]) (auto simp: device_receives_def ending_def)
    qed (use Receives assms(2) in \<open>intro idle; simp\<close>)
  next
    case (Infer_counts boxes t now content)
    show ?thesis
    proof (cases "\<exists>path. ep_infer p = Infer_frame path \<and> \<not> mg_paused (dc_manager (ep_device p))")
      case True
      then obtain path where path: "ep_infer p = Infer_frame path" "\<not> mg_paused (dc_manager (ep_device p))" by blast
      obtain f where "adds {''crowdCount'', ''image''} f"
          "ed_comms (infer_frame env boxes t now content path (dc_edge (ep_device p))) = f (ed_comms (dc_edge (ep_device p)))"
        using adds_infer_frame by blast
      from same [OF this(1) _ _ _ _ ] this(2) show ?thesis using path Infer_counts assms(2) by (simp add: on_edge_def)
    qed (use Infer_counts assms(2) in \<open>intro idle; auto split: infer_place.split\<close>)
  next
    case (Connects is_failure)
    then show ?thesis using assms prefix
      by (cases "is_failure \<or> \<not> ep_network p")
        (auto simp: comms_on_connect_def Let_def statuses_def device_id_def comms_publish_def said_offline_def main_left_def
          status_message_def device_qos_def topic_prefix_def)
  next
    case (Main_goes timed_out)
    then show ?thesis using assms prefix
      by (cases "ep_main p")
        (auto simp: main_goes_def camera_stop_def camera_joined_def comms_disconnect_def comms_publish_def statuses_def device_id_def
          said_offline_def main_left_def ending_def status_message_def device_qos_def topic_prefix_def)
  next
    case (Logs level message now)
    show ?thesis by (rule same [OF adds_log [of "{''log''}"]]) (use Logs assms(2) in simp_all)
  qed (use assms in \<open>intro idle; auto simp: ending_def on_edge_def capture_frame_def buffer_put_def buffer_get_def\<close>)+
qed

lemma shutdown_run:
  assumes "ep_shutdown p" "ep_main p \<in> insert Main_returned ending" "q = edge_run env renv cfg acts p"
  shows "counted q \<le> counted p + may_count p \<and> (main_left p \<le> count_list acts (Main_goes True) \<longrightarrow> ep_main q = Main_returned) \<and>
    (\<exists>before after. statuses q = statuses p @ before @
         (if \<not> said_offline p \<and> said_offline q then [status_message env (device_id p) False] else []) @ after \<and>
       set (before @ after) \<subseteq> {status_message env (device_id p) True} \<and> length (before @ after) \<le> count_list acts (Connects False)) \<and>
    (said_offline p \<longrightarrow> said_offline q)"
  using assms
proof (induction acts arbitrary: p)
  case Nil
  then show ?case by (auto simp: edge_run_def main_left_def ending_def)
next
  case (Cons a acts)
  show ?case
  proof (cases "ep_main p = Main_returned")
    case True
    then have "q = edge_run env renv cfg acts p" using Cons.prems(3) by (simp add: edge_run_def edge_step_def)
    from Cons.IH [OF Cons.prems(1,2) this] obtain before after where ih: "counted q \<le> counted p + may_count p"
        "statuses q = statuses p @ before @
          (if \<not> said_offline p \<and> said_offline q then [status_message env (device_id p) False] else []) @ after"
        "set (before @ after) \<subseteq> {status_message env (device_id p) True}" "length (before @ after) \<le> count_list acts (Connects False)"
        "said_offline p \<longrightarrow> said_offline q" "main_left p \<le> count_list acts (Main_goes True) \<longrightarrow> ep_main q = Main_returned" by blast
    have "length (before @ after) \<le> count_list (a # acts) (Connects False)" using ih(4) by simp
    moreover have "ep_main q = Main_returned" using True ih(6) by (simp add: main_left_def)
    ultimately show ?thesis using ih(1-3,5) by blast
  next
    case False
    let ?r = "edge_step env renv cfg a p"
    have main: "ep_main p \<in> ending" using False Cons.prems(2) by simp
    then have r: "?r = edge_act env renv cfg a p" by (auto simp: edge_step_def ending_def)
    have "ep_main p \<noteq> Main_loading" using main by (auto simp: ending_def)
    note one = shutdown_act [OF Cons.prems(1) this r]
    note st = status_act [OF main r Cons.prems(1)]
    have q: "q = edge_run env renv cfg acts ?r" using Cons.prems(3) by (simp add: edge_run_def)
    have "ep_shutdown ?r" "ep_main ?r \<in> insert Main_returned ending" using one st by simp_all
    have dev: "device_id ?r = device_id p" using st by blast
    note ih = Cons.IH [OF \<open>ep_shutdown ?r\<close> \<open>ep_main ?r \<in> insert Main_returned ending\<close> q, unfolded dev]
    obtain before after where ba: "statuses q = statuses ?r @ before @
         (if \<not> said_offline ?r \<and> said_offline q then [status_message env (device_id p) False] else []) @ after"
       "set (before @ after) \<subseteq> {status_message env (device_id p) True}" "length (before @ after) \<le> count_list acts (Connects False)"
      using ih by blast
    have count: "main_left p \<le> count_list (a # acts) (Main_goes True) \<longrightarrow> main_left ?r \<le> count_list acts (Main_goes True)"
      using st by (simp split: if_splits)
    have "\<exists>before after. statuses q = statuses p @ before @
         (if \<not> said_offline p \<and> said_offline q then [status_message env (device_id p) False] else []) @ after \<and>
       set (before @ after) \<subseteq> {status_message env (device_id p) True} \<and> length (before @ after) \<le> count_list (a # acts) (Connects False)"
    proof (cases "\<not> said_offline p \<and> said_offline ?r")
      case True
      then have "statuses ?r = statuses p @ [status_message env (device_id p) False]" "said_offline q" using st ih by simp_all
      then show ?thesis using True ba by (intro exI [of _ "[]"] exI [of _ "before @ after"]) simp
    next
      case False
      define on where "on = (if a = Connects False \<and> ep_network p then [status_message env (device_id p) True] else [])"
      have "statuses ?r = statuses p @ on" using st False by (simp add: on_def)
      moreover have "said_offline p = said_offline ?r" using False st by blast
      moreover have "set on \<subseteq> {status_message env (device_id p) True}"
          "length on + count_list acts (Connects False) \<le> count_list (a # acts) (Connects False)"
        by (auto simp: on_def)
      ultimately show ?thesis using ba by (intro exI [of _ "on @ before"] exI [of _ after]) auto
    qed
    moreover have "counted q \<le> counted p + may_count p" using ih one by linarith
    ultimately show ?thesis using ih st count by blast
  qed
qed

text \<open>
  C10: once the shutdown is requested, at most one more frame is counted, and the main thread
  returns after at most six of its steps, even when camera and inference hang and the joins time
  out.  When it has returned, the device has published exactly one status offline, retained; the
  only other status messages are one online for each time that the client connected anew, at most
  as many as it did, and when it did not, the offline status is the last.  Logs and a frame that
  was still being counted may follow it.
\<close>

theorem shutdown_leaves_offline:
  assumes "ep_shutdown p" "ep_main p = Main_waiting" "q = edge_run env renv cfg acts p"
  shows "counted q \<le> counted p + 1 \<and> (6 \<le> count_list acts (Main_goes True) \<longrightarrow> ep_main q = Main_returned) \<and>
    (ep_main q = Main_returned \<longrightarrow>
      (\<exists>before after. statuses q = statuses p @ before @ status_message env (device_id p) False # after \<and>
         set (before @ after) \<subseteq> {status_message env (device_id p) True} \<and>
         length (before @ after) \<le> count_list acts (Connects False)))"
proof -
  have "may_count p \<le> 1" by (simp add: may_count_def split: infer_place.split)
  moreover have "main_left p = 6" "\<not> said_offline p" using assms(2) by (simp_all add: main_left_def said_offline_def)
  moreover have "ep_main q = Main_returned \<longrightarrow> said_offline q" by (simp add: said_offline_def)
  moreover note shutdown_run [OF assms(1) _ assms(3)]
  ultimately show ?thesis using assms(2) by (fastforce simp: ending_def)
qed

subsection \<open>Examples\<close>

text \<open>A device with a frame being read, one in the buffer and one with the inference thread.\<close>

definition stop_text :: json where "stop_text = JObj [(''action'', JStr ''stop_pipeline'')]"

definition example_config :: edge_config where
  "example_config = \<lparr>ec_device_id = ''d1'', ec_camera_index = ''0'', ec_model_filename = ''best.pt'',
     ec_backup_path = ''backup/best.pt''\<rparr>"

definition busy_process :: edge_process where
  "busy_process = edge_run (example_device_env stop_text) example_env example_config
     [Connects False, Loads (\<lambda>_. True) True 0, Camera_checks, Camera_reads True ''a.jpg'', Infer_checks, Infer_takes,
      Camera_checks, Camera_reads True ''b.jpg'', Camera_checks]
     (new_process (example_device_env stop_text) example_config (Some [1]) None)"

definition no_faults :: faults where
  "no_faults = \<lparr>ft_backup = None, ft_move = None, ft_notify = True, ft_restore = None, ft_loads = (\<lambda>_. True), ft_trace = []\<rparr>"

definition drain :: "edge_action list" where
  "drain = [Infer_counts (Inr 2) 1 1 None, Infer_checks, Infer_takes, Infer_counts (Inr 2) 2 2 None,
     Camera_reads True ''c.jpg'', Infer_checks, Infer_takes, Infer_counts (Inr 2) 3 3 None]"

lemma busy_place:
  "ep_network busy_process" "ep_main busy_process = Main_waiting" "device_id busy_process = ''d1''" "counted busy_process = 0"
  "ep_camera busy_process = Camera_reading" "ep_infer busy_process = Infer_frame ''a.jpg''"
  "ed_buffer (dc_edge (ep_device busy_process)) = Some ''b.jpg''"
  by code_simp+

lemma drain_quiet: "\<forall>a \<in> set drain. \<not> commands dev a"
  by (simp add: drain_def)

text \<open>The bound of three is reached.\<close>

theorem stop_command_bound_reached:
  "counted (edge_run (example_device_env stop_text) example_env example_config
     (Receives no_faults 1 (''edge/d1/admin'') [] # drain) busy_process) = counted busy_process + 3"
  by code_simp

theorem stop_command_bounds_counts_witness:
  "counted (edge_run (example_device_env stop_text) example_env example_config
     (Receives no_faults 1 (''edge/d1/admin'') [] # drain) busy_process) \<le> 3"
  using stop_command_bounds_counts [OF busy_place(1,2), of "example_device_env stop_text" "[]" drain example_env example_config no_faults 1]
    drain_quiet busy_place(3,4)
  by (simp add: example_device_env_def stop_text_def)

definition stopping_process :: edge_process where
  "stopping_process = edge_step (example_device_env stop_text) example_env example_config Signals busy_process"

theorem shutdown_leaves_offline_witness:
  "ep_main (edge_run (example_device_env stop_text) example_env example_config
     (drain @ replicate 6 (Main_goes True)) stopping_process) = Main_returned"
proof -
  have "ep_shutdown stopping_process" "ep_main stopping_process = Main_waiting"
    using busy_place(2) by (simp_all add: edge_step_def stopping_process_def)
  from shutdown_leaves_offline [OF this refl, of "example_device_env stop_text" example_env example_config "drain @ replicate 6 (Main_goes True)"]
  show ?thesis by (simp add: drain_def eval_nat_numeral)
qed

text \<open>
  The end is not waited for.  A frame that is still being counted when the join of the
  inference thread times out can be published after the offline status; and a client that
  connects again between the publication and \<open>client.disconnect\<close> retains online as its status,
  which no will corrects, as the client then disconnects in order.
\<close>

theorem count_after_offline:
  "let q = edge_run (example_device_env stop_text) example_env example_config
       (replicate 4 (Main_goes True) @ [Infer_counts (Inr 2) 1 1 None] @ replicate 2 (Main_goes True)) stopping_process
   in ep_main q = Main_returned \<and> fst (last (cm_published (ed_comms (dc_edge (ep_device q))))) = ''edge/d1/crowdCount''"
  by code_simp

theorem online_after_offline:
  "let q = edge_run (example_device_env stop_text) example_env example_config
       (replicate 4 (Main_goes True) @ [Connects False] @ replicate 2 (Main_goes True)) stopping_process
   in ep_main q = Main_returned \<and> length (statuses q) = length (statuses stopping_process) + 2 \<and>
     last (statuses q) = status_message (example_device_env stop_text) ''d1'' True"
  by code_simp

text \<open>
  What arrives while the model is loading is lost: the broker delivers the commands of the
  persistent session as soon as the device is connected, the handlers are registered later.
\<close>

theorem early_messages_lost:
  assumes "ep_main p = Main_loading" "\<forall>a \<in> set acts. \<exists>ft now topic payload. a = Receives ft now topic payload"
  shows "edge_run env renv cfg (acts @ acts') p = edge_run env renv cfg acts' p"
  using assms by (induction acts) (auto simp: edge_run_def edge_step_def)

text \<open>A device whose model does not load never publishes that it is offline; the broker has its will.\<close>

theorem failed_start_leaves_will:
  assumes "edge_start env cfg (Some current) backup True = Inr p" "\<not> loads current"
    and "q = edge_step env renv cfg (Loads loads opened now) p"
  shows "ep_main q = Main_died \<and> cm_published (ed_comms (dc_edge (ep_device q))) = [] \<and>
    cm_will (ed_comms (dc_edge (ep_device q))) = (''edge/'' @ ec_device_id cfg @ ''/status'', de_dumps env (JObj [(''online'', JBool False)]), 1, True)"
  using assms by (auto simp: edge_start_def edge_step_def new_process_def finish_start_def load_counter_def new_comms_def)

end
