(* ===== verification/Service_Cli.thy ===== *)
theory Service_Cli
  imports Broker_Properties Edge_System
begin

text \<open>
  \<open>MQTTBroker/main.py\<close>: the process around handler and distributor, in service mode and with its
  command line.  Properties: a typed command switches the pipeline of the device and is
  recorded, and how the process ends.
\<close>

subsection \<open>Words of a line\<close>

text \<open>\<open>str.split(None, n)\<close> and \<open>str.lower\<close>.\<close>

fun split_words :: "nat \<Rightarrow> string \<Rightarrow> string list" where
  "split_words n s =
     (case dropWhile py_space s of
        [] \<Rightarrow> []
      | t \<Rightarrow> (case n of
                0 \<Rightarrow> [t]
              | Suc m \<Rightarrow> takeWhile (\<lambda>c. \<not> py_space c) t # split_words m (dropWhile (\<lambda>c. \<not> py_space c) t)))"

definition py_lower :: "string \<Rightarrow> string" where
  "py_lower s = map (\<lambda>c. if (of_char c :: nat) \<in> {65..90} then char_of ((of_char c :: nat) + 32) else c) s"

subsection \<open>State\<close>

text \<open>\<open>sc_running\<close>: the client is connected and its network loop runs; \<open>sc_out\<close> is what was printed.\<close>

record service =
  sc_broker :: broker
  sc_distributor :: distributor
  sc_running :: bool
  sc_out :: "string list"

text \<open>
  A turn of the loop: the shutdown flag at its head; the line read, \<open>None\<close> at the end of the
  input or on an interrupt; which calls reach the database; the model files; and the
  acknowledgements that arrive during a distribution.
\<close>

record cli_input =
  ci_shutdown :: bool
  ci_line :: "string option"
  ci_up :: outages
  ci_file :: "string \<Rightarrow> bytes option"
  ci_arrivals :: arrivals
  ci_in_time :: "(string \<times> json) list"
  ci_retry_in_time :: "(string \<times> json) list"

subsection \<open>Commands\<close>

definition newline :: string where "newline = [CHR 0x0A]"

definition help_text :: string where
  "help_text =
     newline @ ''Available commands:'' @ newline @
     ''  devices                          - List known edge devices'' @ newline @
     ''  admin <device_id> <json_command> - Send admin command to a device'' @ newline @
     ''  model <device_id> <file_path>    - Distribute a .pt model to a device'' @ newline @
     ''  help                             - Show this help'' @ newline @
     ''  quit / exit                      - Shut down'' @ newline"

definition say :: "string \<Rightarrow> service \<Rightarrow> service" where
  "say text self = self\<lparr>sc_out := sc_out self @ [text]\<rparr>"

definition device_line :: "broker_env \<Rightarrow> string \<times> device_status \<Rightarrow> string" where
  "device_line env d = ''  '' @ fst d @ '': '' @ (if truthy (dv_online (snd d)) then ''ONLINE'' else ''OFFLINE'') @
     '' (last_seen='' @ be_str env (JFloat (dv_last_seen (snd d))) @ '')''"

text \<open>
  One command, \<open>parts\<close> being its words: whether the loop is left, or the exception of a
  distribution.  \<open>loads_text\<close> is \<open>json.loads\<close> of a text.
\<close>

definition run_command ::
    "broker_env \<Rightarrow> (string \<Rightarrow> json result) \<Rightarrow> cli_input \<Rightarrow> string list \<Rightarrow> service \<Rightarrow> bool result \<times> service" where
  "run_command env loads_text i parts self =
     (let cmd = py_lower (hd parts)
      in if cmd \<in> {''quit'', ''exit''} then (Inr True, self)
         else if cmd = ''help'' then (Inr False, say help_text self)
         else if cmd = ''devices'' then
           (Inr False, case get_devices (sc_broker self) of
              [] \<Rightarrow> say ''  No devices seen yet.'' self
            | devices \<Rightarrow> fold (\<lambda>d. say (device_line env d)) devices self)
         else if cmd = ''admin'' then
           (Inr False,
            if length parts < 3 then say ''  Usage: admin <device_id> <json_command>'' self
            else case loads_text (parts ! 2) of
                   Inl e \<Rightarrow> say ''  Error: invalid JSON'' self
                 | Inr command \<Rightarrow>
                     say (''  Admin command sent to '' @ parts ! 1)
                       (self\<lparr>sc_broker := send_admin env (ci_up i) (parts ! 1) command (sc_broker self)\<rparr>))
         else if cmd = ''model'' then
           (if length parts < 3 then (Inr False, say ''  Usage: model <device_id> <file_path>'' self)
            else let device_id = parts ! 1; file_path = parts ! 2;
                     self = say (''  Distributing model '' @ file_path @ '' to '' @ device_id @ ''...'') self
                 in case distribute_model (be_dumps env) model_chunk_size (ci_arrivals i) (ci_in_time i) (ci_retry_in_time i)
                           device_id file_path (ci_file i file_path) (sc_distributor self) of
                      (Inl e, d) \<Rightarrow> (Inl e, self\<lparr>sc_distributor := d\<rparr>)
                    | (Inr success, d) \<Rightarrow>
                        (Inr False, say (if success then ''  Model delivered successfully.''
                           else ''  Model delivery failed. Check logs for details.'') (self\<lparr>sc_distributor := d\<rparr>)))
         else (Inr False, say help_text (say (''  Unknown command: '' @ cmd) self)))"

text \<open>The loop over the turns until the shutdown flag is set.\<close>

fun cli_loop :: "broker_env \<Rightarrow> (string \<Rightarrow> json result) \<Rightarrow> cli_input list \<Rightarrow> service \<Rightarrow> unit result \<times> service" where
  "cli_loop env loads_text [] self = (Inr (), self)"
| "cli_loop env loads_text (i # is) self =
     (if ci_shutdown i then (Inr (), self)
      else case ci_line i of
        None \<Rightarrow> (Inr (), self)
      | Some line \<Rightarrow>
          (case split_words 2 (py_strip line) of
             [] \<Rightarrow> cli_loop env loads_text is self
           | parts \<Rightarrow>
               (case run_command env loads_text i parts self of
                  (Inl e, self) \<Rightarrow> (Inl e, self)
                | (Inr True, self) \<Rightarrow> (Inr (), self)
                | (Inr False, self) \<Rightarrow> cli_loop env loads_text is self)))"

subsection \<open>The process\<close>

datatype exit_status = Finished | Exit_Failure | Uncaught py_error

text \<open>
  \<open>connects\<close>: whether the broker can be reached; \<open>service_mode\<close>: the variable \<open>MQTT_SERVICE_MODE\<close> is
  set, so that the process waits for a signal instead of reading commands.
\<close>

definition new_service :: "bool \<Rightarrow> outages \<Rightarrow> database session \<Rightarrow> service" where
  "new_service opens up s = \<lparr>sc_broker = set_model_ack_callback (new_broker opens up s), sc_distributor = new_distributor,
     sc_running = False, sc_out = []\<rparr>"

definition service_main ::
    "broker_env \<Rightarrow> (string \<Rightarrow> json result) \<Rightarrow> bool \<Rightarrow> bool \<Rightarrow> cli_input list \<Rightarrow> service \<Rightarrow> exit_status \<times> service" where
  "service_main env loads_text connects service_mode inputs self =
     (if \<not> connects then (Exit_Failure, self)
      else let self = self\<lparr>sc_running := True\<rparr>
           in case (if service_mode then (Inr (), self) else cli_loop env loads_text inputs (say help_text self)) of
                (Inl e, self) \<Rightarrow> (Uncaught e, self)
              | (Inr _, self) \<Rightarrow> (Finished, self\<lparr>sc_broker := disconnect (sc_broker self), sc_running := False\<rparr>))"

subsection \<open>Lemmas\<close>

declare split_words.simps [simp del]

lemma split_words_word:
  assumes "w \<noteq> []" "\<forall>c \<in> set w. \<not> py_space c" "py_space b"
  shows "split_words (Suc n) (w @ b # s) = w # split_words n (b # s)"
proof -
  have "dropWhile py_space (w @ b # s) = w @ b # s" using assms(1,2) by (cases w) simp_all
  moreover have "takeWhile (\<lambda>c. \<not> py_space c) (w @ b # s) = w" "dropWhile (\<lambda>c. \<not> py_space c) (w @ b # s) = b # s"
    using assms(2,3) by (simp_all add: takeWhile_append2 dropWhile_append2)
  ultimately show ?thesis using assms(1) by (subst split_words.simps) (cases w, simp_all)
qed

lemma split_words_space: "py_space b \<Longrightarrow> split_words n (b # s) = split_words n s"
  by (simp add: split_words.simps [of n "b # s"] split_words.simps [of n s])

lemma split_words_rest: "s \<noteq> [] \<Longrightarrow> \<not> py_space (hd s) \<Longrightarrow> split_words 0 s = [s]"
  by (cases s) (simp_all add: split_words.simps [of 0])

text \<open>The words of \<open>admin device arg\<close>.\<close>

lemma admin_words:
  assumes "dev \<noteq> []" "\<forall>c \<in> set dev. \<not> py_space c" "arg \<noteq> []" "\<not> py_space (hd arg)" "\<not> py_space (last arg)"
  shows "split_words 2 (py_strip (''admin '' @ dev @ '' '' @ arg)) = [''admin'', dev, arg]"
proof -
  have sp: "py_space (CHR '' '')" "\<not> py_space (CHR ''a'')" by (simp_all add: py_space_def)
  have "dropWhile py_space (rev (''admin '' @ dev @ '' '' @ arg)) = rev (''admin '' @ dev @ '' '' @ arg)"
    using assms(3,5) by (simp add: dropWhile_eq_self_iff hd_rev hd_append)
  then have "py_strip (''admin '' @ dev @ '' '' @ arg) = ''admin'' @ CHR '' '' # dev @ CHR '' '' # arg"
    using sp by (simp add: py_strip_def)
  moreover have "split_words (Suc (Suc 0)) (''admin'' @ CHR '' '' # dev @ CHR '' '' # arg) = [''admin'', dev, arg]"
    using split_words_word [of "''admin''" "CHR '' ''" "Suc 0" "dev @ CHR '' '' # arg"]
      split_words_word [OF assms(1,2) sp(1), of 0 arg] split_words_rest [OF assms(3,4)] split_words_space [OF sp(1)]
    by (simp add: py_space_def)
  ultimately show ?thesis by (simp add: numeral_2_eq_2)
qed

lemma say_simps [simp]:
  "sc_broker (say s self) = sc_broker self" "sc_distributor (say s self) = sc_distributor self" "sc_running (say s self) = sc_running self"
  by (simp_all add: say_def)

lemma say_many: "sc_broker (fold (\<lambda>d. say (f d)) ds self) = sc_broker self \<and> sc_running (fold (\<lambda>d. say (f d)) ds self) = sc_running self"
  by (induction ds arbitrary: self) simp_all

lemma sent_admin:
  assumes "bk_writer bk = Some w" "dw_opened w" "\<forall>n. up n" "idle (bk_session bk)"
    and "jget command ''action'' (JStr ''unknown'') = Inr (JStr (if on then ''start_pipeline'' else ''stop_pipeline''))"
    and "jget command ''initiated_by'' (JStr ''system'') = Inr (JStr who)" "plain_driver env"
    and "d = se_committed (bk_session bk)" "bk' = send_admin env up dev command bk"
  shows "bk_published bk' = bk_published bk @ [(''edge/'' @ dev @ ''/admin'', be_dumps env command, 2)] \<and>
    se_committed (bk_session bk') = d
      \<lparr>db_admin_activity_log := db_admin_activity_log d @ [\<lparr>aa_target_device_id = Some dev,
         aa_action = (if on then ''start_pipeline'' else ''stop_pipeline''), aa_command = command, aa_initiated_by = who\<rparr>],
       db_stops := map (\<lambda>row. if st_device_id row = dev then row\<lparr>st_pipeline_active := on\<rparr> else row) (db_stops d)\<rparr>"
proof -
  let ?a = "if on then ''start_pipeline'' else ''stop_pipeline''"
  let ?s = "log_admin_action (Some dev) ?a command who True up (bk_session bk)"
  let ?d = "d\<lparr>db_admin_activity_log := db_admin_activity_log d @ [\<lparr>aa_target_device_id = Some dev, aa_action = ?a,
    aa_command = command, aa_initiated_by = who\<rparr>]\<rparr>"
  have s: "se_committed ?s = ?d" "idle ?s"
    using admintx.performed_up [OF assms(4) TrueI assms(3), of "Some dev" ?a command who ?d] admintx.idle_wr [OF assms(4)] assms(8)
    by (simp_all add: insert_admin_action_def)
  then have "se_committed (update_pipeline_active dev on True up ?s) =
      ?d\<lparr>db_stops := map (\<lambda>row. if st_device_id row = dev then row\<lparr>st_pipeline_active := on\<rparr> else row) (db_stops ?d)\<rparr>"
    using pipetx.performed_up [OF s(2) TrueI assms(3), of on dev] by (simp add: update_pipeline_def)
  moreover have "se_committed (bk_session bk') = se_committed (update_pipeline_active dev on True up ?s)"
    "bk_published bk' = bk_published bk @ [(''edge/'' @ dev @ ''/admin'', be_dumps env command, 2)]"
    using assms(1,2,5-7,9)
    by (auto simp: send_admin_def with_writer_def log_admin_call_def pipeline_call_def plain_driver_def Let_def split: prod.split)
  ultimately show ?thesis by simp
qed

subsection \<open>Properties\<close>

text \<open>
  C22: a command from the console to the device.  The line \<open>admin\<close>, the device and a JSON text
  that starts or stops the pipeline publishes one message, on which the device starts or
  stops its pipeline, and with the database up the command is in the log of administrative
  actions and the state of the pipeline in the row of the device; nothing else changes.
\<close>

theorem typed_command_switches_pipeline:
  assumes "dev \<noteq> []" "\<forall>c \<in> set dev. \<not> py_space c" "arg \<noteq> []" "\<not> py_space (hd arg)" "\<not> py_space (last arg)"
    and "ci_line i = Some (''admin '' @ dev @ '' '' @ arg)" "\<not> ci_shutdown i" "loads_text arg = Inr command"
    and "command = JObj kvs" "dict_get kvs ''action'' = Some (JStr (if on then ''start_pipeline'' else ''stop_pipeline''))"
    and "jget command ''initiated_by'' (JStr ''system'') = Inr (JStr who)" "plain_driver env"
    and "bk_writer (sc_broker self) = Some w" "dw_opened w" "\<forall>n. ci_up i n" "idle (bk_session (sc_broker self))"
    and "cm_device_id (ed_comms (dc_edge device)) = dev" "de_loads denv (be_dumps env command) = Inr command"
    and "d = se_committed (bk_session (sc_broker self))" "self' = snd (cli_loop env loads_text [i] self)"
  shows "(\<exists>topic payload. bk_published (sc_broker self') = bk_published (sc_broker self) @ [(topic, payload, 2)] \<and>
      cf_pipeline_active (ed_settings (dc_edge (snd (comms_on_message denv renv ft now topic payload device)))) = on) \<and>
    se_committed (bk_session (sc_broker self')) = d
      \<lparr>db_admin_activity_log := db_admin_activity_log d @ [\<lparr>aa_target_device_id = Some dev,
         aa_action = (if on then ''start_pipeline'' else ''stop_pipeline''), aa_command = command, aa_initiated_by = who\<rparr>],
       db_stops := map (\<lambda>row. if st_device_id row = dev then row\<lparr>st_pipeline_active := on\<rparr> else row) (db_stops d)\<rparr>"
proof -
  have lower: "py_lower ''admin'' = ''admin''" by code_simp
  have self': "sc_broker self' = send_admin env (ci_up i) dev command (sc_broker self)"
    using assms(6-8,20) admin_words [OF assms(1-5)] by (simp add: run_command_def lower Let_def)
  have action: "jget command ''action'' dflt = Inr (JStr (if on then ''start_pipeline'' else ''stop_pipeline''))" for dflt
    using assms(9,10) by simp
  note sent = sent_admin [OF assms(13-16) action assms(11,12,19) self']
  let ?topic = "''edge/'' @ dev @ ''/admin''"
  have "topic_suffix (ed_comms (dc_edge device)) ?topic = ''admin''"
    using assms(17) by (simp add: topic_suffix_def topic_prefix_def)
  then have "cf_pipeline_active (ed_settings (dc_edge (snd (comms_on_message denv renv ft now ?topic (be_dumps env command) device)))) = on"
    using assms(18) action by (simp add: comms_on_message_def on_admin_message_def handle_admin_def Let_def)
  then show ?thesis using sent by blast
qed

text \<open>What a command does to the connection of the process.\<close>

lemma send_admin_open: "map_option dw_opened (bk_writer (send_admin env up dev command bk)) = map_option dw_opened (bk_writer bk)"
  by (auto simp: send_admin_def with_writer_def log_admin_call_def pipeline_call_def Let_def
      split: sum.split option.split json.split list.split bool.split char.split)

lemma command_outcome:
  assumes "run_command env loads_text i parts self = (r, self')"
  shows "sc_running self' = sc_running self \<and>
    map_option dw_opened (bk_writer (sc_broker self')) = map_option dw_opened (bk_writer (sc_broker self)) \<and>
    (\<forall>e. r = Inl e \<longrightarrow> py_lower (hd parts) = ''model'')"
  using assms say_many [of "device_line env" "get_devices (sc_broker self)" self]
  by (auto simp: run_command_def Let_def send_admin_open split: if_splits sum.splits list.splits prod.splits)

lemma loop_outcome:
  assumes "cli_loop env loads_text is self = (r, self')"
  shows "sc_running self' = sc_running self \<and>
    map_option dw_opened (bk_writer (sc_broker self')) = map_option dw_opened (bk_writer (sc_broker self)) \<and>
    (\<forall>e. r = Inl e \<longrightarrow> (\<exists>i \<in> set is. \<exists>line. ci_line i = Some line \<and> py_lower (hd (split_words 2 (py_strip line))) = ''model''))"
  using assms
proof (induction "is" arbitrary: self)
  case (Cons i "is")
  show ?case
  proof (cases "ci_shutdown i \<or> ci_line i = None")
    case True
    then show ?thesis using Cons.prems by (auto split: if_splits)
  next
    case False
    then obtain line where line: "ci_line i = Some line" by auto
    show ?thesis
    proof (cases "split_words 2 (py_strip line)")
      case Nil
      then show ?thesis using Cons False line by auto
    next
      case words: (Cons cmd args)
      obtain q self1 where run: "run_command env loads_text i (cmd # args) self = (q, self1)" by force
      note one = command_outcome [OF run]
      show ?thesis
      proof (cases "q = Inr False")
        case True
        then have "cli_loop env loads_text is self1 = (r, self')" using Cons.prems False line words run by simp
        from Cons.IH [OF this] show ?thesis using one by auto
      next
        case other: False
        then have "self' = self1" "\<forall>e. r = Inl e \<longrightarrow> q = Inl e"
          using Cons.prems False line words run by (auto split: sum.splits bool.splits)
        then show ?thesis using one line words by auto
      qed
    qed
  qed
qed auto

text \<open>
  The end of the process.  Where it finishes, the client is disconnected and the pool
  closed.  Only a distribution can raise, and only without service mode; the process then ends with the
  client still connected and the pool as open as it was.
\<close>

theorem service_end:
  assumes "service_main env loads_text connects service_mode inputs self = (st, self')"
  shows "(st = Finished \<longrightarrow> \<not> sc_running self' \<and> (\<forall>w. bk_writer (sc_broker self') = Some w \<longrightarrow> \<not> dw_opened w)) \<and>
    (\<forall>e. st = Uncaught e \<longrightarrow> \<not> service_mode \<and> sc_running self' \<and>
      map_option dw_opened (bk_writer (sc_broker self')) = map_option dw_opened (bk_writer (sc_broker self)) \<and>
      (\<exists>i \<in> set inputs. \<exists>line. ci_line i = Some line \<and> py_lower (hd (split_words 2 (py_strip line))) = ''model''))"
proof (cases "connects \<and> \<not> service_mode")
  case True
  obtain r self1 where run: "cli_loop env loads_text inputs (say help_text (self\<lparr>sc_running := True\<rparr>)) = (r, self1)" by force
  note out = loop_outcome [OF run]
  show ?thesis using assms True run out by (cases r) (auto simp: service_main_def disconnect_def)
next
  case False
  then show ?thesis using assms by (auto simp: service_main_def disconnect_def split: if_splits)
qed

subsection \<open>Examples\<close>

definition typed :: "string \<Rightarrow> cli_input" where
  "typed line = \<lparr>ci_shutdown = False, ci_line = Some line, ci_up = (\<lambda>_. True), ci_file = (\<lambda>_. None), ci_arrivals = (\<lambda>_. []),
     ci_in_time = [], ci_retry_in_time = []\<rparr>"

definition stop_json :: json where
  "stop_json = JObj [(''action'', JStr ''stop_pipeline'')]"

definition example_service :: service where
  "example_service = \<lparr>sc_broker = example_broker, sc_distributor = new_distributor, sc_running = True, sc_out = []\<rparr>"

theorem typed_command_switches_pipeline_witness:
  "map st_pipeline_active (db_stops (se_committed (bk_session (sc_broker (snd (cli_loop (quiet_env JNull) (\<lambda>_. Inr stop_json)
     [typed ''admin d1 {stop}''] example_service)))))) = [False]"
proof -
  have words: "''d1'' \<noteq> []" "\<forall>c \<in> set ''d1''. \<not> py_space c" "''{stop}'' \<noteq> []" "\<not> py_space (hd ''{stop}'')" "\<not> py_space (last ''{stop}'')"
    by (simp_all add: py_space_def)
  have line: "ci_line (typed ''admin d1 {stop}'') = Some (''admin '' @ ''d1'' @ '' '' @ ''{stop}'')"
    "\<not> ci_shutdown (typed ''admin d1 {stop}'')" "\<forall>n. ci_up (typed ''admin d1 {stop}'') n"
    by (simp_all add: typed_def)
  have json: "dict_get [(''action'', JStr ''stop_pipeline'')] ''action'' = Some (JStr (if False then ''start_pipeline'' else ''stop_pipeline''))"
    "jget stop_json ''initiated_by'' (JStr ''system'') = Inr (JStr ''system'')" "plain_driver (quiet_env JNull)"
    by (simp_all add: stop_json_def dict_get_def plain_driver_def quiet_env_def)
  have bk: "bk_writer (sc_broker example_service) = Some \<lparr>dw_opened = True, dw_stop_id_cache = []\<rparr>" "idle (bk_session (sc_broker example_service))"
    by (simp_all add: example_service_def example_broker_ok)
  have dev: "cm_device_id (ed_comms (dc_edge example_device)) = ''d1''"
    "de_loads (example_device_env stop_json) (be_dumps (quiet_env JNull) stop_json) = Inr stop_json"
    by (simp_all add: example_device_def example_edge_def example_device_env_def)
  note cmd = typed_command_switches_pipeline [where loads_text = "\<lambda>_. Inr stop_json" and self = example_service, OF words line(1,2) refl stop_json_def json bk(1) example_broker_ok(2) line(3) bk(2) dev refl refl,
      of undefined undefined 0, THEN conjunct2]
  have "db_stops (se_committed (bk_session (sc_broker example_service))) = db_stops example_db"
    by (simp add: example_service_def example_broker_def new_session_def)
  then show ?thesis unfolding cmd by (simp add: example_db_def)
qed

text \<open>The path of a model that does not exist ends the process with the client connected.\<close>

theorem service_end_witness:
  "let (st, self) = service_main (quiet_env JNull) (\<lambda>_. Inl ValueError) True False [typed ''model d1 missing.pt''] example_service
   in st = Uncaught FileNotFoundError \<and> sc_running self"
proof -
  obtain st self where run: "service_main (quiet_env JNull) (\<lambda>_. Inl ValueError) True False [typed ''model d1 missing.pt''] example_service =
      (st, self)" by force
  have "split_words 2 (py_strip ''model d1 missing.pt'') = [''model'', ''d1'', ''missing.pt'']" "py_lower ''model'' = ''model''"
    by code_simp+
  then have "st = Uncaught FileNotFoundError"
    using run by (simp add: service_main_def typed_def run_command_def distribute_model_def)
  then show ?thesis using service_end [OF run] run by simp
qed

end
