(* ===== verification/Dashboard.thy ===== *)
theory Dashboard
  imports Snapshot_Builder
begin

text \<open>
  What the dashboard is shown: the queries of \<open>API/queries.py\<close> as functions of the tables.
  Dictionaries of a fixed shape are JSON objects as \<open>json.dumps(..., default=str)\<close> renders
  them.  The text of a time and its hour depend on the time zone of the connection and are
  parameters; \<open>now\<close> is \<open>NOW()\<close>.  Rows that an \<open>ORDER BY\<close> leaves tied keep the order of the table, text
  sorts by character code.
\<close>

record dash_env =
  dh_str :: "timestamp \<Rightarrow> string"
  dh_hour :: "timestamp \<Rightarrow> nat"

definition hours_us :: "int \<Rightarrow> int" where
  "hours_us n = n * 3600 * 1000000"

text \<open>\<open>time_bucket(width, time)\<close>.\<close>

definition time_bucket :: "int \<Rightarrow> timestamp \<Rightarrow> timestamp" where
  "time_bucket width t = t div width * width"

text \<open>\<open>AVG\<close> of integers is exact, \<open>AVG\<close> of floating-point numbers is their sum over their number.\<close>

definition avg_int :: "int list \<Rightarrow> rat option" where
  "avg_int xs = (if xs = [] then None else Some (of_int (sum_list xs) / of_nat (length xs)))"

definition avg_float :: "pyfloat list \<Rightarrow> pyfloat option" where
  "avg_float xs = (if xs = [] then None else Some (fdiv (foldl fadd 0 xs) (of_nat (length xs))))"

text \<open>A \<open>Decimal\<close> rounded to one place, half to even, and its text; \<open>str\<close> as \<open>default\<close> makes it a string.\<close>

definition decimal_text :: "rat \<Rightarrow> string" where
  "decimal_text x =
     (let n = nat \<bar>half_even (x * 10)\<bar>
      in (if x < 0 then ''-'' else []) @ digits (n div 10) @ ''.'' @ digits (n mod 10))"

definition opt_str :: "string option \<Rightarrow> json" where
  "opt_str s = (case s of None \<Rightarrow> JNull | Some x \<Rightarrow> JStr x)"

definition opt_int :: "int option \<Rightarrow> json" where
  "opt_int s = (case s of None \<Rightarrow> JNull | Some x \<Rightarrow> JInt x)"

definition opt_time :: "dash_env \<Rightarrow> timestamp option \<Rightarrow> json" where
  "opt_time env t = (case t of None \<Rightarrow> JNull | Some x \<Rightarrow> JStr (dh_str env x))"

definition two_digits :: "nat \<Rightarrow> string" where
  "two_digits n = (if n < 10 then ''0'' @ digits n else digits n)"

definition hour_label :: "dash_env \<Rightarrow> timestamp \<Rightarrow> string" where
  "hour_label env t = two_digits (dh_hour env t) @ '':00''"

definition route_display :: "string \<Rightarrow> string \<Rightarrow> string" where
  "route_display kind name = (if kind = ''luas'' then ''LUAS '' @ name @ '' Line'' else ''Route '' @ name)"

subsection \<open>Routes, stops and counts\<close>

definition dash_routes :: "database \<Rightarrow> json" where
  "dash_routes d = JArr (map (\<lambda>r. JObj
     [(''id'', JStr (ro_route_id r)), (''name'', JStr (route_display (ro_transport_type r) (ro_short_name r))),
      (''type'', JStr (ro_transport_type r)),
      (''stopIds'', JArr (map (\<lambda>rs. JStr (rt_stop_id rs)) (sort_key rt_stop_sequence
         (filter (\<lambda>rs. rt_route_id rs = ro_route_id r \<and> rt_direction_id rs = 0) (db_route_stops d)))))])
     (sort_key (\<lambda>r. (ro_transport_type r, ro_short_name r)) (db_routes d)))"

definition dash_stops :: "dash_env \<Rightarrow> database \<Rightarrow> json" where
  "dash_stops env d = JArr (map (\<lambda>r. JObj
     [(''id'', JStr (st_stop_id r)), (''name'', JStr (st_stop_name r)), (''lat'', JFloat (st_stop_lat r)),
      (''lng'', JFloat (st_stop_long r)), (''type'', JStr (st_transport_type r)), (''deviceId'', JStr (st_device_id r)),
      (''isOnline'', JBool (st_is_online r)), (''pipelineActive'', JBool (st_pipeline_active r)),
      (''lastSeen'', opt_time env (st_last_seen r))])
     (sort_key st_stop_name (db_stops d)))"

definition dash_wait_counts :: "database \<Rightarrow> json" where
  "dash_wait_counts d = JArr (map (\<lambda>r. JObj [(''stopId'', JStr (cc_stop_id r)), (''count'', JInt (cc_count r))]) (db_current_counts d))"

text \<open>The trend of a stop; the first count of a device is stable.\<close>

record hotspot =
  hs_stop_id :: string
  hs_stop_name :: string
  hs_count :: int
  hs_trend :: string
  hs_delta :: int

definition hotspot_of :: "current_row \<Rightarrow> stop_row \<Rightarrow> hotspot" where
  "hotspot_of cc s =
     (case cc_previous_count cc of
        None \<Rightarrow> \<lparr>hs_stop_id = cc_stop_id cc, hs_stop_name = st_stop_name s, hs_count = cc_count cc, hs_trend = ''stable'', hs_delta = 0\<rparr>
      | Some prev \<Rightarrow>
          let delta = cc_count cc - prev
          in \<lparr>hs_stop_id = cc_stop_id cc, hs_stop_name = st_stop_name s, hs_count = cc_count cc,
              hs_trend = (if 0 < delta then ''rising'' else if delta < 0 then ''falling'' else ''stable''), hs_delta = delta\<rparr>)"

definition dash_hotspots :: "database \<Rightarrow> hotspot list" where
  "dash_hotspots d =
     map (\<lambda>(cc, s). hotspot_of cc s) (take 10 (sort_key (\<lambda>(cc, s). - cc_count cc)
       [(cc, s). cc \<leftarrow> db_current_counts d, s \<leftarrow> db_stops d, st_stop_id s = cc_stop_id cc]))"

definition dash_alerts :: "database \<Rightarrow> json" where
  "dash_alerts d = JArr (map (\<lambda>r. JObj [(''id'', JInt (sa_id r)), (''severity'', JStr (sa_severity r)), (''message'', JStr (sa_message r))])
     (sort_key (\<lambda>r. - sa_created_at r) (filter (\<lambda>r. sa_resolved_at r = None) (db_system_alerts d))))"

subsection \<open>Vehicles\<close>

definition left_join :: "'a list \<Rightarrow> 'a option list" where
  "left_join xs = (if xs = [] then [None] else map Some xs)"

definition lerp :: "pyfloat \<Rightarrow> pyfloat \<Rightarrow> pyfloat \<Rightarrow> pyfloat" where
  "lerp a b t = fadd a (fmul (fsub b a) t)"

text \<open>The stop at the given place of the route, or none.\<close>

definition stops_at :: "database \<Rightarrow> string \<Rightarrow> int \<Rightarrow> int \<Rightarrow> stop_row option list" where
  "stops_at d route dir seq = concat (map (\<lambda>rs. case rs of
        None \<Rightarrow> [None]
      | Some rs \<Rightarrow> left_join (filter (\<lambda>s. st_stop_id s = rt_stop_id rs) (db_stops d)))
     (left_join (filter (\<lambda>rs. rt_route_id rs = route \<and> rt_direction_id rs = dir \<and> rt_stop_sequence rs = seq) (db_route_stops d))))"

text \<open>The joined rows: vehicle, route, current stop, direction, next and previous stop.\<close>

type_synonym vehicle_join = "vehicle_row \<times> route_row \<times> stop_row \<times> int \<times> stop_row option \<times> stop_row option"

definition vehicle_joins :: "database \<Rightarrow> vehicle_join list" where
  "vehicle_joins d =
     [(v, r, s, rt_direction_id rs, nxt, prv).
        v \<leftarrow> filter ve_is_active (db_vehicles d),
        r \<leftarrow> filter (\<lambda>r. ve_route_id v = Some (ro_route_id r)) (db_routes d),
        s \<leftarrow> filter (\<lambda>s. ve_current_stop_id v = Some (st_stop_id s)) (db_stops d),
        rs \<leftarrow> filter (\<lambda>rs. rt_route_id rs = ro_route_id r \<and> rt_stop_id rs = st_stop_id s) (db_route_stops d),
        nxt \<leftarrow> stops_at d (ro_route_id r) (rt_direction_id rs) (rt_stop_sequence rs + 1),
        prv \<leftarrow> stops_at d (ro_route_id r) (rt_direction_id rs) (rt_stop_sequence rs - 1)]"

definition position_of :: "string \<Rightarrow> stop_row \<Rightarrow> stop_row option \<Rightarrow> stop_row option \<Rightarrow> pyfloat \<times> pyfloat" where
  "position_of state s nxt prv =
     (case (nxt, prv) of
        (Some n, _) \<Rightarrow>
          if state = ''DEPARTING''
          then (lerp (st_stop_lat s) (st_stop_lat n) (1 / 4), lerp (st_stop_long s) (st_stop_long n) (1 / 4))
          else (case prv of
                  Some p \<Rightarrow> if state = ''ARRIVING''
                    then (lerp (st_stop_lat p) (st_stop_lat s) (3 / 4), lerp (st_stop_long p) (st_stop_long s) (3 / 4))
                    else (st_stop_lat s, st_stop_long s)
                | None \<Rightarrow> (st_stop_lat s, st_stop_long s))
      | (None, Some p) \<Rightarrow>
          if state = ''ARRIVING''
          then (lerp (st_stop_lat p) (st_stop_lat s) (3 / 4), lerp (st_stop_long p) (st_stop_long s) (3 / 4))
          else (st_stop_lat s, st_stop_long s)
      | (None, None) \<Rightarrow> (st_stop_lat s, st_stop_long s))"

definition dash_vehicles :: "database \<Rightarrow> json" where
  "dash_vehicles d = JArr (map (\<lambda>(v, r, s, dir, nxt, prv).
     case position_of (ve_state v) s nxt prv of (lat, lng) \<Rightarrow> JObj
       [(''id'', JStr (ve_vehicle_id v)), (''routeId'', opt_str (ve_route_id v)),
        (''routeName'', JStr (route_display (ro_transport_type r) (ro_short_name r))), (''type'', JStr (ro_transport_type r)),
        (''currentOccupancyPercent'', JInt (py_round (ve_occupancy_percent v))), (''capacity'', JInt (ve_capacity v)),
        (''passengerCount'', JInt (ve_passenger_count v)), (''state'', JStr (ve_state v)),
        (''lat'', JFloat (py_round_nd lat 6)), (''lng'', JFloat (py_round_nd lng 6)),
        (''currentStopName'', JStr (st_stop_name s))])
     (distinct_on (\<lambda>(v, _). ve_vehicle_id v) (sort_key (\<lambda>(v, _, _, dir, _). (ve_vehicle_id v, dir)) (vehicle_joins d))))"

subsection \<open>Performance\<close>

definition health_status :: "rat \<Rightarrow> string" where
  "health_status delay_s = (if 300 \<le> delay_s then ''disrupted'' else if 120 \<le> delay_s then ''delayed'' else ''on-time'')"

definition route_delay :: "timestamp \<Rightarrow> string \<Rightarrow> database \<Rightarrow> rat" where
  "route_delay now route d =
     (case avg_int (List.map_filter (\<lambda>tu. if tu_route_id tu = Some route \<and> now - 600000000 < tu_time tu
           then tu_arrival_delay tu else None) (db_trip_updates d)) of
        None \<Rightarrow> 0 | Some x \<Rightarrow> x)"

text \<open>A delay of zero divides as an integer, any other average is a \<open>Decimal\<close>.\<close>

definition dash_route_health :: "timestamp \<Rightarrow> database \<Rightarrow> json" where
  "dash_route_health now d = JArr (map (\<lambda>r.
     let delay_s = route_delay now (ro_route_id r) d;
         meta = (case ro_metadata r of JObj kvs \<Rightarrow> kvs | _ \<Rightarrow> []);
         get = (\<lambda>key. case dict_get meta key of None \<Rightarrow> JInt 0 | Some v \<Rightarrow> v)
     in JObj [(''routeId'', JStr (ro_route_id r)), (''routeName'', JStr (route_display (ro_transport_type r) (ro_short_name r))),
         (''type'', JStr (ro_transport_type r)), (''status'', JStr (health_status delay_s)),
         (''delayMin'', if delay_s = 0 then JFloat 0 else JStr (decimal_text (delay_s / 60))),
         (''currentHeadway'', get ''current_headway''), (''scheduledHeadway'', get ''scheduled_headway''),
         (''activeVehicles'', JInt (int (length (filter (\<lambda>v. ve_is_active v \<and> ve_route_id v = Some (ro_route_id r)) (db_vehicles d)))))])
     (sort_key (\<lambda>r. (ro_transport_type r, ro_short_name r)) (db_routes d)))"

text \<open>The groups of an hour and a transport type, by hour, with what they hold.\<close>

definition grouped_by :: "('a \<Rightarrow> timestamp \<times> 'k) \<Rightarrow> 'a list \<Rightarrow> ((timestamp \<times> 'k) \<times> 'a list) list" where
  "grouped_by key rows =
     map (\<lambda>k. (k, filter (\<lambda>r. key r = k) rows)) (sort_key fst (remdups (map key rows)))"

definition on_time_row :: "trip_row \<Rightarrow> bool" where
  "on_time_row tu = (\<bar>case tu_arrival_delay tu of None \<Rightarrow> 0 | Some n \<Rightarrow> n\<bar> < 300)"

definition percent :: "nat \<Rightarrow> nat \<Rightarrow> pyfloat" where
  "percent on whole = py_round_nd (fmul (py_truediv (int on) (int whole)) 100) 1"

text \<open>The running totals per label, and per transport type the last percentage per label.\<close>

record hour_tally =
  ht_all :: "(string, nat \<times> nat) dict"
  ht_luas :: "(string, pyfloat) dict"
  ht_bus :: "(string, pyfloat) dict"

definition tally_on_time :: "dash_env \<Rightarrow> (timestamp \<times> string) \<times> trip_row list \<Rightarrow> hour_tally \<Rightarrow> hour_tally" where
  "tally_on_time env grp acc =
     (case grp of ((bucket, kind), rows) \<Rightarrow>
       let label = hour_label env bucket; whole = max 1 (length rows); on = length (filter on_time_row rows);
           pct = percent on whole;
           old = (case dict_get (ht_all acc) label of None \<Rightarrow> (0, 0) | Some x \<Rightarrow> x);
           acc = acc\<lparr>ht_all := dict_set (ht_all acc) label (fst old + whole, snd old + on)\<rparr>
       in if kind = ''luas'' then acc\<lparr>ht_luas := dict_set (ht_luas acc) label pct\<rparr>
          else if kind = ''bus'' then acc\<lparr>ht_bus := dict_set (ht_bus acc) label pct\<rparr>
          else acc)"

definition on_time_groups :: "timestamp \<Rightarrow> database \<Rightarrow> ((timestamp \<times> string) \<times> trip_row list) list" where
  "on_time_groups now d =
     map (\<lambda>(k, xs). (k, map fst xs)) (grouped_by (\<lambda>(tu, kind). (time_bucket (hours_us 1) (tu_time tu), kind))
       [(tu, st_transport_type s). tu \<leftarrow> db_trip_updates d, s \<leftarrow> db_stops d,
          tu_stop_id tu = Some (st_stop_id s) \<and> now - hours_us 24 < tu_time tu])"

definition on_time_tally :: "dash_env \<Rightarrow> timestamp \<Rightarrow> database \<Rightarrow> hour_tally" where
  "on_time_tally env now d = fold (tally_on_time env) (on_time_groups now d) \<lparr>ht_all = [], ht_luas = [], ht_bus = []\<rparr>"

definition on_time_entry :: "string \<times> pyfloat \<Rightarrow> json" where
  "on_time_entry p = JObj [(''time'', JStr (fst p)), (''onTimePercent'', JFloat (snd p))]"

definition dash_on_time :: "dash_env \<Rightarrow> timestamp \<Rightarrow> database \<Rightarrow> json \<times> json \<times> json" where
  "dash_on_time env now d =
     (let t = on_time_tally env now d
      in (JArr (map (\<lambda>(label, whole, on). on_time_entry (label, percent on (max whole 1))) (ht_all t)),
          JArr (map on_time_entry (ht_luas t)), JArr (map on_time_entry (ht_bus t))))"

text \<open>Fleet utilisation: the average of the averages of an hour.\<close>

record fleet_tally =
  fl_all :: "(string, pyfloat \<times> nat) dict"
  fl_luas :: "(string, pyfloat) dict"
  fl_bus :: "(string, pyfloat) dict"

definition tally_fleet :: "dash_env \<Rightarrow> (timestamp \<times> string) \<times> pyfloat list \<Rightarrow> fleet_tally \<Rightarrow> fleet_tally" where
  "tally_fleet env grp acc =
     (case grp of ((bucket, kind), occs) \<Rightarrow>
       let label = hour_label env bucket; x = (case avg_float occs of None \<Rightarrow> 0 | Some a \<Rightarrow> a); avg = py_round_nd x 1;
           old = (case dict_get (fl_all acc) label of None \<Rightarrow> (0, 0) | Some p \<Rightarrow> p);
           acc = acc\<lparr>fl_all := dict_set (fl_all acc) label (fadd (fst old) x, snd old + 1)\<rparr>
       in if kind = ''luas'' then acc\<lparr>fl_luas := dict_set (fl_luas acc) label avg\<rparr>
          else if kind = ''bus'' then acc\<lparr>fl_bus := dict_set (fl_bus acc) label avg\<rparr>
          else acc)"

definition fleet_groups :: "timestamp \<Rightarrow> database \<Rightarrow> ((timestamp \<times> string) \<times> pyfloat list) list" where
  "fleet_groups now d =
     map (\<lambda>(k, xs). (k, map (\<lambda>(vt, _). vt_occupancy_percent vt) xs))
       (grouped_by (\<lambda>(vt, kind). (time_bucket (hours_us 1) (vt_time vt), kind))
         [(vt, ro_transport_type r). vt \<leftarrow> db_vehicle_telemetry d, v \<leftarrow> db_vehicles d, r \<leftarrow> db_routes d,
            ve_vehicle_id v = vt_vehicle_id vt \<and> ve_route_id v = Some (ro_route_id r) \<and> now - hours_us 24 < vt_time vt])"

definition fleet_entry :: "string \<times> pyfloat \<Rightarrow> json" where
  "fleet_entry p = JObj [(''time'', JStr (fst p)), (''avgOccupancy'', JFloat (snd p))]"

definition dash_fleet :: "dash_env \<Rightarrow> timestamp \<Rightarrow> database \<Rightarrow> json \<times> json \<times> json" where
  "dash_fleet env now d =
     (let t = fold (tally_fleet env) (fleet_groups now d) \<lparr>fl_all = [], fl_luas = [], fl_bus = []\<rparr>
      in (JArr (map (\<lambda>(label, whole, n). fleet_entry (label, py_round_nd (fdiv whole (of_nat (max n 1))) 1)) (fl_all t)),
          JArr (map fleet_entry (fl_luas t)), JArr (map fleet_entry (fl_bus t))))"

text \<open>\<open>ROUND\<close> of a \<open>numeric\<close> rounds halves away from zero.\<close>

definition sql_round :: "rat \<Rightarrow> int" where
  "sql_round x = (if 0 \<le> x then \<lfloor>x + 1 / 2\<rfloor> else \<lceil>x - 1 / 2\<rceil>)"

definition dash_efficiency :: "database \<Rightarrow> json" where
  "dash_efficiency d = JArr (List.map_filter (\<lambda>r.
     case avg_float (map ve_occupancy_percent (filter (\<lambda>v. ve_is_active v \<and> ve_route_id v = Some (ro_route_id r)) (db_vehicles d))) of
       None \<Rightarrow> None
     | Some x \<Rightarrow> Some (JObj [(''route'', JStr (route_display (ro_transport_type r) (ro_short_name r))), (''efficiency'', JInt (sql_round x))]))
     (sort_key (\<lambda>r. (ro_transport_type r, ro_short_name r)) (db_routes d)))"

subsection \<open>Histories\<close>

definition stop_history :: "dash_env \<Rightarrow> timestamp \<Rightarrow> string \<Rightarrow> int \<Rightarrow> database \<Rightarrow> json" where
  "stop_history env now stop_id hours d = JArr (map (\<lambda>r. JObj
     [(''time'', JStr (dh_str env (cr_time r))), (''count'', JInt (cr_count r)), (''zone'', opt_str (cr_zone r))])
     (sort_key cr_time (filter (\<lambda>r. cr_stop_id r = stop_id \<and> now - hours_us hours < cr_time r) (db_crowd_count d))))"

definition vehicle_history :: "dash_env \<Rightarrow> timestamp \<Rightarrow> int \<Rightarrow> string option \<Rightarrow> database \<Rightarrow> json" where
  "vehicle_history env now hours route_id d =
     (let recent = filter (\<lambda>vt. now - hours_us hours < vt_time vt) (db_vehicle_telemetry d);
          rows = (case route_id of
                    Some route \<Rightarrow> if route = [] then recent
                      else [vt. vt \<leftarrow> recent, v \<leftarrow> db_vehicles d, ve_vehicle_id v = vt_vehicle_id vt \<and> ve_route_id v = Some route]
                  | None \<Rightarrow> recent)
      in JArr (map (\<lambda>((bucket, _), xs). JObj [(''time'', JStr (dh_str env bucket)),
           (''avg_occupancy'', JFloat (py_round_nd (case avg_float (map vt_occupancy_percent xs) of None \<Rightarrow> 0 | Some x \<Rightarrow> x) 1))])
           (grouped_by (\<lambda>vt. (time_bucket (900 * 1000000) (vt_time vt), ())) rows)))"

definition device_logs :: "dash_env \<Rightarrow> string \<Rightarrow> nat \<Rightarrow> database \<Rightarrow> json" where
  "device_logs env device_id limit d = JArr (map (\<lambda>r. JObj
     [(''time'', JStr (dh_str env (lg_time r))), (''level'', JStr (lg_level r)), (''message'', JStr (lg_message r))])
     (take limit (sort_key (\<lambda>r. - lg_time r) (filter (\<lambda>r. lg_device_id r = device_id) (db_stop_logs d)))))"

definition freshness :: "dash_env \<Rightarrow> database \<Rightarrow> json" where
  "freshness env d = JObj [(''latest'', opt_time env
     (case map tu_time (db_trip_updates d) of [] \<Rightarrow> None | t # ts \<Rightarrow> Some (foldl max t ts)))]"

text \<open>The trip updates of the stops of a route, or of all stops without a route.\<close>

definition scoped_updates :: "timestamp \<Rightarrow> string option \<Rightarrow> int \<Rightarrow> database \<Rightarrow> trip_row list" where
  "scoped_updates now route_id hours d =
     filter (\<lambda>tu. now - hours_us hours < tu_time tu \<and>
       (case route_id of
          Some route \<Rightarrow> route \<noteq> [] \<longrightarrow> (\<exists>rs \<in> set (db_route_stops d). rt_route_id rs = route \<and> tu_stop_id tu = Some (rt_stop_id rs))
        | None \<Rightarrow> True))
     (db_trip_updates d)"

definition on_time_by_hour :: "dash_env \<Rightarrow> timestamp \<Rightarrow> string option \<Rightarrow> int \<Rightarrow> database \<Rightarrow> (string \<times> pyfloat) list" where
  "on_time_by_hour env now route_id hours d =
     map (\<lambda>((bucket, _), xs). (hour_label env bucket, percent (length (filter on_time_row xs)) (max (length xs) 1)))
       (grouped_by (\<lambda>tu. (time_bucket (hours_us 1) (tu_time tu), ())) (scoped_updates now route_id hours d))"

subsection \<open>Delays\<close>

text \<open>An average rounded to one place.\<close>

definition round1 :: "rat \<Rightarrow> rat" where
  "round1 x = of_int (half_even (x * 10)) / 10"

definition group_rows :: "('a \<Rightarrow> 'k) \<Rightarrow> 'a list \<Rightarrow> ('k \<times> 'a list) list" where
  "group_rows key rows = map (\<lambda>k. (k, filter (\<lambda>r. key r = k) rows)) (remdups (map key rows))"

definition delayed_stops :: "timestamp \<Rightarrow> string option \<Rightarrow> int \<Rightarrow> database \<Rightarrow> (trip_row \<times> stop_row) list" where
  "delayed_stops now route_id hours d =
     [(tu, s). tu \<leftarrow> scoped_updates now route_id hours d, s \<leftarrow> db_stops d,
        tu_arrival_delay tu \<noteq> None \<and> tu_stop_id tu = Some (st_stop_id s)]"

definition avg_delay :: "(trip_row \<times> stop_row) list \<Rightarrow> rat" where
  "avg_delay xs = the (avg_int (map (\<lambda>(tu, _). the (tu_arrival_delay tu)) xs))"

text \<open>Of a route, per stop the hours of the day with their averages; the inner list is built per stop.\<close>

definition add_delay_hour ::
    "(string \<times> string \<times> nat) \<times> (trip_row \<times> stop_row) list \<Rightarrow> (string, string \<times> (nat \<times> rat) list) dict \<Rightarrow>
     (string, string \<times> (nat \<times> rat) list) dict" where
  "add_delay_hour grp acc =
     (case grp of ((stop, name, hour), xs) \<Rightarrow>
       let old = (case dict_get acc stop of None \<Rightarrow> (name, []) | Some o' \<Rightarrow> o')
       in dict_set acc stop (fst old, snd old @ [(hour, round1 (avg_delay xs))]))"

definition delay_by_hour :: "dash_env \<Rightarrow> timestamp \<Rightarrow> string \<Rightarrow> int \<Rightarrow> database \<Rightarrow> (string, string \<times> (nat \<times> rat) list) dict" where
  "delay_by_hour env now route hours d =
     fold add_delay_hour
       (sort_key (\<lambda>((stop, name, hour), _). (stop, hour))
         (group_rows (\<lambda>(tu, s). (st_stop_id s, st_stop_name s, dh_hour env (tu_time tu))) (delayed_stops now (Some route) hours d))) []"

definition worst_delays :: "timestamp \<Rightarrow> int \<Rightarrow> database \<Rightarrow> (string \<times> string \<times> rat) list" where
  "worst_delays now hours d =
     map (\<lambda>((stop, name), xs). (stop, name, round1 (avg_delay xs)))
       (take 15 (sort_key (\<lambda>(_, xs). - avg_delay xs)
         (group_rows (\<lambda>(tu, s). (st_stop_id s, st_stop_name s)) (delayed_stops now None hours d))))"

subsection \<open>Predictions\<close>

record shown_stop =
  sh_stop_id :: string
  sh_stop_sequence :: int
  sh_predicted_passengers :: int
  sh_boarded :: int
  sh_alighted :: int
  sh_waiting :: "int option"
  sh_has_data :: bool

record shown_vehicle =
  sv_vehicle_id :: string
  sv_capacity :: int
  sv_confidence :: pyfloat
  sv_peak :: pyfloat
  sv_stops :: "shown_stop list"

text \<open>The local variables of the loop over the rows; a stop is its sequence and its waiting people.\<close>

record shown =
  sn_vehicles :: "(string, shown_vehicle) dict"
  sn_stops :: "(string, int \<times> int option) dict"
  sn_waiting :: "(string, int) dict"
  sn_boarded :: "(string, int) dict"

definition nothing_shown :: shown where
  "nothing_shown = \<lparr>sn_vehicles = [], sn_stops = [], sn_waiting = [], sn_boarded = []\<rparr>"

definition shown_stop_of :: "prediction_row \<Rightarrow> shown_stop" where
  "shown_stop_of r = \<lparr>sh_stop_id = pr_stop_id r, sh_stop_sequence = pr_stop_sequence r,
     sh_predicted_passengers = pr_predicted_passengers r, sh_boarded = pr_boarded r, sh_alighted = pr_alighted r,
     sh_waiting = pr_waiting_at_stop r, sh_has_data = pr_has_data r\<rparr>"

definition show_vehicle :: "prediction_row \<Rightarrow> shown_vehicle option \<Rightarrow> shown_vehicle" where
  "show_vehicle r old =
     (let vp = (case old of
                  Some vp \<Rightarrow> vp
                | None \<Rightarrow> \<lparr>sv_vehicle_id = pr_vehicle_id r, sv_capacity = pr_vehicle_capacity r,
                           sv_confidence = pr_confidence r, sv_peak = 0, sv_stops = []\<rparr>);
          occ = pr_predicted_occupancy_pct r;
          vp = (if sv_peak vp < occ then vp\<lparr>sv_peak := occ\<rparr> else vp)
      in vp\<lparr>sv_stops := sv_stops vp @ [shown_stop_of r]\<rparr>)"

definition show_row :: "prediction_row \<Rightarrow> shown \<Rightarrow> shown" where
  "show_row r acc =
     (let vid = pr_vehicle_id r; sid = pr_stop_id r;
          waiting = (case pr_waiting_at_stop r of None \<Rightarrow> 0 | Some n \<Rightarrow> n);
          boarded = (case dict_get (sn_boarded acc) sid of None \<Rightarrow> 0 | Some n \<Rightarrow> n) + pr_boarded r
      in \<lparr>sn_vehicles = dict_set (sn_vehicles acc) vid (show_vehicle r (dict_get (sn_vehicles acc) vid)),
          sn_stops = (if dict_get (sn_stops acc) sid = None
                      then dict_set (sn_stops acc) sid (pr_stop_sequence r, pr_waiting_at_stop r) else sn_stops acc),
          sn_waiting = (if dict_get (sn_waiting acc) sid = None then dict_set (sn_waiting acc) sid waiting else sn_waiting acc),
          sn_boarded = dict_set (sn_boarded acc) sid boarded\<rparr>)"

definition shown_stranded :: "shown \<Rightarrow> (string, int) dict" where
  "shown_stranded acc = List.map_filter (\<lambda>(sid, waiting).
     let left = waiting - (case dict_get (sn_boarded acc) sid of None \<Rightarrow> 0 | Some n \<Rightarrow> n)
     in if 0 < left then Some (sid, max 0 left) else None) (sn_waiting acc)"

definition rows_at :: "string \<Rightarrow> int \<Rightarrow> timestamp \<Rightarrow> database \<Rightarrow> prediction_row list" where
  "rows_at route dir t d = sort_key (\<lambda>r. (pr_vehicle_id r, pr_stop_sequence r))
     (filter (\<lambda>r. pr_route_id r = route \<and> pr_direction_id r = dir \<and> pr_time r = t) (db_predictions d))"

definition latest_time :: "string \<Rightarrow> int \<Rightarrow> database \<Rightarrow> timestamp option" where
  "latest_time route dir d =
     (case map pr_time (filter (\<lambda>r. pr_route_id r = route \<and> pr_direction_id r = dir) (db_predictions d)) of
        [] \<Rightarrow> None | t # ts \<Rightarrow> Some (foldl max t ts))"

definition predictions_for_route :: "string \<Rightarrow> int \<Rightarrow> database \<Rightarrow> shown" where
  "predictions_for_route route dir d =
     (case latest_time route dir d of
        None \<Rightarrow> nothing_shown
      | Some t \<Rightarrow> fold show_row (rows_at route dir t d) nothing_shown)"

text \<open>The newest time of every route and direction, then the rows of each.\<close>

definition latest_routes :: "database \<Rightarrow> (string \<times> int \<times> timestamp) list" where
  "latest_routes d =
     map (\<lambda>r. (pr_route_id r, pr_direction_id r, pr_time r))
       (distinct_on (\<lambda>r. (pr_route_id r, pr_direction_id r))
         (sort_key (\<lambda>r. (pr_route_id r, pr_direction_id r, - pr_time r)) (db_predictions d)))"

definition predictions_latest :: "database \<Rightarrow> (string \<times> int \<times> timestamp \<times> shown) list" where
  "predictions_latest d = map (\<lambda>(route, dir, t). (route, dir, t, fold show_row (rows_at route dir t d) nothing_shown)) (latest_routes d)"

text \<open>As JSON: the entries of a stop carry the waiting people in the view of all routes only.\<close>

definition shown_stop_json :: "bool \<Rightarrow> shown_stop \<Rightarrow> json" where
  "shown_stop_json all_routes st = JObj ([(''stop_id'', JStr (sh_stop_id st)), (''stop_sequence'', JInt (sh_stop_sequence st)),
     (''predicted_passengers'', JInt (sh_predicted_passengers st)), (''boarded'', JInt (sh_boarded st)),
     (''alighted'', JInt (sh_alighted st))] @ (if all_routes then [(''waiting_at_stop'', opt_int (sh_waiting st))] else []) @
     [(''has_data'', JBool (sh_has_data st))])"

definition shown_vehicle_json :: "string option \<Rightarrow> shown_vehicle \<Rightarrow> json" where
  "shown_vehicle_json route vp = JObj ([(''vehicle_id'', JStr (sv_vehicle_id vp))] @
     (case route of Some r \<Rightarrow> [(''route_id'', JStr r)] | None \<Rightarrow> []) @
     [(''vehicle_capacity'', JInt (sv_capacity vp)), (''confidence'', JFloat (sv_confidence vp)),
      (''peak_occupancy_pct'', JFloat (sv_peak vp)), (''stops'', JArr (map (shown_stop_json (route \<noteq> None)) (sv_stops vp)))])"

definition stranded_json :: "shown \<Rightarrow> json" where
  "stranded_json acc = JObj (map (\<lambda>(sid, n). (sid, JInt n)) (shown_stranded acc))"

definition predictions_for_route_json :: "string \<Rightarrow> int \<Rightarrow> database \<Rightarrow> json" where
  "predictions_for_route_json route dir d =
     (let acc = predictions_for_route route dir d
      in JObj [(''vehicle_predictions'', JArr (map (shown_vehicle_json None) (dict_values (sn_vehicles acc)))),
               (''stops'', JArr (map (\<lambda>(sid, seq, n). JObj [(''stop_id'', JStr sid), (''stop_sequence'', JInt seq), (''people_waiting'', opt_int n)])
                  (sort_key (\<lambda>(sid, seq, n). seq) (sn_stops acc)))),
               (''stranded_at_stops'', stranded_json acc)])"

definition predictions_latest_json :: "dash_env \<Rightarrow> database \<Rightarrow> json" where
  "predictions_latest_json env d = JObj [(''routes'', JArr (map (\<lambda>(route, dir, t, acc). JObj
     [(''route_id'', JStr route), (''direction_id'', JInt dir), (''time'', JStr (dh_str env t)),
      (''vehicle_predictions'', JArr (map (shown_vehicle_json (Some route)) (dict_values (sn_vehicles acc)))),
      (''stranded_at_stops'', stranded_json acc)]) (predictions_latest d)))]"

subsection \<open>The payload\<close>

definition hotspot_json :: "hotspot \<Rightarrow> json" where
  "hotspot_json h = JObj [(''stopId'', JStr (hs_stop_id h)), (''stopName'', JStr (hs_stop_name h)), (''count'', JInt (hs_count h)),
     (''trend'', JStr (hs_trend h)), (''delta'', JInt (hs_delta h))]"

text \<open>All queries run in their order on one connection.\<close>

definition build_dashboard_payload :: "dash_env \<Rightarrow> timestamp \<Rightarrow> bool \<Rightarrow> outages \<Rightarrow> (database, json) io" where
  "build_dashboard_payload env now opened up = connection opened up
     (bind_io (query up dash_routes) (\<lambda>routes.
      bind_io (query up (dash_stops env)) (\<lambda>stops.
      bind_io (query up dash_wait_counts) (\<lambda>stop_wait_counts.
      bind_io (query up dash_vehicles) (\<lambda>vehicles.
      bind_io (query up dash_hotspots) (\<lambda>crowding_hotspots.
      bind_io (query up (dash_route_health now)) (\<lambda>route_health.
      bind_io (query up (dash_on_time env now)) (\<lambda>on_time.
      bind_io (query up (dash_fleet env now)) (\<lambda>fleet_util.
      bind_io (query up dash_efficiency) (\<lambda>resource_eff.
      bind_io (query up dash_alerts) (\<lambda>alerts.
      (\<lambda>s. (Inr (JObj [(''routes'', routes), (''stops'', stops), (''stopWaitCounts'', stop_wait_counts),
         (''vehicles'', vehicles), (''crowdingHotspots'', JArr (map hotspot_json crowding_hotspots)),
         (''routeHealth'', route_health), (''onTimeData'', fst on_time),
         (''onTimeDataByType'', JObj [(''luas'', fst (snd on_time)), (''bus'', snd (snd on_time))]),
         (''fleetUtilization'', fst fleet_util),
         (''fleetUtilByType'', JObj [(''luas'', fst (snd fleet_util)), (''bus'', snd (snd fleet_util))]),
         (''resourceEfficiency'', resource_eff), (''alerts'', alerts)]), s)))))))))))))"

text \<open>\<open>resolve_alert\<close> of \<open>queries.py\<close>: unlike the writer's it raises on a failure.\<close>

definition api_resolve_alert :: "timestamp \<Rightarrow> int \<Rightarrow> bool \<Rightarrow> outages \<Rightarrow> (database, unit) io" where
  "api_resolve_alert now alert_id opened up = connection opened up
     (bind_io (run_all [execute up (update_alert_resolved now alert_id), notify up ''alert_resolved'']) (\<lambda>_. commit up))"

end
