(* ===== verification/Dashboard_Properties.thy ===== *)
theory Dashboard_Properties
  imports Dashboard Engine_Properties Db_Writer_Properties
begin

text \<open>
  The properties of the dashboard: the view of the predictions of a route gives back what
  the engine computed, and what the lists of the overview contain.
\<close>

subsection \<open>The loop over the rows of a prediction\<close>

lemma filter_eq_Nil: "k \<notin> f ` set xs \<Longrightarrow> filter (\<lambda>x. f x = k) xs = []"
  by (auto simp: filter_empty_conv)

lemma show_row_boarded:
  "dict_get (sn_boarded (fold show_row rows acc)) sid =
     (if sid \<in> pr_stop_id ` set rows
      then Some ((case dict_get (sn_boarded acc) sid of None \<Rightarrow> 0 | Some n \<Rightarrow> n) +
        sum_list (map pr_boarded (filter (\<lambda>r. pr_stop_id r = sid) rows)))
      else dict_get (sn_boarded acc) sid)"
  by (induction rows arbitrary: acc) (auto simp: show_row_def Let_def dict_get_set filter_eq_Nil)

definition waiting_shown :: "prediction_row \<Rightarrow> int" where
  "waiting_shown r = (case pr_waiting_at_stop r of None \<Rightarrow> 0 | Some n \<Rightarrow> n)"

lemma show_row_waiting:
  "dict_get (sn_waiting (fold show_row rows acc)) sid =
     (case dict_get (sn_waiting acc) sid of
        Some n \<Rightarrow> Some n
      | None \<Rightarrow> (case filter (\<lambda>r. pr_stop_id r = sid) rows of [] \<Rightarrow> None | r # _ \<Rightarrow> Some (waiting_shown r)))"
proof (induction rows arbitrary: acc)
  case (Cons r rows)
  have "dict_get (sn_waiting (show_row r acc)) sid =
      (case dict_get (sn_waiting acc) sid of
         Some n \<Rightarrow> Some n | None \<Rightarrow> if pr_stop_id r = sid then Some (waiting_shown r) else None)"
    by (auto simp: show_row_def Let_def dict_get_set waiting_shown_def split: option.split)
  then show ?case using Cons.IH [of "show_row r acc"] by (auto split: option.splits)
qed (simp split: option.split)

lemma show_row_waiting_distinct:
  "distinct (dict_keys (sn_waiting acc)) \<Longrightarrow> distinct (dict_keys (sn_waiting (fold show_row rows acc)))"
proof (induction rows arbitrary: acc)
  case (Cons r rows)
  have "distinct (dict_keys (sn_waiting (show_row r acc)))"
    using Cons.prems by (auto simp: show_row_def Let_def dict_keys_set)
  then show ?case using Cons.IH by simp
qed simp

lemma show_row_vehicles:
  "dict_get (sn_vehicles (fold show_row rows acc)) vid =
     fold (\<lambda>r old. Some (show_vehicle r old)) (filter (\<lambda>r. pr_vehicle_id r = vid) rows) (dict_get (sn_vehicles acc) vid)"
  by (induction rows arbitrary: acc) (auto simp: show_row_def Let_def dict_get_set)

lemma show_row_keys:
  "set (dict_keys (sn_vehicles (fold show_row rows acc))) = set (dict_keys (sn_vehicles acc)) \<union> pr_vehicle_id ` set rows"
  by (induction rows arbitrary: acc) (auto simp: show_row_def Let_def dict_keys_set)

lemma shown_keys: "set (dict_keys (sn_vehicles (fold show_row (sort_key k rows) nothing_shown))) = pr_vehicle_id ` set rows"
  using show_row_keys [of "sort_key k rows" nothing_shown] by (simp add: nothing_shown_def dict_keys_def)

lemma map_filter_get:
  assumes "distinct (dict_keys d)"
  shows "dict_get (List.map_filter (\<lambda>(k, v). if P k v then Some (k, f k v) else None) d) k =
    (case dict_get d k of None \<Rightarrow> None | Some v \<Rightarrow> if P k v then Some (f k v) else None)"
  using assms
proof (induction d)
  case (Cons kv d)
  have "dict_get d (fst kv) = None" using Cons.prems by (simp add: dict_get_None dict_keys_def)
  then show ?case using Cons by (cases kv) (auto simp: map_filter_simps dict_get_def dict_keys_def)
qed (simp add: map_filter_simps dict_get_def)

lemma shown_stranded_get:
  assumes "distinct (dict_keys (sn_waiting acc))"
  shows "dict_get (shown_stranded acc) sid =
    (case dict_get (sn_waiting acc) sid of
       None \<Rightarrow> None
     | Some w \<Rightarrow>
         let left = w - (case dict_get (sn_boarded acc) sid of None \<Rightarrow> 0 | Some n \<Rightarrow> n)
         in if 0 < left then Some left else None)"
proof -
  let ?left = "\<lambda>sid w. w - (case dict_get (sn_boarded acc) sid of None \<Rightarrow> 0 | Some n \<Rightarrow> n)"
  have "shown_stranded acc =
      List.map_filter (\<lambda>(sid, w). if 0 < ?left sid w then Some (sid, max 0 (?left sid w)) else None) (sn_waiting acc)"
    by (simp add: shown_stranded_def Let_def)
  then show ?thesis
    using map_filter_get [OF assms, of "\<lambda>sid w. 0 < ?left sid w" "\<lambda>sid w. max 0 (?left sid w)" sid]
    by (auto simp: Let_def split: option.split)
qed

lemma nothing_shown_get [simp]:
  "dict_get (sn_vehicles nothing_shown) k = None" "dict_get (sn_waiting nothing_shown) k = None"
  "dict_get (sn_boarded nothing_shown) k = None"
  by (simp_all add: nothing_shown_def dict_get_def)

text \<open>The rows of one vehicle.\<close>

lemma show_vehicle_rows:
  "fold (\<lambda>r old. Some (show_vehicle r old)) rows (Some vp) =
    Some (vp\<lparr>sv_peak := foldl max (sv_peak vp) (map pr_predicted_occupancy_pct rows),
             sv_stops := sv_stops vp @ map shown_stop_of rows\<rparr>)"
  by (induction rows arbitrary: vp) (simp_all add: show_vehicle_def Let_def max_def)

lemma show_vehicle_first:
  "fold (\<lambda>r old. Some (show_vehicle r old)) (r # rows) None =
    Some \<lparr>sv_vehicle_id = pr_vehicle_id r, sv_capacity = pr_vehicle_capacity r, sv_confidence = pr_confidence r,
      sv_peak = foldl max 0 (map pr_predicted_occupancy_pct (r # rows)), sv_stops = map shown_stop_of (r # rows)\<rparr>"
proof -
  let ?vp = "\<lparr>sv_vehicle_id = pr_vehicle_id r, sv_capacity = pr_vehicle_capacity r, sv_confidence = pr_confidence r,
      sv_peak = 0, sv_stops = []\<rparr>"
  have "fold (\<lambda>r old. Some (show_vehicle r old)) (r # rows) None = fold (\<lambda>r old. Some (show_vehicle r old)) (r # rows) (Some ?vp)"
    by (simp add: show_vehicle_def)
  then show ?thesis unfolding show_vehicle_rows by simp
qed

subsection \<open>The predictions of the engine\<close>

lemma simulate_vehicle_of:
  "simulate af stops vs rem = (vps, rem') \<Longrightarrow> vp \<in> set vps \<Longrightarrow>
   \<exists>v \<in> set vs. \<exists>rem0 rem1. simulate_vehicle af stops v rem0 = (Some vp, rem1)"
proof (induction vs arbitrary: rem vps)
  case (Cons v vs)
  from Cons.prems(1) show ?case
    by (cases rule: simulate_step) (use Cons in auto)
qed simp

lemma simulate_ids:
  "simulate af stops vs rem = (vps, rem') \<Longrightarrow>
   set (map vp_vehicle_id vps) \<subseteq> set (map vs_vehicle_id vs) \<and>
   (distinct (map vs_vehicle_id vs) \<longrightarrow> distinct (map vp_vehicle_id vps))"
proof (induction vs arbitrary: rem vps)
  case (Cons v vs)
  from Cons.prems show ?case
  proof (cases rule: simulate_step)
    case (1 rem1 vps1)
    then show ?thesis using Cons.IH [OF 1(1)] by auto
  next
    case (2 rem1 vps1 vp)
    then have "vp_vehicle_id vp = vs_vehicle_id v" by (blast elim: simulate_vehicle_SomeD)
    then show ?thesis using Cons.IH [OF 2(1)] 2(3) by auto
  qed
qed simp

text \<open>What the tables keep of a prediction, for vehicles of the route.\<close>

definition shown_of :: "stop_prediction \<Rightarrow> shown_stop" where
  "shown_of sp = \<lparr>sh_stop_id = sp_stop_id sp, sh_stop_sequence = sp_stop_sequence sp,
     sh_predicted_passengers = sp_predicted_passengers sp, sh_boarded = sp_boarded sp, sh_alighted = sp_alighted sp,
     sh_waiting = sp_people_waiting_at_stop sp, sh_has_data = sp_has_data sp\<rparr>"

lemma shown_stop_row [simp]: "shown_stop_of (prediction_row_of now r vp sp) = shown_of sp"
  by (simp add: shown_stop_of_def prediction_row_of_def shown_of_def Let_def)

lemma row_fields [simp]:
  "pr_time (prediction_row_of now r vp sp) = now" "pr_vehicle_id (prediction_row_of now r vp sp) = vp_vehicle_id vp"
  "pr_route_id (prediction_row_of now r vp sp) = vp_route_id vp" "pr_direction_id (prediction_row_of now r vp sp) = rp_direction_id r"
  "pr_stop_id (prediction_row_of now r vp sp) = sp_stop_id sp" "pr_stop_sequence (prediction_row_of now r vp sp) = sp_stop_sequence sp"
  "pr_boarded (prediction_row_of now r vp sp) = sp_boarded sp" "pr_vehicle_capacity (prediction_row_of now r vp sp) = vp_vehicle_capacity vp"
  "pr_waiting_at_stop (prediction_row_of now r vp sp) = sp_people_waiting_at_stop sp"
  "pr_confidence (prediction_row_of now r vp sp) = py_round_nd (vp_confidence vp) 4"
  by (simp_all add: prediction_row_of_def Let_def)

lemma prediction_rows_map:
  "map f (prediction_rows now r) =
     concat (map (\<lambda>vp. map (\<lambda>sp. f (prediction_row_of now r vp sp)) (vp_stops vp)) (rp_vehicle_predictions r))"
  by (simp add: prediction_rows_def map_concat comp_def)

text \<open>A simulated vehicle of a sorted route calls at its stops in order and reports what waits there.\<close>

lemma vehicle_calls:
  assumes "simulate_vehicle af stops v rem = (Some vp, rem')" "sorted (map ss_sequence stops)"
  shows "sorted (map sp_stop_sequence (vp_stops vp))"
    and "sp \<in> set (vp_stops vp) \<Longrightarrow> \<exists>st \<in> set stops. sp_stop_id sp = ss_stop_id st \<and> sp_stop_sequence sp = ss_sequence st \<and>
      sp_people_waiting_at_stop sp = ss_people_waiting st"
    and "vp_stops vp \<noteq> []" "vp_route_id vp = vs_route_id v" "wf_vehicle_prediction vp"
proof -
  from assms(1) obtain start where s: "start < length stops - 1" "vp_stops vp = w_preds (vehicle_walk af stops v rem start)"
      "vp_route_id vp = vs_route_id v" "wf_vehicle_prediction vp"
    by (rule simulate_vehicle_SomeD)
  note w = walk_stops [of af "vs_capacity v" stops "vs_passenger_count v" rem start "length stops - 1"]
  have map: "map (\<lambda>p. (sp_stop_id p, sp_stop_sequence p, sp_people_waiting_at_stop p, sp_has_data p)) (vp_stops vp) =
      map (\<lambda>i. (ss_stop_id (stops ! i), ss_sequence (stops ! i), ss_people_waiting (stops ! i), has_data stops ! i))
        [start..<length stops - 1]"
    using w s(2) by (simp add: vehicle_walk_def)
  have "map sp_stop_sequence (vp_stops vp) = map (\<lambda>i. ss_sequence (stops ! i)) [start..<length stops - 1]"
    using arg_cong [OF map, of "map (fst \<circ> snd)"] by (simp add: comp_def)
  also have "\<dots> = drop start (butlast (map ss_sequence stops))"
    using drop_butlast_upt [of ss_sequence stops start] by (simp add: map_butlast [symmetric] drop_map)
  finally show "sorted (map sp_stop_sequence (vp_stops vp))"
    using assms(2) by (simp add: sorted_wrt_drop sorted_butlast)
  show "\<exists>st \<in> set stops. sp_stop_id sp = ss_stop_id st \<and> sp_stop_sequence sp = ss_sequence st \<and>
      sp_people_waiting_at_stop sp = ss_people_waiting st" if "sp \<in> set (vp_stops vp)"
  proof -
    have "(sp_stop_id sp, sp_stop_sequence sp, sp_people_waiting_at_stop sp, sp_has_data sp) \<in>
        set (map (\<lambda>i. (ss_stop_id (stops ! i), ss_sequence (stops ! i), ss_people_waiting (stops ! i), has_data stops ! i))
          [start..<length stops - 1])"
      using that by (subst map [symmetric]) auto
    then obtain i where "i \<in> set [start..<length stops - 1]"
        "(sp_stop_id sp, sp_stop_sequence sp, sp_people_waiting_at_stop sp, sp_has_data sp) =
         (ss_stop_id (stops ! i), ss_sequence (stops ! i), ss_people_waiting (stops ! i), has_data stops ! i)"
      unfolding set_map by blast
    then show ?thesis by (intro bexI [of _ "stops ! i"]) auto
  qed
  show "vp_stops vp \<noteq> []" "vp_route_id vp = vs_route_id v" "wf_vehicle_prediction vp"
    using s(3,4) by (simp_all add: wf_vehicle_prediction_def)
qed

lemma py_round_nd_mono: "x \<le> y \<Longrightarrow> py_round_nd x n \<le> py_round_nd y n"
  unfolding py_round_nd_def
  by (intro fl_mono divide_right_mono) (simp_all add: half_even_mono mult_right_mono)

lemma foldl_max_least:
  assumes "\<forall>x \<in> set xs. x \<le> (m :: 'a :: linorder)" "m \<in> set xs"
  shows "foldl max a xs = max a m"
  using assms
proof (induction xs arbitrary: a)
  case (Cons x xs)
  show ?case
  proof (cases "m \<in> set xs")
    case True
    then show ?thesis using Cons by (simp add: max.assoc max_absorb2)
  next
    case False
    then have x: "x = m" using Cons.prems(2) by simp
    have "foldl max b ys = b" if "\<forall>y \<in> set ys. y \<le> b" for b and ys :: "'a list"
      using that by (induction ys) (simp_all add: max_absorb1)
    then show ?thesis using x Cons.prems(1) by (simp add: le_max_iff_disj)
  qed
qed simp

lemma shown_peak:
  assumes "wf_vehicle_prediction vp"
  shows "foldl max 0 (map pr_predicted_occupancy_pct (map (prediction_row_of now r vp) (vp_stops vp))) =
    max 0 (py_round_nd (vp_peak_occupancy_pct vp) 4)"
proof (rule foldl_max_least)
  let ?occ = "\<lambda>n. py_round_nd (py_truediv n (vp_vehicle_capacity vp)) 4"
  have c: "0 < vp_vehicle_capacity vp" and peak: "vp_peak_load vp \<in> sp_predicted_passengers ` set (vp_stops vp)"
      "list_all (\<lambda>sp. sp_predicted_passengers sp \<le> vp_peak_load vp) (vp_stops vp)"
      "py_round_nd (vp_peak_occupancy_pct vp) 4 = ?occ (vp_peak_load vp)"
    using assms by (simp_all add: wf_vehicle_prediction_def)
  have row: "pr_predicted_occupancy_pct (prediction_row_of now r vp sp) = ?occ (sp_predicted_passengers sp)" for sp
    using c by (simp add: prediction_row_of_def Let_def)
  show "\<forall>x \<in> set (map pr_predicted_occupancy_pct (map (prediction_row_of now r vp) (vp_stops vp))).
      x \<le> py_round_nd (vp_peak_occupancy_pct vp) 4"
    using peak(2,3) c by (auto simp: row list_all_iff intro!: py_round_nd_mono py_truediv_mono)
  show "py_round_nd (vp_peak_occupancy_pct vp) 4 \<in>
      set (map pr_predicted_occupancy_pct (map (prediction_row_of now r vp) (vp_stops vp)))"
    using peak(1,3) by (auto simp: row)
qed

text \<open>The rows of the newest write are read back, by vehicle and sequence.\<close>

definition newest_for :: "timestamp \<Rightarrow> string \<Rightarrow> int \<Rightarrow> database \<Rightarrow> bool" where
  "newest_for now route dir d \<longleftrightarrow>
     (\<forall>row \<in> set (db_predictions d). pr_route_id row = route \<and> pr_direction_id row = dir \<longrightarrow> pr_time row < now)"

definition row_order :: "prediction_row \<Rightarrow> string \<times> int" where
  "row_order = (\<lambda>r. (pr_vehicle_id r, pr_stop_sequence r))"

lemma read_back:
  assumes "newest_for now route dir d" "rows \<noteq> []"
    and "\<forall>row \<in> set rows. pr_route_id row = route \<and> pr_direction_id row = dir \<and> pr_time row = now"
  shows "predictions_for_route route dir (d\<lparr>db_predictions := db_predictions d @ rows\<rparr>) =
    fold show_row (sort_key row_order rows) nothing_shown"
proof -
  let ?mine = "\<lambda>row. pr_route_id row = route \<and> pr_direction_id row = dir"
  let ?ts = "map pr_time (filter ?mine (db_predictions d @ rows))"
  have new: "filter ?mine rows = rows" using assms(3) by (simp add: filter_id_conv)
  have old: "\<forall>row \<in> set (db_predictions d). ?mine row \<longrightarrow> pr_time row < now"
    using assms(1) by (simp add: newest_for_def)
  have ts: "now \<in> set ?ts" "\<forall>t \<in> set ?ts. t \<le> now"
    using assms(2,3) old new by (auto simp: order_less_imp_le) (cases rows, auto)
  have "latest_time route dir (d\<lparr>db_predictions := db_predictions d @ rows\<rparr>) = Some now"
  proof (cases ?ts)
    case (Cons t ts)
    have le: "\<forall>x \<in> set (t # ts). x \<le> now" "now \<in> set (t # ts)" using ts by (simp_all only: Cons)
    then have "foldl max t ts = now"
      using foldl_max_least [of ts now t] foldl_max_least [of "t # ts" now t] by (cases "now \<in> set ts") simp_all
    then show ?thesis using Cons by (simp add: latest_time_def)
  qed (use ts(1) in simp)
  moreover have "filter (\<lambda>row. ?mine row \<and> pr_time row = now) (db_predictions d) = []"
    using old by (auto simp: filter_empty_conv)
  moreover have "filter (\<lambda>row. ?mine row \<and> pr_time row = now) rows = rows"
    using assms(3) by (simp add: filter_id_conv)
  ultimately show ?thesis by (simp add: predictions_for_route_def rows_at_def row_order_def conj_assoc)
qed

subsection \<open>From the engine to the view\<close>

lemma sum_list_sort_key:
  "sum_list (map f (filter P (sort_key k xs))) = sum_list (map f (filter P xs) :: int list)"
proof -
  have "mset (map f (filter P (sort_key k xs))) = mset (map f (filter P xs))" by simp
  then show ?thesis by (metis sum_mset_sum_list)
qed

lemma rows_of_vehicle:
  assumes "distinct (map vp_vehicle_id vps)" "vp \<in> set vps"
  shows "filter (\<lambda>row. pr_vehicle_id row = vp_vehicle_id vp) (concat (map (\<lambda>vp. map (prediction_row_of now r vp) (vp_stops vp)) vps)) =
    map (prediction_row_of now r vp) (vp_stops vp)"
  using assms
proof (induction vps)
  case (Cons vp' vps)
  have none: "filter (\<lambda>row. pr_vehicle_id row = i) (concat (map (\<lambda>vp. map (prediction_row_of now r vp) (vp_stops vp)) vps)) = []"
    if "i \<notin> vp_vehicle_id ` set vps" for i
    using that by (auto simp: filter_empty_conv)
  show ?case
  proof (cases "vp = vp'")
    case True
    then show ?thesis using Cons.prems none [of "vp_vehicle_id vp"] by (simp add: filter_map comp_def)
  next
    case False
    then have "vp \<in> set vps" using Cons.prems(2) by simp
    moreover from this have "vp_vehicle_id vp \<noteq> vp_vehicle_id vp'" using Cons.prems(1) by (metis distinct.simps(2) image_eqI list.map(2) list.set_map)
    ultimately show ?thesis using Cons by (simp add: filter_map comp_def)
  qed
qed simp

lemma row_vehicles:
  assumes "\<And>vp. vp \<in> set (rp_vehicle_predictions r) \<Longrightarrow> vp_stops vp \<noteq> []"
  shows "pr_vehicle_id ` set (prediction_rows now r) = vp_vehicle_id ` set (rp_vehicle_predictions r)"
proof -
  have "pr_vehicle_id ` set (map (prediction_row_of now r vp) (vp_stops vp)) = {vp_vehicle_id vp}"
    if "vp \<in> set (rp_vehicle_predictions r)" for vp
    using assms [OF that] by (cases "vp_stops vp") (auto simp: image_iff)
  then show ?thesis by (auto simp: prediction_rows_def image_UN)
qed

lemma rows_of_stop:
  "map pr_boarded (filter (\<lambda>row. pr_stop_id row = sid) (prediction_rows now r)) =
     map sp_boarded (filter (\<lambda>sp. sp_stop_id sp = sid) (all_stops (rp_vehicle_predictions r)))"
proof -
  have "map pr_boarded (filter (\<lambda>row. pr_stop_id row = sid) (concat (map (\<lambda>vp. map (prediction_row_of now r vp) (vp_stops vp)) vps))) =
      map sp_boarded (filter (\<lambda>sp. sp_stop_id sp = sid) (all_stops vps))" for vps
    by (induction vps) (simp_all add: filter_map comp_def)
  then show ?thesis by (simp add: prediction_rows_def)
qed

text \<open>A route whose snapshot the engine predicts: what the builder guarantees, with a result.\<close>

definition predicted_route :: "prediction_config \<Rightarrow> route_snapshot \<Rightarrow> pyfloat option \<Rightarrow> route_prediction_result \<Rightarrow> bool" where
  "predicted_route config s f r \<longleftrightarrow>
     wf_snapshot s \<and> sorted (map ss_sequence (rs_stops s)) \<and> distinct (map ss_stop_id (rs_stops s)) \<and>
     1 < length (rs_stops s) \<and> (\<forall>v \<in> set (rs_vehicles s). vs_route_id v = rs_route_id s) \<and>
     distinct (map vs_vehicle_id (rs_vehicles s)) \<and> predict_route config s f = Inr r"

lemma predicted_routeD:
  assumes "predicted_route config s f r"
  shows "wf_snapshot s" "sorted (map ss_sequence (rs_stops s))" "distinct (map ss_stop_id (rs_stops s))"
    "1 < length (rs_stops s)" "\<forall>v \<in> set (rs_vehicles s). vs_route_id v = rs_route_id s"
    "distinct (map vs_vehicle_id (rs_vehicles s))" "predict_route config s f = Inr r"
  using assms by (simp_all add: predicted_route_def)

lemma predicted_origin:
  assumes p: "predicted_route config s f r" and "vp \<in> set (rp_vehicle_predictions r)"
  shows "\<exists>v \<in> set (rs_vehicles s). \<exists>af rem0 rem1. simulate_vehicle af (rs_stops s) v rem0 = (Some vp, rem1)"
  using predicted_routeD(7,4) [OF p]
proof (rule predict_route_Inr, goal_cases)
  case (1 remaining)
  show ?case using simulate_vehicle_of [OF 1(2) assms(2)] by auto
qed

lemma predicted_distinct:
  assumes p: "predicted_route config s f r"
  shows "distinct (map vp_vehicle_id (rp_vehicle_predictions r))"
  using predicted_routeD(7,4) [OF p]
proof (rule predict_route_Inr, goal_cases)
  case (1 remaining)
  have "mset (map vs_vehicle_id (sort_key vehicle_key (rs_vehicles s))) = mset (map vs_vehicle_id (rs_vehicles s))" by simp
  then have "distinct (map vs_vehicle_id (sort_key vehicle_key (rs_vehicles s)))"
    using predicted_routeD(6) [OF p] by (metis mset_eq_imp_distinct_iff)
  then show ?case using simulate_ids [OF 1(2)] by blast
qed

lemma predicted_call:
  assumes p: "predicted_route config s f r" and "sp \<in> set (all_stops (rp_vehicle_predictions r))"
  shows "\<exists>st \<in> set (rs_stops s). sp_stop_id sp = ss_stop_id st \<and> sp_stop_sequence sp = ss_sequence st \<and>
    sp_people_waiting_at_stop sp = ss_people_waiting st"
proof -
  obtain vp where vp: "vp \<in> set (rp_vehicle_predictions r)" "sp \<in> set (vp_stops vp)" using assms(2) by (auto simp: all_stops_def)
  then show ?thesis using predicted_origin [OF p vp(1)] vehicle_calls(2) [OF _ predicted_routeD(2) [OF p]] by blast
qed

lemma predicted_same_stop:
  assumes p: "predicted_route config s f r" and "st \<in> set (rs_stops s)" "sp \<in> set (all_stops (rp_vehicle_predictions r))"
  shows "sp_stop_id sp = ss_stop_id st \<longleftrightarrow> sp_stop_sequence sp = ss_sequence st"
    and "sp_stop_id sp = ss_stop_id st \<Longrightarrow> sp_people_waiting_at_stop sp = ss_people_waiting st"
proof -
  obtain st' where st': "st' \<in> set (rs_stops s)" "sp_stop_id sp = ss_stop_id st'" "sp_stop_sequence sp = ss_sequence st'"
      "sp_people_waiting_at_stop sp = ss_people_waiting st'"
    using predicted_call [OF p assms(3)] by blast
  have "ss_stop_id st' = ss_stop_id st \<longleftrightarrow> st' = st" "ss_sequence st' = ss_sequence st \<longleftrightarrow> st' = st"
    using st'(1) assms(2) predicted_routeD(3) [OF p] wf_distinct [OF predicted_routeD(1) [OF p]] by (auto simp: distinct_map inj_on_def)
  then show "sp_stop_id sp = ss_stop_id st \<longleftrightarrow> sp_stop_sequence sp = ss_sequence st"
    "sp_stop_id sp = ss_stop_id st \<Longrightarrow> sp_people_waiting_at_stop sp = ss_people_waiting st"
    using st' by auto
qed

lemma predicted_rows:
  assumes p: "predicted_route config s f r"
  shows "\<forall>row \<in> set (prediction_rows now r). pr_route_id row = rs_route_id s \<and> pr_direction_id row = rs_direction_id s \<and> pr_time row = now"
proof
  fix row assume "row \<in> set (prediction_rows now r)"
  then obtain vp sp where row: "row = prediction_row_of now r vp sp" "vp \<in> set (rp_vehicle_predictions r)"
    by (auto simp: prediction_rows_def)
  obtain v where "v \<in> set (rs_vehicles s)" "vp_route_id vp = vs_route_id v"
    using predicted_origin [OF p row(2)] vehicle_calls(4) [OF _ predicted_routeD(2) [OF p]] by blast
  then show "pr_route_id row = rs_route_id s \<and> pr_direction_id row = rs_direction_id s \<and> pr_time row = now"
    using predicted_routeD(5) [OF p] row(1) predict_route_ids [OF predicted_routeD(7) [OF p]] by simp
qed

lemma predicted_shown_vehicle:
  assumes p: "predicted_route config s f r" and "vp \<in> set (rp_vehicle_predictions r)"
  shows "dict_get (sn_vehicles (fold show_row (sort_key row_order (prediction_rows now r)) nothing_shown)) (vp_vehicle_id vp) =
    Some \<lparr>sv_vehicle_id = vp_vehicle_id vp, sv_capacity = vp_vehicle_capacity vp,
      sv_confidence = py_round_nd (vp_confidence vp) 4, sv_peak = max 0 (py_round_nd (vp_peak_occupancy_pct vp) 4),
      sv_stops = map shown_of (vp_stops vp)\<rparr>"
proof -
  obtain v af rem0 rem1 where v: "simulate_vehicle af (rs_stops s) v rem0 = (Some vp, rem1)" using predicted_origin [OF p assms(2)] by blast
  note calls = vehicle_calls [OF v predicted_routeD(2) [OF p]]
  let ?rows = "map (prediction_row_of now r vp) (vp_stops vp)"
  have "sorted (map row_order ?rows)"
    using calls(1) by (simp add: row_order_def comp_def sorted_map less_eq_prod_def sorted_wrt_map)
  then have "filter (\<lambda>row. pr_vehicle_id row = vp_vehicle_id vp) (sort_key row_order (prediction_rows now r)) = ?rows"
    using rows_of_vehicle [OF predicted_distinct [OF p] assms(2), of now r]
    by (simp add: filter_sort prediction_rows_def sort_key_id_if_sorted comp_def)
  moreover obtain sp sps where "vp_stops vp = sp # sps" using calls(3) by (cases "vp_stops vp") auto
  ultimately show ?thesis
    using show_vehicle_first [of "prediction_row_of now r vp sp" "map (prediction_row_of now r vp) sps"]
      shown_peak [OF calls(5), of now r]
    by (simp add: show_row_vehicles)
qed

lemma predicted_shown_left:
  assumes p: "predicted_route config s f r" and "st \<in> set (rs_stops s)"
  shows "dict_get (shown_stranded (fold show_row (sort_key row_order (prediction_rows now r)) nothing_shown)) (ss_stop_id st) =
    (if ss_stop_id st \<in> sp_stop_id ` set (all_stops (rp_vehicle_predictions r))
     then dict_get (rp_stranded_at_stops r) (ss_stop_id st) else None)"
proof -
  let ?rows = "sort_key row_order (prediction_rows now r)" and ?sps = "all_stops (rp_vehicle_predictions r)"
  let ?acc = "fold show_row ?rows nothing_shown"
  have d: "distinct (dict_keys (sn_waiting ?acc))"
    by (rule show_row_waiting_distinct) (simp add: nothing_shown_def dict_keys_def)
  have rows: "row \<in> set ?rows \<Longrightarrow> \<exists>sp \<in> set ?sps. pr_stop_id row = sp_stop_id sp \<and> pr_waiting_at_stop row = sp_people_waiting_at_stop sp" for row
    by (fastforce simp: prediction_rows_def all_stops_def)
  have called: "ss_stop_id st \<in> pr_stop_id ` set ?rows \<longleftrightarrow> ss_stop_id st \<in> sp_stop_id ` set ?sps"
    by (force simp: prediction_rows_def all_stops_def)
  show ?thesis
  proof (cases "ss_stop_id st \<in> sp_stop_id ` set ?sps")
    case False
    then have "filter (\<lambda>row. pr_stop_id row = ss_stop_id st) ?rows = []" using called by (simp add: filter_eq_Nil)
    then show ?thesis using False shown_stranded_get [OF d, of "ss_stop_id st"] by (simp add: show_row_waiting)
  next
    case True
    then obtain row rest where first: "filter (\<lambda>row. pr_stop_id row = ss_stop_id st) ?rows = row # rest"
      using called by (cases "filter (\<lambda>row. pr_stop_id row = ss_stop_id st) ?rows") (auto simp: filter_empty_conv)
    have "row \<in> set (filter (\<lambda>row. pr_stop_id row = ss_stop_id st) ?rows)" unfolding first by simp
    then have row: "row \<in> set ?rows" "pr_stop_id row = ss_stop_id st" by simp_all
    then have "waiting_shown row = waiting_of st"
      using rows [OF row(1)] predicted_same_stop(2) [OF assms] by (auto simp: waiting_shown_def waiting_of_def)
    moreover have "sum_list (map pr_boarded (filter (\<lambda>row. pr_stop_id row = ss_stop_id st) ?rows)) = boarded_at (ss_sequence st) ?sps"
    proof -
      have "filter (\<lambda>sp. sp_stop_id sp = ss_stop_id st) ?sps = filter (\<lambda>sp. sp_stop_sequence sp = ss_sequence st) ?sps"
        using predicted_same_stop(1) [OF assms] by (intro filter_cong) auto
      then show ?thesis by (simp only: sum_list_sort_key rows_of_stop boarded_at_def)
    qed
    ultimately show ?thesis
      using True called first shown_stranded_get [OF d, of "ss_stop_id st"]
        stranded_value(2) [OF predicted_routeD(1,3,4,7) [OF p] assms(2) refl]
      by (simp add: show_row_waiting show_row_boarded Let_def)
  qed
qed

subsection \<open>Counts\<close>

lemma current_latest:
  assumes "keys_ok d" "counts_agree d" "cc \<in> set (db_current_counts d)"
  shows "\<exists>r prev. device_history d (cc_device_id cc) = r # prev \<and> latest_row r prev cc"
proof -
  have dist: "distinct (map cc_device_id (db_current_counts d))" using assms(1) by (simp add: keys_ok_def)
  note I = assms(2) [unfolded counts_agree_def, rule_format, of "cc_device_id cc"]
  obtain r prev where h: "device_history d (cc_device_id cc) = r # prev"
    using I assms(3) by (cases "device_history d (cc_device_id cc)") auto
  then obtain row where row: "row \<in> set (db_current_counts d)" "latest_row r prev row" using I by auto
  then have "cc_device_id row = cc_device_id cc" using device_history_Cons [OF h] by (simp add: latest_row_def)
  then have "row = cc" using dist row(1) assms(3) by (simp add: distinct_map inj_on_def)
  then show ?thesis using h row(2) by blast
qed

subsection \<open>Properties\<close>

text \<open>
  C7: the view of a route gives back the prediction.  After the engine's result for a
  snapshot has been written, as the newest of its route and direction, the query shows
  exactly the predicted vehicles, each with its capacity, its calls in order and its
  confidence and peak occupancy rounded to four places; and the stranded people it
  computes from the rows are those of the engine at every stop where some predicted
  vehicle calls.  At the other stops, the terminus among them, it shows none.
\<close>

theorem predictions_shown:
  assumes "wf_snapshot s" "sorted (map ss_sequence (rs_stops s))" "distinct (map ss_stop_id (rs_stops s))" "1 < length (rs_stops s)"
    and "\<forall>v \<in> set (rs_vehicles s). vs_route_id v = rs_route_id s" "distinct (map vs_vehicle_id (rs_vehicles s))"
    and "predict_route config s f = Inr r" "rp_vehicle_predictions r \<noteq> []"
    and "idle sess" "opened" "\<forall>n. up n" "newest_for now (rs_route_id s) (rs_direction_id s) (se_committed sess)"
    and "exec_seq (map insert_prediction (prediction_rows now r)) (se_committed sess) = Inr d"
    and acc: "acc = predictions_for_route (rs_route_id s) (rs_direction_id s) (se_committed (write_predictions now r opened up sess))"
  shows "set (dict_keys (sn_vehicles acc)) = vp_vehicle_id ` set (rp_vehicle_predictions r) \<and>
    (\<forall>vp \<in> set (rp_vehicle_predictions r). dict_get (sn_vehicles acc) (vp_vehicle_id vp) =
       Some \<lparr>sv_vehicle_id = vp_vehicle_id vp, sv_capacity = vp_vehicle_capacity vp,
         sv_confidence = py_round_nd (vp_confidence vp) 4, sv_peak = max 0 (py_round_nd (vp_peak_occupancy_pct vp) 4),
         sv_stops = map shown_of (vp_stops vp)\<rparr>) \<and>
    (\<forall>st \<in> set (rs_stops s). dict_get (shown_stranded acc) (ss_stop_id st) =
       (if ss_stop_id st \<in> sp_stop_id ` set (all_stops (rp_vehicle_predictions r))
        then dict_get (rp_stranded_at_stops r) (ss_stop_id st) else None))"
proof -
  have p: "predicted_route config s f r" using assms(1-7) by (simp add: predicted_route_def)
  have d: "se_committed (write_predictions now r opened up sess) = d"
    using predictiontx.performed_up [OF assms(9-11,13)] by simp
  have stops: "vp_stops vp \<noteq> []" if "vp \<in> set (rp_vehicle_predictions r)" for vp
    using predicted_origin [OF p that] vehicle_calls(3) [OF _ assms(2)] by blast
  have ids: "pr_vehicle_id ` set (prediction_rows now r) = vp_vehicle_id ` set (rp_vehicle_predictions r)"
    by (rule row_vehicles) (use stops in blast)
  then have "prediction_rows now r \<noteq> []" using assms(8) by auto
  then have a: "acc = fold show_row (sort_key row_order (prediction_rows now r)) nothing_shown"
    unfolding acc d exec_insert_predictions [OF assms(13)] by (rule read_back [OF assms(12) _ predicted_rows [OF p]])
  show ?thesis
    unfolding a shown_keys ids using predicted_shown_vehicle [OF p] predicted_shown_left [OF p] by blast
qed

theorem predictions_shown_witness:
  "dict_get (shown_stranded (predictions_for_route ''r1'' 0
      (se_committed (write_predictions 5 example_result True (\<lambda>_. True) (new_session example_db))))) ''d'' = None \<and>
   dict_get (rp_stranded_at_stops example_result) ''d'' = Some 2"
proof -
  have s: "sorted (map ss_sequence (rs_stops example_snapshot))" "distinct (map ss_stop_id (rs_stops example_snapshot))"
      "1 < length (rs_stops example_snapshot)" "\<forall>v \<in> set (rs_vehicles example_snapshot). vs_route_id v = rs_route_id example_snapshot"
      "distinct (map vs_vehicle_id (rs_vehicles example_snapshot))" "rp_vehicle_predictions example_result \<noteq> []"
    by (simp_all add: example_snapshot_def example_result_def)
  have db: "se_committed (new_session example_db) = example_db" by (simp add: new_session_def)
  have new: "newest_for 5 (rs_route_id example_snapshot) (rs_direction_id example_snapshot) (se_committed (new_session example_db))"
    by (simp add: db newest_for_def) (simp add: example_db_def empty_db_def)
  obtain d where ins: "exec_seq (map insert_prediction (prediction_rows 5 example_result)) (se_committed (new_session example_db)) = Inr d"
    by (simp add: prediction_rows_def example_result_def insert_prediction_def prediction_row_of_def checked_def int4_def int2_def
        opt_all_def Let_def)
  have st: "\<lparr>ss_stop_id = ''d'', ss_sequence = 4, ss_people_waiting = Some 2\<rparr> \<in> set (rs_stops example_snapshot)"
    and none: "''d'' \<notin> sp_stop_id ` set (all_stops (rp_vehicle_predictions example_result))"
    and ids: "rs_route_id example_snapshot = ''r1''" "rs_direction_id example_snapshot = 0"
    by (simp_all add: example_snapshot_def example_result_def all_stops_def)
  have two: "dict_get (rp_stranded_at_stops example_result) ''d'' = Some 2" by (simp add: example_result_def dict_get_def)
  show ?thesis
    using predictions_shown [OF example_wf s(1-5) example_prediction s(6) idle_new_session _ _ new ins refl,
        THEN conjunct2, THEN conjunct2, THEN bspec, OF _ _ st] none two
    by (simp add: ids)
qed

text \<open>
  The hotspots of the overview are the busiest stops, with what the devices last
  counted.  On consistent tables they are at most ten of the counted stops, in descending
  order, and a stop left out has no more people than any listed one; each shows the
  newest count of a device and its change since the device's count before, or no change
  for a first count, and its trend is the sign of that change.
\<close>

theorem hotspots_busiest:
  assumes "keys_ok d" "counts_agree d"
    and joined: "joined = [(cc, st). cc \<leftarrow> db_current_counts d, st \<leftarrow> db_stops d, st_stop_id st = cc_stop_id cc]"
  shows "\<exists>listed rest. mset joined = mset (listed @ rest) \<and> length listed = min 10 (length joined) \<and>
    dash_hotspots d = map (\<lambda>(cc, st). hotspot_of cc st) listed \<and>
    sorted_wrt (\<lambda>a b. hs_count b \<le> hs_count a) (dash_hotspots d) \<and>
    (\<forall>(cc, st) \<in> set rest. \<forall>h \<in> set (dash_hotspots d). cc_count cc \<le> hs_count h) \<and>
    (\<forall>h \<in> set (dash_hotspots d). \<exists>dev r prev. device_history d dev = r # prev \<and> hs_count h = cr_count r \<and>
       hs_delta h = (case prev of [] \<Rightarrow> 0 | p # _ \<Rightarrow> cr_count r - cr_count p) \<and>
       hs_trend h = (if 0 < hs_delta h then ''rising'' else if hs_delta h < 0 then ''falling'' else ''stable''))"
proof (intro exI conjI)
  let ?k = "\<lambda>(cc, st :: stop_row). - cc_count cc"
  let ?s = "sort_key ?k joined"
  have count: "hs_count (hotspot_of cc st) = cc_count cc" for cc st
    by (simp add: hotspot_of_def Let_def split: option.split)
  have map: "map (\<lambda>h. - hs_count h) (map (\<lambda>(cc, st). hotspot_of cc st) xs) = map ?k xs" for xs
    by (induction xs) (auto simp: count)
  have split: "sorted (map ?k (take 10 ?s @ drop 10 ?s))" by simp
  show "mset joined = mset (take 10 ?s @ drop 10 ?s)" by (simp only: append_take_drop_id mset_sort)
  show "length (take 10 ?s) = min 10 (length joined)" by simp
  show hot: "dash_hotspots d = map (\<lambda>(cc, st). hotspot_of cc st) (take 10 ?s)" by (simp add: dash_hotspots_def joined)
  have "sorted (map (\<lambda>h. - hs_count h) (dash_hotspots d))"
    unfolding hot map using split by (simp only: map_append sorted_append)
  then show "sorted_wrt (\<lambda>a b. hs_count b \<le> hs_count a) (dash_hotspots d)" by (simp add: sorted_map)
  show "\<forall>(cc, st) \<in> set (drop 10 ?s). \<forall>h \<in> set (dash_hotspots d). cc_count cc \<le> hs_count h"
    using split unfolding hot map_append sorted_append by (fastforce simp: count)
  show "\<forall>h \<in> set (dash_hotspots d). \<exists>dev r prev. device_history d dev = r # prev \<and> hs_count h = cr_count r \<and>
       hs_delta h = (case prev of [] \<Rightarrow> 0 | p # _ \<Rightarrow> cr_count r - cr_count p) \<and>
       hs_trend h = (if 0 < hs_delta h then ''rising'' else if hs_delta h < 0 then ''falling'' else ''stable'')"
  proof
    fix h assume "h \<in> set (dash_hotspots d)"
    then obtain cc st where h: "h = hotspot_of cc st" "(cc, st) \<in> set ?s"
      unfolding hot using set_take_subset [of 10 ?s] by auto
    then have cc: "cc \<in> set (db_current_counts d)" by (auto simp: joined)
    obtain r prev where r: "device_history d (cc_device_id cc) = r # prev" "latest_row r prev cc"
      using current_latest [OF assms(1,2) cc] by blast
    then show "\<exists>dev r prev. device_history d dev = r # prev \<and> hs_count h = cr_count r \<and>
       hs_delta h = (case prev of [] \<Rightarrow> 0 | p # _ \<Rightarrow> cr_count r - cr_count p) \<and>
       hs_trend h = (if 0 < hs_delta h then ''rising'' else if hs_delta h < 0 then ''falling'' else ''stable'')"
      by (intro exI [of _ "cc_device_id cc"] exI [of _ r] exI [of _ prev])
        (auto simp: h(1) hotspot_of_def latest_row_def Let_def split: option.split list.split)
  qed
qed

definition counted_db :: database where
  "counted_db = example_db\<lparr>
     db_crowd_count := [\<lparr>cr_time = 1, cr_device_id = ''d1'', cr_stop_id = ''s1'', cr_count = 4, cr_zone = None\<rparr>,
        \<lparr>cr_time = 2, cr_device_id = ''d1'', cr_stop_id = ''s1'', cr_count = 9, cr_zone = None\<rparr>],
     db_current_counts := [\<lparr>cc_device_id = ''d1'', cc_stop_id = ''s1'', cc_count = 9, cc_previous_count = Some 4,
        cc_zone = None, cc_updated_at = 2\<rparr>]\<rparr>"

theorem hotspots_busiest_witness: "map hs_trend (dash_hotspots counted_db) = [''rising''] \<and> length (dash_hotspots counted_db) = min 10 1"
proof -
  have ok: "keys_ok counted_db" "counts_agree counted_db"
    by (auto simp: counted_db_def example_db_def empty_db_def keys_ok_def counts_agree_def device_history_def latest_row_def)
  have "dash_hotspots counted_db = [\<lparr>hs_stop_id = ''s1'', hs_stop_name = ''Stop 1'', hs_count = 9, hs_trend = ''rising'', hs_delta = 5\<rparr>]"
    by (simp add: dash_hotspots_def counted_db_def example_db_def empty_db_def hotspot_of_def)
  then show ?thesis using hotspots_busiest [OF ok refl] by simp
qed

end
