(* ===== verification/Live_Dashboard.thy ===== *)
theory Live_Dashboard
  imports Prelude
begin

text \<open>
  The push of dashboard payloads to the browsers: the connected clients and the broadcast
  of \<open>API/ws.py\<close>, and the timer with which \<open>API/main.py\<close> gathers the notifications of the
  database.  The tasks of the event loop interleave at their awaits, so every step below
  runs without interruption and a broadcast is one step per client.  Clients are numbers,
  the payload text is an input; its content is in the theory of the queries.
\<close>

subsection \<open>State\<close>

text \<open>\<open>bc_index\<close> is the position of the iterator over the list of clients.\<close>

record broadcast_task =
  bc_payload :: string
  bc_index :: nat
  bc_stale :: "nat list"

text \<open>
  \<open>lv_timers\<close> are the pending timers by number with their deadlines, \<open>lv_handle\<close> is
  \<open>_coalesce_handle\<close>, \<open>lv_scheduled\<close> counts the tasks that fired timers have created and that
  have not run yet, \<open>lv_tasks\<close> are the broadcasts under way, \<open>lv_sent\<close> records what was sent.
\<close>

record live =
  lv_clients :: "nat list"
  lv_timers :: "(nat, pyfloat) dict"
  lv_handle :: "nat option"
  lv_next_timer :: nat
  lv_scheduled :: nat
  lv_tasks :: "broadcast_task list"
  lv_sent :: "(nat \<times> string) list"
  lv_cached :: "string option"

subsection \<open>\<open>ConnectionManager\<close>\<close>

definition ws_connect :: "nat \<Rightarrow> live \<Rightarrow> live" where
  "ws_connect ws self = self\<lparr>lv_clients := lv_clients self @ [ws]\<rparr>"

text \<open>\<open>list.remove\<close> raises on a missing element.\<close>

definition ws_disconnect :: "nat \<Rightarrow> live \<Rightarrow> unit result \<times> live" where
  "ws_disconnect ws self =
     (if ws \<in> set (lv_clients self) then (Inr (), self\<lparr>lv_clients := remove1 ws (lv_clients self)\<rparr>)
      else (Inl ValueError, self))"

definition client_count :: "live \<Rightarrow> nat" where
  "client_count self = length (lv_clients self)"

text \<open>The removal of the stale clients, where a missing one is ignored.\<close>

definition remove_stale :: "nat list \<Rightarrow> live \<Rightarrow> live" where
  "remove_stale stale self = self\<lparr>lv_clients := fold remove1 stale (lv_clients self)\<rparr>"

text \<open>
  One step of a broadcast: the client at the iterator is sent the payload, where \<open>ok\<close> tells
  whether the send succeeds; at the end of the list the stale clients are removed and the
  broadcast is over.
\<close>

definition broadcast_step :: "bool \<Rightarrow> broadcast_task \<Rightarrow> live \<Rightarrow> broadcast_task option \<times> live" where
  "broadcast_step ok task self =
     (if bc_index task < length (lv_clients self) then
        let ws = lv_clients self ! bc_index task
        in (Some (task\<lparr>bc_index := Suc (bc_index task), bc_stale := (if ok then bc_stale task else bc_stale task @ [ws])\<rparr>),
            if ok then self\<lparr>lv_sent := lv_sent self @ [(ws, bc_payload task)]\<rparr> else self)
      else (None, remove_stale (bc_stale task) self))"

subsection \<open>Gathering the notifications\<close>

text \<open>A notification cancels the timer of the handle and starts a new one.\<close>

definition on_notify :: "pyfloat \<Rightarrow> pyfloat \<Rightarrow> live \<Rightarrow> live" where
  "on_notify window now self =
     (let timers = (case lv_handle self of None \<Rightarrow> lv_timers self | Some h \<Rightarrow> filter (\<lambda>(i, _). i \<noteq> h) (lv_timers self))
      in self\<lparr>lv_timers := timers @ [(lv_next_timer self, fadd now window)],
              lv_handle := Some (lv_next_timer self), lv_next_timer := Suc (lv_next_timer self)\<rparr>)"

text \<open>
  One pass of the event loop at a time: every timer that is due creates a task.  \<open>now\<close> is the end
  of the pass, the clock of the loop plus its resolution; the timers before it are due.
\<close>

definition fire_timers :: "pyfloat \<Rightarrow> live \<Rightarrow> live" where
  "fire_timers now self =
     self\<lparr>lv_timers := filter (\<lambda>(_, deadline). now \<le> deadline) (lv_timers self),
          lv_scheduled := lv_scheduled self + length (filter (\<lambda>(_, deadline). deadline < now) (lv_timers self))\<rparr>"

text \<open>
  The first part of \<open>_do_broadcast\<close>: the payload, built and cached by \<open>build_and_cache_payload\<close>,
  is the input, or the exception of the build, which is caught.
\<close>

definition do_broadcast :: "string result \<Rightarrow> live \<Rightarrow> live" where
  "do_broadcast payload self =
     (if lv_scheduled self = 0 then self
      else let self = self\<lparr>lv_scheduled := lv_scheduled self - 1, lv_handle := None\<rparr>
           in if client_count self = 0 then self
              else case payload of
                Inl e \<Rightarrow> self
              | Inr text \<Rightarrow> self\<lparr>lv_cached := Some text, lv_tasks := lv_tasks self @ [\<lparr>bc_payload = text, bc_index = 0, bc_stale = []\<rparr>]\<rparr>)"

text \<open>
  The payload that \<open>dashboard_ws\<close> sends to a new client, where \<open>ok\<close> tells whether the send
  succeeds; a failure is logged and the client stays.
\<close>

definition initial_payload :: "nat \<Rightarrow> string result \<Rightarrow> bool \<Rightarrow> live \<Rightarrow> live" where
  "initial_payload ws payload ok self =
     (case payload of
        Inl e \<Rightarrow> self
      | Inr text \<Rightarrow> self\<lparr>lv_cached := Some text, lv_sent := lv_sent self @ (if ok then [(ws, text)] else [])\<rparr>)"

subsection \<open>Runs\<close>

datatype live_event =
    Connect nat
  | Initial nat "string result" bool
  | Gone nat
  | Notify pyfloat
  | Clock pyfloat
  | Run_task "string result"
  | Send nat bool

text \<open>The step of the \<open>k\<close>-th broadcast under way.\<close>

definition send_step :: "nat \<Rightarrow> bool \<Rightarrow> live \<Rightarrow> live" where
  "send_step k ok self =
     (if k < length (lv_tasks self) then
        (case broadcast_step ok (lv_tasks self ! k) self of
           (Some task, self) \<Rightarrow> self\<lparr>lv_tasks := (lv_tasks self)[k := task]\<rparr>
         | (None, self) \<Rightarrow> self\<lparr>lv_tasks := take k (lv_tasks self) @ drop (Suc k) (lv_tasks self)\<rparr>)
      else self)"

fun live_step :: "pyfloat \<Rightarrow> live_event \<Rightarrow> live \<Rightarrow> live" where
  "live_step window (Connect ws) self = ws_connect ws self"
| "live_step window (Initial ws payload ok) self = initial_payload ws payload ok self"
| "live_step window (Gone ws) self = snd (ws_disconnect ws self)"
| "live_step window (Notify now) self = on_notify window now self"
| "live_step window (Clock now) self = fire_timers now self"
| "live_step window (Run_task payload) self = do_broadcast payload self"
| "live_step window (Send k ok) self = send_step k ok self"

definition live_run :: "pyfloat \<Rightarrow> live_event list \<Rightarrow> live \<Rightarrow> live" where
  "live_run window evs self = fold (live_step window) evs self"

definition new_live :: live where
  "new_live = \<lparr>lv_clients = [], lv_timers = [], lv_handle = None, lv_next_timer = 0, lv_scheduled = 0,
     lv_tasks = [], lv_sent = [], lv_cached = None\<rparr>"

subsection \<open>A broadcast\<close>

lemma live_run_simps [simp]:
  "live_run window [] self = self"
  "live_run window (ev # evs) self = live_run window evs (live_step window ev self)"
  by (simp_all add: live_run_def)

lemma live_run_append: "live_run window (evs @ evs') self = live_run window evs' (live_run window evs self)"
  by (simp add: live_run_def)

text \<open>The first broadcast continues over the clients behind its iterator.\<close>

lemma sends:
  assumes "lv_tasks self = task # tasks" "length oks \<le> length (lv_clients self) - bc_index task"
    and todo: "todo = take (length oks) (drop (bc_index task) (lv_clients self))"
  shows "live_run window (map (Send 0) oks) self =
    self\<lparr>lv_tasks := task\<lparr>bc_index := bc_index task + length oks,
            bc_stale := bc_stale task @ map fst (filter (\<lambda>(_, ok). \<not> ok) (zip todo oks))\<rparr> # tasks,
         lv_sent := lv_sent self @ map (\<lambda>(ws, _). (ws, bc_payload task)) (filter (\<lambda>(_, ok). ok) (zip todo oks))\<rparr>"
  using assms
proof (induction oks arbitrary: self task todo)
  case (Cons ok oks)
  let ?i = "bc_index task" and ?self = "send_step 0 ok self"
  have i: "?i < length (lv_clients self)" using Cons.prems(2) by simp
  define task' where "task' = task\<lparr>bc_index := Suc ?i, bc_stale := (if ok then bc_stale task else bc_stale task @ [lv_clients self ! ?i])\<rparr>"
  have step: "?self = self\<lparr>lv_tasks := task' # tasks,
      lv_sent := lv_sent self @ (if ok then [(lv_clients self ! ?i, bc_payload task)] else [])\<rparr>"
    using Cons.prems(1) i by (simp add: send_step_def broadcast_step_def Let_def task'_def)
  have todo: "todo = lv_clients self ! ?i # take (length oks) (drop (bc_index task') (lv_clients ?self))"
    using i Cons.prems(3) by (simp add: step task'_def Cons_nth_drop_Suc [symmetric])
  have "live_run window (map (Send 0) oks) ?self =
    ?self\<lparr>lv_tasks := task'\<lparr>bc_index := bc_index task' + length oks,
            bc_stale := bc_stale task' @ map fst (filter (\<lambda>(_, ok). \<not> ok) (zip (tl todo) oks))\<rparr> # tasks,
          lv_sent := lv_sent ?self @ map (\<lambda>(ws, _). (ws, bc_payload task')) (filter (\<lambda>(_, ok). ok) (zip (tl todo) oks))\<rparr>"
    by (rule Cons.IH) (use Cons.prems(2) todo in \<open>simp_all add: step task'_def\<close>)
  then show ?case using todo by (simp add: step task'_def)
qed simp

lemma send_end:
  assumes "lv_tasks self = task # tasks" "length (lv_clients self) \<le> bc_index task"
  shows "send_step 0 ok self = self\<lparr>lv_clients := fold remove1 (bc_stale task) (lv_clients self), lv_tasks := tasks\<rparr>"
  using assms by (simp add: send_step_def broadcast_step_def remove_stale_def)

lemma fold_remove1_distinct:
  "distinct xs \<Longrightarrow> fold remove1 ys xs = filter (\<lambda>x. x \<notin> set ys) xs"
proof (induction ys arbitrary: xs)
  case (Cons y ys)
  have "filter (\<lambda>x. x \<notin> set ys) (filter (\<lambda>x. x \<noteq> y) xs) = filter (\<lambda>x. x \<notin> set (y # ys)) xs"
    by (simp add: conj_commute)
  then show ?case using Cons by (simp add: distinct_remove1_removeAll removeAll_filter_not_eq [of y] eq_commute [of y])
qed simp

lemma zip_failed: "distinct xs \<Longrightarrow> length oks = length xs \<Longrightarrow>
   filter (\<lambda>x. x \<notin> set (map fst (filter (\<lambda>(_, ok). \<not> ok) (zip xs oks)))) xs = map fst (filter (\<lambda>(_, ok). ok) (zip xs oks))"
proof (induction xs oks rule: list_induct2')
  case (4 x xs ok oks)
  have "x \<notin> set (map fst (filter (\<lambda>(_, ok). \<not> ok) (zip xs oks)))" using 4(2) by (auto dest: set_zip_leftD)
  moreover have "filter (\<lambda>y. y \<noteq> x \<and> y \<notin> set (map fst (filter (\<lambda>(_, ok). \<not> ok) (zip xs oks)))) xs =
      filter (\<lambda>y. y \<notin> set (map fst (filter (\<lambda>(_, ok). \<not> ok) (zip xs oks)))) xs"
    using 4(2) by (intro filter_cong) auto
  ultimately show ?case using 4 by (cases ok) simp_all
qed simp_all

lemma zip_replicate_True:
  "length xs = n \<Longrightarrow> filter (\<lambda>(_, ok). ok) (zip xs (replicate n True)) = map (\<lambda>x. (x, True)) xs \<and>
   filter (\<lambda>(_, ok). \<not> ok) (zip xs (replicate n True)) = []"
  by (induction xs arbitrary: n) auto

subsection \<open>The newest notification decides\<close>

text \<open>
  A run in which no pass of the event loop ends after the deadline that the newest
  notification has set, and that deadline at its end.
\<close>

fun keeps_coming :: "pyfloat \<Rightarrow> pyfloat \<Rightarrow> live_event list \<Rightarrow> bool" where
  "keeps_coming window deadline [] = True"
| "keeps_coming window deadline (Notify now # evs) = keeps_coming window (fadd now window) evs"
| "keeps_coming window deadline (Clock now # evs) = (now \<le> deadline \<and> keeps_coming window deadline evs)"
| "keeps_coming window deadline (ev # evs) = keeps_coming window deadline evs"

fun final_deadline :: "pyfloat \<Rightarrow> pyfloat \<Rightarrow> live_event list \<Rightarrow> pyfloat" where
  "final_deadline window deadline [] = deadline"
| "final_deadline window deadline (Notify now # evs) = final_deadline window (fadd now window) evs"
| "final_deadline window deadline (ev # evs) = final_deadline window deadline evs"

definition armed :: "pyfloat \<Rightarrow> live \<Rightarrow> bool" where
  "armed deadline self \<longleftrightarrow> lv_scheduled self = 0 \<and> (\<exists>h. lv_timers self = [(h, deadline)] \<and> lv_handle self = Some h)"

lemma armed_notify: "armed deadline self \<Longrightarrow> armed (fadd now window) (on_notify window now self)"
  by (auto simp: armed_def on_notify_def Let_def)

lemma armed_clock: "armed deadline self \<Longrightarrow> now \<le> deadline \<Longrightarrow> armed deadline (fire_timers now self)"
  by (auto simp: armed_def fire_timers_def)

lemma armed_other:
  assumes "armed deadline self"
  shows "armed deadline (send_step k ok self)" "armed deadline (do_broadcast payload self)" "armed deadline (ws_connect ws self)"
    "armed deadline (snd (ws_disconnect ws self))" "armed deadline (initial_payload ws payload ok self)"
  using assms
  by (auto simp: armed_def send_step_def broadcast_step_def remove_stale_def do_broadcast_def ws_connect_def ws_disconnect_def
      initial_payload_def Let_def split: sum.split)

lemma armed_run: "armed deadline self \<Longrightarrow> keeps_coming window deadline evs \<Longrightarrow>
    armed (final_deadline window deadline evs) (live_run window evs self)"
proof (induction window deadline evs arbitrary: self rule: keeps_coming.induct)
  case (2 window deadline now evs)
  then show ?case using armed_notify by simp
next
  case (3 window deadline now evs)
  then show ?case using armed_clock by simp
qed (simp_all add: armed_other)

text \<open>In any state the timer of the newest notification stays until its deadline.\<close>

definition waiting :: "pyfloat \<Rightarrow> live \<Rightarrow> bool" where
  "waiting deadline self \<longleftrightarrow> (\<exists>i. lv_next_timer self = Suc i \<and> (i, deadline) \<in> set (lv_timers self))"

lemma waiting_notify: "waiting (fadd now window) (on_notify window now self)"
  by (simp add: waiting_def on_notify_def Let_def)

lemma waiting_clock: "waiting deadline self \<Longrightarrow> now \<le> deadline \<Longrightarrow> waiting deadline (fire_timers now self)"
  by (auto simp: waiting_def fire_timers_def)

lemma waiting_other:
  assumes "waiting deadline self"
  shows "waiting deadline (send_step k ok self)" "waiting deadline (do_broadcast payload self)" "waiting deadline (ws_connect ws self)"
    "waiting deadline (snd (ws_disconnect ws self))" "waiting deadline (initial_payload ws payload ok self)"
  using assms
  by (auto simp: waiting_def send_step_def broadcast_step_def remove_stale_def do_broadcast_def ws_connect_def ws_disconnect_def
      initial_payload_def Let_def split: sum.split)

lemma waiting_run: "waiting deadline self \<Longrightarrow> keeps_coming window deadline evs \<Longrightarrow>
    waiting (final_deadline window deadline evs) (live_run window evs self)"
proof (induction window deadline evs arbitrary: self rule: keeps_coming.induct)
  case (2 window deadline now evs)
  then show ?case using waiting_notify by simp
next
  case (3 window deadline now evs)
  then show ?case using waiting_clock by simp
qed (simp_all add: waiting_other)

lemma waiting_fires:
  assumes "waiting deadline self" "deadline < now"
  shows "lv_scheduled self < lv_scheduled (fire_timers now self)"
proof -
  obtain i where "(i, deadline) \<in> set (filter (\<lambda>(_, deadline). deadline < now) (lv_timers self))"
    using assms by (auto simp: waiting_def)
  then have "0 < length (filter (\<lambda>(_, deadline). deadline < now) (lv_timers self))" by (rule length_pos_if_in_set)
  then show ?thesis by (simp add: fire_timers_def)
qed

subsection \<open>Properties\<close>

text \<open>
  Whom a broadcast reaches.  Undisturbed it sends the payload to every client, in the
  order of their connection, and afterwards exactly those that could be sent to remain.
  But a client that leaves after it has been served, while a later one is waiting for its
  turn, makes the broadcast pass over the next client, which stays connected without the
  payload.
\<close>

theorem broadcast_reaches:
  assumes "lv_tasks self = \<lparr>bc_payload = p, bc_index = 0, bc_stale = []\<rparr> # tasks" "distinct (lv_clients self)"
    and "lv_clients self = served @ follower # others" "gone \<in> set served" "length oks = length (lv_clients self)"
  shows "live_run window (map (Send 0) oks @ [Send 0 ok]) self =
      self\<lparr>lv_tasks := tasks, lv_clients := map fst (filter (\<lambda>(_, ok). ok) (zip (lv_clients self) oks)),
        lv_sent := lv_sent self @ map (\<lambda>(ws, _). (ws, p)) (filter (\<lambda>(_, ok). ok) (zip (lv_clients self) oks))\<rparr> \<and>
    live_run window (map (Send 0) (replicate (length served) True) @ Gone gone # map (Send 0) (replicate (length others) True) @ [Send 0 ok]) self =
      self\<lparr>lv_tasks := tasks, lv_clients := remove1 gone served @ follower # others,
        lv_sent := lv_sent self @ map (\<lambda>ws. (ws, p)) (served @ others)\<rparr>"
proof
  let ?t = "\<lparr>bc_payload = p, bc_index = 0, bc_stale = []\<rparr>"
  show "live_run window (map (Send 0) oks @ [Send 0 ok]) self =
      self\<lparr>lv_tasks := tasks, lv_clients := map fst (filter (\<lambda>(_, ok). ok) (zip (lv_clients self) oks)),
        lv_sent := lv_sent self @ map (\<lambda>(ws, _). (ws, p)) (filter (\<lambda>(_, ok). ok) (zip (lv_clients self) oks))\<rparr>"
    using sends [OF assms(1) _ refl, of oks window] assms(2,5) zip_failed [OF assms(2,5)]
    by (simp add: live_run_append send_end fold_remove1_distinct)
  let ?n = "length served"
  define s1 where "s1 = self\<lparr>lv_tasks := ?t\<lparr>bc_index := ?n\<rparr> # tasks, lv_sent := lv_sent self @ map (\<lambda>ws. (ws, p)) served\<rparr>"
  have first: "live_run window (map (Send 0) (replicate ?n True)) self = s1"
    using sends [OF assms(1) _ refl, of "replicate ?n True" window] zip_replicate_True [of served ?n] assms(3)
    by (simp add: s1_def comp_def)
  define s2 where "s2 = s1\<lparr>lv_clients := remove1 gone served @ follower # others\<rparr>"
  have gone: "live_step window (Gone gone) s1 = s2"
    using assms(3,4) by (simp add: ws_disconnect_def s1_def s2_def remove1_append)
  have len: "length (remove1 gone served) = ?n - 1" "0 < ?n"
    using assms(4) by (auto simp: length_remove1)
  have rest: "drop ?n (remove1 gone served @ follower # others) = others"
    using len by (simp add: Suc_diff_Suc [symmetric])
  define s3 where "s3 = s2\<lparr>lv_tasks := ?t\<lparr>bc_index := ?n + length others\<rparr> # tasks,
      lv_sent := lv_sent s2 @ map (\<lambda>ws. (ws, p)) others\<rparr>"
  have "live_run window (map (Send 0) (replicate (length others) True)) s2 = s3"
    using sends [of s2 "?t\<lparr>bc_index := ?n\<rparr>" tasks "replicate (length others) True" others window] rest len
      zip_replicate_True [of others "length others"]
    by (simp add: s1_def s2_def s3_def comp_def)
  moreover have "send_step 0 ok s3 = s3\<lparr>lv_tasks := tasks\<rparr>"
    using send_end [of s3 "?t\<lparr>bc_index := ?n + length others\<rparr>" tasks ok] len by (simp add: s3_def s2_def s1_def)
  ultimately show "live_run window (map (Send 0) (replicate ?n True) @ Gone gone # map (Send 0) (replicate (length others) True) @ [Send 0 ok]) self =
      self\<lparr>lv_tasks := tasks, lv_clients := remove1 gone served @ follower # others,
        lv_sent := lv_sent self @ map (\<lambda>ws. (ws, p)) (served @ others)\<rparr>"
    using first gone by (simp add: live_run_append) (simp add: s1_def s2_def s3_def)
qed

definition example_live :: live where
  "example_live = new_live\<lparr>lv_clients := [1, 2, 3], lv_tasks := [\<lparr>bc_payload = ''p'', bc_index = 0, bc_stale = []\<rparr>]\<rparr>"

theorem broadcast_reaches_witness:
  "lv_sent (live_run 1 [Send 0 True, Gone 1, Send 0 True, Send 0 True] example_live) = [(1, ''p''), (3, ''p'')]"
  using broadcast_reaches [where self = example_live and p = "''p''" and tasks = "[]" and served = "[1]" and follower = 2
      and others = "[3]" and gone = 1 and oks = "[True, True, True]" and window = 1 and ok = True]
  by (simp add: example_live_def new_live_def)

text \<open>
  C32: when notifications lead to a broadcast.  None is lost: from any state, when more
  notifications keep coming before the window after the newest of them is over, the first pass
  of the event loop that ends later than that schedules a broadcast.  If no timer was
  pending and no task scheduled at the first of them, none is scheduled before, so a steady
  stream of notifications keeps all of them from the clients, and that pass schedules
  exactly one broadcast for all of them.
\<close>

theorem notifications_gathered:
  assumes "keeps_coming window (fadd t window) evs" "s = live_run window (Notify t # evs) self"
  shows "(final_deadline window (fadd t window) evs < now \<longrightarrow> lv_scheduled s < lv_scheduled (live_step window (Clock now) s)) \<and>
    (lv_timers self = [] \<and> lv_scheduled self = 0 \<longrightarrow> lv_scheduled s = 0 \<and>
      lv_scheduled (live_step window (Clock now) s) = (if final_deadline window (fadd t window) evs < now then 1 else 0))"
proof (intro conjI impI)
  show "lv_scheduled s < lv_scheduled (live_step window (Clock now) s)" if "final_deadline window (fadd t window) evs < now"
    using waiting_fires [OF waiting_run [OF waiting_notify assms(1)] that] by (simp add: assms(2))
next
  assume quiet: "lv_timers self = [] \<and> lv_scheduled self = 0"
  then have "armed (fadd t window) (on_notify window t self)"
    by (simp add: armed_def on_notify_def Let_def split: option.split)
  note a = armed_run [OF this assms(1)]
  then show "lv_scheduled s = 0" by (simp add: assms(2) armed_def)
  show "lv_scheduled (live_step window (Clock now) s) = (if final_deadline window (fadd t window) evs < now then 1 else 0)"
    using a by (auto simp: assms(2) armed_def fire_timers_def)
qed

theorem notifications_gathered_witness:
  "lv_scheduled (live_run (1 / 2) [Notify 0, Clock (1 / 4), Notify (1 / 4), Clock (1 / 2), Notify (1 / 2), Clock (3 / 4)] new_live) = 0 \<and>
   lv_scheduled (live_run (1 / 2) [Notify 0, Clock (1 / 4), Notify (1 / 4), Clock (1 / 2), Notify (1 / 2), Clock (3 / 4), Clock (9 / 8)] new_live) = 1"
  using notifications_gathered [where self = new_live and window = "1 / 2" and t = 0 and now = "9 / 8"
      and evs = "[Clock (1 / 4), Notify (1 / 4), Clock (1 / 2), Notify (1 / 2), Clock (3 / 4)]", OF _ refl]
  by (simp add: new_live_def fop_eval)

text \<open>
  A task that runs late clears a newer handle.  A notification that comes between the firing
  of a timer and the start of its task sets a handle that \<open>_do_broadcast\<close> then forgets; the
  next notification does not cancel that timer, and a broadcast is scheduled before the window
  after the newest notification is over, and another one after it.
\<close>

theorem late_task_forgets_timer:
  "let s = live_run (1 / 2) [Notify 0, Clock (5 / 8), Notify (5 / 8), Run_task payload] new_live
   in lv_scheduled s = 0 \<and> keeps_coming (1 / 2) (fadd (3 / 4) (1 / 2)) [Clock (19 / 16)] \<and>
     lv_scheduled (live_run (1 / 2) [Notify (3 / 4), Clock (19 / 16)] s) = 1 \<and>
     lv_scheduled (live_run (1 / 2) [Notify (3 / 4), Clock (19 / 16), Clock (3 / 2)] s) = 2"
  by (simp add: new_live_def on_notify_def fire_timers_def do_broadcast_def client_count_def fop_eval Let_def)

end
