(* ===== verification/Api_Server.thy ===== *)
theory Api_Server
  imports Dashboard Live_Dashboard Py_Text Db_Writer_Properties
begin

text \<open>
  The server of the dashboard, \<open>API/main.py\<close>, around the queries and the gathered notifications:
  the task that listens to the database, the health report and the routes that answer from
  the tables.  Properties: a lost listening connection is never replaced, and the routes
  answer from the tables and change nothing but the resolution of an alert.
\<close>

subsection \<open>The listening task\<close>

text \<open>
  Where \<open>_listen_loop\<close> awaits: a connection being made, the sleep of a minute, the sleep of
  three seconds after an exception; or it has ended.
\<close>

datatype listen_place = Connecting | Sleeping | Waiting | Cancelled

text \<open>\<open>ln_open\<close>: the connection exists and is not closed, \<open>ln_registered\<close>: it has the callback.\<close>

record listener =
  ln_place :: listen_place
  ln_open :: bool
  ln_registered :: bool
  ln_attempts :: nat
  ln_live :: live

text \<open>
  The end of an attempt to connect and to register, whether each succeeds; the loss of the
  connection, which only an operation on it would notice; the end of a sleep; a
  notification of the database; the cancellation at shutdown.
\<close>

datatype listen_event = Attempt bool bool | Dropped | Woken | Notification pyfloat | Cancel

definition close_listener :: "listener \<Rightarrow> listener" where
  "close_listener self = self\<lparr>ln_open := False, ln_registered := False\<rparr>"

fun listen_step :: "pyfloat \<Rightarrow> listen_event \<Rightarrow> listener \<Rightarrow> listener" where
  "listen_step window (Attempt connects registers) self =
     (if ln_place self \<noteq> Connecting then self
      else let self = self\<lparr>ln_attempts := Suc (ln_attempts self)\<rparr>
           in if \<not> connects then self\<lparr>ln_place := Waiting\<rparr>
              else let self = self\<lparr>ln_open := True\<rparr>
                   in if \<not> registers then self\<lparr>ln_place := Waiting\<rparr>
                      else self\<lparr>ln_registered := True, ln_place := Sleeping\<rparr>)"
| "listen_step window Dropped self = close_listener self"
| "listen_step window Woken self = (if ln_place self = Waiting then (close_listener self)\<lparr>ln_place := Connecting\<rparr> else self)"
| "listen_step window (Notification now) self =
     (if ln_open self \<and> ln_registered self then self\<lparr>ln_live := on_notify window now (ln_live self)\<rparr> else self)"
| "listen_step window Cancel self = (close_listener self)\<lparr>ln_place := Cancelled\<rparr>"

definition listen_run :: "pyfloat \<Rightarrow> listen_event list \<Rightarrow> listener \<Rightarrow> listener" where
  "listen_run window evs self = fold (listen_step window) evs self"

definition new_listener :: "live \<Rightarrow> listener" where
  "new_listener lv = \<lparr>ln_place = Connecting, ln_open = False, ln_registered = False, ln_attempts = 0, ln_live = lv\<rparr>"

subsection \<open>Health\<close>

text \<open>\<open>started_at\<close> and \<open>uptime\<close> are read from the clock.\<close>

definition health_report ::
    "(string, string) dict \<Rightarrow> pyfloat \<Rightarrow> json \<Rightarrow> pyfloat \<Rightarrow> bool \<Rightarrow> listener \<Rightarrow> json result" where
  "health_report environ window started_at uptime db_ok self =
     (let known = (if db_ok then ''ok'' else ''unknown'')
      in bind_result (environ_int environ ''GTFS_RT_ENTITIES'' 0) (\<lambda>entities.
         bind_result (environ_int environ ''GTFS_RT_ERRORS'' 0) (\<lambda>errors.
         bind_result (environ_int environ ''GTFSR_POLL_INTERVAL'' 60) (\<lambda>poll_interval.
         bind_result (environ_int environ ''GTFSR_RETAIN_FETCHES'' 20) (\<lambda>retain.
         bind_result (environ_int environ ''GTFSR_REQUEST_TIMEOUT'' 30) (\<lambda>timeout.
           Inr (JObj
             [(''status'', JStr (if db_ok then ''ok'' else ''degraded'')),
              (''db'', JBool db_ok),
              (''connected_clients'', JInt (int (client_count (ln_live self)))),
              (''pg_listen'', JStr (if ln_open self then ''ok'' else ''down'')),
              (''coalesce_ms'', JInt (py_trunc (fmul window 1000))),
              (''mqtt'', JStr (environ_str environ ''MQTT_STATUS'' known)),
              (''gtfs_rt'', JStr (environ_str environ ''GTFS_RT_STATUS'' known)),
              (''gtfs_rt_last_fetch'', opt_str (dict_get environ ''GTFS_RT_LAST_FETCH'')),
              (''gtfs_rt_entities'', if entities = 0 then JNull else JInt entities),
              (''gtfs_rt_errors'', JInt errors),
              (''gtfs_rt_poll_interval'', JInt poll_interval),
              (''gtfs_rt_retain'', JInt retain),
              (''gtfs_rt_timeout'', JInt timeout),
              (''started_at'', started_at),
              (''uptime_s'', JInt (py_trunc uptime))])))))))"

text \<open>\<open>opened\<close>: the pool exists; the database is fine when \<open>SELECT 1\<close> gets through.\<close>

definition health ::
    "(string, string) dict \<Rightarrow> pyfloat \<Rightarrow> json \<Rightarrow> pyfloat \<Rightarrow> listener \<Rightarrow> bool \<Rightarrow> outages \<Rightarrow> (database, json) io" where
  "health environ window started_at uptime self opened up s =
     (case connection opened up (query up (\<lambda>_. ())) s of
        (Inl e, s) \<Rightarrow> (health_report environ window started_at uptime False self, s)
      | (Inr _, s) \<Rightarrow> (health_report environ window started_at uptime True self, s))"

subsection \<open>Routes\<close>

text \<open>The requests whose queries are modelled, with the values of their parameters.\<close>

datatype request =
    Get_stop_history string int
  | Get_vehicle_history int "string option"
  | Get_predictions_latest
  | Get_predictions_for_route string int
  | Get_on_time "string option" int
  | Get_delays "string option" int
  | Get_freshness
  | Get_service_alerts
  | Get_devices
  | Get_device_logs string int
  | Get_all_alerts
  | Post_resolve int
  | Post_admin_command "(string, json) dict"
  | Get_prediction_config
  | Put_prediction_config "(string, json) dict"
  | Get_evaluator_config
  | Put_evaluator_config "(string, json) dict"

definition all_alerts :: "dash_env \<Rightarrow> database \<Rightarrow> json" where
  "all_alerts env d = JArr (map (\<lambda>r. JObj
     [(''id'', JInt (sa_id r)), (''severity'', JStr (sa_severity r)), (''message'', JStr (sa_message r)),
      (''source'', opt_str (sa_source r)), (''device_id'', opt_str (sa_device_id r)), (''route_id'', opt_str (sa_route_id r)),
      (''created_at'', JStr (dh_str env (sa_created_at r))), (''resolved_at'', opt_time env (sa_resolved_at r))])
     (take 100 (sort_key (\<lambda>r. - sa_created_at r) (db_system_alerts d))))"

definition devices_json :: "dash_env \<Rightarrow> database \<Rightarrow> json" where
  "devices_json env d = JArr (map (\<lambda>r. JObj
     [(''device_id'', JStr (st_device_id r)), (''stop_id'', JStr (st_stop_id r)), (''stop_name'', JStr (st_stop_name r)),
      (''stop_lat'', JFloat (st_stop_lat r)), (''stop_long'', JFloat (st_stop_long r)), (''transport_type'', JStr (st_transport_type r)),
      (''zone'', opt_str (st_zone r)), (''is_online'', JBool (st_is_online r)), (''pipeline_active'', JBool (st_pipeline_active r)),
      (''last_seen'', opt_time env (st_last_seen r)), (''config'', st_config r)])
     (sort_key st_stop_name (db_stops d)))"

definition service_alerts_json :: "dash_env \<Rightarrow> database \<Rightarrow> json" where
  "service_alerts_json env d = JArr (map (\<lambda>r. JObj
     [(''id'', JInt (sl_id r)), (''alert_id'', opt_str (sl_alert_id r)), (''received_at'', JStr (dh_str env (sl_received_at r))),
      (''cause'', opt_str (sl_cause r)), (''effect'', opt_str (sl_effect r)), (''header_text'', opt_str (sl_header_text r)),
      (''description_text'', opt_str (sl_description_text r)), (''severity'', opt_str (sl_severity r)),
      (''active_period_start'', opt_time env (sl_active_start r)), (''active_period_end'', opt_time env (sl_active_end r))])
     (take 50 (sort_key (\<lambda>r. - sl_received_at r) (db_service_alerts d))))"

text \<open>An empty route is no route; a \<open>Decimal\<close> is answered as a number.\<close>

definition delays_json :: "dash_env \<Rightarrow> timestamp \<Rightarrow> string option \<Rightarrow> int \<Rightarrow> database \<Rightarrow> json" where
  "delays_json env now route_id hours d =
     (case route_id of
        Some (c # cs) \<Rightarrow> JArr (map (\<lambda>(stop, name, hs). JObj
          [(''stop_id'', JStr stop), (''stop_name'', JStr name),
           (''hours'', JArr (map (\<lambda>(h, x). JObj [(''hour'', JInt (int h)), (''avg_delay'', JFloat (fl x))]) hs))])
          (delay_by_hour env now (c # cs) hours d))
      | _ \<Rightarrow> JArr (map (\<lambda>(stop, name, x). JObj
          [(''stop_id'', JStr stop), (''stop_name'', JStr name), (''avg_delay'', JFloat (fl x))]) (worst_delays now hours d)))"

definition on_time_json :: "dash_env \<Rightarrow> timestamp \<Rightarrow> string option \<Rightarrow> int \<Rightarrow> database \<Rightarrow> json" where
  "on_time_json env now route_id hours d =
     JArr (map (\<lambda>(label, x). JObj [(''time'', JStr label), (''onTimePercent'', JFloat x)]) (on_time_by_hour env now route_id hours d))"

text \<open>The query of a request that only reads; a negative limit is rejected by the server.\<close>

fun request_query :: "dash_env \<Rightarrow> timestamp \<Rightarrow> request \<Rightarrow> (database \<Rightarrow> json result) option" where
  "request_query env now (Get_stop_history stop_id hours) = Some (\<lambda>d. Inr (stop_history env now stop_id hours d))"
| "request_query env now (Get_vehicle_history hours route_id) = Some (\<lambda>d. Inr (vehicle_history env now hours route_id d))"
| "request_query env now Get_predictions_latest = Some (\<lambda>d. Inr (predictions_latest_json env d))"
| "request_query env now (Get_predictions_for_route route_id direction_id) =
     Some (\<lambda>d. Inr (predictions_for_route_json route_id direction_id d))"
| "request_query env now (Get_on_time route_id hours) = Some (\<lambda>d. Inr (on_time_json env now route_id hours d))"
| "request_query env now (Get_delays route_id hours) = Some (\<lambda>d. Inr (delays_json env now route_id hours d))"
| "request_query env now Get_freshness = Some (\<lambda>d. Inr (freshness env d))"
| "request_query env now Get_service_alerts = Some (\<lambda>d. Inr (service_alerts_json env d))"
| "request_query env now Get_devices = Some (\<lambda>d. Inr (devices_json env d))"
| "request_query env now (Get_device_logs device_id limit) =
     Some (\<lambda>d. if limit < 0 then Inl DatabaseError else Inr (device_logs env device_id (nat limit) d))"
| "request_query env now Get_all_alerts = Some (\<lambda>d. Inr (all_alerts env d))"
| "request_query env now _ = None"

text \<open>\<open>{"ok": True, **body}\<close>: an entry of the body takes the place of \<open>ok\<close>.\<close>

definition ok_with :: "(string, json) dict \<Rightarrow> json" where
  "ok_with body = JObj (fold (\<lambda>(k, v) d. dict_set d k v) body [(''ok'', JBool True)])"

definition admin_answer :: "(string, json) dict \<Rightarrow> json" where
  "admin_answer body =
     (case dict_get body ''device_id'' of
        None \<Rightarrow> JObj [(''error'', JStr ''device_id required'')]
      | Some device_id \<Rightarrow>
          if truthy device_id then JObj [(''ok'', JBool True), (''device_id'', device_id), (''command'', JObj body)]
          else JObj [(''error'', JStr ''device_id required'')])"

fun answer :: "dash_env \<Rightarrow> timestamp \<Rightarrow> bool \<Rightarrow> outages \<Rightarrow> request \<Rightarrow> (database, json) io" where
  "answer env now opened up (Post_resolve alert_id) s =
     (case api_resolve_alert now alert_id opened up s of
        (Inl e, s) \<Rightarrow> (Inl e, s) | (Inr _, s) \<Rightarrow> (Inr (JObj [(''ok'', JBool True)]), s))"
| "answer env now opened up (Post_admin_command body) s = (Inr (admin_answer body), s)"
| "answer env now opened up Get_prediction_config s =
     (Inr (JObj [(''alighting_fraction'', JFloat (fl (5 / 100))), (''default_capacity'', JInt 80)]), s)"
| "answer env now opened up (Put_prediction_config body) s = (Inr (ok_with body), s)"
| "answer env now opened up Get_evaluator_config s =
     (Inr (JObj [(''occupancy_threshold'', JFloat (fl (9 / 10))), (''min_stranded'', JInt 5), (''min_confidence'', JFloat (fl (3 / 10)))]), s)"
| "answer env now opened up (Put_evaluator_config body) s = (Inr (ok_with body), s)"
| "answer env now opened up req s =
     (case request_query env now req of
        Some q \<Rightarrow> connection opened up (query_checked up q) s
      | None \<Rightarrow> (Inl RuntimeError, s))"


subsection \<open>Properties\<close>

text \<open>While the task sleeps without a connection nothing but a cancellation changes it.\<close>

lemma lost_step:
  assumes "ln_place self = Sleeping" "\<not> ln_open self" "\<not> ln_registered self" "ev \<noteq> Cancel"
  shows "listen_step window ev self = self"
  using assms by (cases ev) (simp_all add: close_listener_def)

lemma lost_run:
  "ln_place self = Sleeping \<Longrightarrow> \<not> ln_open self \<Longrightarrow> \<not> ln_registered self \<Longrightarrow> Cancel \<notin> set evs \<Longrightarrow> listen_run window evs self = self"
  by (induction evs) (auto simp: listen_run_def lost_step)

text \<open>
  C37: a lost connection stays lost.  Once the listening task has a connection, no loss of it
  leads to another attempt: whatever happens afterwards short of the shutdown, the server
  has no connection, no notification starts a timer, and the health report says so.
\<close>

theorem lost_listener_never_returns:
  assumes "ln_place self = Sleeping" "Cancel \<notin> set evs" "self' = listen_run window (Dropped # evs) self"
  shows "ln_place self' = Sleeping \<and> ln_attempts self' = ln_attempts self \<and> ln_live self' = ln_live self \<and>
    (\<forall>now. listen_step window (Notification now) self' = self') \<and>
    (\<forall>environ started_at uptime db_ok kvs. health_report environ window started_at uptime db_ok self' = Inr (JObj kvs) \<longrightarrow>
       (''pg_listen'', JStr ''down'') \<in> set kvs)"
proof -
  have "self' = close_listener self"
    using assms lost_run [of "close_listener self" evs window] by (simp add: listen_run_def close_listener_def)
  then show ?thesis using assms(1)
    by (auto simp: close_listener_def health_report_def Let_def bind_result_def split: sum.splits)
qed

text \<open>Before it has one, it tries again after every failure.\<close>

theorem listener_retries:
  assumes "ln_place self = Waiting"
  shows "ln_place (listen_run window [Woken, Attempt True True] self) = Sleeping \<and>
    ln_open (listen_run window [Woken, Attempt True True] self) \<and>
    ln_live (listen_run window [Woken, Attempt True True, Notification now] self) = on_notify window now (ln_live self)"
  using assms by (simp add: listen_run_def close_listener_def)

lemma api_resolve_transaction: "snd (api_resolve_alert now alert_id opened up s) = resolve_alert now alert_id opened up s"
  by (simp add: api_resolve_alert_def resolve_alert_def transaction_def logged_def)

lemma reading_answer:
  assumes "idle s" "request_query env now req = Some q"
  shows "answer env now opened up req s = connection opened up (query_checked up q) s"
  using assms(2) by (cases req) auto

lemma reading_outcome:
  assumes "idle s"
  shows "idle (snd (connection opened up (query_checked up q) s))"
    "se_committed (snd (connection opened up (query_checked up q) s)) = se_committed s"
    "opened \<Longrightarrow> \<forall>n. up n \<Longrightarrow> fst (connection opened up (query_checked up q) s) = q (se_committed s)"
proof -
  show "idle (snd (connection opened up (query_checked up q) s))" by (rule connection_idle [OF assms])
  show "se_committed (snd (connection opened up (query_checked up q) s)) = se_committed s"
    using tentative_connection [OF tentative_query_checked, of opened up up q] unfolding tentative_def by blast
  show "opened \<Longrightarrow> \<forall>n. up n \<Longrightarrow> fst (connection opened up (query_checked up q) s) = q (se_committed s)"
    using assms by (auto simp: connection_def query_checked_up idle_def Let_def split: sum.split)
qed

text \<open>
  Answers come from the tables.  With the database up a request that reads is answered by its query
  on the committed tables; no request changes the tables, except that resolving an alert may
  set the time of that alert.
\<close>

theorem requests_answered_from_tables:
  assumes "idle s"
  shows "(\<forall>q. opened \<and> (\<forall>n. up n) \<and> request_query env now req = Some q \<longrightarrow> fst (answer env now opened up req s) = q (se_committed s)) \<and>
    idle (snd (answer env now opened up req s)) \<and>
    (se_committed (snd (answer env now opened up req s)) = se_committed s \<or>
     (\<exists>alert_id. req = Post_resolve alert_id \<and>
        update_alert_resolved now alert_id (se_committed s) = Inr (se_committed (snd (answer env now opened up req s)))))"
proof (cases "request_query env now req")
  case (Some q)
  then show ?thesis using reading_answer [OF assms Some] reading_outcome [OF assms] by auto
next
  case None
  show ?thesis
  proof (cases "\<exists>alert_id. req = Post_resolve alert_id")
    case True
    then obtain alert_id where req: "req = Post_resolve alert_id" by blast
    have "snd (answer env now opened up req s) = resolve_alert now alert_id opened up s"
      by (simp add: req api_resolve_transaction [symmetric] split: prod.split sum.split)
    then show ?thesis
      using None req resolvetx.idle_wr [OF assms] resolvetx.all_or_nothing [OF assms, of now alert_id opened up] by auto
  next
    case False
    then show ?thesis using None assms by (cases req) auto
  qed
qed

subsection \<open>Examples\<close>

definition listening :: listener where
  "listening = listen_run 1 [Attempt True True] (new_listener \<lparr>lv_clients = [7], lv_timers = [], lv_handle = None, lv_next_timer = 0,
     lv_scheduled = 0, lv_tasks = [], lv_sent = [], lv_cached = None\<rparr>)"

theorem lost_listener_never_returns_witness:
  "lv_timers (ln_live (listen_run 1 [Dropped, Woken, Attempt True True, Notification 5] listening)) = []"
proof -
  have "ln_place listening = Sleeping" "lv_timers (ln_live listening) = []" by (simp_all add: listening_def listen_run_def new_listener_def)
  then show ?thesis
    using lost_listener_never_returns [of listening "[Woken, Attempt True True, Notification 5]" _ 1, OF _ _ refl] by simp
qed

theorem listener_retries_witness:
  "ln_open (listen_run 1 [Woken, Attempt True True] (listen_run 1 [Attempt False False] (close_listener (listening\<lparr>ln_place := Connecting\<rparr>))))"
  using listener_retries [of "listen_run 1 [Attempt False False] (close_listener (listening\<lparr>ln_place := Connecting\<rparr>))" 1]
  by (simp add: listen_run_def close_listener_def)

theorem requests_answered_from_tables_witness:
  "fst (answer \<lparr>dh_str = (\<lambda>_. []), dh_hour = (\<lambda>_. 0)\<rparr> 0 True (\<lambda>_. True) Get_all_alerts (new_session example_db)) = Inr (JArr [])"
  using requests_answered_from_tables [OF idle_new_session, of True "\<lambda>_. True" "\<lparr>dh_str = (\<lambda>_. []), dh_hour = (\<lambda>_. 0)\<rparr>" 0 Get_all_alerts example_db]
  by (simp add: all_alerts_def new_session_def example_db_def empty_db_def)

end
