(* ===== verification/Admin_Views.thy ===== *)
theory Admin_Views
  imports Api_Server
begin

text \<open>
  The lists of scheduler decisions, model versions and actions of \<open>API/queries.py\<close> with their routes, and
  the start and the end of the server in \<open>lifespan\<close> of \<open>API/main.py\<close>.  The columns that the server fills when it
  inserts a row or that nobody writes (the identifier, the time, the status) are not in
  the tables of the model: they are given row by row.  Properties: what an operator types
  comes first in the log, and a server that ends leaves nothing open.
\<close>

subsection \<open>Filled columns\<close>

record filled_decision =
  fd_id :: int
  fd_decided_at :: timestamp
  fd_status :: "string option"
  fd_executed_at :: "timestamp option"

record filled_model =
  fm_id :: int
  fm_uploaded_at :: "timestamp option"
  fm_is_active :: "bool option"

record filled_action =
  fa_id :: int
  fa_occurred_at :: timestamp
  fa_result :: "string option"

text \<open>The \<open>i\<close>-th inserted row with the columns filled for it.\<close>

definition with_filled :: "(nat \<Rightarrow> 'f) \<Rightarrow> 'r list \<Rightarrow> ('r \<times> 'f) list" where
  "with_filled filled rows = map (\<lambda>(i, r). (r, filled i)) (enumerate 0 rows)"

subsection \<open>Queries\<close>

definition decision_json :: "dash_env \<Rightarrow> decision_row \<times> filled_decision \<Rightarrow> json" where
  "decision_json env x = (case x of (r, f) \<Rightarrow> JObj
     [(''id'', JInt (fd_id f)), (''decided_at'', JStr (dh_str env (fd_decided_at f))), (''decision_type'', JStr (sd_decision_type r)),
      (''route_id'', JStr (sd_route_id r)), (''direction_id'', JInt (sd_direction_id r)),
      (''trigger_vehicle_id'', JStr (sd_trigger_vehicle_id r)), (''trigger_stop_id'', opt_str (sd_trigger_stop_id r)),
      (''predicted_passengers'', JInt (sd_predicted_passengers r)), (''predicted_occupancy_pct'', JFloat (sd_predicted_occupancy_pct r)),
      (''vehicle_capacity'', JInt (sd_vehicle_capacity r)), (''total_stranded'', JInt (sd_total_stranded r)),
      (''threshold'', case sd_threshold r of None \<Rightarrow> JNull | Some t \<Rightarrow> JFloat t), (''message'', JStr (sd_message r)),
      (''status'', opt_str (fd_status f)), (''executed_at'', opt_time env (fd_executed_at f))])"

definition query_scheduler_decisions :: "dash_env \<Rightarrow> (nat \<Rightarrow> filled_decision) \<Rightarrow> nat \<Rightarrow> database \<Rightarrow> json" where
  "query_scheduler_decisions env filled limit d = JArr (map (decision_json env)
     (take limit (sort_key (\<lambda>x. - fd_decided_at (snd x)) (with_filled filled (db_scheduler_decisions d)))))"

definition model_json :: "dash_env \<Rightarrow> model_row \<times> filled_model \<Rightarrow> json" where
  "model_json env x = (case x of (r, f) \<Rightarrow> JObj
     [(''id'', JInt (fm_id f)), (''filename'', JStr (mv_filename r)), (''sha256'', JStr (mv_sha256 r)),
      (''file_size'', opt_int (mv_file_size r)), (''uploaded_at'', opt_time env (fm_uploaded_at f)),
      (''is_active'', case fm_is_active f of None \<Rightarrow> JNull | Some b \<Rightarrow> JBool b)])"

text \<open>In descending order a missing time comes first.\<close>

definition query_models :: "dash_env \<Rightarrow> (nat \<Rightarrow> filled_model) \<Rightarrow> database \<Rightarrow> json" where
  "query_models env filled d =
     (let rows = with_filled filled (db_model_versions d)
      in JArr (map (model_json env)
           (filter (\<lambda>x. fm_uploaded_at (snd x) = None) rows @
            sort_key (\<lambda>x. - the (fm_uploaded_at (snd x))) (filter (\<lambda>x. fm_uploaded_at (snd x) \<noteq> None) rows))))"

definition action_json :: "dash_env \<Rightarrow> admin_row \<times> filled_action \<Rightarrow> json" where
  "action_json env x = (case x of (r, f) \<Rightarrow> JObj
     [(''id'', JInt (fa_id f)), (''occurred_at'', JStr (dh_str env (fa_occurred_at f))),
      (''target_device_id'', opt_str (aa_target_device_id r)), (''action'', JStr (aa_action r)), (''command'', aa_command r),
      (''result'', opt_str (fa_result f)), (''initiated_by'', JStr (aa_initiated_by r))])"

definition query_admin_log :: "dash_env \<Rightarrow> (nat \<Rightarrow> filled_action) \<Rightarrow> nat \<Rightarrow> database \<Rightarrow> json" where
  "query_admin_log env filled limit d = JArr (map (action_json env)
     (take limit (sort_key (\<lambda>x. - fa_occurred_at (snd x)) (with_filled filled (db_admin_activity_log d)))))"

subsection \<open>Routes\<close>

datatype view = Get_decisions "nat \<Rightarrow> filled_decision" int | Get_models "nat \<Rightarrow> filled_model" | Get_admin_log "nat \<Rightarrow> filled_action" int

text \<open>A negative limit is rejected by the server.\<close>

definition limited :: "int \<Rightarrow> (nat \<Rightarrow> json) \<Rightarrow> json result" where
  "limited limit f = (if limit < 0 then Inl DatabaseError else Inr (f (nat limit)))"

fun view_query :: "dash_env \<Rightarrow> view \<Rightarrow> database \<Rightarrow> json result" where
  "view_query env (Get_decisions filled limit) d = limited limit (\<lambda>n. query_scheduler_decisions env filled n d)"
| "view_query env (Get_models filled) d = Inr (query_models env filled d)"
| "view_query env (Get_admin_log filled limit) d = limited limit (\<lambda>n. query_admin_log env filled n d)"

definition answer_view :: "dash_env \<Rightarrow> bool \<Rightarrow> outages \<Rightarrow> view \<Rightarrow> (database, json) io" where
  "answer_view env opened up v = connection opened up (query_checked up (view_query env v))"

subsection \<open>Start and end of the server\<close>

text \<open>The pool is open; the listening task, once it was created.\<close>

record server =
  sv_pool :: bool
  sv_listener :: "listener option"

definition lifespan_start :: "bool \<Rightarrow> live \<Rightarrow> server result" where
  "lifespan_start opens lv =
     (if opens then Inr \<lparr>sv_pool = True, sv_listener = Some (new_listener lv)\<rparr> else Inl DatabaseError)"

definition lifespan_stop :: "pyfloat \<Rightarrow> server \<Rightarrow> server" where
  "lifespan_stop window self = self\<lparr>sv_listener := map_option (listen_step window Cancel) (sv_listener self), sv_pool := False\<rparr>"

definition server_run :: "pyfloat \<Rightarrow> listen_event list \<Rightarrow> server \<Rightarrow> server" where
  "server_run window evs self = self\<lparr>sv_listener := map_option (listen_run window evs) (sv_listener self)\<rparr>"

subsection \<open>Properties\<close>

text \<open>A row with the greatest time comes first.\<close>

lemma sort_key_snoc_first:
  assumes "\<forall>y \<in> set ys. f x < f y"
  shows "sort_key f (ys @ [x]) = x # sort_key f ys"
proof -
  have "foldr (insort_key f) zs [x] = x # foldr (insort_key f) zs []" if "\<forall>y \<in> set zs. f x < f y" for zs
    using that by (induction zs) auto
  then show ?thesis using assms by (simp add: sort_key_def)
qed

lemma with_filled_snoc: "with_filled filled (rows @ [r]) = with_filled filled rows @ [(r, filled (length rows))]"
  by (simp add: with_filled_def enumerate_append_eq)

lemma with_filled_snd: "x \<in> set (with_filled filled rows) \<Longrightarrow> \<exists>i < length rows. snd x = filled i"
  by (auto simp: with_filled_def in_set_enumerate_eq)

text \<open>The lists only read, whatever fails; with the database up they are those of the committed tables.\<close>

theorem views_only_read:
  assumes "idle s"
  shows "idle (snd (answer_view env opened up v s)) \<and> se_committed (snd (answer_view env opened up v s)) = se_committed s \<and>
    (opened \<longrightarrow> (\<forall>n. up n) \<longrightarrow> fst (answer_view env opened up v s) = view_query env v (se_committed s))"
  unfolding answer_view_def using reading_outcome [OF assms] by blast

text \<open>
  What was done is shown.  After an action was logged with the database up, and as long as
  its time is the newest, the list of actions starts with it: the device, the action and the
  command as they were given, and no result, since none is ever written.
\<close>

theorem newest_action_shown_first:
  assumes "idle s" "\<forall>n. up n" "0 < limit"
    and "\<forall>i < length (db_admin_activity_log (se_committed s)). fa_occurred_at (filled i) < fa_occurred_at newest"
    and "filled (length (db_admin_activity_log (se_committed s))) = newest" "fa_result newest = None"
  shows "\<exists>rest. fst (answer_view env True up (Get_admin_log filled limit) (log_admin_action target action command initiated_by True up s)) =
    Inr (JArr (JObj [(''id'', JInt (fa_id newest)), (''occurred_at'', JStr (dh_str env (fa_occurred_at newest))),
      (''target_device_id'', opt_str target), (''action'', JStr action), (''command'', command), (''result'', JNull),
      (''initiated_by'', JStr initiated_by)] # rest))"
proof -
  let ?s' = "log_admin_action target action command initiated_by True up s"
  let ?log = "db_admin_activity_log (se_committed s)"
  let ?row = "\<lparr>aa_target_device_id = target, aa_action = action, aa_command = command, aa_initiated_by = initiated_by\<rparr>"
  have log: "db_admin_activity_log (se_committed ?s') = ?log @ [?row]"
    using admintx.performed_up [OF assms(1) TrueI assms(2)] by (simp add: insert_admin_action_def)
  have first: "sort_key (\<lambda>x. - fa_occurred_at (snd x)) (with_filled filled (?log @ [?row])) =
      (?row, newest) # sort_key (\<lambda>x. - fa_occurred_at (snd x)) (with_filled filled ?log)"
    unfolding with_filled_snoc assms(5)
    using assms(4) by (intro sort_key_snoc_first) (auto dest!: with_filled_snd)
  obtain m where m: "nat limit = Suc m" using assms(3) by (metis gr0_implies_Suc zero_less_nat_eq)
  have "view_query env (Get_admin_log filled limit) (se_committed ?s') =
      Inr (JArr (action_json env (?row, newest) #
        map (action_json env) (take m (sort_key (\<lambda>x. - fa_occurred_at (snd x)) (with_filled filled ?log)))))"
    using assms(3) by (simp add: limited_def query_admin_log_def log first m)
  moreover have "idle ?s'" by (rule admintx.idle_wr [OF assms(1)])
  ultimately show ?thesis
    using views_only_read [of ?s' env True up "Get_admin_log filled limit"] assms(2,6) by (auto simp: action_json_def opt_str_def)
qed

text \<open>
  Nothing stays open.  A server that started, whatever its listening task met, closes at its
  end the pool and the listening connection, and its task has ended; one that cannot
  open the pool does not start.
\<close>

theorem lifespan_releases:
  "(case lifespan_start opens lv of
      Inl e \<Rightarrow> \<not> opens
    | Inr self \<Rightarrow> opens \<and> (let self' = lifespan_stop window (server_run window evs self)
        in \<not> sv_pool self' \<and> (\<exists>l. sv_listener self' = Some l \<and> ln_place l = Cancelled \<and> \<not> ln_open l \<and> \<not> ln_registered l)))"
  by (simp add: lifespan_start_def lifespan_stop_def server_run_def close_listener_def Let_def)

subsection \<open>Examples\<close>

definition example_filled :: "nat \<Rightarrow> filled_action" where
  "example_filled i = \<lparr>fa_id = int i + 1, fa_occurred_at = int i, fa_result = None\<rparr>"

theorem newest_action_shown_first_witness:
  "\<exists>rest. fst (answer_view \<lparr>dh_str = (\<lambda>_. ''t''), dh_hour = (\<lambda>_. 0)\<rparr> True (\<lambda>_. True) (Get_admin_log example_filled 5)
     (log_admin_action (Some ''d1'') ''stop_pipeline'' JNull ''operator'' True (\<lambda>_. True) (new_session empty_db))) =
     Inr (JArr (JObj [(''id'', JInt 1), (''occurred_at'', JStr ''t''), (''target_device_id'', JStr ''d1''), (''action'', JStr ''stop_pipeline''),
       (''command'', JNull), (''result'', JNull), (''initiated_by'', JStr ''operator'')] # rest))"
proof -
  have "idle (new_session empty_db)" "db_admin_activity_log (se_committed (new_session empty_db)) = []"
    by (simp_all add: new_session_def empty_db_def idle_def)
  then show ?thesis
    using newest_action_shown_first [of "new_session empty_db" "\<lambda>_. True" 5 example_filled "example_filled 0"
        "\<lparr>dh_str = (\<lambda>_. ''t''), dh_hour = (\<lambda>_. 0)\<rparr>" "Some ''d1''" "''stop_pipeline''" JNull "''operator''"]
    by (simp add: example_filled_def opt_str_def)
qed

end
