(* ===== verification/External_Api.thy ===== *)
theory External_Api
  imports Dashboard Engine_Properties Db_Writer_Properties
begin

text \<open>
  The public traffic lights of a stop: \<open>External API/traffic_light.py\<close> and \<open>queries.py\<close> as functions
  of the tables, and the answer of the endpoint in \<open>main.py\<close>.  The thresholds are those of \<open>config.py\<close>,
  which environment variables can replace; the text of the current time is an input.
\<close>

subsection \<open>Thresholds and colours\<close>

record light_config =
  lc_wait_amber :: int
  lc_wait_red :: int
  lc_occ_amber :: int
  lc_occ_red :: int

definition default_light_config :: light_config where
  "default_light_config = \<lparr>lc_wait_amber = 5, lc_wait_red = 15, lc_occ_amber = 50, lc_occ_red = 80\<rparr>"

definition stop_light :: "light_config \<Rightarrow> int option \<Rightarrow> string" where
  "stop_light cfg cnt =
     (case cnt of
        None \<Rightarrow> ''unknown''
      | Some n \<Rightarrow> if n < lc_wait_amber cfg then ''green'' else if n < lc_wait_red cfg then ''amber'' else ''red'')"

definition occupancy_light :: "light_config \<Rightarrow> pyfloat option \<Rightarrow> string" where
  "occupancy_light cfg pct =
     (case pct of
        None \<Rightarrow> ''unknown''
      | Some x \<Rightarrow> if x < of_int (lc_occ_amber cfg) then ''green'' else if x < of_int (lc_occ_red cfg) then ''amber'' else ''red'')"

subsection \<open>The query\<close>

text \<open>The first row of the stop joined with its counts, or none.\<close>

definition waiting_row :: "string \<Rightarrow> database \<Rightarrow> (string \<times> int option) option" where
  "waiting_row stop_id d =
     (case [(st_stop_name s, map_option cc_count cc).
              s \<leftarrow> filter (\<lambda>s. st_stop_id s = stop_id) (db_stops d),
              cc \<leftarrow> left_join (filter (\<lambda>cc. cc_stop_id cc = st_stop_id s) (db_current_counts d))] of
        [] \<Rightarrow> None | row # _ \<Rightarrow> Some row)"

text \<open>The time of the newest prediction of a vehicle at the stop.\<close>

definition newest_at :: "string \<Rightarrow> string \<Rightarrow> database \<Rightarrow> timestamp option" where
  "newest_at stop_id vehicle_id d =
     (case map pr_time (filter (\<lambda>p. pr_stop_id p = stop_id \<and> pr_vehicle_id p = vehicle_id) (db_predictions d)) of
        [] \<Rightarrow> None | t # ts \<Rightarrow> Some (foldl max t ts))"

text \<open>A route that is not in the table has neither name nor type.\<close>

definition light_rows :: "string \<Rightarrow> database \<Rightarrow> (prediction_row \<times> route_row option) list" where
  "light_rows stop_id d =
     sort_key (\<lambda>(p, _). (- pr_predicted_occupancy_pct p, pr_vehicle_id p))
       [(p, r). p \<leftarrow> filter (\<lambda>p. pr_stop_id p = stop_id \<and> newest_at stop_id (pr_vehicle_id p) d = Some (pr_time p)) (db_predictions d),
          r \<leftarrow> left_join (filter (\<lambda>r. ro_route_id r = pr_route_id p) (db_routes d))]"

record vehicle_light =
  vl_vehicle_id :: string
  vl_route_id :: string
  vl_route_name :: string
  vl_state :: string

definition vehicle_light_of :: "light_config \<Rightarrow> prediction_row \<times> route_row option \<Rightarrow> vehicle_light" where
  "vehicle_light_of cfg row =
     (case row of (p, r) \<Rightarrow>
       \<lparr>vl_vehicle_id = pr_vehicle_id p, vl_route_id = pr_route_id p,
        vl_route_name = (case r of None \<Rightarrow> route_display [] [] | Some r \<Rightarrow> route_display (ro_transport_type r) (ro_short_name r)),
        vl_state = occupancy_light cfg (Some (pr_predicted_occupancy_pct p))\<rparr>)"

record stop_lights =
  sl_stop_id :: string
  sl_stop_name :: string
  sl_state :: string
  sl_vehicles :: "vehicle_light list"
  sl_as_of :: string

definition query_stop_traffic_lights :: "light_config \<Rightarrow> string \<Rightarrow> string \<Rightarrow> database \<Rightarrow> stop_lights option" where
  "query_stop_traffic_lights cfg now stop_id d =
     (case waiting_row stop_id d of
        None \<Rightarrow> None
      | Some (stop_name, waiting_count) \<Rightarrow> Some
          \<lparr>sl_stop_id = stop_id, sl_stop_name = stop_name, sl_state = stop_light cfg waiting_count,
           sl_vehicles = map (vehicle_light_of cfg) (light_rows stop_id d), sl_as_of = now\<rparr>)"

text \<open>The endpoint: an unknown stop is answered with status 404.\<close>

datatype api_answer = Ok stop_lights | Not_found string

definition get_stop :: "light_config \<Rightarrow> string \<Rightarrow> string \<Rightarrow> database \<Rightarrow> api_answer" where
  "get_stop cfg now stop_id d =
     (case query_stop_traffic_lights cfg now stop_id d of
        None \<Rightarrow> Not_found (''Unknown stop_id: '' @ stop_id) | Some payload \<Rightarrow> Ok payload)"

subsection \<open>Properties\<close>

text \<open>Every stored occupancy is at most one.\<close>

definition fractions_stored :: "database \<Rightarrow> bool" where
  "fractions_stored d \<longleftrightarrow> (\<forall>p \<in> set (db_predictions d). pr_predicted_occupancy_pct p \<le> 1)"

lemma waiting_row_some: "stop_id \<in> st_stop_id ` set (db_stops d) \<Longrightarrow> \<exists>row. waiting_row stop_id d = Some row"
proof (cases "filter (\<lambda>s. st_stop_id s = stop_id) (db_stops d)")
  case Nil then show "stop_id \<in> st_stop_id ` set (db_stops d) \<Longrightarrow> ?thesis" by (auto simp: filter_empty_conv)
next
  case (Cons s ss)
  obtain cc ccs where "left_join (filter (\<lambda>cc. cc_stop_id cc = st_stop_id s) (db_current_counts d)) = cc # ccs"
    by (cases "filter (\<lambda>cc. cc_stop_id cc = st_stop_id s) (db_current_counts d)") (simp_all add: left_join_def)
  with Cons show ?thesis by (simp add: waiting_row_def)
qed

lemma light_rows_stored: "(p, r) \<in> set (light_rows stop_id d) \<Longrightarrow> p \<in> set (db_predictions d)"
  by (auto simp: light_rows_def)

lemma fractions_green:
  assumes "fractions_stored d" "1 < lc_occ_amber cfg"
  shows "\<forall>v \<in> set (map (vehicle_light_of cfg) (light_rows stop_id d)). vl_state v = ''green''"
proof -
  have "pr_predicted_occupancy_pct p < of_int (lc_occ_amber cfg)" if "p \<in> set (db_predictions d)" for p
  proof -
    have "pr_predicted_occupancy_pct p \<le> 1" using assms(1) that by (simp add: fractions_stored_def)
    also have "(1 :: rat) < of_int (lc_occ_amber cfg)" using assms(2) by simp
    finally show ?thesis .
  qed
  then show ?thesis by (auto simp: vehicle_light_of_def occupancy_light_def dest: light_rows_stored)
qed

lemma fractions_written:
  assumes "fractions_stored (se_committed s)" "idle s"
    and "\<forall>vp \<in> set (rp_vehicle_predictions r). \<forall>p \<in> set (vp_stops vp). pred_bounds (vp_vehicle_capacity vp) p"
  shows "fractions_stored (se_committed (write_predictions now r opened up s))"
proof -
  have "pr_predicted_occupancy_pct (prediction_row_of now r vp p) \<le> 1"
    if "vp \<in> set (rp_vehicle_predictions r)" "p \<in> set (vp_stops vp)" for vp p
  proof -
    have b: "0 \<le> sp_predicted_passengers p" "sp_predicted_passengers p \<le> vp_vehicle_capacity vp"
      using assms(3) that by (auto simp: pred_bounds_def)
    have "0 \<le> py_truediv (sp_predicted_passengers p) (vp_vehicle_capacity vp) \<and>
        py_truediv (sp_predicted_passengers p) (vp_vehicle_capacity vp) \<le> 1" if "0 < vp_vehicle_capacity vp"
      using py_truediv_fraction [of "sp_predicted_passengers p" "vp_vehicle_capacity vp"] b that by simp
    then show ?thesis
      using py_round_nd_fraction [of "py_truediv (sp_predicted_passengers p) (vp_vehicle_capacity vp)" 4] py_round_nd_fraction [of 0 4]
      by (simp add: prediction_row_of_def Let_def)
  qed
  then have rows: "\<forall>row \<in> set (prediction_rows now r). pr_predicted_occupancy_pct row \<le> 1"
    by (auto simp: prediction_rows_def)
  show ?thesis
  proof (rule predictiontx.keeps [where I = fractions_stored, OF assms(2,1)])
    fix d d' assume "fractions_stored d" "exec_seq (map insert_prediction (prediction_rows now r)) d = Inr d'"
    then show "fractions_stored d'"
      using rows exec_insert_predictions [of "prediction_rows now r" d d'] by (auto simp: fractions_stored_def)
  qed
qed

text \<open>
  C33: the lights of the vehicles never change.  The stored occupancies are fractions of one,
  the thresholds are percentages: whatever the engine predicts for vehicles that start
  within their capacity, after it has been written every vehicle at every stop is shown
  green, a full one too, as long as the amber threshold is above one, as by default.
\<close>

theorem vehicle_lights_green:
  assumes "wf_snapshot s" "\<forall>v \<in> set (rs_vehicles s). vs_passenger_count v \<le> vs_capacity v"
    and "0 \<le> (case f of Some f \<Rightarrow> f | None \<Rightarrow> pc_alighting_fraction config)" "predict_route config s f = Inr r"
    and "fractions_stored (se_committed sess)" "idle sess" "1 < lc_occ_amber cfg"
    and "query_stop_traffic_lights cfg text stop_id (se_committed (write_predictions now r opened up sess)) = Some lights"
  shows "\<forall>v \<in> set (sl_vehicles lights). vl_state v = ''green''"
proof -
  have "\<forall>vp \<in> set (rp_vehicle_predictions r). \<forall>p \<in> set (vp_stops vp). pred_bounds (vp_vehicle_capacity vp) p"
    using capacity_bounds [OF assms(1-4)] by blast
  from fractions_green [OF fractions_written [OF assms(5,6) this] assms(7)] show ?thesis
    using assms(8) by (auto simp: query_stop_traffic_lights_def split: option.splits)
qed

theorem vehicle_lights_green_witness:
  "\<exists>lights.
     query_stop_traffic_lights default_light_config [] ''s1'' (se_committed (write_predictions 5
       example_result True (\<lambda>_. True) (new_session example_db))) = Some lights \<and>
     (\<forall>v \<in> set (sl_vehicles lights). vl_state v = ''green'') \<and>
     vp_peak_occupancy_pct (hd (rp_vehicle_predictions example_result)) = 1"
proof -
  let ?s = "new_session example_db"
  have start: "fractions_stored (se_committed ?s)" "''s1'' \<in> st_stop_id ` set (db_stops (se_committed ?s))"
    by (simp_all add: new_session_def fractions_stored_def example_db_def empty_db_def)
  have "''s1'' \<in> st_stop_id ` set (db_stops (se_committed (write_predictions 5 example_result True (\<lambda>_. True) ?s)))"
    by (rule predictiontx.keeps [where I = "\<lambda>d. ''s1'' \<in> st_stop_id ` set (db_stops d)", OF idle_new_session start(2)])
      (auto dest: exec_insert_predictions)
  then obtain lights where q: "query_stop_traffic_lights default_light_config [] ''s1''
      (se_committed (write_predictions 5 example_result True (\<lambda>_. True) ?s)) = Some lights"
    using waiting_row_some by (fastforce simp: query_stop_traffic_lights_def)
  have cap: "\<forall>v \<in> set (rs_vehicles example_snapshot). vs_passenger_count v \<le> vs_capacity v"
    by (simp add: example_snapshot_def)
  have "\<forall>v \<in> set (sl_vehicles lights). vl_state v = ''green''"
    by (rule vehicle_lights_green [OF example_wf cap _ example_prediction start(1) idle_new_session _ q])
      (simp_all add: default_light_config_def)
  then show ?thesis using q by (simp add: example_result_def)
qed

end
