(* ===== verification/Simulator.thy ===== *)
theory Simulator
  imports Bytes
begin

text \<open>
  The crowd simulator, \<open>Simulator/\<close>: the demand curve and the weights of \<open>profiles.py\<close>, the random
  walk of a stop in \<open>generator.py\<close>, the scheduling of all stops in \<open>orchestrator.py\<close>, and the run of
  \<open>main.py\<close>.  The generator of random numbers is a state \<open>'g\<close> with the two draws the code makes of
  it; clock readings, \<open>math.sin\<close>, \<open>hash\<close> and the JSON text are inputs.
\<close>

subsection \<open>Configuration\<close>

definition publish_interval_min :: pyfloat where "publish_interval_min = 15"
definition publish_interval_max :: pyfloat where "publish_interval_max = 20"
definition backfill_stagger :: pyfloat where "backfill_stagger = fl (5 / 100)"
definition stats_log_interval :: pyfloat where "stats_log_interval = 30"
definition base_cap_min :: int where "base_cap_min = 3"
definition base_cap_max :: int where "base_cap_max = 15"
definition bias_strength :: pyfloat where "bias_strength = fl (3 / 10)"
definition max_delta_stddev :: pyfloat where "max_delta_stddev = 2"
definition dip_drop_min :: pyfloat where "dip_drop_min = fl (4 / 10)"
definition dip_drop_max :: pyfloat where "dip_drop_max = fl (7 / 10)"

text \<open>An entry of \<open>ROUTES\<close>; the identifier of the route is not used.\<close>

record sim_route =
  sr_headway_minutes :: int
  sr_stop_ids :: "string list"

text \<open>What the simulator does not compute itself.\<close>

record 'g sim_env =
  se_random :: "'g \<Rightarrow> pyfloat \<times> 'g"
  se_normal :: "'g \<Rightarrow> pyfloat \<times> 'g"
  se_sin :: "pyfloat \<Rightarrow> pyfloat"
  se_pi :: pyfloat
  se_hash :: "string \<Rightarrow> int"
  se_dumps :: "json \<Rightarrow> bytes"
  se_time_scale :: pyfloat

text \<open>\<open>Random.uniform(a, b)\<close> from a draw in \<open>[0, 1)\<close>, \<open>Random.gauss(mu, sigma)\<close> from a standard normal draw.\<close>

definition uniform :: "'g sim_env \<Rightarrow> pyfloat \<Rightarrow> pyfloat \<Rightarrow> 'g \<Rightarrow> pyfloat \<times> 'g" where
  "uniform env a b g = (case se_random env g of (u, g) \<Rightarrow> (fadd a (fmul (fsub b a) u), g))"

definition gauss :: "'g sim_env \<Rightarrow> pyfloat \<Rightarrow> pyfloat \<Rightarrow> 'g \<Rightarrow> pyfloat \<times> 'g" where
  "gauss env mu sigma g = (case se_normal env g of (z, g) \<Rightarrow> (fadd mu (fmul z sigma), g))"

text \<open>\<open>x % m\<close> of floats with \<open>m > 0\<close>: the exact remainder of C, corrected when negative.\<close>

definition py_fmod :: "pyfloat \<Rightarrow> pyfloat \<Rightarrow> pyfloat" where
  "py_fmod x m =
     (let q = (if 0 \<le> x then \<lfloor>x / m\<rfloor> else \<lceil>x / m\<rceil>); r = x - of_int q * m
      in if r < 0 then fadd r m else r)"

subsection \<open>\<open>profiles.py\<close>\<close>

definition demand_curve :: "(pyfloat \<times> pyfloat) list" where
  "demand_curve =
     [(0, fl (1 / 10)), (5, fl (1 / 10)), (6, fl (2 / 10)), (13 / 2, fl (2 / 10)), (7, fl (6 / 10)), (15 / 2, 1),
      (19 / 2, 1), (10, 1 / 2), (12, 1 / 2), (25 / 2, fl (6 / 10)), (14, fl (6 / 10)), (29 / 2, 1 / 2), (16, 1 / 2),
      (33 / 2, 1), (37 / 2, 1), (19, fl (4 / 10)), (21, fl (4 / 10)), (22, fl (1 / 10)), (24, fl (1 / 10))]"

text \<open>The loop over neighbouring points; after it the last value of the curve.\<close>

fun interpolate :: "pyfloat \<Rightarrow> pyfloat \<Rightarrow> (pyfloat \<times> pyfloat) list \<Rightarrow> pyfloat" where
  "interpolate last_m hour ((h0, m0) # (h1, m1) # curve) =
     (if h0 \<le> hour \<and> hour < h1
      then let t = (if h1 \<noteq> h0 then fdiv (fsub hour h0) (fsub h1 h0) else 0) in fadd m0 (fmul t (fsub m1 m0))
      else interpolate last_m hour ((h1, m1) # curve))"
| "interpolate last_m hour _ = last_m"

definition time_of_day_multiplier :: "pyfloat \<Rightarrow> pyfloat" where
  "time_of_day_multiplier hour = interpolate (snd (last demand_curve)) (py_fmod hour 24) demand_curve"

definition position_weight :: "'g sim_env \<Rightarrow> nat \<Rightarrow> nat \<Rightarrow> pyfloat" where
  "position_weight env index total_stops =
     (if total_stops \<le> 1 then 1
      else fadd (fl (4 / 10)) (fmul (fl (6 / 10))
        (se_sin env (fdiv (fmul (se_pi env) (py_float (int index))) (py_float (int total_stops - 1))))))"

definition stop_counts :: "sim_route list \<Rightarrow> (string, int) dict" where
  "stop_counts routes =
     foldl (\<lambda>d sid. dict_set d sid ((case dict_get d sid of None \<Rightarrow> 0 | Some n \<Rightarrow> n) + 1)) []
       (concat (map sr_stop_ids routes))"

definition route_multiplier :: "int \<Rightarrow> pyfloat" where
  "route_multiplier cnt = fadd 1 (fmul (fl (3 / 10)) (py_float (cnt - 1)))"

definition build_route_multipliers :: "sim_route list \<Rightarrow> (string, pyfloat) dict" where
  "build_route_multipliers routes = map (\<lambda>(sid, cnt). (sid, route_multiplier cnt)) (stop_counts routes)"

definition base_cap_for_stop :: "'g sim_env \<Rightarrow> string \<Rightarrow> int" where
  "base_cap_for_stop env stop_id =
     (let h = se_hash env stop_id mod 2 ^ 32; span = base_cap_max - base_cap_min
      in base_cap_min + h mod (span + 1))"

subsection \<open>\<open>StopSimulator\<close>\<close>

record stop_simulator =
  si_stop_id :: string
  si_pos_weight :: pyfloat
  si_route_mult :: pyfloat
  si_base_cap :: int
  si_headway :: pyfloat
  si_count :: int
  si_next_dip :: pyfloat

definition schedule_dip_delay :: "'g sim_env \<Rightarrow> pyfloat \<Rightarrow> 'g \<Rightarrow> pyfloat \<times> 'g" where
  "schedule_dip_delay env headway g =
     (case uniform env (- 1 / 4) (1 / 4) g of (u, g) \<Rightarrow> (max 30 (fadd headway (fmul u headway)), g))"

text \<open>The constructor; \<open>now\<close> is the monotonic clock.\<close>

definition new_stop_simulator ::
    "'g sim_env \<Rightarrow> pyfloat \<Rightarrow> string \<Rightarrow> pyfloat \<Rightarrow> pyfloat \<Rightarrow> int \<Rightarrow> pyfloat \<Rightarrow> 'g \<Rightarrow> stop_simulator \<times> 'g" where
  "new_stop_simulator env now stop_id pw rm base_cap headway g =
     (case schedule_dip_delay env headway g of (delay, g) \<Rightarrow>
       (\<lparr>si_stop_id = stop_id, si_pos_weight = pw, si_route_mult = rm, si_base_cap = base_cap, si_headway = headway,
         si_count = 0, si_next_dip = fadd now delay\<rparr>, g))"

definition sim_target :: "pyfloat \<Rightarrow> stop_simulator \<Rightarrow> pyfloat" where
  "sim_target sim_hour self =
     fmul (fmul (fmul (py_float (si_base_cap self)) (time_of_day_multiplier sim_hour)) (si_pos_weight self)) (si_route_mult self)"

definition seed_initial :: "'g sim_env \<Rightarrow> pyfloat \<Rightarrow> stop_simulator \<Rightarrow> 'g \<Rightarrow> stop_simulator \<times> 'g" where
  "seed_initial env sim_hour self g =
     (case gauss env 0 1 g of (noise, g) \<Rightarrow>
       (self\<lparr>si_count := max 0 (py_round (fadd (sim_target sim_hour self) noise))\<rparr>, g))"

definition clamp :: "int \<Rightarrow> int \<Rightarrow> int \<Rightarrow> int" where
  "clamp v lo hi = max lo (min hi v)"

definition hard_cap :: "stop_simulator \<Rightarrow> int" where
  "hard_cap self = py_round (fmul (fmul (py_float (si_base_cap self)) (si_route_mult self)) (5 / 2))"

text \<open>A vehicle takes a part of the people; a stop without people waits for the next tick with any.\<close>

definition vehicle_dip :: "'g sim_env \<Rightarrow> pyfloat \<Rightarrow> stop_simulator \<Rightarrow> 'g \<Rightarrow> stop_simulator \<times> 'g" where
  "vehicle_dip env now self g =
     (if si_next_dip self \<le> now \<and> 0 < si_count self
      then case uniform env dip_drop_min dip_drop_max g of (drop_frac, g) \<Rightarrow>
             (case schedule_dip_delay env (si_headway self) g of (delay, g) \<Rightarrow>
               (self\<lparr>si_count := max 0 (si_count self - py_round (fmul (py_float (si_count self)) drop_frac)),
                     si_next_dip := fadd now delay\<rparr>, g))
      else (self, g))"

definition sim_tick :: "'g sim_env \<Rightarrow> pyfloat \<Rightarrow> pyfloat \<Rightarrow> stop_simulator \<Rightarrow> 'g \<Rightarrow> stop_simulator \<times> 'g" where
  "sim_tick env now sim_hour self g =
     (case vehicle_dip env now self g of (self, g) \<Rightarrow>
       let bias = fmul (fsub (sim_target sim_hour self) (py_float (si_count self))) bias_strength
       in (case gauss env bias max_delta_stddev g of (delta, g) \<Rightarrow>
            (self\<lparr>si_count := clamp (py_round (fadd (py_float (si_count self)) delta)) 0 (hard_cap self)\<rparr>, g)))"

subsection \<open>\<open>Orchestrator\<close>\<close>

record stop_entry =
  en_sim :: stop_simulator
  en_next_publish :: pyfloat
  en_interval :: pyfloat

text \<open>\<open>or_published\<close> is what the client was given: topic, payload, QoS and retain flag.\<close>

record 'g orchestrator =
  or_rng :: 'g
  or_stops :: "stop_entry list"
  or_start_wall :: pyfloat
  or_start_hour :: pyfloat
  or_pub_count :: int
  or_published :: "(string \<times> bytes \<times> int \<times> bool) list"

definition wall_hour :: "int \<Rightarrow> int \<Rightarrow> int \<Rightarrow> pyfloat" where
  "wall_hour h m s = fadd (fadd (py_float h) (fdiv (py_float m) 60)) (fdiv (py_float s) 3600)"

definition sim_hour_at :: "'g sim_env \<Rightarrow> pyfloat \<Rightarrow> 'g orchestrator \<Rightarrow> pyfloat" where
  "sim_hour_at env now self =
     py_fmod (fadd (or_start_hour self) (fdiv (fmul (fsub now (or_start_wall self)) (se_time_scale env)) 3600)) 24"

text \<open>The stops of one route; \<open>clk i\<close> is the monotonic clock at the construction of the stop at index \<open>i\<close>.\<close>

fun build_route ::
    "'g sim_env \<Rightarrow> (string, pyfloat) dict \<Rightarrow> pyfloat \<Rightarrow> nat \<Rightarrow> (nat \<Rightarrow> pyfloat) \<Rightarrow> nat \<Rightarrow> string list \<Rightarrow>
     string list \<times> stop_entry list \<times> 'g \<Rightarrow> string list \<times> stop_entry list \<times> 'g" where
  "build_route env mults headway n clk idx [] acc = acc"
| "build_route env mults headway n clk idx (sid # sids) (seen, entries, g) =
     (if sid \<in> set seen then build_route env mults headway n clk (idx + 1) sids (seen, entries, g)
      else let pw = position_weight env idx n;
               rm = (case dict_get mults sid of None \<Rightarrow> 1 | Some m \<Rightarrow> m);
               bc = base_cap_for_stop env sid;
               (interval, g) = uniform env publish_interval_min publish_interval_max g;
               (sim, g) = new_stop_simulator env (clk idx) sid pw rm bc headway g
           in build_route env mults headway n clk (idx + 1) sids
                (seen @ [sid], entries @ [\<lparr>en_sim = sim, en_next_publish = 0, en_interval = interval\<rparr>], g))"

fun build_routes ::
    "'g sim_env \<Rightarrow> (string, pyfloat) dict \<Rightarrow> (nat \<Rightarrow> nat \<Rightarrow> pyfloat) \<Rightarrow> nat \<Rightarrow> sim_route list \<Rightarrow>
     string list \<times> stop_entry list \<times> 'g \<Rightarrow> string list \<times> stop_entry list \<times> 'g" where
  "build_routes env mults clk r [] acc = acc"
| "build_routes env mults clk r (route # routes) acc =
     build_routes env mults clk (r + 1) routes
       (build_route env mults (fmul (py_float (sr_headway_minutes route)) 60) (length (sr_stop_ids route)) (clk r) 0
         (sr_stop_ids route) acc)"

text \<open>The initial offsets, in steps of an equal part of the interval.\<close>

definition stagger :: "pyfloat \<Rightarrow> stop_entry list \<Rightarrow> stop_entry list" where
  "stagger now entries =
     (let step = fdiv publish_interval_min (py_float (int (length entries)))
      in map (\<lambda>(i, entry). entry\<lparr>en_next_publish := fadd now (fmul (py_float (int i)) step)\<rparr>)
           (zip [0..<length entries] entries))"

text \<open>The clocks read by the constructor: monotonic at every stop and at the end, wall clock, local time.\<close>

record build_clock =
  bc_mono :: "nat \<Rightarrow> nat \<Rightarrow> pyfloat"
  bc_built :: pyfloat
  bc_time :: pyfloat
  bc_local :: "int \<times> int \<times> int"

definition new_orchestrator :: "'g sim_env \<Rightarrow> build_clock \<Rightarrow> sim_route list \<Rightarrow> 'g \<Rightarrow> 'g orchestrator" where
  "new_orchestrator env clk routes g =
     (case build_routes env (build_route_multipliers routes) (bc_mono clk) 0 routes ([], [], g) of (seen, entries, g) \<Rightarrow>
       \<lparr>or_rng = g, or_stops = stagger (bc_built clk) entries, or_start_wall = bc_time clk,
        or_start_hour = (case bc_local clk of (h, m, s) \<Rightarrow> wall_hour h m s), or_pub_count = 0, or_published = []\<rparr>)"

definition stop_ids :: "'g orchestrator \<Rightarrow> string list" where
  "stop_ids self = map (\<lambda>e. si_stop_id (en_sim e)) (or_stops self)"

definition crowd_count_json :: "string \<Rightarrow> int \<Rightarrow> pyfloat \<Rightarrow> json" where
  "crowd_count_json stop_id cnt ts =
     JObj [(''device_id'', JStr stop_id), (''timestamp'', JFloat ts), (''count'', JInt cnt), (''zone'', JStr ''default'')]"

text \<open>\<open>_publish_crowd_count\<close> as the message it gives to the client.\<close>

definition crowd_count_message :: "'g sim_env \<Rightarrow> string \<Rightarrow> int \<Rightarrow> pyfloat \<Rightarrow> string \<times> bytes \<times> int \<times> bool" where
  "crowd_count_message env stop_id cnt ts =
     (''edge/'' @ stop_id @ ''/crowdCount'', se_dumps env (crowd_count_json stop_id cnt ts), 1, False)"

definition published :: "(string \<times> bytes \<times> int \<times> bool) list \<Rightarrow> 'g orchestrator \<Rightarrow> 'g orchestrator" where
  "published msgs self =
     self\<lparr>or_published := or_published self @ msgs, or_pub_count := or_pub_count self + int (length msgs)\<rparr>"

text \<open>
  The clocks of the backfill: the wall clock at its start, for the messages and for the simulated
  hour, and the monotonic clock: at the start, after the \<open>i\<close>-th stop has been seeded and
  published, and after \<open>time.sleep(d)\<close> for the \<open>i\<close>-th stop, by what it was before.
\<close>

record fill_clock =
  fc_time :: pyfloat
  fc_hour :: pyfloat
  fc_mono :: pyfloat
  fc_seeded :: "nat \<Rightarrow> pyfloat \<Rightarrow> pyfloat"
  fc_sleep :: "nat \<Rightarrow> pyfloat \<Rightarrow> pyfloat \<Rightarrow> pyfloat"

text \<open>\<open>backfill\<close>: every stop gets an initial count, all with the time at the start, with a pause after each.\<close>

fun seed_entries ::
    "'g sim_env \<Rightarrow> fill_clock \<Rightarrow> pyfloat \<Rightarrow> nat \<Rightarrow> stop_entry list \<Rightarrow> pyfloat \<Rightarrow> 'g \<Rightarrow>
     stop_entry list \<times> (string \<times> bytes \<times> int \<times> bool) list \<times> pyfloat \<times> 'g" where
  "seed_entries env clk sim_hour i [] tm g = ([], [], tm, g)"
| "seed_entries env clk sim_hour i (e # es) tm g =
     (let (sim, g) = seed_initial env sim_hour (en_sim e) g;
          tm = fc_sleep clk i backfill_stagger (fc_seeded clk i tm);
          (es, msgs, tm, g) = seed_entries env clk sim_hour (i + 1) es tm g
      in (e\<lparr>en_sim := sim\<rparr> # es, crowd_count_message env (si_stop_id sim) (si_count sim) (fc_time clk) # msgs, tm, g))"

text \<open>The number published, and the monotonic clock when it returns.\<close>

definition backfill :: "'g sim_env \<Rightarrow> fill_clock \<Rightarrow> 'g orchestrator \<Rightarrow> int \<times> pyfloat \<times> 'g orchestrator" where
  "backfill env clk self =
     (case seed_entries env clk (sim_hour_at env (fc_hour clk) self) 0 (or_stops self) (fc_mono clk) (or_rng self) of
        (es, msgs, tm, g) \<Rightarrow> (int (length msgs), tm, published msgs (self\<lparr>or_stops := es, or_rng := g\<rparr>)))"

text \<open>
  The clocks of a pass: monotonic at its start, wall clock for the simulated hour,
  monotonic and wall clock at the tick of each stop, monotonic before sleeping.
\<close>

record pass =
  ps_mono :: pyfloat
  ps_time :: pyfloat
  ps_tick :: "nat \<Rightarrow> pyfloat"
  ps_stamp :: "nat \<Rightarrow> pyfloat"
  ps_before_sleep :: pyfloat

definition due :: "pass \<Rightarrow> stop_entry \<Rightarrow> bool" where
  "due p e \<longleftrightarrow> en_next_publish e \<le> ps_mono p"

text \<open>The due stops in order; what is due does not change on the way, as a tick leaves the other stops alone.\<close>

fun run_entries ::
    "'g sim_env \<Rightarrow> pass \<Rightarrow> pyfloat \<Rightarrow> nat \<Rightarrow> stop_entry list \<Rightarrow> 'g \<Rightarrow>
     stop_entry list \<times> (string \<times> bytes \<times> int \<times> bool) list \<times> 'g" where
  "run_entries env p sim_hour i [] g = ([], [], g)"
| "run_entries env p sim_hour i (e # es) g =
     (if due p e
      then let (sim, g) = sim_tick env (ps_tick p i) sim_hour (en_sim e) g;
               (es, msgs, g) = run_entries env p sim_hour (i + 1) es g
           in (e\<lparr>en_sim := sim, en_next_publish := fadd (ps_mono p) (en_interval e)\<rparr> # es,
               crowd_count_message env (si_stop_id sim) (si_count sim) (ps_stamp p i) # msgs, g)
      else let (es, msgs, g) = run_entries env p sim_hour (i + 1) es g in (e # es, msgs, g))"

text \<open>The seconds slept, if any; \<open>min\<close> of no stops raises.\<close>

definition run_once :: "'g sim_env \<Rightarrow> pass \<Rightarrow> 'g orchestrator \<Rightarrow> pyfloat option result \<times> 'g orchestrator" where
  "run_once env p self =
     (case run_entries env p (sim_hour_at env (ps_time p) self) 0 (or_stops self) (or_rng self) of (es, msgs, g) \<Rightarrow>
       let stops = or_stops self; self = published msgs (self\<lparr>or_stops := es, or_rng := g\<rparr>)
       in (if \<exists>e \<in> set stops. due p e then Inr None
           else case map en_next_publish es of
                  [] \<Rightarrow> Inl ValueError
                | t # ts \<Rightarrow> Inr (Some (max (fl (1 / 100)) (fsub (foldl min t ts) (ps_before_sleep p)))), self))"

text \<open>The summary that \<open>log_stats\<close> writes: number, average, busiest and quietest stop, published.\<close>

definition log_stats :: "'g orchestrator \<Rightarrow> (nat \<times> pyfloat \<times> (int \<times> string) \<times> (int \<times> string) \<times> int) option" where
  "log_stats self =
     (let counts = map (\<lambda>e. si_count (en_sim e)) (or_stops self);
          shown = (\<lambda>e. (si_count (en_sim e), si_stop_id (en_sim e)))
      in case (max_by (\<lambda>e. si_count (en_sim e)) (or_stops self), max_by (\<lambda>e. - si_count (en_sim e)) (or_stops self)) of
           (Inr hi_entry, Inr lo_entry) \<Rightarrow>
             Some (length counts, py_truediv (sum_list counts) (int (length counts)), shown hi_entry, shown lo_entry, or_pub_count self)
         | _ \<Rightarrow> None)"

subsection \<open>\<open>main.py\<close>\<close>

definition status_messages :: "'g sim_env \<Rightarrow> string list \<Rightarrow> bool \<Rightarrow> (string \<times> bytes \<times> int \<times> bool) list" where
  "status_messages env sids online =
     map (\<lambda>sid. (''edge/'' @ sid @ ''/status'', se_dumps env (JObj [(''online'', JBool online)]), 1, True)) sids"

text \<open>\<open>_publish_status\<close> uses the client only, the counter of the orchestrator stays.\<close>

definition publish_status :: "'g sim_env \<Rightarrow> bool \<Rightarrow> 'g orchestrator \<Rightarrow> 'g orchestrator" where
  "publish_status env online self =
     self\<lparr>or_published := or_published self @ status_messages env (stop_ids self) online\<rparr>"

text \<open>
  The loop: the passes run before a signal is seen, each with the clock after it; \<open>last_stats\<close>
  is the time of the last summary.  An exception of a pass leaves the loop.
\<close>

fun main_loop ::
    "'g sim_env \<Rightarrow> (pass \<times> pyfloat) list \<Rightarrow> pyfloat \<Rightarrow> 'g orchestrator \<Rightarrow> unit result \<times> 'g orchestrator" where
  "main_loop env [] last_stats self = (Inr (), self)"
| "main_loop env ((p, now) # ps) last_stats self =
     (case run_once env p self of
        (Inl e, self) \<Rightarrow> (Inl e, self)
      | (Inr _, self) \<Rightarrow>
          main_loop env ps (if stats_log_interval \<le> fsub now last_stats then now else last_stats) self)"

text \<open>\<open>main\<close> after the connection: status, backfill, loop, and the \<open>finally\<close> part.\<close>

definition simulator_main ::
    "'g sim_env \<Rightarrow> build_clock \<Rightarrow> sim_route list \<Rightarrow> 'g \<Rightarrow> fill_clock \<Rightarrow> pyfloat \<Rightarrow> (pass \<times> pyfloat) list \<Rightarrow>
     unit result \<times> 'g orchestrator" where
  "simulator_main env clk routes g fill last_stats ps =
     (let self = publish_status env True (new_orchestrator env clk routes g);
          self = snd (snd (backfill env fill self));
          (r, self) = main_loop env ps last_stats self
      in (r, publish_status env False self))"

end
