(* ===== verification/Simulator_Properties.thy ===== *)
theory Simulator_Properties
  imports Simulator Edge_Properties Float_Error
begin

text \<open>
  Properties of the simulator: the demand curve stays between \<open>1/16\<close> and one, the stops built
  are those of all routes, once each; counts are bounded, stops publish every 15 to 20
  seconds, counts reach the tables of the backend, and what the end of a run publishes.
\<close>

subsection \<open>The demand curve\<close>

text \<open>The ends of a segment, as the interpolation computes them, are within the bounds.\<close>

fun curve_within :: "pyfloat \<Rightarrow> pyfloat \<Rightarrow> (pyfloat \<times> pyfloat) list \<Rightarrow> bool" where
  "curve_within lo hi ((h0, m0) # (h1, m1) # curve) =
     (lo \<le> m0 \<and> m0 \<le> hi \<and> fl m0 = m0 \<and> lo \<le> fadd m0 (fsub m1 m0) \<and> fadd m0 (fsub m1 m0) \<le> hi \<and>
      curve_within lo hi ((h1, m1) # curve))"
| "curve_within lo hi _ = True"

lemma fsub_mono: "a \<le> b \<Longrightarrow> fsub a c \<le> fsub b c"
  unfolding fsub_def by (intro fl_mono) simp

lemma fsub_nonneg: "b \<le> a \<Longrightarrow> 0 \<le> fsub a b"
  unfolding fsub_def by (intro fl_nonneg) simp

lemma fdiv_fraction: "0 \<le> a \<Longrightarrow> a \<le> b \<Longrightarrow> 0 \<le> fdiv a b \<and> fdiv a b \<le> 1"
  unfolding fdiv_def by (auto intro!: fl_nonneg binary64.rnd_le_one simp: divide_le_eq)

text \<open>A part \<open>t\<close> of a rounded difference lies between zero and the difference.\<close>

lemma fmul_between:
  assumes "0 \<le> t" "t \<le> 1" "fl d = d"
  shows "min 0 d \<le> fmul t d \<and> fmul t d \<le> max 0 d"
proof (cases "0 \<le> d")
  case True
  then have "t * d \<le> d" "0 \<le> t * d" using assms by (auto simp: mult_left_le_one_le)
  then show ?thesis using True assms(3) fl_mono [of "t * d" d] fl_nonneg [of "t * d"] by (simp add: fmul_def)
next
  case False
  then have "t * d \<le> 0" "d \<le> t * d"
    using assms mult_left_mono_neg [of t 1 d] by (auto simp: mult_nonneg_nonpos)
  then show ?thesis using False assms(3) fl_mono [of d "t * d"] fl_mono [of "t * d" 0] by (simp add: fmul_def)
qed

lemma interpolate_within:
  assumes "curve_within lo hi curve" "lo \<le> last_m" "last_m \<le> hi"
  shows "lo \<le> interpolate last_m hour curve \<and> interpolate last_m hour curve \<le> hi"
  using assms
proof (induction last_m hour curve rule: interpolate.induct)
  case (1 last_m hour h0 m0 h1 m1 curve)
  show ?case
  proof (cases "h0 \<le> hour \<and> hour < h1")
    case True
    define t where "t = fdiv (fsub hour h0) (fsub h1 h0)"
    have "0 \<le> t" "t \<le> 1"
      unfolding t_def using True fdiv_fraction [of "fsub hour h0" "fsub h1 h0"] fsub_nonneg [of h0 hour] fsub_mono [of hour h1 h0]
      by auto
    moreover have "fl (fsub m1 m0) = fsub m1 m0" by (simp add: fsub_def fl_idem)
    ultimately have "min 0 (fsub m1 m0) \<le> fmul t (fsub m1 m0)" "fmul t (fsub m1 m0) \<le> max 0 (fsub m1 m0)"
      using fmul_between [of t "fsub m1 m0"] by blast+
    then have "min (fl m0) (fadd m0 (fsub m1 m0)) \<le> fadd m0 (fmul t (fsub m1 m0))"
        "fadd m0 (fmul t (fsub m1 m0)) \<le> max (fl m0) (fadd m0 (fsub m1 m0))"
      using fl_mono [of m0 "m0 + fmul t (fsub m1 m0)"] fl_mono [of "m0 + fsub m1 m0" "m0 + fmul t (fsub m1 m0)"]
        fl_mono [of "m0 + fmul t (fsub m1 m0)" m0] fl_mono [of "m0 + fmul t (fsub m1 m0)" "m0 + fsub m1 m0"]
      by (auto simp: fadd_def min_def max_def split: if_splits)
    then show ?thesis using True "1.prems" by (auto simp: t_def [symmetric] Let_def min_def max_def split: if_splits)
  next
    case False
    then show ?thesis using 1 by auto
  qed
qed simp_all

lemma levels:
  "fl (1 / 10) = 3602879701896397 / 36028797018963968" "fl (1 / 5) = 3602879701896397 / 18014398509481984"
  "fl (2 / 5) = 3602879701896397 / 9007199254740992" "fl (3 / 5) = 5404319552844595 / 9007199254740992"
  by (simp_all add: fl_eval)

lemma level_fixed:
  "fl (3602879701896397 / 36028797018963968) = 3602879701896397 / 36028797018963968"
  "fl (3602879701896397 / 18014398509481984) = 3602879701896397 / 18014398509481984"
  "fl (3602879701896397 / 9007199254740992) = 3602879701896397 / 9007199254740992"
  "fl (5404319552844595 / 9007199254740992) = 5404319552844595 / 9007199254740992" "fl 1 = 1" "fl (1 / 2) = 1 / 2"
  using fl_idem [of "1 / 10"] fl_idem [of "1 / 5"] fl_idem [of "2 / 5"] fl_idem [of "3 / 5"]
    fl_representable [of 1 0] fl_representable [of 1 "- 1"]
  unfolding levels by (simp_all add: pow2_def)

text \<open>The only difference of two levels that is rounded.\<close>

lemma level_steps:
  "fl (10808639105689191 / 36028797018963968) = 1351079888211149 / 4503599627370496"
  "fl (7205759403792793 / 18014398509481984) = 7205759403792793 / 18014398509481984"
  "fl (900719925474099 / 9007199254740992) = 900719925474099 / 9007199254740992"
  by (simp_all add: fl_eval)

lemma demand_curve_within: "curve_within (1 / 16) 1 demand_curve" "snd (last demand_curve) = fl (1 / 10)"
  by (simp_all add: demand_curve_def levels level_fixed level_steps fl_minus fsub_def fadd_def)

lemma demand_within: "1 / 16 \<le> time_of_day_multiplier hour \<and> time_of_day_multiplier hour \<le> 1"
proof -
  have "1 / 16 \<le> fl (1 / 10)" "fl (1 / 10) \<le> 1" by (simp_all add: fl_eval)
  then show ?thesis
    unfolding time_of_day_multiplier_def using interpolate_within [OF demand_curve_within(1)] by (simp add: demand_curve_within(2))
qed

subsection \<open>The stops built\<close>

definition all_stop_ids :: "sim_route list \<Rightarrow> string list" where
  "all_stop_ids routes = concat (map sr_stop_ids routes)"

text \<open>The draws that \<open>random\<close> makes lie between zero and one.\<close>

definition draws_fair :: "'g sim_env \<Rightarrow> bool" where
  "draws_fair env \<longleftrightarrow> (\<forall>g. 0 \<le> fst (se_random env g) \<and> fst (se_random env g) \<le> 1)"

lemma fair_draw: "draws_fair env \<Longrightarrow> se_random env g = (u, g') \<Longrightarrow> 0 \<le> u \<and> u \<le> 1"
  by (metis draws_fair_def fst_conv)

lemma uniform_interval:
  assumes "draws_fair env"
  shows "15 \<le> fst (uniform env publish_interval_min publish_interval_max g) \<and>
    fst (uniform env publish_interval_min publish_interval_max g) \<le> 20"
proof -
  obtain u g' where u: "se_random env g = (u, g')" by force
  have five: "fl 5 = 5" using fl_of_int [of 5] by simp
  have "0 \<le> fmul 5 u" "fmul 5 u \<le> 5"
    using fair_draw [OF assms u] fl_mono [of "5 * u" 5] fl_nonneg [of "5 * u"] five by (simp_all add: fmul_def)
  then have "15 \<le> fadd 15 (fmul 5 u)" "fadd 15 (fmul 5 u) \<le> 20"
    using binary64.rnd_ge_int [of 15 "15 + fmul 5 u"] binary64.rnd_le_int [of "15 + fmul 5 u" 20] by (simp_all add: fadd_def)
  then show ?thesis
    by (simp add: uniform_def u publish_interval_min_def publish_interval_max_def fsub_def five)
qed

text \<open>What holds of a stop of the simulator from its construction on.\<close>

definition stop_ok :: "sim_route list \<Rightarrow> stop_entry \<Rightarrow> bool" where
  "stop_ok routes e \<longleftrightarrow>
     si_stop_id (en_sim e) \<in> set (all_stop_ids routes) \<and>
     si_route_mult (en_sim e) = route_multiplier (int (count_list (all_stop_ids routes) (si_stop_id (en_sim e)))) \<and>
     base_cap_min \<le> si_base_cap (en_sim e) \<and> si_base_cap (en_sim e) \<le> base_cap_max \<and>
     15 \<le> en_interval e \<and> en_interval e \<le> 20"

lemma stop_ok_next_publish [simp]: "stop_ok routes (e\<lparr>en_next_publish := t\<rparr>) = stop_ok routes e"
  by (simp add: stop_ok_def)

lemma base_cap_range: "base_cap_min \<le> base_cap_for_stop env sid \<and> base_cap_for_stop env sid \<le> base_cap_max"
  by (simp add: base_cap_for_stop_def base_cap_min_def base_cap_max_def Let_def)

lemma count_list_filter: "count_list xs x = length (filter (\<lambda>y. y = x) xs)"
  by (induction xs) auto

lemma stop_counts_get:
  "dict_get (stop_counts routes) sid =
     (if sid \<in> set (all_stop_ids routes) then Some (int (count_list (all_stop_ids routes) sid)) else None)"
proof -
  have "foldl (\<lambda>v x. Some ((case v of None \<Rightarrow> 0 | Some n \<Rightarrow> n) + 1)) v xs =
      (if xs = [] then v else Some ((case v of None \<Rightarrow> 0 | Some n \<Rightarrow> n) + int (length xs)))" for v and xs :: "string list"
    by (induction xs arbitrary: v) (auto split: option.split)
  then have "dict_get (stop_counts routes) sid =
      (let xs = filter (\<lambda>x. x = sid) (all_stop_ids routes) in if xs = [] then None else Some (int (length xs)))"
    using dict.get_updates [where key = "\<lambda>x. x" and upd = "\<lambda>v x. (case v of None \<Rightarrow> 0 | Some n \<Rightarrow> n) + (1 :: int)",
        of "[]" "all_stop_ids routes" sid]
    unfolding stop_counts_def all_stop_ids_def Let_def by (simp only: dict_get_def map_of.simps option.case add_0)
  then show ?thesis by (auto simp: count_list_filter filter_empty_conv)
qed

lemma route_multipliers_get:
  "dict_get (build_route_multipliers routes) sid =
     (if sid \<in> set (all_stop_ids routes) then Some (route_multiplier (int (count_list (all_stop_ids routes) sid))) else None)"
  using stop_counts_get [of routes sid] by (simp add: build_route_multipliers_def dict_get_def map_of_map)

text \<open>The first occurrences, in their order.\<close>

definition add_new :: "string list \<Rightarrow> string \<Rightarrow> string list" where
  "add_new seen sid = (if sid \<in> set seen then seen else seen @ [sid])"

lemma add_new_simps [simp]:
  "sid \<in> set seen \<Longrightarrow> add_new seen sid = seen" "sid \<notin> set seen \<Longrightarrow> add_new seen sid = seen @ [sid]"
  by (simp_all add: add_new_def)

lemma add_new_remdups: "foldl add_new [] xs = rev (remdups (rev xs))"
  by (induction xs rule: rev_induct) (auto simp: add_new_def)

lemma build_route_stops:
  assumes "draws_fair env" "mults = build_route_multipliers routes" "set sids \<subseteq> set (all_stop_ids routes)"
    "seen = map (\<lambda>e. si_stop_id (en_sim e)) entries" "\<forall>e \<in> set entries. stop_ok routes e"
    "build_route env mults headway n clk idx sids (seen, entries, g) = (seen', entries', g')"
  shows "seen' = foldl add_new seen sids \<and> map (\<lambda>e. si_stop_id (en_sim e)) entries' = seen' \<and> (\<forall>e \<in> set entries'. stop_ok routes e)"
  using assms(3-6)
proof (induction sids arbitrary: idx seen entries g)
  case (Cons sid sids)
  show ?case
  proof (cases "sid \<in> set seen")
    case True
    then show ?thesis using Cons.IH [of seen entries "idx + 1" g] Cons.prems by simp
  next
    case False
    obtain interval g1 where u: "uniform env publish_interval_min publish_interval_max g = (interval, g1)" by force
    define m where "m = (case dict_get mults sid of None \<Rightarrow> 1 | Some m \<Rightarrow> m)"
    obtain sim g2 where b: "new_stop_simulator env (clk idx) sid (position_weight env idx n) m (base_cap_for_stop env sid) headway g1 = (sim, g2)"
      by force
    have m: "m = route_multiplier (int (count_list (all_stop_ids routes) sid))"
      unfolding m_def assms(2) using Cons.prems(1) by (simp add: route_multipliers_get)
    have sim: "si_stop_id sim = sid" "si_route_mult sim = m" "si_base_cap sim = base_cap_for_stop env sid"
      using b by (auto simp: new_stop_simulator_def split: prod.splits)
    let ?e = "\<lparr>en_sim = sim, en_next_publish = 0, en_interval = interval\<rparr>"
    have "stop_ok routes ?e"
      using uniform_interval [OF assms(1), of g] u sim m base_cap_range [of env sid] Cons.prems(1) by (simp add: stop_ok_def)
    moreover have "build_route env mults headway n clk (idx + 1) sids (seen @ [sid], entries @ [?e], g2) = (seen', entries', g')"
      using Cons.prems(4) False by (simp add: u m_def [symmetric] b)
    ultimately show ?thesis
      using Cons.IH [of "seen @ [sid]" "entries @ [?e]" "idx + 1" g2] Cons.prems(1-3) False sim by simp
  qed
qed simp

lemma build_routes_stops:
  assumes "draws_fair env" "mults = build_route_multipliers routes" "set (all_stop_ids rs) \<subseteq> set (all_stop_ids routes)"
    "seen = map (\<lambda>e. si_stop_id (en_sim e)) entries" "\<forall>e \<in> set entries. stop_ok routes e"
    "build_routes env mults clk r rs (seen, entries, g) = (seen', entries', g')"
  shows "seen' = foldl add_new seen (all_stop_ids rs) \<and> map (\<lambda>e. si_stop_id (en_sim e)) entries' = seen' \<and>
    (\<forall>e \<in> set entries'. stop_ok routes e)"
  using assms(3-6)
proof (induction rs arbitrary: r seen entries g)
  case (Cons route rs)
  obtain seen1 entries1 g1 where b: "build_route env mults (fmul (py_float (sr_headway_minutes route)) 60) (length (sr_stop_ids route))
      (clk r) 0 (sr_stop_ids route) (seen, entries, g) = (seen1, entries1, g1)" by (metis prod_cases3)
  have "set (sr_stop_ids route) \<subseteq> set (all_stop_ids routes)" "set (all_stop_ids rs) \<subseteq> set (all_stop_ids routes)"
    using Cons.prems(1) by (auto simp: all_stop_ids_def)
  note 1 = build_route_stops [OF assms(1,2) this(1) Cons.prems(2,3) b] and 2 = this(2)
  show ?case
    using Cons.IH [OF 2, of seen1 entries1 "r + 1" g1] 1 Cons.prems(4) b by (simp add: all_stop_ids_def)
qed (simp add: all_stop_ids_def)

lemma stagger_simps:
  "length (stagger now es) = length es"
  "map (\<lambda>e. si_stop_id (en_sim e)) (stagger now es) = map (\<lambda>e. si_stop_id (en_sim e)) es"
  by (simp_all add: stagger_def Let_def) (rule nth_equalityI; simp)

lemma stagger_nth:
  "i < length es \<Longrightarrow> stagger now es ! i = (es ! i)\<lparr>en_next_publish :=
     fadd now (fmul (py_float (int i)) (fdiv publish_interval_min (py_float (int (length es)))))\<rparr>"
  by (simp add: stagger_def Let_def)

lemma stagger_ok: "\<forall>e \<in> set es. stop_ok routes e \<Longrightarrow> \<forall>e \<in> set (stagger now es). stop_ok routes e"
  by (force simp: in_set_conv_nth [of _ "stagger now es"] stagger_simps stagger_nth)

lemma new_orchestrator_stops:
  assumes "draws_fair env"
  shows "stop_ids (new_orchestrator env clk routes g) = rev (remdups (rev (all_stop_ids routes))) \<and>
    (\<forall>e \<in> set (or_stops (new_orchestrator env clk routes g)). stop_ok routes e)"
proof -
  obtain seen entries g' where b: "build_routes env (build_route_multipliers routes) (bc_mono clk) 0 routes ([], [], g) = (seen, entries, g')"
    by (metis prod_cases3)
  note build_routes_stops [OF assms refl subset_refl _ _ b, unfolded add_new_remdups]
  then show ?thesis
    using stagger_ok [of entries routes "bc_built clk"] stagger_simps(2) [of "bc_built clk" entries]
    by (simp add: new_orchestrator_def b stop_ids_def)
qed

subsection \<open>Passes\<close>

text \<open>Nothing but the count and the two times of a stop ever changes.\<close>

definition same_stop :: "stop_entry \<Rightarrow> stop_entry \<Rightarrow> bool" where
  "same_stop e e' \<longleftrightarrow> en_interval e' = en_interval e \<and> si_stop_id (en_sim e') = si_stop_id (en_sim e) \<and>
     si_route_mult (en_sim e') = si_route_mult (en_sim e) \<and> si_base_cap (en_sim e') = si_base_cap (en_sim e)"

lemma same_stop_ok: "same_stop e e' \<Longrightarrow> stop_ok routes e' = stop_ok routes e"
  by (simp add: same_stop_def stop_ok_def)

lemma seed_initial_same:
  "seed_initial env h sim g = (sim', g') \<Longrightarrow> same_stop e (e\<lparr>en_sim := sim'\<rparr>) \<longleftrightarrow> same_stop e (e\<lparr>en_sim := sim\<rparr>)"
  by (auto simp: seed_initial_def same_stop_def split: prod.splits)

lemma tick_same:
  assumes "sim_tick env now h sim g = (sim', g')"
  shows "si_stop_id sim' = si_stop_id sim \<and> si_route_mult sim' = si_route_mult sim \<and> si_base_cap sim' = si_base_cap sim \<and>
    0 \<le> si_count sim' \<and> si_count sim' \<le> max 0 (hard_cap sim)"
proof -
  obtain s1 g1 where v: "vehicle_dip env now sim g = (s1, g1)" by force
  have "si_stop_id s1 = si_stop_id sim" "si_route_mult s1 = si_route_mult sim" "si_base_cap s1 = si_base_cap sim"
    using v by (auto simp: vehicle_dip_def split: if_splits prod.splits)
  then show ?thesis
    using assms by (auto simp: sim_tick_def v clamp_def hard_cap_def Let_def split: prod.splits)
qed

text \<open>What a pass makes of one stop.\<close>

definition pass_step :: "pass \<Rightarrow> stop_entry \<Rightarrow> stop_entry \<Rightarrow> bool" where
  "pass_step p e e' \<longleftrightarrow> same_stop e e' \<and>
     (if due p e then en_next_publish e' = fadd (ps_mono p) (en_interval e) \<and> 0 \<le> si_count (en_sim e') \<and>
        si_count (en_sim e') \<le> max 0 (hard_cap (en_sim e))
      else e' = e)"

text \<open>The message about a stop after its tick.\<close>

definition count_message :: "'g sim_env \<Rightarrow> stop_entry \<Rightarrow> string \<times> bytes \<times> int \<times> bool \<Rightarrow> bool" where
  "count_message env e m \<longleftrightarrow> (\<exists>ts. m = crowd_count_message env (si_stop_id (en_sim e)) (si_count (en_sim e)) ts)"

lemma same_stop_refl [simp]: "same_stop e e"
  by (simp add: same_stop_def)

lemma run_entries_steps:
  assumes "run_entries env p h i es g = (es', msgs, g')"
  shows "list_all2 (pass_step p) es es' \<and>
    list_all2 (count_message env) (map snd (filter (\<lambda>(e, e'). due p e) (zip es es'))) msgs"
  using assms
proof (induction env p h i es g arbitrary: es' msgs g' rule: run_entries.induct)
  case (2 env p h i e es g)
  show ?case
  proof (cases "due p e")
    case True
    obtain sim g1 where t: "sim_tick env (ps_tick p i) h (en_sim e) g = (sim, g1)" by force
    obtain es1 msgs1 g2 where r: "run_entries env p h (i + 1) es g1 = (es1, msgs1, g2)" by (metis prod_cases3)
    have "pass_step p e (e\<lparr>en_sim := sim, en_next_publish := fadd (ps_mono p) (en_interval e)\<rparr>)"
      using tick_same [OF t] True by (simp add: pass_step_def same_stop_def)
    then show ?thesis
      using "2.IH"(1) [OF True t [symmetric] refl r] "2.prems" True t r by (auto simp: count_message_def)
  next
    case False
    obtain es1 msgs1 g2 where r: "run_entries env p h (i + 1) es g = (es1, msgs1, g2)" by (metis prod_cases3)
    moreover have "pass_step p e e" using False by (simp add: pass_step_def)
    ultimately show ?thesis using "2.IH"(2) [OF False r] "2.prems" False by auto
  qed
qed auto

lemma run_once_steps:
  assumes "run_once env p self = (r, self')"
  shows "list_all2 (pass_step p) (or_stops self) (or_stops self') \<and>
    (\<exists>msgs. or_published self' = or_published self @ msgs \<and> or_pub_count self' = or_pub_count self + int (length msgs) \<and>
       list_all2 (count_message env) (map snd (filter (\<lambda>(e, e'). due p e) (zip (or_stops self) (or_stops self')))) msgs)"
proof -
  obtain es msgs g where e: "run_entries env p (sim_hour_at env (ps_time p) self) 0 (or_stops self) (or_rng self) = (es, msgs, g)"
    by (metis prod_cases3)
  then show ?thesis using run_entries_steps [OF e] assms by (auto simp: run_once_def published_def Let_def)
qed

lemma run_once_nth:
  assumes "i < length (or_stops self)"
  shows "length (or_stops (snd (run_once env p self))) = length (or_stops self)"
    and "pass_step p (or_stops self ! i) (or_stops (snd (run_once env p self)) ! i)"
proof -
  obtain r self' where r: "run_once env p self = (r, self')" by force
  from run_once_steps [OF r] have l: "list_all2 (pass_step p) (or_stops self) (or_stops self')" by blast
  show "length (or_stops (snd (run_once env p self))) = length (or_stops self)" using list_all2_lengthD [OF l] r by simp
  show "pass_step p (or_stops self ! i) (or_stops (snd (run_once env p self)) ! i)"
    using list_all2_nthD [OF l assms] r by simp
qed

lemma seed_entries_steps:
  assumes "seed_entries env clk h i es tm g = (es', msgs, tm', g')"
  shows "list_all2 (\<lambda>e e'. same_stop e e' \<and> en_next_publish e' = en_next_publish e) es es' \<and>
    list_all2 (count_message env) es' msgs"
  using assms
proof (induction env clk h i es tm g arbitrary: es' msgs tm' g' rule: seed_entries.induct)
  case (2 env clk h i e es tm g)
  obtain sim g1 where t: "seed_initial env h (en_sim e) g = (sim, g1)" by force
  obtain es1 msgs1 tm1 g2 where
      r: "seed_entries env clk h (i + 1) es (fc_sleep clk i backfill_stagger (fc_seeded clk i tm)) g1 = (es1, msgs1, tm1, g2)"
    by (metis prod_cases4)
  have "same_stop e (e\<lparr>en_sim := sim\<rparr>)" using seed_initial_same [OF t] by simp
  then show ?case
    using "2.IH" [OF t [symmetric] refl refl r] "2.prems" t r by (auto simp: count_message_def)
qed auto

lemma backfill_steps:
  assumes "backfill env clk self = (n, tm, self')"
  shows "list_all2 (\<lambda>e e'. same_stop e e' \<and> en_next_publish e' = en_next_publish e) (or_stops self) (or_stops self') \<and>
    (\<exists>msgs. or_published self' = or_published self @ msgs \<and> list_all2 (count_message env) (or_stops self') msgs)"
proof -
  obtain es msgs tm' g where
      e: "seed_entries env clk (sim_hour_at env (fc_hour clk) self) 0 (or_stops self) (fc_mono clk) (or_rng self) = (es, msgs, tm', g)"
    by (metis prod_cases4)
  then show ?thesis using seed_entries_steps [OF e] assms by (auto simp: backfill_def published_def)
qed

subsection \<open>Reachable states\<close>

inductive sim_reachable :: "'g sim_env \<Rightarrow> sim_route list \<Rightarrow> 'g orchestrator \<Rightarrow> bool" for env routes where
  built: "sim_reachable env routes (new_orchestrator env clk routes g)"
| status: "sim_reachable env routes self \<Longrightarrow> sim_reachable env routes (publish_status env online self)"
| filled: "sim_reachable env routes self \<Longrightarrow> sim_reachable env routes (snd (snd (backfill env fill self)))"
| passed: "sim_reachable env routes self \<Longrightarrow> sim_reachable env routes (snd (run_once env p self))"

lemma steps_ok:
  assumes "list_all2 R es es'" "\<And>e e'. R e e' \<Longrightarrow> same_stop e e'" "\<forall>e \<in> set es. stop_ok routes e"
  shows "\<forall>e \<in> set es'. stop_ok routes e"
  using assms(1,3) by (induction rule: list_all2_induct) (auto dest: assms(2) same_stop_ok)

lemma steps_ids:
  assumes "list_all2 R es es'" "\<And>e e'. R e e' \<Longrightarrow> same_stop e e'"
  shows "map (\<lambda>e. si_stop_id (en_sim e)) es' = map (\<lambda>e. si_stop_id (en_sim e)) es"
  using assms(1) by (induction rule: list_all2_induct) (auto dest!: assms(2) simp: same_stop_def)

lemma reachable_stops:
  assumes "sim_reachable env routes self" "draws_fair env"
  shows "stop_ids self = rev (remdups (rev (all_stop_ids routes))) \<and> (\<forall>e \<in> set (or_stops self). stop_ok routes e)"
  using assms
proof (induction rule: sim_reachable.induct)
  case (built clk g)
  then show ?case by (rule new_orchestrator_stops)
next
  case (status self online)
  then show ?case by (simp add: publish_status_def stop_ids_def)
next
  case (filled self fill)
  then show ?case
    using steps_ok [OF backfill_steps [THEN conjunct1], of env fill self _ _ "snd (snd (backfill env fill self))" routes]
      steps_ids [OF backfill_steps [THEN conjunct1], of env fill self _ _ "snd (snd (backfill env fill self))"]
    by (metis (no_types, lifting) prod.collapse stop_ids_def)
next
  case (passed self p)
  then show ?case
    using steps_ok [OF run_once_steps [THEN conjunct1], of env p self _ "snd (run_once env p self)" routes]
      steps_ids [OF run_once_steps [THEN conjunct1], of env p self _ "snd (run_once env p self)"]
    by (metis (no_types, lifting) pass_step_def prod.collapse stop_ids_def)
qed

subsection \<open>Counts\<close>

text \<open>The most people a stop on \<open>k\<close> lists of stops ever has: 60 when it is on three.\<close>

definition peak_count :: "nat \<Rightarrow> int" where
  "peak_count k = py_round (fmul (fmul (py_float base_cap_max) (route_multiplier (int k))) (5 / 2))"

lemma peak_count_three: "peak_count 3 = 60"
proof -
  have "fl (3 / 5) = 5404319552844595 / 9007199254740992" by (rule levels)
  moreover have "fl (3 / 10) = 5404319552844595 / 18014398509481984" "fl 2 = 2" "fl 15 = 15" by (simp_all add: fl_eval)
  moreover have "fl (5404319552844595 / 9007199254740992) = 5404319552844595 / 9007199254740992" by (rule level_fixed)
  ultimately show ?thesis
    by (simp add: peak_count_def route_multiplier_def base_cap_max_def py_float_def fmul_def fadd_def py_round_def) (simp add: fl_eval)
qed

lemma route_multiplier_nonneg: "1 \<le> cnt \<Longrightarrow> 0 \<le> route_multiplier cnt"
  unfolding route_multiplier_def by (intro fadd_nonneg fmul_nonneg py_float_nonneg fl_nonneg) simp_all

lemma py_float_mono: "m \<le> n \<Longrightarrow> py_float m \<le> py_float n"
  unfolding py_float_def by (intro fl_mono) simp

lemma stop_ok_cap:
  assumes "stop_ok routes e"
  shows "max 0 (hard_cap (en_sim e)) \<le> peak_count (count_list (all_stop_ids routes) (si_stop_id (en_sim e)))"
proof -
  let ?k = "count_list (all_stop_ids routes) (si_stop_id (en_sim e))"
  have "?k \<noteq> 0" using assms by (simp add: stop_ok_def count_list_0_iff)
  then have "1 \<le> int ?k" by linarith
  note m = route_multiplier_nonneg [OF this]
  have "fmul (fmul (py_float (si_base_cap (en_sim e))) (route_multiplier (int ?k))) (5 / 2) \<le>
      fmul (fmul (py_float base_cap_max) (route_multiplier (int ?k))) (5 / 2)"
    unfolding fmul_def using assms m py_float_mono [of "si_base_cap (en_sim e)" base_cap_max]
    by (intro fl_mono mult_right_mono) (auto simp: stop_ok_def)
  moreover have "0 \<le> fmul (fmul (py_float base_cap_max) (route_multiplier (int ?k))) (5 / 2)"
    using m by (intro fmul_nonneg py_float_nonneg) (simp_all add: base_cap_max_def)
  ultimately show ?thesis
    using assms unfolding peak_count_def hard_cap_def stop_ok_def by (simp add: py_round_mono py_round_nonneg)
qed

lemma list_all2_right: "list_all2 P xs ys \<Longrightarrow> y \<in> set ys \<Longrightarrow> \<exists>x \<in> set xs. P x y"
  by (induction rule: list_all2_induct) auto

lemma count_messages_bounded:
  assumes "list_all2 (pass_step p) es es'" "\<forall>e \<in> set es. stop_ok routes e"
    "list_all2 (count_message env) (map snd (filter (\<lambda>(e, e'). due p e) (zip es es'))) msgs" "m \<in> set msgs"
  shows "\<exists>sid n ts. m = crowd_count_message env sid n ts \<and> sid \<in> set (all_stop_ids routes) \<and>
    0 \<le> n \<and> n \<le> peak_count (count_list (all_stop_ids routes) sid)"
proof -
  obtain e e' where e: "(e, e') \<in> set (zip es es')" "due p e" "count_message env e' m"
    using list_all2_right [OF assms(3,4)] by auto
  have "pass_step p e e'" using assms(1) e(1) by (auto simp: list_all2_iff)
  moreover have "stop_ok routes e" using assms(2) set_zip_leftD [OF e(1)] by blast
  ultimately have "same_stop e e'" "stop_ok routes e'" "0 \<le> si_count (en_sim e')" "si_count (en_sim e') \<le> max 0 (hard_cap (en_sim e))"
    using e(2) by (auto simp: pass_step_def same_stop_ok)
  then show ?thesis
    using stop_ok_cap [of routes e] \<open>stop_ok routes e\<close> e(3) by (force simp: count_message_def stop_ok_def same_stop_def)
qed

text \<open>
  Simulated counts are bounded.  Whatever the clocks, the demand and the normal draws
  are, every message of a pass of a simulator that was built and run in any way is a count
  between zero and the peak of its stop, which is a stop of some route; a stop on three
  lists of stops, the most in the configured routes, never has more than 60 people.
\<close>

theorem simulated_counts_bounded:
  assumes "draws_fair env" "sim_reachable env routes self" "run_once env p self = (r, self')"
  shows "peak_count 3 = 60 \<and> (\<exists>msgs. or_published self' = or_published self @ msgs \<and>
    (\<forall>m \<in> set msgs. \<exists>sid n ts. m = crowd_count_message env sid n ts \<and> sid \<in> set (all_stop_ids routes) \<and>
       0 \<le> n \<and> n \<le> peak_count (count_list (all_stop_ids routes) sid)))"
  using run_once_steps [OF assms(3)] reachable_stops [OF assms(2,1)] count_messages_bounded peak_count_three by blast

definition example_sim_env :: "nat sim_env" where
  "example_sim_env =
     \<lparr>se_random = (\<lambda>g. (1 / 2, g + 1)), se_normal = (\<lambda>g. (0, g + 1)), se_sin = (\<lambda>_. 1), se_pi = 3, se_hash = (\<lambda>_. 12),
      se_dumps = (\<lambda>_. []), se_time_scale = 1\<rparr>"

definition example_routes :: "sim_route list" where
  "example_routes = replicate 3 \<lparr>sr_headway_minutes = 12, sr_stop_ids = [''d1'']\<rparr>"

definition example_build :: build_clock where
  "example_build = \<lparr>bc_mono = (\<lambda>_ _. 0), bc_built = 0, bc_time = 0, bc_local = (8, 0, 0)\<rparr>"

definition example_pass :: "int \<Rightarrow> pass" where
  "example_pass t = \<lparr>ps_mono = of_int t, ps_time = of_int t, ps_tick = (\<lambda>_. of_int t), ps_stamp = (\<lambda>_. of_int t), ps_before_sleep = of_int t\<rparr>"

abbreviation (input) example_simulator :: "nat orchestrator" where
  "example_simulator \<equiv> new_orchestrator example_sim_env example_build example_routes 0"

lemma example_pass_mono: "ps_mono (example_pass t) = of_int t"
  by (simp add: example_pass_def)

lemma example_fair: "draws_fair example_sim_env"
  by (simp add: draws_fair_def example_sim_env_def)

lemma example_stop_ids:
  "set (all_stop_ids example_routes) = {''d1''}" "count_list (all_stop_ids example_routes) ''d1'' = 3"
  by (simp_all add: all_stop_ids_def example_routes_def numeral_3_eq_3)

theorem simulated_counts_bounded_witness:
  "\<exists>msgs. or_published (snd (run_once example_sim_env (example_pass 20) example_simulator)) = or_published example_simulator @ msgs \<and>
     (\<forall>m \<in> set msgs. \<exists>n ts. m = crowd_count_message example_sim_env ''d1'' n ts \<and> 0 \<le> n \<and> n \<le> 60)"
proof -
  obtain r self' where r: "run_once example_sim_env (example_pass 20) example_simulator = (r, self')" by force
  obtain msgs where m: "or_published self' = or_published example_simulator @ msgs"
      "\<forall>m \<in> set msgs. \<exists>sid n ts. m = crowd_count_message example_sim_env sid n ts \<and> sid \<in> {''d1''} \<and>
         0 \<le> n \<and> n \<le> peak_count (count_list (all_stop_ids example_routes) sid)"
    using simulated_counts_bounded [OF example_fair sim_reachable.built r] unfolding example_stop_ids by blast
  then have "\<forall>m \<in> set msgs. \<exists>n ts. m = crowd_count_message example_sim_env ''d1'' n ts \<and> 0 \<le> n \<and> n \<le> 60"
    by (metis example_stop_ids(2) peak_count_three singletonD)
  then show ?thesis using m(1) r by auto
qed

subsection \<open>Times\<close>

definition run_passes :: "'g sim_env \<Rightarrow> pass list \<Rightarrow> 'g orchestrator \<Rightarrow> 'g orchestrator" where
  "run_passes env ps self = fold (\<lambda>p self. snd (run_once env p self)) ps self"

text \<open>The times at which the stop at index \<open>i\<close> publishes.\<close>

fun publish_times :: "'g sim_env \<Rightarrow> nat \<Rightarrow> pass list \<Rightarrow> 'g orchestrator \<Rightarrow> pyfloat list" where
  "publish_times env i [] self = []"
| "publish_times env i (p # ps) self =
     (if due p (or_stops self ! i) then [ps_mono p] else []) @ publish_times env i ps (snd (run_once env p self))"

lemma publish_times_snoc:
  "publish_times env i (ps @ [p]) self =
     publish_times env i ps self @ (if due p (or_stops (run_passes env ps self) ! i) then [ps_mono p] else [])"
  by (induction ps arbitrary: self) (simp_all add: run_passes_def)

lemma run_passes_snoc: "run_passes env (ps @ [p]) self = snd (run_once env p (run_passes env ps self))"
  by (simp add: run_passes_def)

lemma run_passes_entry:
  assumes "i < length (or_stops self)"
  shows "length (or_stops (run_passes env ps self)) = length (or_stops self) \<and>
    en_interval (or_stops (run_passes env ps self) ! i) = en_interval (or_stops self ! i) \<and>
    (publish_times env i ps self \<noteq> [] \<longrightarrow>
      en_next_publish (or_stops (run_passes env ps self) ! i) =
        fadd (last (publish_times env i ps self)) (en_interval (or_stops self ! i)))"
proof (induction ps rule: rev_induct)
  case (snoc p ps)
  let ?o = "run_passes env ps self"
  have i: "i < length (or_stops ?o)" using snoc assms by simp
  show ?case
    using run_once_nth [where env = env and p = p, OF i] snoc
    by (auto simp: run_passes_snoc publish_times_snoc pass_step_def same_stop_def split: if_splits)
qed (simp add: run_passes_def)

text \<open>
  The interval of a stop.  In a simulator run in any way, whatever the clock shows at
  its passes, two publications of a stop are at least 15 seconds apart, and the first pass
  20 seconds or more after a publication of the stop publishes it again.
\<close>

theorem stops_publish_in_time:
  assumes "draws_fair env" "sim_reachable env routes self" "i < length (or_stops self)"
  shows "successively (\<lambda>a b. fadd a 15 \<le> b) (publish_times env i ps self) \<and>
    (publish_times env i ps self \<noteq> [] \<and> fadd (last (publish_times env i ps self)) 20 \<le> ps_mono p \<longrightarrow>
       publish_times env i (ps @ [p]) self = publish_times env i ps self @ [ps_mono p])"
proof
  have iv: "15 \<le> en_interval (or_stops self ! i)" "en_interval (or_stops self ! i) \<le> 20"
    using reachable_stops [OF assms(2,1)] assms(3) by (auto simp: stop_ok_def)
  have tm: "fadd a 15 \<le> fadd a (en_interval (or_stops self ! i))" "fadd a (en_interval (or_stops self ! i)) \<le> fadd a 20" for a
    unfolding fadd_def using iv by (intro fl_mono; simp)+
  show "successively (\<lambda>a b. fadd a 15 \<le> b) (publish_times env i ps self)"
  proof (induction ps rule: rev_induct)
    case (snoc p ps)
    then show ?case
      using run_passes_entry [OF assms(3), of env ps] tm(1) [of "last (publish_times env i ps self)"]
      by (auto simp: publish_times_snoc successively_append_iff due_def)
  qed simp
  show "publish_times env i ps self \<noteq> [] \<and> fadd (last (publish_times env i ps self)) 20 \<le> ps_mono p \<longrightarrow>
      publish_times env i (ps @ [p]) self = publish_times env i ps self @ [ps_mono p]"
    using run_passes_entry [OF assms(3), of env ps] tm(2) [of "last (publish_times env i ps self)"]
    by (auto simp: publish_times_snoc due_def)
qed

lemma new_orchestrator_next:
  assumes "i < length (or_stops (new_orchestrator env clk routes g))"
  shows "en_next_publish (or_stops (new_orchestrator env clk routes g) ! i) =
    fadd (bc_built clk) (fmul (py_float (int i))
      (fdiv 15 (py_float (int (length (or_stops (new_orchestrator env clk routes g)))))))"
proof -
  obtain seen entries g' where "build_routes env (build_route_multipliers routes) (bc_mono clk) 0 routes ([], [], g) = (seen, entries, g')"
    by (metis prod_cases3)
  then show ?thesis
    using assms by (simp add: new_orchestrator_def stagger_nth stagger_simps publish_interval_min_def)
qed

lemma example_one_stop: "length (or_stops example_simulator) = 1"
proof -
  have "length (stop_ids example_simulator) = 1"
    using new_orchestrator_stops [OF example_fair, of example_build example_routes 0]
    by (simp add: all_stop_ids_def example_routes_def numeral_3_eq_3)
  then show ?thesis by (simp add: stop_ids_def)
qed

theorem stops_publish_in_time_witness:
  "publish_times example_sim_env 0 [example_pass 20, example_pass 40] example_simulator = [20, 40]"
proof -
  have i: "0 < length (or_stops example_simulator)" by (simp add: example_one_stop)
  have "fl 40 = 40" using fl_of_int [of 40] by simp
  moreover have "publish_times example_sim_env 0 [example_pass 20] example_simulator = [20]"
    using new_orchestrator_next [OF i] by (simp add: due_def example_pass_def example_build_def py_float_def fmul_def fadd_def)
  ultimately show ?thesis
    using stops_publish_in_time [OF example_fair sim_reachable.built i, of "[example_pass 20]" "example_pass 40"]
    by (simp add: fadd_def example_pass_mono del: publish_times.simps)
qed

lemma offsets_within:
  assumes "i < n" "n \<le> 2 ^ 40"
  shows "fmul (py_float (int i)) (fdiv 15 (py_float (int n))) \<le> 15"
proof -
  define x :: rat where "x = 15 / of_nat n"
  have n: "(0 :: rat) < of_nat n" "(of_nat n :: rat) \<le> 2 ^ 40"
    using assms of_nat_le_iff [of n "2 ^ 40", where ?'a = rat] by simp_all
  have x: "0 < x" "1 \<le> 2 ^ 40 * x" using n by (simp_all add: x_def field_simps)
  have "fl x \<le> x + eps * x + tiny" using fl_error [of x] x by (simp add: abs_le_iff)
  also have "\<dots> \<le> x + 2 * (eps * x)" using tiny_le [of x] x by simp
  finally have "fl x \<le> (1 + 2 * eps) * x" by (simp add: algebra_simps)
  then have "of_nat i * fl x \<le> of_nat i * ((1 + 2 * eps) * x)" by (intro mult_left_mono) simp_all
  also have "\<dots> \<le> (of_nat n - 1) * ((1 + 2 * eps) * x)"
  proof -
    have "of_nat (Suc i) \<le> (of_nat n :: rat)" using assms(1) of_nat_le_iff [of "Suc i" n] by (simp only: Suc_le_eq)
    then show ?thesis using x eps_pos by (intro mult_right_mono) simp_all
  qed
  also have "\<dots> = 15 * ((of_nat n - 1) * (1 + 2 * eps) / of_nat n)" by (simp add: x_def)
  also have "\<dots> \<le> 15 * 1"
  proof -
    have "(of_nat n - 1) * (1 + 2 * eps) \<le> (of_nat n :: rat)" using n by (simp add: eps_def field_simps)
    then show ?thesis using n by (intro mult_left_mono) (simp_all add: divide_le_eq)
  qed
  finally have "of_nat i * fl x \<le> of_int 15" by simp
  then have "fl (of_nat i * fl x) \<le> of_int 15" by (rule binary64.rnd_le_int) simp
  moreover have "py_float (int i) = of_nat i" "py_float (int n) = of_nat n"
    using assms py_float_exact [of "int i"] py_float_exact [of "int n"] by simp_all
  ultimately show ?thesis by (simp add: fmul_def fdiv_def x_def)
qed

lemma all_due_messages:
  assumes "list_all2 (pass_step p) es es'" "\<forall>e \<in> set es. due p e"
    "list_all2 (count_message env) (map snd (filter (\<lambda>(e, e'). due p e) (zip es es'))) msgs"
  shows "map fst msgs = map (\<lambda>e. ''edge/'' @ si_stop_id (en_sim e) @ ''/crowdCount'') es"
proof -
  have "filter (\<lambda>(e, e'). due p e) (zip es es') = zip es es'"
    using assms(2) by (auto simp: filter_id_conv dest: set_zip_leftD)
  then have "list_all2 (count_message env) es' msgs"
    using assms(1,3) by (simp add: list_all2_lengthD)
  then have "map fst msgs = map (\<lambda>e. ''edge/'' @ si_stop_id (en_sim e) @ ''/crowdCount'') es'"
    by (induction rule: list_all2_induct) (auto simp: count_message_def crowd_count_message_def)
  moreover have "map (\<lambda>e. si_stop_id (en_sim e)) es' = map (\<lambda>e. si_stop_id (en_sim e)) es"
    by (rule steps_ids [OF assms(1)]) (simp add: pass_step_def)
  moreover have "map (\<lambda>e. ''edge/'' @ si_stop_id (en_sim e) @ ''/crowdCount'') xs =
      map (\<lambda>sid. ''edge/'' @ sid @ ''/crowdCount'') (map (\<lambda>e. si_stop_id (en_sim e)) xs)" for xs :: "stop_entry list"
    by simp
  ultimately show ?thesis by (simp only:)
qed

lemma all_due_burst:
  assumes "self = snd (snd (backfill env fill (publish_status env True (new_orchestrator env clk routes g))))"
    and "length (or_stops self) \<le> 2 ^ 40" "fadd (bc_built clk) 15 \<le> ps_mono p"
  shows "\<exists>msgs. or_published (snd (run_once env p self)) = or_published self @ msgs \<and>
    map fst msgs = map (\<lambda>sid. ''edge/'' @ sid @ ''/crowdCount'') (stop_ids self)"
proof -
  let ?o = "new_orchestrator env clk routes g"
  have b: "list_all2 (\<lambda>e e'. same_stop e e' \<and> en_next_publish e' = en_next_publish e) (or_stops ?o) (or_stops self)"
    using backfill_steps [of env fill "publish_status env True ?o" "fst (backfill env fill (publish_status env True ?o))"
        "fst (snd (backfill env fill (publish_status env True ?o)))" self]
    by (simp add: assms(1) publish_status_def)
  have "due p e" if "e \<in> set (or_stops self)" for e
  proof -
    obtain i where i: "i < length (or_stops self)" "e = or_stops self ! i" using \<open>e \<in> set (or_stops self)\<close> by (metis in_set_conv_nth)
    then have "en_next_publish e = en_next_publish (or_stops ?o ! i)" "i < length (or_stops ?o)" "length (or_stops ?o) \<le> 2 ^ 40"
      using list_all2_nthD2 [OF b] list_all2_lengthD [OF b] assms(2) by auto
    then have "en_next_publish e \<le> fadd (bc_built clk) 15"
      using offsets_within [of i "length (or_stops ?o)"] new_orchestrator_next [of i env clk routes g]
      by (simp add: fadd_def fl_mono)
    then show ?thesis using assms(3) by (simp add: due_def)
  qed
  moreover obtain r self' where r: "run_once env p self = (r, self')" by force
  ultimately show ?thesis
    using run_once_steps [OF r] all_due_messages [of p "or_stops self" "or_stops self'" env] r
    by (auto simp: stop_ids_def)
qed

text \<open>The monotonic clock does not run backwards, and \<open>time.sleep\<close> sleeps at least as long as asked.\<close>

definition sleeps :: "fill_clock \<Rightarrow> bool" where
  "sleeps clk \<longleftrightarrow> (\<forall>i m d. m \<le> fc_seeded clk i m \<and> (0 \<le> d \<longrightarrow> m + d \<le> fc_sleep clk i d m))"

lemma seed_entries_sleep:
  assumes "seed_entries env clk h i es tm g = (es', msgs, tm', g')" "sleeps clk"
  shows "tm + of_nat (length es) * backfill_stagger \<le> tm'"
  using assms
proof (induction env clk h i es tm g arbitrary: es' msgs tm' g' rule: seed_entries.induct)
  case (2 env clk h i e es tm g)
  obtain sim g1 where t: "seed_initial env h (en_sim e) g = (sim, g1)" by force
  let ?tm = "fc_sleep clk i backfill_stagger (fc_seeded clk i tm)"
  obtain es1 msgs1 tm1 g2 where r: "seed_entries env clk h (i + 1) es ?tm g1 = (es1, msgs1, tm1, g2)"
    by (metis prod_cases4)
  have "tm' = tm1" using "2.prems"(1) t r by simp
  moreover have "?tm + of_nat (length es) * backfill_stagger \<le> tm1"
    using "2.IH" [OF t [symmetric] refl refl r "2.prems"(2)] .
  moreover have "0 \<le> backfill_stagger" by (simp add: backfill_stagger_def fl_eval)
  then have "tm + backfill_stagger \<le> ?tm"
    using "2.prems"(2) unfolding sleeps_def by (meson add_right_mono order_trans)
  moreover have "of_nat (length (e # es)) * backfill_stagger = backfill_stagger + of_nat (length es) * backfill_stagger"
    by (simp add: distrib_right)
  ultimately show ?case by linarith
qed simp

text \<open>The backfill lasts at least as long as its pauses.\<close>

lemma backfill_lasts:
  assumes "backfill env clk self = (n, tm, self')" "sleeps clk"
  shows "fc_mono clk + of_nat (length (or_stops self')) * backfill_stagger \<le> tm"
proof -
  obtain es msgs tm' g where
      e: "seed_entries env clk (sim_hour_at env (fc_hour clk) self) 0 (or_stops self) (fc_mono clk) (or_rng self) = (es, msgs, tm', g)"
    by (metis prod_cases4)
  have "tm' = tm" using assms(1) e by (simp add: backfill_def)
  moreover have "length (or_stops self') = length (or_stops self)"
    using list_all2_lengthD [OF backfill_steps [OF assms(1), THEN conjunct1]] by simp
  ultimately show ?thesis using seed_entries_sleep [OF e assms(2)] by simp
qed

lemma backfill_takes:
  assumes "300 < n" "0 \<le> b" "b \<le> 2 ^ 40"
  shows "fadd b 15 \<le> b + of_nat n * backfill_stagger"
proof -
  define s where "s = of_nat n * backfill_stagger"
  have "(301 :: rat) \<le> of_nat n" using assms(1) of_nat_le_iff [of 301 n, where ?'a = rat] by simp
  moreover have stagger: "4999 / 100000 \<le> backfill_stagger" by (simp add: backfill_stagger_def fl_eval)
  ultimately have "301 * (4999 / 100000) \<le> s" unfolding s_def by (intro mult_mono) simp_all
  moreover have "fl (b + 15) \<le> (b + 15) + eps * (b + 15) + tiny" using fl_error [of "b + 15"] assms(2) by (simp add: abs_le_iff)
  moreover have "eps * (b + 15) \<le> eps * 2 ^ 41" using assms(3) eps_pos by (intro mult_left_mono) simp_all
  moreover have "eps * 2 ^ 41 = 1 / 4096" by (simp add: eps_def)
  moreover have "tiny \<le> 1 / 4096" using pow2_le_iff [of "- 1075" "- 12"] by (simp add: tiny_def pow2_def)
  ultimately show ?thesis unfolding fadd_def s_def [symmetric] by linarith
qed

text \<open>
  The initial offsets are lost.  The offsets spread the stops over the first 15 seconds
  after they are built; the backfill pauses 0.05 seconds after each stop, so with more than
  300 stops, of which the configured routes have 587, it takes longer: the first pass of
  the loop then finds every stop due and publishes all of them in one burst.
\<close>

theorem backfill_ends_in_burst:
  assumes "backfill env fill (publish_status env True (new_orchestrator env clk routes g)) = (n, tm, self)" "sleeps fill"
    and "300 < length (or_stops self)" "length (or_stops self) \<le> 2 ^ 40" "0 \<le> bc_built clk" "bc_built clk \<le> 2 ^ 40"
    and "bc_built clk \<le> fc_mono fill" "tm \<le> ps_mono p"
  shows "\<exists>msgs. or_published (snd (run_once env p self)) = or_published self @ msgs \<and>
    map fst msgs = map (\<lambda>sid. ''edge/'' @ sid @ ''/crowdCount'') (stop_ids self)"
  using all_due_burst [of self env fill clk routes g p] backfill_takes [OF assms(3,5,6)] backfill_lasts [OF assms(1,2)] assms(1,4,7,8)
  by simp

text \<open>A route of 301 stops.\<close>

definition long_route :: sim_route where
  "long_route = \<lparr>sr_headway_minutes = 12, sr_stop_ids = map (\<lambda>i. replicate i CHR ''s'') [0..<301]\<rparr>"

text \<open>A clock on which only the pauses take time, exactly as long as asked.\<close>

definition example_fill :: fill_clock where
  "example_fill = \<lparr>fc_time = 0, fc_hour = 0, fc_mono = 0, fc_seeded = (\<lambda>_ m. m), fc_sleep = (\<lambda>_ d m. m + d)\<rparr>"

lemma example_fill_sleeps: "sleeps example_fill" "fc_mono example_fill = 0"
  by (simp_all add: sleeps_def example_fill_def)

lemma example_fill_lasts:
  assumes "backfill env example_fill self = (n, tm, self')"
  shows "tm = of_nat (length (or_stops self')) * backfill_stagger"
proof -
  have *: "seed_entries env example_fill h i es m g = (es', msgs, tm, g') \<Longrightarrow>
      length es' = length es \<and> tm = m + of_nat (length es) * backfill_stagger" for env h i es m and g :: 'a and es' msgs tm g'
  proof (induction env example_fill h i es m g arbitrary: es' msgs tm g' rule: seed_entries.induct)
    case (2 env h i e es m g)
    obtain sim g1 where t: "seed_initial env h (en_sim e) g = (sim, g1)" by force
    let ?m = "fc_sleep example_fill i backfill_stagger (fc_seeded example_fill i m)"
    obtain es1 msgs1 tm1 g2 where r: "seed_entries env example_fill h (i + 1) es ?m g1 = (es1, msgs1, tm1, g2)"
      by (metis prod_cases4)
    have "?m = m + backfill_stagger" by (simp add: example_fill_def)
    then show ?case using "2.hyps" [OF t [symmetric] refl refl r] "2.prems" t r by (auto simp: distrib_right)
  qed simp
  obtain es msgs tm' g where
      e: "seed_entries env example_fill (sim_hour_at env (fc_hour example_fill) self) 0 (or_stops self) (fc_mono example_fill) (or_rng self) =
        (es, msgs, tm', g)"
    by (metis prod_cases4)
  then have "tm = tm'" "or_stops self' = es" using assms by (auto simp: backfill_def published_def)
  then show ?thesis using * [OF e] example_fill_sleeps(2) by simp
qed

theorem backfill_ends_in_burst_witness:
  "\<exists>msgs n tm self. backfill example_sim_env example_fill (publish_status example_sim_env True
       (new_orchestrator example_sim_env example_build [long_route] 0)) = (n, tm, self) \<and>
     or_published (snd (run_once example_sim_env (example_pass 20) self)) = or_published self @ msgs \<and> length msgs = 301"
proof -
  obtain n tm self where b: "backfill example_sim_env example_fill (publish_status example_sim_env True
       (new_orchestrator example_sim_env example_build [long_route] 0)) = (n, tm, self)" by (metis prod_cases3)
  have "distinct (sr_stop_ids long_route)"
    by (simp add: long_route_def distinct_map inj_on_def)
  moreover have "sim_reachable example_sim_env [long_route] (snd (snd (backfill example_sim_env example_fill (publish_status example_sim_env True
       (new_orchestrator example_sim_env example_build [long_route] 0)))))" by (intro sim_reachable.intros)
  then have "sim_reachable example_sim_env [long_route] self" by (simp add: b)
  ultimately have "length (stop_ids self) = length (sr_stop_ids long_route)"
    using reachable_stops [of example_sim_env "[long_route]" self] example_fair
    by (simp add: all_stop_ids_def distinct_card [symmetric] length_remdups_card_conv)
  then have len: "length (or_stops self) = 301" "length (stop_ids self) = 301"
    by (simp_all add: stop_ids_def long_route_def)
  have "backfill_stagger \<le> 6 / 100" by (simp add: backfill_stagger_def fl_eval)
  then have "\<exists>msgs. or_published (snd (run_once example_sim_env (example_pass 20) self)) = or_published self @ msgs \<and>
      map fst msgs = map (\<lambda>sid. ''edge/'' @ sid @ ''/crowdCount'') (stop_ids self)"
    using len example_fill_sleeps example_fill_lasts [OF b]
    by (intro backfill_ends_in_burst [OF b]) (simp_all add: example_build_def example_pass_mono)
  then show ?thesis using len(2) b by (metis length_map)
qed

subsection \<open>To the backend\<close>

lemma run_entries_message:
  assumes "run_entries env p h k es g = (es', msgs, g')" "i < length es" "due p (es ! i)"
  shows "crowd_count_message env (si_stop_id (en_sim (es ! i))) (si_count (en_sim (es' ! i))) (ps_stamp p (k + i)) \<in> set msgs"
  using assms
proof (induction env p h k es g arbitrary: i es' msgs g' rule: run_entries.induct)
  case (2 env p h k e es g)
  show ?case
  proof (cases "due p e")
    case True
    obtain sim g1 where t: "sim_tick env (ps_tick p k) h (en_sim e) g = (sim, g1)" by force
    obtain es1 msgs1 g2 where r: "run_entries env p h (k + 1) es g1 = (es1, msgs1, g2)" by (metis prod_cases3)
    show ?thesis
      using "2.IH"(1) [OF True t [symmetric] refl r] "2.prems" True t r tick_same [OF t] by (cases i) auto
  next
    case False
    obtain es1 msgs1 g2 where r: "run_entries env p h (k + 1) es g = (es1, msgs1, g2)" by (metis prod_cases3)
    show ?thesis using "2.IH"(2) [OF False r] "2.prems" False r by (cases i) auto
  qed
qed simp

lemma run_once_message:
  assumes "i < length (or_stops self)" "due p (or_stops self ! i)" "run_once env p self = (r, self')"
  shows "crowd_count_message env (si_stop_id (en_sim (or_stops self ! i))) (si_count (en_sim (or_stops self' ! i))) (ps_stamp p i)
    \<in> set (drop (length (or_published self)) (or_published self'))"
proof -
  obtain es msgs g where e: "run_entries env p (sim_hour_at env (ps_time p) self) 0 (or_stops self) (or_rng self) = (es, msgs, g)"
    by (metis prod_cases3)
  then show ?thesis
    using run_entries_message [OF e assms(1,2)] assms(3) by (auto simp: run_once_def published_def Let_def)
qed

lemma peak_count_mono:
  assumes "k \<le> k'"
  shows "peak_count k \<le> peak_count k'"
proof -
  have "route_multiplier (int k) \<le> route_multiplier (int k')"
    unfolding route_multiplier_def fadd_def fmul_def using assms py_float_mono [of "int k - 1" "int k' - 1"] fl_nonneg [of "3 / 10"]
    by (intro fl_mono add_left_mono mult_left_mono) simp_all
  then show ?thesis
    unfolding peak_count_def fmul_def using py_float_nonneg [of base_cap_max]
    by (intro py_round_mono fl_mono mult_right_mono mult_left_mono) (simp_all add: base_cap_max_def)
qed

text \<open>
  C34: the backend records what the simulator counts.  In a simulator run in any way, with no
  stop on more than three lists, a pass publishes for a due stop a message like that of a
  device of the same name; the backend, with its database up and the device known, records
  it as the newest count of that device: the new count of the stop, at most 60 people, in
  the default zone, at the time of publication.
\<close>

theorem simulated_count_recorded:
  assumes "draws_fair env" "sim_reachable env routes self" "\<forall>sid. count_list (all_stop_ids routes) sid \<le> 3"
    and "i < length (or_stops self)" "due p (or_stops self ! i)" "run_once env p self = (r, self')"
    and "sid = si_stop_id (en_sim (or_stops self ! i))" "n = si_count (en_sim (or_stops self' ! i))" "CHR ''/'' \<notin> set sid"
    and "be_loads benv (se_dumps env (crowd_count_json sid n (ps_stamp p i))) = Inr (crowd_count_json sid n (ps_stamp p i))"
    and "plain_driver benv" "bk_writer bk = Some w" "dw_opened w" "\<forall>n. up n" "idle (bk_session bk)"
    and "keys_ok (se_committed (bk_session bk))" "counts_agree (se_committed (bk_session bk))"
    and "row \<in> set (db_stops (se_committed (bk_session bk)))" "st_device_id row = sid" "fromtimestamp (ps_stamp p i) = Inr ts"
  shows "0 \<le> n \<and> n \<le> 60 \<and> (\<exists>topic payload.
    (topic, payload, 1, False) \<in> set (drop (length (or_published self)) (or_published self')) \<and>
    (let d = se_committed (bk_session (snd (on_message benv dir up clk topic payload bk)))
     in device_history d sid = count_row_of w row ts n ''default'' # device_history (se_committed (bk_session bk)) sid \<and>
        counts_agree d))"
proof -
  have step: "pass_step p (or_stops self ! i) (or_stops self' ! i)"
    using run_once_nth [where env = env and p = p, OF assms(4)] assms(6) by simp
  have "stop_ok routes (or_stops self ! i)" using reachable_stops [OF assms(2,1)] assms(4) by auto
  from stop_ok_cap [OF this] have "0 \<le> n \<and> n \<le> peak_count (count_list (all_stop_ids routes) sid)"
    using step assms(5,7,8) by (auto simp: pass_step_def)
  then have n: "0 \<le> n" "n \<le> 60" using peak_count_mono [of _ 3] assms(3) peak_count_three by (metis order_trans)+
  have int4: "int4 n" using n by (simp add: int4_def)
  have "(''edge/'' @ sid @ ''/crowdCount'', se_dumps env (crowd_count_json sid n (ps_stamp p i)), 1, False)
      \<in> set (drop (length (or_published self)) (or_published self'))"
    using run_once_message [OF assms(4-6)] unfolding assms(7,8) crowd_count_message_def by simp
  moreover have "device_history d sid = count_row_of w row ts n ''default'' # device_history (se_committed (bk_session bk)) sid \<and> counts_agree d"
    if "d = se_committed (bk_session (snd (on_message benv dir up clk (''edge/'' @ sid @ ''/crowdCount'')
          (se_dumps env (crowd_count_json sid n (ps_stamp p i))) bk)))" for d
    by (rule crowd_message_recorded [OF assms(10) [unfolded crowd_count_json_def] _ _ _ assms(11,9,12-20) int4 that [unfolded crowd_count_json_def]])
      (simp_all add: dict_get_def)
  ultimately show ?thesis using n by (auto simp: Let_def)
qed

theorem simulated_count_recorded_witness:
  "\<exists>topic payload n. (topic, payload, 1, False) \<in>
      set (or_published (snd (run_once example_sim_env (example_pass 10) example_simulator))) \<and>
    counts_agree (se_committed (bk_session (snd (on_message (quiet_env (crowd_count_json ''d1'' n 10)) ''img'' (\<lambda>_. True)
      \<lparr>in_seconds = 0, in_stamp = 0\<rparr> topic payload example_broker)))) \<and> n \<le> 60"
proof -
  obtain r self' where r: "run_once example_sim_env (example_pass 10) example_simulator = (r, self')" by force
  have i: "0 < length (or_stops example_simulator)" by (simp add: example_one_stop)
  have lists: "\<forall>sid. count_list (all_stop_ids example_routes) sid \<le> 3"
    by (simp add: all_stop_ids_def example_routes_def numeral_3_eq_3)
  have due: "due (example_pass 10) (or_stops example_simulator ! 0)"
    using new_orchestrator_next [OF i] by (simp add: due_def example_pass_mono example_build_def py_float_def fmul_def fadd_def)
  have sid: "''d1'' = si_stop_id (en_sim (or_stops example_simulator ! 0))" "CHR ''/'' \<notin> set ''d1''"
    using reachable_stops [OF sim_reachable.built example_fair, of example_build example_routes 0] i
    by (auto simp: stop_ok_def example_stop_ids)
  let ?n = "si_count (en_sim (or_stops self' ! 0))"
  have ts: "ps_stamp (example_pass 10) 0 = 10" by (simp add: example_pass_def)
  have env: "be_loads (quiet_env (crowd_count_json ''d1'' ?n 10)) (se_dumps example_sim_env (crowd_count_json ''d1'' ?n (ps_stamp (example_pass 10) 0))) =
      Inr (crowd_count_json ''d1'' ?n (ps_stamp (example_pass 10) 0))" "plain_driver (quiet_env (crowd_count_json ''d1'' ?n 10))"
    unfolding ts by (simp_all add: quiet_env_def plain_driver_def)
  have time: "fromtimestamp (ps_stamp (example_pass 10) 0) = Inr 10000000" unfolding ts by (rule example_time)
  show ?thesis
    using simulated_count_recorded [OF example_fair sim_reachable.built lists i due r sid(1) refl sid(2) env example_broker_ok time,
        of "''img''" "\<lparr>in_seconds = 0, in_stamp = 0\<rparr>"]
    unfolding Let_def r snd_conv by (elim exE conjE) (intro exI conjI, (erule in_set_dropD | assumption)+)
qed

subsection \<open>The end of a run\<close>

lemma run_once_raises:
  "run_once env p self = (r, self') \<Longrightarrow> (r = Inl ValueError \<and> or_stops self = []) \<or> ((\<exists>x. r = Inr x) \<and> or_stops self \<noteq> [])"
proof -
  assume r: "run_once env p self = (r, self')"
  obtain es msgs g where e: "run_entries env p (sim_hour_at env (ps_time p) self) 0 (or_stops self) (or_rng self) = (es, msgs, g)"
    by (metis prod_cases3)
  have "length es = length (or_stops self)" using run_entries_steps [OF e] by (auto dest: list_all2_lengthD)
  then show ?thesis using r by (auto simp: run_once_def e Let_def split: list.splits if_splits)
qed

lemma main_loop_result:
  assumes "main_loop env ps t self = (r, self')" "sim_reachable env routes self"
  shows "r = (if or_stops self = [] \<and> ps \<noteq> [] then Inl ValueError else Inr ()) \<and> sim_reachable env routes self'"
  using assms
proof (induction env ps t self rule: main_loop.induct)
  case (2 env p now ps t self)
  obtain r1 self1 where o: "run_once env p self = (r1, self1)" by force
  have reach: "sim_reachable env routes self1" using sim_reachable.passed [OF "2.prems"(2), of p] o by simp
  have "length (or_stops self1) = length (or_stops self)"
    using run_once_steps [OF o] by (auto dest: list_all2_lengthD)
  then have same: "or_stops self1 = [] \<longleftrightarrow> or_stops self = []" by auto
  show ?case
    using run_once_raises [OF o]
  proof (elim disjE conjE exE)
    assume "r1 = Inl ValueError" "or_stops self = []"
    then show ?thesis using "2.prems" o reach by simp
  next
    fix x assume "r1 = Inr x" "or_stops self \<noteq> []"
    then show ?thesis
      using "2.IH" [OF o [symmetric], of x] "2.prems" o reach same by auto
  qed
qed simp

text \<open>
  Every run says goodbye.  However many passes a run of the simulator has, it raises
  only \<open>ValueError\<close>, exactly when no route has a stop and a pass is made; in any case the last
  messages are retained ones that mark every stop of every route as offline.
\<close>

theorem simulator_ends_offline:
  assumes "draws_fair env" "simulator_main env clk routes g fill last_stats ps = (r, self)"
  shows "r = (if all_stop_ids routes = [] \<and> ps \<noteq> [] then Inl ValueError else Inr ()) \<and>
    (\<exists>earlier. or_published self = earlier @ status_messages env (rev (remdups (rev (all_stop_ids routes)))) False)"
proof -
  define o1 where "o1 = snd (snd (backfill env fill (publish_status env True (new_orchestrator env clk routes g))))"
  obtain self' where l: "main_loop env ps last_stats o1 = (r, self')" "self = publish_status env False self'"
    using assms(2) by (auto simp: simulator_main_def o1_def split: prod.splits)
  have reach: "sim_reachable env routes o1" unfolding o1_def by (intro sim_reachable.intros)
  note res = main_loop_result [OF l(1) reach]
  have "or_stops o1 = [] \<longleftrightarrow> all_stop_ids routes = []"
    using reachable_stops [OF reach assms(1)] by (metis Nil_is_map_conv remdups_eq_nil_iff rev_is_Nil_conv stop_ids_def)
  then show ?thesis
    using res reachable_stops [OF conjunct2 [OF res] assms(1)] l(2) by (auto simp: publish_status_def)
qed

theorem simulator_ends_offline_witness:
  "fst (simulator_main example_sim_env example_build [] 0 example_fill 0 [(example_pass 20, 20)]) = Inl ValueError"
  using simulator_ends_offline [OF example_fair, of example_build "[]" 0 example_fill 0 "[(example_pass 20, 20)]"]
  by (cases "simulator_main example_sim_env example_build [] 0 example_fill 0 [(example_pass 20, 20)]") (simp add: all_stop_ids_def)

end
