(* ===== verification/Simulator_Routes.thy ===== *)
theory Simulator_Routes
  imports Simulator_Properties
begin

text \<open>
  The routes that the simulator is configured with (\<open>ROUTES\<close> of \<open>Simulator/config.py\<close>), and what the
  simulator does with them.  A stop identifier is written as the pair of its numbers: \<open>(8240, 226)\<close>
  is \<open>8240DB000226\<close>.
\<close>

subsection \<open>The table\<close>

text \<open>The last \<open>k\<close> decimal digits of a number.\<close>

definition decimal_char :: "int \<Rightarrow> char" where
  "decimal_char d = char_of (48 + nat d)"

fun fixed_digits :: "nat \<Rightarrow> int \<Rightarrow> string" where
  "fixed_digits 0 n = []"
| "fixed_digits (Suc k) n = decimal_char (n div 10 ^ k mod 10) # fixed_digits k n"

definition stop_id_text :: "int \<times> int \<Rightarrow> string" where
  "stop_id_text s = fixed_digits 4 (fst s) @ ''DB'' @ fixed_digits 6 (snd s)"

definition stops_1 :: "(int \<times> int) list" where
  "stops_1 =
    [(8240, 226), (8220, 228), (8240, 229), (8240, 227), (8240, 230), (8240, 231), (8220, 1641), (8220, 1642), (8220, 213),
     (8220, 214), (8220, 4432), (8220, 119), (8220, 44), (8220, 7603), (8220, 45), (8220, 46), (8220, 47), (8220, 48),
     (8220, 49), (8220, 51), (8220, 52), (8220, 265), (8220, 271), (8220, 340), (8220, 7865)]"

definition stops_4 :: "(int \<times> int) list" where
  "stops_4 =
    [(8220, 4320), (8220, 1476), (8220, 7453), (8220, 1478), (8220, 1479), (8220, 7622), (8220, 273), (8220, 405), (8220, 408),
     (8220, 409), (8220, 410), (8220, 411), (8220, 412), (8220, 413), (8220, 414), (8220, 415), (8220, 416), (8220, 417),
     (8220, 418), (8220, 419), (8220, 420), (8220, 421), (8220, 422), (8220, 423), (8220, 424), (8250, 425), (8250, 426),
     (8250, 427), (8250, 428), (8250, 429), (8250, 6334), (8250, 7660), (8250, 3114), (8250, 3115), (8250, 3116), (8250, 6085),
     (8250, 2026), (8250, 7226)]"

definition stops_7 :: "(int \<times> int) list" where
  "stops_7 =
    [(8220, 4962), (8220, 4725), (8220, 273), (8220, 405), (8220, 408), (8220, 409), (8220, 410), (8220, 411), (8220, 412),
     (8220, 413), (8220, 414), (8220, 415), (8220, 416), (8220, 417), (8220, 418), (8220, 419), (8220, 420), (8220, 421),
     (8220, 422), (8220, 423), (8220, 424), (8250, 425), (8250, 426), (8250, 427), (8250, 428), (8250, 429), (8250, 3032),
     (8250, 3033), (8250, 3034), (8250, 3036), (8250, 3037), (8250, 3038), (8250, 3039), (8250, 3040), (8250, 3041), (8250, 3042),
     (8250, 2035), (8250, 2036), (8250, 2040), (8250, 3047), (8250, 3202), (8250, 3203), (8250, 3204), (8250, 7641), (8250, 7642),
     (8250, 7643), (8250, 3214), (8250, 3215), (8250, 3216), (8250, 3217), (8250, 3218), (8250, 3219), (8250, 3220), (8250, 5046),
     (8250, 7639)]"

definition stops_11 :: "(int \<times> int) list" where
  "stops_11 =
    [(8220, 807), (8220, 808), (8220, 809), (8220, 810), (8220, 811), (8220, 812), (8220, 813), (8220, 814), (8220, 81),
     (8220, 817), (8220, 818), (8220, 819), (8220, 261), (8220, 271), (8220, 404), (8220, 747), (8220, 842), (8220, 845),
     (8220, 846), (8220, 847), (8220, 848), (8220, 849), (8220, 850), (8220, 851), (8220, 852), (8220, 853), (8220, 854),
     (8220, 855), (8220, 856), (8220, 857), (8220, 858), (8250, 859), (8250, 860), (8250, 861), (8250, 862), (8250, 3014),
     (8250, 3015), (8250, 3016), (8250, 3017), (8250, 3018), (8250, 3019), (8250, 3020), (8250, 3021), (8250, 3022), (8250, 441),
     (8250, 442), (8250, 443), (8250, 444), (8250, 445), (8250, 4779), (8250, 7057), (8250, 4847), (8250, 4848)]"

definition stops_13 :: "(int \<times> int) list" where
  "stops_13 =
    [(8220, 8346), (8220, 261), (8220, 270), (8220, 335), (8220, 4521), (8220, 1935), (8220, 1937), (8220, 1938), (8220, 1939),
     (8220, 1940), (8220, 1941), (8220, 1942), (8220, 1943), (8220, 1944), (8220, 1945), (8220, 1946), (8220, 1947), (8220, 1948),
     (8220, 1949), (8220, 1950), (8220, 1951), (8220, 1952), (8220, 1953), (8220, 1954), (8220, 1955), (8220, 1956), (8230, 1957),
     (8230, 1958), (8230, 1959), (8230, 1960), (8230, 4379), (8230, 7782), (8230, 1963), (8230, 4549), (8230, 1964), (8230, 4674),
     (8230, 4663), (8230, 4664), (8230, 2160), (8230, 2161), (8230, 4665), (8230, 4666), (8230, 4667), (8230, 4668), (8230, 4677),
     (8230, 2136), (8230, 2137), (8230, 7201), (8230, 2138), (8230, 2139), (8230, 2140), (8230, 2141), (8230, 2142), (8230, 2143),
     (8230, 2145), (8230, 4670), (8230, 2165), (8230, 2166), (8230, 8068), (8230, 2167), (8230, 3383), (8230, 3384), (8230, 7230),
     (8230, 4552), (8230, 4554), (8230, 7229)]"

definition stops_15 :: "(int \<times> int) list" where
  "stops_15 =
    [(8220, 6318), (8220, 6319), (8220, 7246), (8220, 6320), (8220, 4594), (8220, 4595), (8220, 4596), (8220, 4563), (8220, 1218),
     (8220, 1270), (8220, 1272), (8220, 1273), (8220, 1274), (8220, 1275), (8220, 1276), (8220, 1277), (8220, 1219), (8220, 1220),
     (8220, 1221), (8220, 664), (8220, 665), (8220, 666), (8220, 667), (8220, 668), (8220, 614), (8220, 616), (8220, 618),
     (8220, 619), (8220, 1500), (8220, 301), (8220, 4495), (8220, 7581), (8220, 1283), (8220, 7579), (8220, 1285), (8220, 1016),
     (8220, 1017), (8220, 1018), (8220, 1019), (8220, 1020), (8220, 1076), (8220, 1077), (8220, 1078), (8220, 1079), (8220, 1080),
     (8220, 1081), (8220, 1082), (8220, 1083), (8220, 1085), (8220, 1121), (8220, 1122), (8220, 1123), (8220, 1124), (8230, 1125),
     (8230, 1127), (8230, 1130), (8230, 1140), (8230, 1141), (8230, 1142), (8230, 1143), (8230, 1144), (8230, 1145), (8230, 4869),
     (8230, 4870), (8230, 3007), (8230, 6283), (8230, 6282)]"

definition stops_16 :: "(int \<times> int) list" where
  "stops_16 =
    [(8240, 7347), (8240, 3669), (8240, 7349), (8240, 1631), (8240, 1632), (8240, 5053), (8240, 1633), (8240, 1634), (8240, 1635),
     (8240, 1636), (8240, 1637), (8240, 1638), (8240, 1639), (8240, 1640), (8240, 231), (8240, 232), (8220, 233), (8220, 234),
     (8220, 235), (8220, 236), (8220, 237), (8220, 213), (8220, 214), (8220, 4432), (8220, 119), (8220, 44), (8220, 7603),
     (8220, 45), (8220, 46), (8220, 47), (8220, 48), (8220, 49), (8220, 51), (8220, 52), (8220, 262), (8220, 270),
     (8220, 336), (8220, 1279), (8220, 1282), (8220, 4456), (8220, 1284), (8220, 1285), (8220, 1287), (8220, 1288), (8220, 1289),
     (8220, 1290), (8220, 1291), (8220, 1292), (8220, 1293), (8220, 1294), (8220, 1295), (8220, 1296), (8220, 1297), (8220, 1298),
     (8220, 1299), (8220, 1300), (8230, 1301), (8230, 1302), (8230, 1303), (8230, 1304), (8230, 1305), (8230, 1320), (8230, 1321),
     (8230, 1322), (8230, 1323), (8230, 1324), (8230, 7068), (8230, 2966), (8230, 2967), (8230, 2968), (8250, 2969), (8250, 2970),
     (8250, 2971), (8250, 5051), (8250, 5052), (8250, 2975)]"

definition stops_27 :: "(int \<times> int) list" where
  "stops_27 =
    [(8220, 4595), (8220, 4596), (8220, 4563), (8220, 1218), (8220, 1258), (8220, 1259), (8220, 1260), (8220, 6130), (8220, 1262),
     (8220, 4692), (8220, 1245), (8220, 4693), (8220, 1254), (8220, 1255), (8220, 1256), (8220, 4694), (8220, 1249), (8220, 1247),
     (8220, 1248), (8220, 1273), (8220, 1274), (8220, 1275), (8220, 1276), (8220, 1277), (8220, 1219), (8220, 1220), (8220, 1221),
     (8220, 664), (8220, 665), (8220, 666), (8220, 667), (8220, 668), (8220, 614), (8220, 616), (8220, 618), (8220, 619),
     (8220, 1500), (8220, 302), (8220, 4495), (8220, 4522), (8220, 1934), (8220, 2310), (8220, 2311), (8220, 2312), (8220, 2313),
     (8220, 2314), (8220, 2315), (8220, 2094), (8220, 1406), (8220, 1407), (8220, 1409), (8220, 2095), (8220, 2096), (8220, 2097),
     (8220, 2099), (8220, 2101), (8220, 2102), (8220, 2103), (8220, 2332), (8220, 2333), (8230, 2334), (8230, 4662), (8230, 2335),
     (8230, 2336), (8230, 2337), (8230, 2339), (8230, 2340), (8230, 2601), (8230, 4446), (8230, 2603), (8230, 2557), (8230, 4436),
     (8230, 5008), (8230, 4640), (8230, 4347), (8230, 2349), (8230, 2351), (8230, 2621), (8230, 2622), (8230, 2623), (8230, 2624),
     (8230, 4441), (8230, 2626), (8230, 2669), (8230, 4641), (8230, 4642), (8230, 2355)]"

definition stops_37 :: "(int \<times> int) list" where
  "stops_37 =
    [(8220, 783), (8220, 784), (8220, 785), (8220, 786), (8220, 793), (8220, 7586), (8220, 7587), (8220, 7588), (8220, 329),
     (8220, 1443), (8220, 1444), (8220, 1445), (8220, 1647), (8220, 1648), (8220, 1649), (8220, 1911), (8220, 802), (8220, 1654),
     (8220, 1655), (8220, 1656), (8220, 1657), (8220, 4458), (8220, 1658), (8220, 1659), (8220, 1660), (8220, 1661), (8220, 1662),
     (8220, 1664), (8220, 1665), (8220, 1666), (8220, 1667), (8220, 1668), (8240, 1669), (8240, 1670), (8240, 1671), (8240, 1672),
     (8240, 1673), (8240, 1674), (8240, 1675), (8240, 7380), (8240, 1676), (8240, 1517), (8240, 1678), (8240, 1679), (8240, 4520),
     (8240, 4825), (8240, 7233), (8240, 4573), (8240, 4893), (8240, 4894), (8240, 4895), (8240, 7217), (8240, 7227), (8240, 6172),
     (8240, 4493), (8240, 4362), (8240, 2959)]"

definition stops_39 :: "(int \<times> int) list" where
  "stops_39 =
    [(8220, 7333), (8220, 783), (8220, 784), (8220, 785), (8220, 786), (8220, 793), (8220, 7586), (8220, 7587), (8220, 7588),
     (8220, 328), (8220, 1443), (8220, 1444), (8220, 1445), (8220, 1647), (8220, 1648), (8220, 1649), (8220, 1911), (8220, 1913),
     (8220, 1914), (8220, 1805), (8220, 1806), (8220, 1660), (8220, 1661), (8220, 1662), (8220, 1664), (8220, 1665), (8220, 1666),
     (8220, 1807), (8240, 7167), (8240, 1808), (8240, 1813), (8240, 1814), (8240, 1852), (8240, 1853), (8240, 1854), (8240, 1844),
     (8240, 6172), (8240, 4493), (8240, 4362), (8240, 7025), (8240, 4464), (8240, 1869), (8240, 1870), (8240, 1871), (8240, 1872),
     (8240, 1873), (8240, 1874), (8240, 1875), (8240, 1876), (8240, 1877), (8240, 1878), (8240, 1879), (8240, 1899), (8240, 1887),
     (8240, 1888), (8240, 1889), (8240, 1890), (8240, 7240), (8240, 1891), (8240, 7156), (8240, 7020), (8240, 7029), (8240, 7038),
     (8240, 7011), (8240, 2171), (8240, 7160), (8240, 7700), (8240, 7047), (8240, 7161), (8240, 7162)]"

definition stops_39a :: "(int \<times> int) list" where
  "stops_39a =
    [(8250, 767), (8250, 768), (8220, 769), (8220, 770), (8220, 771), (8220, 772), (8220, 773), (8220, 774), (8220, 775),
     (8220, 776), (8220, 777), (8220, 779), (8220, 780), (8220, 781), (8220, 782), (8220, 783), (8220, 784), (8220, 785),
     (8220, 786), (8220, 793), (8220, 7586), (8220, 7587), (8220, 7588), (8220, 328), (8220, 1443), (8220, 1444), (8220, 1445),
     (8220, 1647), (8220, 1648), (8220, 1649), (8220, 1911), (8220, 1913), (8220, 1914), (8220, 1805), (8220, 1806), (8220, 1660),
     (8220, 1661), (8220, 1662), (8220, 1664), (8220, 1665), (8220, 1666), (8220, 1807), (8240, 7167), (8240, 1808), (8240, 7389),
     (8240, 7025), (8240, 4464), (8240, 1869), (8240, 1870), (8240, 1871), (8240, 1872), (8240, 1873), (8240, 1874), (8240, 1875),
     (8240, 1876), (8240, 1877), (8240, 1878), (8240, 1879), (8240, 1899), (8240, 6107), (8240, 6108), (8240, 6109), (8240, 6110),
     (8240, 7020), (8240, 7029), (8240, 7038), (8240, 7011), (8240, 2171), (8240, 7160), (8240, 7700), (8240, 7047), (8240, 7161),
     (8240, 7162)]"

definition stops_44 :: "(int \<times> int) list" where
  "stops_44 =
    [(8220, 7571), (8220, 207), (8220, 208), (8220, 209), (8220, 210), (8220, 211), (8220, 212), (8220, 213), (8220, 214),
     (8220, 4432), (8220, 119), (8220, 44), (8220, 7603), (8220, 45), (8220, 46), (8220, 47), (8220, 48), (8220, 49),
     (8220, 51), (8220, 52), (8220, 265), (8220, 271), (8220, 340), (8220, 350), (8220, 2809), (8220, 2810), (8220, 2811),
     (8220, 1013), (8220, 1015), (8220, 2812), (8220, 2813), (8220, 2814), (8220, 852), (8220, 853), (8220, 854), (8220, 855),
     (8220, 2815), (8220, 2816), (8220, 2817), (8250, 2818), (8250, 2819), (8250, 2820), (8250, 2822), (8250, 2823), (8250, 5032),
     (8250, 2824), (8250, 7981), (8250, 7715), (8250, 7716), (8250, 7717), (8250, 2829), (8250, 2830), (8250, 2831), (8250, 2832),
     (8250, 2833), (8250, 7375), (8250, 3466), (8250, 3467), (8250, 3469), (8250, 3470), (8250, 3471), (8250, 3472), (8250, 3473),
     (8250, 3474), (8250, 3475), (8250, 3476), (8250, 3477), (8250, 3478), (8250, 3280), (8250, 3282), (8250, 3479), (8250, 4086),
     (8250, 4087), (8250, 4088), (8350, 4089), (8350, 4090), (8350, 4091), (8350, 6097), (8350, 4093), (8350, 4094), (8350, 4095),
     (8350, 7823)]"

text \<open>Name and identifier of a route, its headway and its stops.\<close>

definition route_table :: "(string \<times> string \<times> int \<times> (int \<times> int) list) list" where
  "route_table =
    [(''1'', ''5552_130286'', 12, stops_1),
     (''4'', ''5552_130287'', 12, stops_4),
     (''7'', ''5552_130289'', 12, stops_7),
     (''11'', ''5552_130290'', 15, stops_11),
     (''13'', ''5552_130207'', 15, stops_13),
     (''15'', ''5552_130209'', 15, stops_15),
     (''16'', ''5552_130210'', 15, stops_16),
     (''27'', ''5552_130214'', 15, stops_27),
     (''37'', ''5552_130216'', 15, stops_37),
     (''39'', ''5552_130218'', 15, stops_39),
     (''39A'', ''5552_130307'', 15, stops_39a),
     (''44'', ''5552_130222'', 15, stops_44)]"

definition configured_routes :: "sim_route list" where
  "configured_routes = map (\<lambda>(name, route_id, headway, stops). \<lparr>sr_headway_minutes = headway, sr_stop_ids = map stop_id_text stops\<rparr>) route_table"

subsection \<open>Distinct stops\<close>

definition table_stops :: "(int \<times> int) list" where
  "table_stops = concat (map (\<lambda>(name, route_id, headway, stops). stops) route_table)"

text \<open>The numbers of an area, sorted by merging.\<close>

fun merge_numbers :: "int list \<Rightarrow> int list \<Rightarrow> int list" where
  "merge_numbers [] ys = ys"
| "merge_numbers xs [] = xs"
| "merge_numbers (x # xs) (y # ys) = (if x \<le> y then x # merge_numbers xs (y # ys) else y # merge_numbers (x # xs) ys)"

fun merge_pairs :: "int list list \<Rightarrow> int list list" where
  "merge_pairs (xs # ys # xss) = merge_numbers xs ys # merge_pairs xss"
| "merge_pairs xss = xss"

lemma length_merge_pairs: "length (merge_pairs xss) \<le> length xss"
  by (induction xss rule: merge_pairs.induct) auto

function merge_all :: "int list list \<Rightarrow> int list" where
  "merge_all [] = []"
| "merge_all [xs] = xs"
| "merge_all (xs # ys # xss) = merge_all (merge_pairs (xs # ys # xss))"
  by pat_completeness auto
termination
  by (relation "measure length") (auto simp: le_imp_less_Suc length_merge_pairs)

definition area_numbers :: "int \<Rightarrow> int list" where
  "area_numbers a = map snd (filter (\<lambda>s. fst s = a) table_stops)"

definition area_sorted :: "int \<Rightarrow> int list" where
  "area_sorted a = merge_all (map (\<lambda>n. [n]) (area_numbers a))"

lemma mset_merge_numbers: "mset (merge_numbers xs ys) = mset xs + mset ys"
  by (induction xs ys rule: merge_numbers.induct) auto

lemma mset_merge_pairs: "mset (concat (merge_pairs xss)) = mset (concat xss)"
  by (induction xss rule: merge_pairs.induct) (auto simp: mset_merge_numbers)

lemma mset_merge_all: "mset (merge_all xss) = mset (concat xss)"
  by (induction xss rule: merge_all.induct) (simp_all only: merge_all.simps mset_merge_pairs concat.simps append_Nil2)

lemma mset_area_sorted: "mset (area_sorted a) = mset (area_numbers a)"
  by (simp only: area_sorted_def mset_merge_all concat_map_singleton map_ident)

text \<open>
  What is checked by evaluation, area by area: there are \<open>k\<close> different numbers, of six digits at most,
  and the sorted list never has a number four times.
\<close>

fun no_four :: "int list \<Rightarrow> bool" where
  "no_four (a # b # c # d # xs) \<longleftrightarrow> a \<noteq> d \<and> no_four (b # c # d # xs)"
| "no_four _ \<longleftrightarrow> True"

definition numbers_ok :: "nat \<Rightarrow> int list \<Rightarrow> bool" where
  "numbers_ok k s \<longleftrightarrow> length (remdups_adj s) = k \<and> successively (<) (remdups_adj s) \<and> successively (\<le>) s \<and>
     no_four s \<and> list_all (\<lambda>n. 0 \<le> n \<and> n < 1000000) s"

lemma area_8220: "numbers_ok 288 (area_sorted 8220)"
  by code_simp

lemma area_8230: "numbers_ok 95 (area_sorted 8230)"
  by code_simp

lemma area_8240: "numbers_ok 89 (area_sorted 8240)"
  by code_simp

lemma area_8250: "numbers_ok 107 (area_sorted 8250)"
  by code_simp

lemma area_8350: "numbers_ok 8 (area_sorted 8350)"
  by code_simp

definition areas :: "int list" where
  "areas = [8220, 8230, 8240, 8250, 8350]"

lemma areas_all: "list_all (\<lambda>s. fst s \<in> set areas) table_stops"
  by code_simp

lemma no_four_count: "sorted s \<Longrightarrow> no_four s \<Longrightarrow> count_list s n \<le> 3"
proof (induction s rule: no_four.induct)
  case (1 a b c d xs)
  show ?case
  proof (cases "n = a")
    case True
    have "a \<le> d" "a \<noteq> d" "\<forall>x \<in> set xs. d \<le> x" using 1(2,3) by simp_all
    then have "n \<notin> set (d # xs)" using True by fastforce
    then have "count_list (d # xs) n = 0" by (simp only: count_list_0_iff not_False_eq_True)
    moreover have "count_list (a # b # c # d # xs) n = count_list [a, b, c] n + count_list (d # xs) n" by simp
    moreover have "count_list [a, b, c] n \<le> 3" by simp
    ultimately show ?thesis by linarith
  next
    case False
    then show ?thesis using 1 by simp
  qed
qed auto

lemma area_facts:
  assumes "numbers_ok k (area_sorted a)"
  shows "card (set (area_numbers a)) = k" "count_list (area_numbers a) n \<le> 3" "n \<in> set (area_numbers a) \<Longrightarrow> 0 \<le> n \<and> n < 1000000"
proof -
  note ok = assms [unfolded numbers_ok_def]
  have "sorted_wrt (<) (remdups_adj (area_sorted a))" "sorted (area_sorted a)"
    using ok by (simp_all add: successively_conv_sorted_wrt)
  then have "distinct (remdups_adj (area_sorted a))" "count_list (area_sorted a) n \<le> 3"
    using ok by (auto simp: strict_sorted_iff intro: no_four_count)
  then have "card (set (area_sorted a)) = k" "count_list (area_sorted a) n \<le> 3"
    using ok distinct_card [of "remdups_adj (area_sorted a)"] by simp_all
  moreover have "set (area_sorted a) = set (area_numbers a)" using mset_area_sorted [of a] by (rule mset_eq_setD)
  moreover have "count_list (area_sorted a) n = count_list (area_numbers a) n" using mset_area_sorted [of a] by (metis count_mset)
  ultimately show "card (set (area_numbers a)) = k" "count_list (area_numbers a) n \<le> 3"
      "n \<in> set (area_numbers a) \<Longrightarrow> 0 \<le> n \<and> n < 1000000"
    using ok by (auto simp: list_all_iff)
qed

lemma area_in: "s \<in> set table_stops \<Longrightarrow> fst s \<in> set areas"
  using areas_all by (auto simp: list_all_iff)

lemmas area_checks = area_8220 area_8230 area_8240 area_8250 area_8350

lemma area_checked: "a \<in> set areas \<Longrightarrow> \<exists>k. numbers_ok k (area_sorted a)"
  unfolding areas_def using area_checks by fastforce

lemma table_stop_range:
  assumes "s \<in> set table_stops"
  shows "0 \<le> fst s \<and> fst s < 10 ^ 4 \<and> 0 \<le> snd s \<and> snd s < 10 ^ 6"
proof -
  have "snd s \<in> set (area_numbers (fst s))" using assms by (auto simp: area_numbers_def)
  moreover obtain k where "numbers_ok k (area_sorted (fst s))" using area_checked [OF area_in [OF assms]] by blast
  ultimately have "0 \<le> snd s \<and> snd s < 1000000" by (rule area_facts(3) [rotated])
  then show ?thesis using area_in [OF assms] by (auto simp: areas_def)
qed

lemma count_pairs: "count_list xs (a, n) = count_list (map snd (filter (\<lambda>s. fst s = a) xs)) n"
  by (induction xs) auto

lemma table_stop_count: "count_list table_stops s \<le> 3"
proof (cases "fst s \<in> set areas")
  case True
  then show ?thesis
    using area_checked area_facts(2) count_pairs [of table_stops "fst s" "snd s"] by (metis area_numbers_def prod.collapse)
next
  case False
  then have "s \<notin> set table_stops" using area_in by blast
  then show ?thesis by simp
qed

lemma table_stop_number: "card (set table_stops) = 587"
proof -
  have eq: "set table_stops = (\<Union>a \<in> set areas. Pair a ` set (area_numbers a))"
    using area_in by (force simp: area_numbers_def)
  have "card (set table_stops) = (\<Sum>a \<in> set areas. card (Pair a ` set (area_numbers a)))"
    unfolding eq by (rule card_UN_disjoint) auto
  also have "\<dots> = (\<Sum>a \<in> set areas. card (set (area_numbers a)))"
    by (intro sum.cong refl card_image) (simp add: inj_on_def)
  also have "\<dots> = 587"
    by (simp add: areas_def area_checks [THEN area_facts(1)])
  finally show ?thesis .
qed

subsection \<open>Identifiers\<close>

lemma length_fixed_digits [simp]: "length (fixed_digits k n) = k"
  by (induction k) auto

lemma decimal_char_inj:
  assumes "decimal_char (x mod 10) = decimal_char (y mod 10)"
  shows "x mod 10 = y mod 10"
proof -
  have "of_char (decimal_char (z mod 10)) = 48 + nat (z mod 10)" for z
    by (simp add: decimal_char_def nat_less_iff)
  then have "48 + nat (x mod 10) = 48 + nat (y mod 10)" using assms by metis
  then show ?thesis by simp
qed

lemma fixed_digits_inj: "fixed_digits k n = fixed_digits k m \<Longrightarrow> n mod 10 ^ k = m mod 10 ^ k"
proof (induction k)
  case (Suc k)
  then have "n div 10 ^ k mod 10 = m div 10 ^ k mod 10" "n mod 10 ^ k = m mod 10 ^ k"
    by (auto dest: decimal_char_inj)
  moreover have "z mod 10 ^ Suc k = 10 ^ k * (z div 10 ^ k mod 10) + z mod 10 ^ k" for z :: int
    using mod_mult2_eq' [of z "10 ^ k" 10] by (simp add: mult.commute)
  ultimately show ?case by simp
qed simp

lemma stop_id_text_inj: "inj_on stop_id_text (set table_stops)"
proof (rule inj_onI)
  fix s s' assume s: "s \<in> set table_stops" "s' \<in> set table_stops" "stop_id_text s = stop_id_text s'"
  then have "fixed_digits 4 (fst s) = fixed_digits 4 (fst s')" "fixed_digits 6 (snd s) = fixed_digits 6 (snd s')"
    by (simp_all add: stop_id_text_def)
  from this [THEN fixed_digits_inj] show "s = s'" using table_stop_range [OF s(1)] table_stop_range [OF s(2)] by (simp add: prod_eq_iff)
qed

lemma configured_stop_ids: "all_stop_ids configured_routes = map stop_id_text table_stops"
  by (simp add: all_stop_ids_def configured_routes_def table_stops_def map_concat comp_def case_prod_unfold)

lemma configured_stop_number: "card (set (all_stop_ids configured_routes)) = 587"
  by (simp add: configured_stop_ids card_image [OF stop_id_text_inj] table_stop_number)

lemma count_list_map_inj: "inj_on f (insert x (set xs)) \<Longrightarrow> count_list (map f xs) (f x) = count_list xs x"
  by (induction xs) (auto simp: inj_on_def)

lemma configured_stop_count: "count_list (all_stop_ids configured_routes) sid \<le> 3"
proof (cases "sid \<in> set (all_stop_ids configured_routes)")
  case True
  then obtain s where "sid = stop_id_text s" "s \<in> set table_stops" by (auto simp: configured_stop_ids)
  then show ?thesis
    using count_list_map_inj [of stop_id_text s table_stops] stop_id_text_inj table_stop_count [of s] by (simp add: configured_stop_ids insert_absorb)
next
  case False
  then show ?thesis by simp
qed

subsection \<open>The simulator of these routes\<close>

lemma configured_stops:
  assumes "sim_reachable env configured_routes self" "draws_fair env"
  shows "length (or_stops self) = 587" "distinct (stop_ids self)" "set (stop_ids self) = set (all_stop_ids configured_routes)"
proof -
  have ids: "stop_ids self = rev (remdups (rev (all_stop_ids configured_routes)))" using reachable_stops [OF assms] by blast
  have "length (or_stops self) = length (stop_ids self)" by (simp add: stop_ids_def)
  then show "length (or_stops self) = 587"
    unfolding ids by (simp only: length_rev length_remdups_card_conv set_rev configured_stop_number)
  show "distinct (stop_ids self)" "set (stop_ids self) = set (all_stop_ids configured_routes)"
    unfolding ids by simp_all
qed

theorem configured_counts_bounded:
  assumes "draws_fair env" "sim_reachable env configured_routes self" "run_once env p self = (r, self')"
  shows "\<exists>msgs. or_published self' = or_published self @ msgs \<and>
    (\<forall>m \<in> set msgs. \<exists>sid n ts. m = crowd_count_message env sid n ts \<and> sid \<in> set (all_stop_ids configured_routes) \<and> 0 \<le> n \<and> n \<le> 60)"
proof -
  obtain msgs where m: "or_published self' = or_published self @ msgs"
    and ok: "\<And>m. m \<in> set msgs \<Longrightarrow> \<exists>sid n ts. m = crowd_count_message env sid n ts \<and>
      sid \<in> set (all_stop_ids configured_routes) \<and> 0 \<le> n \<and> n \<le> peak_count (count_list (all_stop_ids configured_routes) sid)"
    using run_once_steps [OF assms(3)] reachable_stops [OF assms(2,1)] count_messages_bounded by blast
  have peak: "peak_count (count_list (all_stop_ids configured_routes) sid) \<le> 60" for sid
    using peak_count_mono [OF configured_stop_count [of sid]] peak_count_three by simp
  have "\<exists>sid n ts. x = crowd_count_message env sid n ts \<and> sid \<in> set (all_stop_ids configured_routes) \<and> 0 \<le> n \<and> n \<le> 60"
    if "x \<in> set msgs" for x
    using ok [OF that] order_trans [OF _ peak] by blast
  then show ?thesis using m by blast
qed

text \<open>
  C35: the configured simulator starts with a burst.  The routes of the configuration have
  587 different stops, none in more than three places.  The offsets that the constructor
  gives them spread their first messages over 15 seconds, but the backfill pauses 0.05 seconds
  after each stop, so it takes at least 29: when the loop starts after it, the first pass finds
  all of them due, and publishes one message for each of the 587 stops, in the order of the
  routes, all at once; every count is between 0 and 60.  The draws are in their ranges, the
  clock starts between 0 and \<open>2 ^ 40\<close> seconds and does not run backwards, and a sleep takes as
  long as asked.
\<close>

theorem configured_backfill_bursts:
  assumes "draws_fair env" "sleeps fill"
    and "backfill env fill (publish_status env True (new_orchestrator env clk configured_routes g)) = (n, tm, self)"
    and "0 \<le> bc_built clk" "bc_built clk \<le> 2 ^ 40" "bc_built clk \<le> fc_mono fill" "tm \<le> ps_mono p"
  shows "\<exists>msgs. or_published (snd (run_once env p self)) = or_published self @ msgs \<and> length msgs = 587 \<and>
    map fst msgs = map (\<lambda>sid. ''edge/'' @ sid @ ''/crowdCount'') (rev (remdups (rev (all_stop_ids configured_routes)))) \<and>
    (\<forall>m \<in> set msgs. \<exists>sid n ts. m = crowd_count_message env sid n ts \<and> 0 \<le> n \<and> n \<le> 60)"
proof -
  have self: "self = snd (snd (backfill env fill (publish_status env True (new_orchestrator env clk configured_routes g))))"
    using assms(3) by simp
  have reach: "sim_reachable env configured_routes self" unfolding self by (intro sim_reachable.intros)
  note stops = configured_stops [OF reach assms(1)]
  have "fadd (bc_built clk) 15 \<le> bc_built clk + of_nat (length (or_stops self)) * backfill_stagger"
    using backfill_takes [of "length (or_stops self)" "bc_built clk"] stops(1) assms(4,5) by simp
  then have "fadd (bc_built clk) 15 \<le> ps_mono p" using backfill_lasts [OF assms(3,2)] assms(6,7) by linarith
  then obtain msgs where m: "or_published (snd (run_once env p self)) = or_published self @ msgs"
      "map fst msgs = map (\<lambda>sid. ''edge/'' @ sid @ ''/crowdCount'') (stop_ids self)"
    using all_due_burst [OF self] stops(1) by auto
  obtain msgs' where c: "or_published (snd (run_once env p self)) = or_published self @ msgs'"
      "\<forall>m \<in> set msgs'. \<exists>sid n ts. m = crowd_count_message env sid n ts \<and> sid \<in> set (all_stop_ids configured_routes) \<and> 0 \<le> n \<and> n \<le> 60"
    using configured_counts_bounded [OF assms(1) reach prod.collapse [symmetric]] by blast
  then have eq: "msgs' = msgs" using m(1) by simp
  have "length msgs = 587" using arg_cong [OF m(2), of length] stops(1) by (simp add: stop_ids_def)
  moreover have "stop_ids self = rev (remdups (rev (all_stop_ids configured_routes)))" using reachable_stops [OF reach assms(1)] by blast
  ultimately show ?thesis using m c(2) unfolding eq by metis
qed

theorem configured_backfill_bursts_witness:
  "\<exists>msgs n tm self. backfill example_sim_env example_fill (publish_status example_sim_env True
       (new_orchestrator example_sim_env example_build configured_routes 0)) = (n, tm, self) \<and> tm \<le> 30 \<and>
     or_published (snd (run_once example_sim_env (example_pass 30) self)) = or_published self @ msgs \<and> length msgs = 587"
proof -
  obtain n tm self where b: "backfill example_sim_env example_fill (publish_status example_sim_env True
       (new_orchestrator example_sim_env example_build configured_routes 0)) = (n, tm, self)" by (metis prod_cases3)
  have "sim_reachable example_sim_env configured_routes (snd (snd (backfill example_sim_env example_fill (publish_status example_sim_env True
       (new_orchestrator example_sim_env example_build configured_routes 0)))))" by (intro sim_reachable.intros)
  then have "length (or_stops self) = 587" using configured_stops [OF _ example_fair] by (simp add: b)
  moreover have "backfill_stagger \<le> 51 / 1000" by (simp add: backfill_stagger_def fl_eval)
  ultimately have tm: "tm \<le> 30" using example_fill_lasts [OF b] by simp
  then have late: "tm \<le> ps_mono (example_pass 30)" by (simp add: example_pass_mono)
  have "0 \<le> bc_built example_build" "bc_built example_build \<le> 2 ^ 40" "bc_built example_build \<le> fc_mono example_fill"
    by (simp_all add: example_build_def example_fill_sleeps)
  from configured_backfill_bursts [OF example_fair example_fill_sleeps(1) b this late] b tm show ?thesis by blast
qed

end
