(* ===== verification/Service_Config.thy ===== *)
theory Service_Config
  imports Trip_Feed Supervisor_Run Edge_Run Service_Cli Api_Server External_Api Simulator
begin

text \<open>
  What the services read from the environment when they start: the \<open>config.py\<close> of \<open>Edge\<close>,
  \<open>MQTTBroker\<close>, \<open>Database\<close>, \<open>GTFS_RT\<close>, \<open>Simulator\<close> and \<open>External API\<close>, the constants of \<open>runtime_supervisor.py\<close>
  and \<open>API/main.py\<close>, and the environment that the supervisor hands on.  \<open>float\<close> of a string is an
  input.  Properties: which values end a service, which values hold without any, and what the
  health report knows of the configuration.
\<close>

type_synonym environ = "(string, string) dict"

type_synonym float_parser = "string \<Rightarrow> pyfloat result"

text \<open>\<open>float(os.environ.get(key, dflt))\<close>, with the value of the default text.\<close>

definition environ_float :: "float_parser \<Rightarrow> environ \<Rightarrow> string \<Rightarrow> pyfloat \<Rightarrow> pyfloat result" where
  "environ_float parse environ key dflt = (case dict_get environ key of None \<Rightarrow> Inr dflt | Some s \<Rightarrow> parse s)"

subsection \<open>The message broker\<close>

text \<open>The address and the certificates, which three services read the same way.\<close>

record broker_address =
  ba_host :: string
  ba_port :: int
  ba_ca_cert :: string
  ba_client_cert :: string
  ba_client_key :: string

definition read_broker_address :: "environ \<Rightarrow> broker_address result" where
  "read_broker_address environ =
     bind_result (environ_int environ ''MQTT_BROKER_PORT'' 8883) (\<lambda>port. Inr
       \<lparr>ba_host = environ_str environ ''MQTT_BROKER_HOST'' ''localhost'', ba_port = port,
        ba_ca_cert = environ_str environ ''MQTT_CA_CERT'' ''docker/mosquitto/certs/ca.crt'',
        ba_client_cert = environ_str environ ''MQTT_CLIENT_CERT'' ''docker/mosquitto/certs/client.crt'',
        ba_client_key = environ_str environ ''MQTT_CLIENT_KEY'' ''docker/mosquitto/certs/client.key''\<rparr>)"

record handler_config =
  hc_broker :: broker_address
  hc_images_dir :: string
  hc_data_dir :: string
  hc_chunk_size :: int
  hc_ack_timeout :: int
  hc_inter_chunk_delay :: pyfloat

definition read_handler_config :: "float_parser \<Rightarrow> environ \<Rightarrow> handler_config result" where
  "read_handler_config parse environ =
     bind_result (read_broker_address environ) (\<lambda>address.
     bind_result (environ_int environ ''MODEL_CHUNK_SIZE'' (256 * 1024)) (\<lambda>chunk_size.
     bind_result (environ_int environ ''MODEL_ACK_TIMEOUT'' 300) (\<lambda>ack_timeout.
     bind_result (environ_float parse environ ''INTER_CHUNK_DELAY'' (fl (1 / 100))) (\<lambda>delay. Inr
       \<lparr>hc_broker = address, hc_images_dir = environ_str environ ''RECEIVED_IMAGES_DIR'' ''received/images'',
        hc_data_dir = environ_str environ ''RECEIVED_DATA_DIR'' ''received/data'', hc_chunk_size = chunk_size,
        hc_ack_timeout = ack_timeout, hc_inter_chunk_delay = delay\<rparr>))))"

subsection \<open>Devices\<close>

text \<open>\<open>edge_dir\<close> is the directory of the package.\<close>

record device_config =
  vc_broker :: broker_address
  vc_device_id :: string
  vc_topic_prefix :: string
  vc_current_dir :: string
  vc_backup_dir :: string
  vc_model_filename :: string
  vc_current_path :: string
  vc_save_dir :: string
  vc_camera_index :: string

definition read_device_identity :: "environ \<Rightarrow> (broker_address \<times> string \<times> string) result" where
  "read_device_identity environ =
     bind_result (read_broker_address environ) (\<lambda>address.
       let device_id = environ_str environ ''EDGE_DEVICE_ID'' ''edge-001'' in Inr (address, device_id, ''edge/'' @ device_id))"

definition read_device_config :: "string \<Rightarrow> environ \<Rightarrow> device_config result" where
  "read_device_config edge_dir environ =
     bind_result (read_device_identity environ) (\<lambda>(address, device_id, topic_prefix).
       let current_dir = environ_str environ ''CURRENT_MODEL_DIR'' (path_join (path_join edge_dir ''models'') ''current'');
           filename = environ_str environ ''MODEL_FILENAME'' ''best.pt''
       in Inr \<lparr>vc_broker = address, vc_device_id = device_id, vc_topic_prefix = topic_prefix,
                vc_current_dir = current_dir,
                vc_backup_dir = environ_str environ ''BACKUP_MODEL_DIR'' (path_join (path_join edge_dir ''models'') ''backup''),
                vc_model_filename = filename, vc_current_path = path_join current_dir filename,
                vc_save_dir = environ_str environ ''MODEL_SAVE_DIR'' (path_join edge_dir ''models''),
                vc_camera_index = environ_str environ ''CAMERA_DEVICE_INDEX'' ''0''\<rparr>)"

text \<open>The parts that \<open>main\<close> of the device hands to camera and model manager.\<close>

definition edge_config_of :: "device_config \<Rightarrow> edge_config" where
  "edge_config_of cfg =
     \<lparr>ec_device_id = vc_device_id cfg, ec_camera_index = vc_camera_index cfg, ec_model_filename = vc_model_filename cfg,
      ec_backup_path = path_join (vc_backup_dir cfg) (vc_model_filename cfg)\<rparr>"

text \<open>\<open>RuntimeSettings()\<close>, and the setters of its properties; \<open>get_setting\<close> is the getters.\<close>

definition read_settings :: "float_parser \<Rightarrow> environ \<Rightarrow> settings result" where
  "read_settings parse environ =
     bind_result (environ_float parse environ ''CAPTURE_INTERVAL'' 10) (\<lambda>capture_interval.
     bind_result (environ_float parse environ ''IMAGE_SEND_INTERVAL'' 30) (\<lambda>image_send_interval.
     bind_result (environ_float parse environ ''CONF_THRESHOLD'' (1 / 4)) (\<lambda>conf_threshold. Inr
       \<lparr>cf_pipeline_active = True, cf_capture_interval = capture_interval, cf_image_send_interval = image_send_interval,
        cf_conf_threshold = conf_threshold, cf_zone = environ_str environ ''ZONE'' ''default''\<rparr>)))"

definition assign_setting :: "device_env \<Rightarrow> string \<Rightarrow> json \<Rightarrow> settings \<Rightarrow> settings result" where
  "assign_setting env key v self = bind_result (convert_setting env key v) (\<lambda>v'. Inr (set_setting key v' self))"

subsection \<open>The simulator\<close>

record simulator_config =
  mc_broker :: broker_address
  mc_time_scale :: pyfloat
  mc_random_seed :: "int option"

text \<open>An empty seed counts as none.\<close>

definition read_random_seed :: "environ \<Rightarrow> int option result" where
  "read_random_seed environ =
     (case dict_get environ ''SIM_RANDOM_SEED'' of
        None \<Rightarrow> Inr None
      | Some s \<Rightarrow> if s = [] then Inr None else bind_result (py_int s) (\<lambda>n. Inr (Some n)))"

definition read_simulator_config :: "float_parser \<Rightarrow> environ \<Rightarrow> simulator_config result" where
  "read_simulator_config parse environ =
     bind_result (read_broker_address environ) (\<lambda>address.
     bind_result (environ_float parse environ ''SIM_TIME_SCALE'' 1) (\<lambda>time_scale.
     bind_result (read_random_seed environ) (\<lambda>seed. Inr
       \<lparr>mc_broker = address, mc_time_scale = time_scale, mc_random_seed = seed\<rparr>)))"

subsection \<open>The database\<close>

record db_config =
  bc_host :: string
  bc_port :: int
  bc_name :: string
  bc_user :: string
  bc_password :: string
  bc_min_connections :: int
  bc_max_connections :: int

definition read_db_config :: "environ \<Rightarrow> db_config result" where
  "read_db_config environ =
     bind_result (environ_int environ ''DB_PORT'' 5432) (\<lambda>port.
     bind_result (environ_int environ ''DB_MIN_CONNECTIONS'' 2) (\<lambda>min_connections.
     bind_result (environ_int environ ''DB_MAX_CONNECTIONS'' 10) (\<lambda>max_connections. Inr
       \<lparr>bc_host = environ_str environ ''DB_HOST'' ''localhost'', bc_port = port,
        bc_name = environ_str environ ''DB_NAME'' ''transitflow'', bc_user = environ_str environ ''DB_USER'' ''transitflow'',
        bc_password = environ_str environ ''DB_PASSWORD'' ''transitflow_dev'',
        bc_min_connections = min_connections, bc_max_connections = max_connections\<rparr>)))"

text \<open>The bounds of a pool: an argument that is absent or zero leaves the configured one.\<close>

definition pool_bounds :: "db_config \<Rightarrow> int option \<Rightarrow> int option \<Rightarrow> int \<times> int" where
  "pool_bounds cfg min_conn max_conn =
     ((case min_conn of None \<Rightarrow> bc_min_connections cfg | Some n \<Rightarrow> if n = 0 then bc_min_connections cfg else n),
      (case max_conn of None \<Rightarrow> bc_max_connections cfg | Some n \<Rightarrow> if n = 0 then bc_max_connections cfg else n))"

subsection \<open>The feed\<close>

record fetch_config =
  fc_api_url :: string
  fc_api_key :: string
  fc_format :: string
  fc_poll_interval :: int
  fc_request_timeout :: int
  fc_agency_filter :: string
  fc_retain_fetches :: int

definition min_poll_interval :: int where
  "min_poll_interval = 60"

definition read_fetch_config :: "environ \<Rightarrow> fetch_config result" where
  "read_fetch_config environ =
     bind_result (environ_int environ ''GTFSR_POLL_INTERVAL'' 60) (\<lambda>poll_interval.
     bind_result (environ_int environ ''GTFSR_REQUEST_TIMEOUT'' 30) (\<lambda>request_timeout.
     bind_result (environ_int environ ''GTFSR_RETAIN_FETCHES'' 20) (\<lambda>retain_fetches. Inr
       \<lparr>fc_api_url = environ_str environ ''GTFSR_API_URL'' ''https://api.nationaltransport.ie/gtfsr/v2/gtfsr'',
        fc_api_key = environ_str environ ''GTFSR_API_KEY'' [], fc_format = environ_str environ ''GTFSR_FORMAT'' ''pb'',
        fc_poll_interval = max min_poll_interval poll_interval, fc_request_timeout = request_timeout,
        fc_agency_filter = environ_str environ ''GTFSR_AGENCY_FILTER'' ''7778019'', fc_retain_fetches = retain_fetches\<rparr>)))"

subsection \<open>The prediction thread and the dashboard\<close>

definition read_thread_config :: "float_parser \<Rightarrow> environ \<Rightarrow> thread_config result" where
  "read_thread_config parse environ =
     bind_result (environ_float parse environ ''PREDICTION_DEBOUNCE_S'' 5) (\<lambda>debounce.
     bind_result (environ_float parse environ ''PREDICTION_CYCLE_INTERVAL_S'' 120) (\<lambda>interval.
     bind_result (environ_float parse environ ''PREDICTION_ALIGHTING_FRACTION'' (fl (5 / 100))) (\<lambda>alighting_fraction.
     bind_result (environ_int environ ''PREDICTION_DEFAULT_CAPACITY'' 80) (\<lambda>capacity.
     bind_result (environ_float parse environ ''PREDICTION_OCCUPANCY_THRESHOLD'' (fl (9 / 10))) (\<lambda>occupancy_threshold.
     bind_result (environ_int environ ''PREDICTION_MIN_STRANDED'' 5) (\<lambda>min_stranded.
     bind_result (environ_float parse environ ''PREDICTION_MIN_CONFIDENCE'' (fl (3 / 10))) (\<lambda>min_confidence. Inr
       \<lparr>tc_cycle = \<lparr>cy_capacity = capacity, cy_engine = \<lparr>pc_alighting_fraction = alighting_fraction\<rparr>,
          cy_evaluator = \<lparr>te_occupancy_threshold = occupancy_threshold, te_min_stranded = min_stranded,
            te_min_confidence = min_confidence\<rparr>\<rparr>,
        tc_debounce = debounce, tc_interval = interval\<rparr>)))))))"

definition read_coalesce_window :: "float_parser \<Rightarrow> environ \<Rightarrow> pyfloat result" where
  "read_coalesce_window parse environ =
     bind_result (environ_float parse environ ''DASHBOARD_COALESCE_MS'' 500) (\<lambda>ms. Inr (fdiv ms 1000))"

subsection \<open>The public API\<close>

text \<open>\<open>_int_env\<close> catches what a missing or malformed value raises.\<close>

definition int_env :: "environ \<Rightarrow> string \<Rightarrow> int \<Rightarrow> int result" where
  "int_env environ key dflt =
     (case (case dict_get environ key of None \<Rightarrow> Inl (KeyError key) | Some s \<Rightarrow> py_int s) of
        Inr n \<Rightarrow> Inr n
      | Inl (KeyError _) \<Rightarrow> Inr dflt
      | Inl ValueError \<Rightarrow> Inr dflt
      | Inl e \<Rightarrow> Inl e)"

definition read_light_config :: "environ \<Rightarrow> (light_config \<times> int) result" where
  "read_light_config environ =
     bind_result (int_env environ ''WAIT_AMBER'' 5) (\<lambda>wait_amber.
     bind_result (int_env environ ''WAIT_RED'' 15) (\<lambda>wait_red.
     bind_result (int_env environ ''OCC_AMBER'' 50) (\<lambda>occ_amber.
     bind_result (int_env environ ''OCC_RED'' 80) (\<lambda>occ_red.
     bind_result (int_env environ ''EXTERNAL_API_PORT'' 8100) (\<lambda>port. Inr
       (\<lparr>lc_wait_amber = wait_amber, lc_wait_red = wait_red, lc_occ_amber = occ_amber, lc_occ_red = occ_red\<rparr>, port))))))"

subsection \<open>What the supervisor hands on\<close>

text \<open>
  The variables that each worker gets on top of the environment of the supervisor; the workers
  are those of \<open>supervised_workers\<close>.
\<close>

definition worker_extras :: "string \<Rightarrow> (string \<times> environ) list" where
  "worker_extras api_key =
     [(''mqtt'', [(''MQTT_SERVICE_MODE'', ''1''), (''PYTHONPATH'', ''src'')]),
      (''api'', [(''PYTHONPATH'', ''src''), (''GTFS_RT_STATUS'', if api_key \<noteq> [] then ''enabled'' else ''disabled'')])] @
     (if api_key \<noteq> [] then [(''gtfs_rt'', [(''PYTHONPATH'', ''src'')])] else [])"

definition worker_environ :: "environ \<Rightarrow> environ \<Rightarrow> environ" where
  "worker_environ environ extra = foldl (\<lambda>d (k, v). dict_set d k v) environ extra"

definition supervised_environ :: "environ \<Rightarrow> string \<Rightarrow> environ option" where
  "supervised_environ environ name =
     map_option (worker_environ environ) (map_of (worker_extras (environ_str environ ''GTFSR_API_KEY'' [])) name)"

definition service_mode :: "environ \<Rightarrow> bool" where
  "service_mode environ \<longleftrightarrow> environ_str environ ''MQTT_SERVICE_MODE'' [] \<noteq> []"

text \<open>
  The fetcher process: \<open>load_dotenv\<close>, of a library, adds the variables of the file \<open>.env\<close>, and by
  its documentation leaves those that are set; then the modules are imported, which reads
  both configurations, and \<open>main\<close> runs.
\<close>

definition leaves_set :: "(environ \<Rightarrow> environ) \<Rightarrow> bool" where
  "leaves_set load_dotenv \<longleftrightarrow> (\<forall>environ key v. dict_get environ key = Some v \<longrightarrow> dict_get (load_dotenv environ) key = Some v)"

definition fetcher_process ::
    "(environ \<Rightarrow> environ) \<Rightarrow> environ \<Rightarrow> bool \<Rightarrow> bool \<Rightarrow> outages \<Rightarrow> poll list \<Rightarrow> database session \<Rightarrow>
     (int \<times> bool \<times> fetcher \<times> database session) result" where
  "fetcher_process load_dotenv environ opens once up ps s =
     bind_result (read_db_config (load_dotenv environ)) (\<lambda>_.
     bind_result (read_fetch_config (load_dotenv environ)) (\<lambda>cfg.
       Inr (fetcher_main (fc_api_key cfg) (fc_retain_fetches cfg) (fc_agency_filter cfg) opens once up ps s)))"

subsection \<open>Malformed values\<close>

definition int_ok :: "environ \<Rightarrow> string \<Rightarrow> bool" where
  "int_ok environ key \<longleftrightarrow> (case dict_get environ key of None \<Rightarrow> True | Some s \<Rightarrow> \<exists>n. py_int s = Inr n)"

definition float_ok :: "float_parser \<Rightarrow> environ \<Rightarrow> string \<Rightarrow> bool" where
  "float_ok parse environ key \<longleftrightarrow> (case dict_get environ key of None \<Rightarrow> True | Some s \<Rightarrow> \<exists>x. parse s = Inr x)"

definition seed_ok :: "environ \<Rightarrow> bool" where
  "seed_ok environ \<longleftrightarrow> dict_get environ ''SIM_RANDOM_SEED'' = Some [] \<or> int_ok environ ''SIM_RANDOM_SEED''"

text \<open>A value when \<open>ok\<close>, and \<open>ValueError\<close> when not.\<close>

definition raises_unless :: "bool \<Rightarrow> 'a result \<Rightarrow> bool" where
  "raises_unless ok r \<longleftrightarrow> (if ok then \<exists>c. r = Inr c else r = Inl ValueError)"

definition parser_law :: "float_parser \<Rightarrow> bool" where
  "parser_law parse \<longleftrightarrow> (\<forall>s e. parse s = Inl e \<longrightarrow> e = ValueError)"

lemma unsigned_value_error: "unsigned_value s = Inl e \<Longrightarrow> e = ValueError"
  by (auto simp: unsigned_value_def split: if_splits)

lemma py_int_error: "py_int s = Inl e \<Longrightarrow> e = ValueError"
  by (auto simp: py_int_def bind_result_def dest: unsigned_value_error split: list.splits if_splits sum.splits)

lemma raises_unless_Inr: "raises_unless True (Inr c)"
  by (simp add: raises_unless_def)

lemma raises_unless_bind:
  "raises_unless ok r \<Longrightarrow> (\<And>x. raises_unless ok' (f x)) \<Longrightarrow> raises_unless (ok \<and> ok') (bind_result r f)"
  by (auto simp: raises_unless_def bind_result_def split: if_splits)

lemma raises_unless_int: "raises_unless (int_ok environ key) (environ_int environ key dflt)"
proof (cases "dict_get environ key")
  case (Some s)
  then show ?thesis using py_int_error [of s] by (cases "py_int s") (auto simp: raises_unless_def int_ok_def environ_int_def)
qed (simp add: raises_unless_def int_ok_def environ_int_def)

lemma raises_unless_float:
  assumes "parser_law parse"
  shows "raises_unless (float_ok parse environ key) (environ_float parse environ key dflt)"
proof (cases "dict_get environ key")
  case (Some s)
  then show ?thesis
    using assms by (cases "parse s") (auto simp: raises_unless_def float_ok_def environ_float_def parser_law_def)
qed (simp add: raises_unless_def float_ok_def environ_float_def)

lemma raises_unless_seed: "raises_unless (seed_ok environ) (read_random_seed environ)"
proof (cases "dict_get environ ''SIM_RANDOM_SEED''")
  case (Some s)
  have "raises_unless (int_ok environ ''SIM_RANDOM_SEED'' \<and> True) (bind_result (py_int s) (\<lambda>n. Inr (Some n)))"
    using raises_unless_int [of environ "''SIM_RANDOM_SEED''" 0] Some
    by (intro raises_unless_bind raises_unless_Inr) (simp add: environ_int_def)
  then show ?thesis using Some by (auto simp: raises_unless_def read_random_seed_def seed_ok_def)
qed (simp add: raises_unless_def seed_ok_def read_random_seed_def int_ok_def)

lemma raises_unless_Nil: "raises_unless (list_all P []) (Inr c)"
  by (simp add: raises_unless_def)

lemma raises_unless_cong: "raises_unless ok r \<Longrightarrow> ok = ok' \<Longrightarrow> raises_unless ok' r"
  by simp

lemmas raises_unless_intros = raises_unless_bind raises_unless_Inr raises_unless_Nil raises_unless_int raises_unless_float raises_unless_seed

lemma raises_unless_address: "raises_unless (int_ok environ ''MQTT_BROKER_PORT'') (read_broker_address environ)"
  using raises_unless_bind [OF raises_unless_int raises_unless_Inr] unfolding read_broker_address_def by simp

lemma int_env_total: "\<exists>n. int_env environ key dflt = Inr n"
proof (cases "dict_get environ key")
  case (Some s)
  then show ?thesis using py_int_error [of s] by (cases "py_int s") (auto simp: int_env_def)
qed (simp add: int_env_def)

lemma read_light_config_total: "\<exists>c. read_light_config environ = Inr c"
proof -
  have "raises_unless True (int_env environ key dflt)" for key dflt
    using int_env_total by (simp add: raises_unless_def)
  then have "raises_unless (True \<and> True \<and> True \<and> True \<and> True \<and> True) (read_light_config environ)"
    unfolding read_light_config_def by (intro raises_unless_bind raises_unless_Inr)
  then show ?thesis by (simp add: raises_unless_def)
qed

lemma raises_unless_db:
  "raises_unless (list_all (int_ok environ) [''DB_PORT'', ''DB_MIN_CONNECTIONS'', ''DB_MAX_CONNECTIONS'']) (read_db_config environ)"
  unfolding read_db_config_def by (rule raises_unless_cong, (rule raises_unless_intros)+) simp

lemma raises_unless_fetch:
  "raises_unless (list_all (int_ok environ) [''GTFSR_POLL_INTERVAL'', ''GTFSR_REQUEST_TIMEOUT'', ''GTFSR_RETAIN_FETCHES''])
     (read_fetch_config environ)"
  unfolding read_fetch_config_def by (rule raises_unless_cong, (rule raises_unless_intros)+) simp

lemma raises_unless_identity: "raises_unless (int_ok environ ''MQTT_BROKER_PORT'') (read_device_identity environ)"
  unfolding read_device_identity_def Let_def
  by (rule raises_unless_cong, (rule raises_unless_intros raises_unless_address)+) simp

lemma raises_unless_device: "raises_unless (int_ok environ ''MQTT_BROKER_PORT'') (read_device_config edge_dir environ)"
  unfolding read_device_config_def Let_def case_prod_unfold
  by (rule raises_unless_cong, (rule raises_unless_intros raises_unless_identity)+) simp

lemma raises_unless_handler:
  assumes "parser_law parse"
  shows "raises_unless (list_all (int_ok environ) [''MQTT_BROKER_PORT'', ''MODEL_CHUNK_SIZE'', ''MODEL_ACK_TIMEOUT''] \<and>
    float_ok parse environ ''INTER_CHUNK_DELAY'') (read_handler_config parse environ)"
  unfolding read_handler_config_def
  by (rule raises_unless_cong, (rule raises_unless_intros raises_unless_address assms)+) simp

lemma raises_unless_settings:
  assumes "parser_law parse"
  shows "raises_unless (list_all (float_ok parse environ) [''CAPTURE_INTERVAL'', ''IMAGE_SEND_INTERVAL'', ''CONF_THRESHOLD''])
    (read_settings parse environ)"
  unfolding read_settings_def
  by (rule raises_unless_cong, (rule raises_unless_intros assms)+) simp

lemma raises_unless_simulator:
  assumes "parser_law parse"
  shows "raises_unless (int_ok environ ''MQTT_BROKER_PORT'' \<and> float_ok parse environ ''SIM_TIME_SCALE'' \<and> seed_ok environ)
    (read_simulator_config parse environ)"
  unfolding read_simulator_config_def
  by (rule raises_unless_cong, (rule raises_unless_intros raises_unless_address assms)+) simp

lemma raises_unless_thread:
  assumes "parser_law parse"
  shows "raises_unless (list_all (float_ok parse environ) [''PREDICTION_DEBOUNCE_S'', ''PREDICTION_CYCLE_INTERVAL_S'',
      ''PREDICTION_ALIGHTING_FRACTION'', ''PREDICTION_OCCUPANCY_THRESHOLD'', ''PREDICTION_MIN_CONFIDENCE''] \<and>
    list_all (int_ok environ) [''PREDICTION_DEFAULT_CAPACITY'', ''PREDICTION_MIN_STRANDED'']) (read_thread_config parse environ)"
  unfolding read_thread_config_def
  by (rule raises_unless_cong, (rule raises_unless_intros assms)+) auto

lemma raises_unless_window:
  assumes "parser_law parse"
  shows "raises_unless (float_ok parse environ ''DASHBOARD_COALESCE_MS'') (read_coalesce_window parse environ)"
  unfolding read_coalesce_window_def
  by (rule raises_unless_cong, (rule raises_unless_intros assms)+) simp


text \<open>A parser of one number; a file of settings with a word where a number belongs.\<close>

definition example_parser :: float_parser where
  "example_parser s = (if s = ''0.5'' then Inr (1 / 2) else Inl ValueError)"

lemma example_parser_law: "parser_law example_parser"
  by (simp add: parser_law_def example_parser_def)


subsection \<open>Defaults\<close>

text \<open>
  Without any variable set the services have the constants that the models of their parts use.
\<close>

theorem default_configuration:
  "read_settings parse [] = Inr new_settings"
  "map_sum id hc_chunk_size (read_handler_config parse []) = Inr model_chunk_size"
  "map_sum id tc_cycle (read_thread_config parse []) =
     Inr \<lparr>cy_capacity = 80, cy_engine = default_prediction_config, cy_evaluator = default_threshold_evaluator\<rparr>"
  "read_coalesce_window parse [] = Inr (1 / 2)"
  "read_light_config [] = Inr (default_light_config, 8100)"
  "map_sum id fc_poll_interval (read_fetch_config []) = Inr 60"
  "map_sum id (\<lambda>c. pool_bounds c None (Some 0)) (read_db_config []) = Inr (2, 10)"
  "map_sum id edge_config_of (read_device_config edge_dir []) =
     Inr \<lparr>ec_device_id = ''edge-001'', ec_camera_index = ''0'', ec_model_filename = ''best.pt'',
          ec_backup_path = path_join (path_join (path_join edge_dir ''models'') ''backup'') ''best.pt''\<rparr>"
  by (simp_all add: read_settings_def environ_float_def environ_str_def environ_int_def bind_result_def dict_get_def new_settings_def
    read_handler_config_def read_broker_address_def model_chunk_size_def read_thread_config_def default_prediction_config_def
    default_alighting_fraction_def default_threshold_evaluator_def read_coalesce_window_def fdiv_def fl_eval read_light_config_def
    int_env_def default_light_config_def read_fetch_config_def min_poll_interval_def read_db_config_def pool_bounds_def
    read_device_config_def read_device_identity_def edge_config_of_def Let_def)

subsection \<open>Settings of a device\<close>

lemma set_get_setting:
  "key \<in> set known_keys \<Longrightarrow> convert_setting env key v = Inr v' \<Longrightarrow> get_setting self key = v' \<Longrightarrow> set_setting key v' self = self"
  by (auto simp: known_keys_def get_setting_def convert_setting_def bind_result_def split: sum.splits)

text \<open>An update of one setting does what the setter does; one that raises changes nothing.\<close>

theorem update_is_assignment:
  assumes "key \<in> set known_keys"
  shows "snd (update_settings env (JObj [(key, v)]) self) =
    (case assign_setting env key v self of Inl e \<Rightarrow> self | Inr self' \<Rightarrow> self')"
  using assms set_get_setting [OF assms, of env v _ self]
  by (auto simp: update_settings_def assign_setting_def bind_result_def split: sum.splits prod.splits)

subsection \<open>Under the supervisor\<close>

lemma worker_extras_names: "map fst (worker_extras api_key) = map wk_name (supervised_workers api_key)"
  by (simp add: worker_extras_def supervised_workers_def new_worker_def)

lemma worker_environ_get:
  "dict_get (worker_environ environ extra) key =
     (case map_of (rev extra) key of Some v \<Rightarrow> Some v | None \<Rightarrow> dict_get environ key)"
proof (induction extra arbitrary: environ)
  case (Cons kv extra)
  have "worker_environ environ (kv # extra) = worker_environ (dict_set environ (fst kv) (snd kv)) extra"
    by (simp add: worker_environ_def case_prod_unfold)
  then show ?case using Cons.IH by (auto simp: map_add_def dict_get_set split: option.split)
qed (simp add: worker_environ_def)

lemma supervised_fetcher:
  assumes "supervised_environ environ ''gtfs_rt'' = Some fetch_environ"
  shows "environ_str environ ''GTFSR_API_KEY'' [] \<noteq> []"
    and "key \<noteq> ''PYTHONPATH'' \<Longrightarrow> dict_get fetch_environ key = dict_get environ key"
  using assms by (auto simp: supervised_environ_def worker_extras_def worker_environ_get split: if_splits)

lemma health_report_facts:
  assumes "supervised_environ environ ''api'' = Some api_environ"
    and "health_report api_environ window started_at uptime db_ok self = Inr (JObj kvs)"
  shows "dict_get kvs ''gtfs_rt'' = Some (JStr (if supervised_environ environ ''gtfs_rt'' \<noteq> None then ''enabled'' else ''disabled''))"
    and "dict_get environ ''GTFS_RT_ERRORS'' = None \<Longrightarrow> dict_get kvs ''gtfs_rt_errors'' = Some (JInt 0)"
    and "supervised_environ environ ''gtfs_rt'' = Some fetch_environ \<Longrightarrow> leaves_set load_dotenv \<Longrightarrow>
      read_fetch_config (load_dotenv fetch_environ) = Inr cfg \<Longrightarrow> dict_get environ ''GTFSR_POLL_INTERVAL'' \<noteq> None \<Longrightarrow>
      \<exists>n. dict_get kvs ''gtfs_rt_poll_interval'' = Some (JInt n) \<and> fc_poll_interval cfg = max 60 n"
proof -
  let ?key = "environ_str environ ''GTFSR_API_KEY'' []"
  have e: "api_environ = worker_environ environ
      [(''PYTHONPATH'', ''src''), (''GTFS_RT_STATUS'', if ?key \<noteq> [] then ''enabled'' else ''disabled'')]"
    using assms(1) by (simp add: supervised_environ_def worker_extras_def)
  have same: "dict_get api_environ k = dict_get environ k" if "k \<noteq> ''PYTHONPATH''" "k \<noteq> ''GTFS_RT_STATUS''" for k
    using that by (simp add: e worker_environ_get)
  have status: "dict_get api_environ ''GTFS_RT_STATUS'' = Some (if ?key \<noteq> [] then ''enabled'' else ''disabled'')"
    by (simp add: e worker_environ_get)
  have started: "supervised_environ environ ''gtfs_rt'' \<noteq> None \<longleftrightarrow> ?key \<noteq> []"
    by (simp add: supervised_environ_def worker_extras_def)
  note r = assms(2) [unfolded health_report_def Let_def bind_result_def environ_int_def environ_str_def]
  show "dict_get kvs ''gtfs_rt'' = Some (JStr (if supervised_environ environ ''gtfs_rt'' \<noteq> None then ''enabled'' else ''disabled''))"
    unfolding started using r status by (auto simp: dict_get_def split: sum.splits)
  show "dict_get kvs ''gtfs_rt_errors'' = Some (JInt 0)" if "dict_get environ ''GTFS_RT_ERRORS'' = None"
    using r same [of "''GTFS_RT_ERRORS''"] that by (auto simp: dict_get_def split: sum.splits)
  show "\<exists>n. dict_get kvs ''gtfs_rt_poll_interval'' = Some (JInt n) \<and> fc_poll_interval cfg = max 60 n"
    if "supervised_environ environ ''gtfs_rt'' = Some fetch_environ" "leaves_set load_dotenv"
      "read_fetch_config (load_dotenv fetch_environ) = Inr cfg" "dict_get environ ''GTFSR_POLL_INTERVAL'' \<noteq> None"
  proof -
    note that4 = that(4)
    obtain v where v: "dict_get environ ''GTFSR_POLL_INTERVAL'' = Some v" using that4 by blast
    then have "dict_get (load_dotenv fetch_environ) ''GTFSR_POLL_INTERVAL'' = Some v"
      using that(2) supervised_fetcher(2) [OF that(1)] unfolding leaves_set_def by simp
    then have "\<exists>n. py_int v = Inr n \<and> fc_poll_interval cfg = max 60 n"
      using that(3) by (auto simp: read_fetch_config_def environ_int_def bind_result_def min_poll_interval_def split: sum.splits)
    moreover have "py_int v = Inr n \<Longrightarrow> dict_get kvs ''gtfs_rt_poll_interval'' = Some (JInt n)" for n
      using r same [of "''GTFSR_POLL_INTERVAL''"] v by (auto simp: dict_get_def split: sum.splits)
    ultimately show ?thesis by blast
  qed
qed

text \<open>
  C40: what the health report knows.  The API server that the supervisor starts reports the feed
  as enabled exactly when the supervisor also starts the fetcher, whatever becomes of it; the
  number of errors, which no process sets, is 0 in an environment without it; and the
  poll interval is the one that was asked for, while the fetcher waits at least a minute.
\<close>

theorem health_knows_only_configuration:
  assumes "supervised_environ environ ''api'' = Some api_environ"
    and "health_report api_environ window started_at uptime db_ok self = Inr (JObj kvs)"
  shows "dict_get kvs ''gtfs_rt'' = Some (JStr (if supervised_environ environ ''gtfs_rt'' \<noteq> None then ''enabled'' else ''disabled'')) \<and>
    (dict_get environ ''GTFS_RT_ERRORS'' = None \<longrightarrow> dict_get kvs ''gtfs_rt_errors'' = Some (JInt 0)) \<and>
    (supervised_environ environ ''gtfs_rt'' = Some fetch_environ \<and> leaves_set load_dotenv \<and>
      read_fetch_config (load_dotenv fetch_environ) = Inr cfg \<and> dict_get environ ''GTFSR_POLL_INTERVAL'' \<noteq> None \<longrightarrow>
      (\<exists>n. dict_get kvs ''gtfs_rt_poll_interval'' = Some (JInt n) \<and> fc_poll_interval cfg = max 60 n))"
  using health_report_facts [OF assms] by blast

text \<open>A supervisor with a key and an interval of ten seconds; no file of variables.\<close>

definition example_environ :: environ where
  "example_environ = [(''GTFSR_API_KEY'', ''k''), (''GTFSR_POLL_INTERVAL'', ''10'')]"

theorem health_knows_only_configuration_witness:
  "\<exists>kvs cfg. health_report (the (supervised_environ example_environ ''api'')) (1 / 2) JNull 9 True (new_listener new_live) = Inr (JObj kvs) \<and>
     dict_get kvs ''gtfs_rt'' = Some (JStr ''enabled'') \<and> dict_get kvs ''gtfs_rt_errors'' = Some (JInt 0) \<and>
     (\<exists>n. dict_get kvs ''gtfs_rt_poll_interval'' = Some (JInt n) \<and> fc_poll_interval cfg = max 60 n) \<and>
     read_fetch_config (the (supervised_environ example_environ ''gtfs_rt'')) = Inr cfg"
proof -
  let ?api = "the (supervised_environ example_environ ''api'')" and ?fetch = "the (supervised_environ example_environ ''gtfs_rt'')"
  have ten: "py_int ''10'' = Inr 10" by code_simp
  have key: "environ_str example_environ ''GTFSR_API_KEY'' [] = ''k''" by (simp add: environ_str_def example_environ_def dict_get_def)
  have api: "supervised_environ example_environ ''api'' = Some ?api" by (simp add: supervised_environ_def worker_extras_def)
  have fetch: "supervised_environ example_environ ''gtfs_rt'' = Some ?fetch" by (simp add: supervised_environ_def worker_extras_def key)
  have get: "dict_get ?api k = (if k = ''GTFS_RT_STATUS'' then Some ''enabled'' else if k = ''PYTHONPATH'' then Some ''src''
      else if k = ''GTFSR_API_KEY'' then Some ''k'' else if k = ''GTFSR_POLL_INTERVAL'' then Some ''10'' else None)" for k
    by (simp add: supervised_environ_def worker_extras_def worker_environ_get key) (simp add: example_environ_def dict_get_def)
  have get': "dict_get ?fetch k = (if k = ''PYTHONPATH'' then Some ''src''
      else if k = ''GTFSR_API_KEY'' then Some ''k'' else if k = ''GTFSR_POLL_INTERVAL'' then Some ''10'' else None)" for k
    by (simp add: supervised_environ_def worker_extras_def worker_environ_get key) (simp add: example_environ_def dict_get_def)
  obtain kvs where r: "health_report ?api (1 / 2) JNull 9 True (new_listener new_live) = Inr (JObj kvs)"
    by (simp add: health_report_def environ_int_def get bind_result_def Let_def ten)
  obtain cfg where c: "read_fetch_config ?fetch = Inr cfg"
    by (simp add: read_fetch_config_def environ_int_def bind_result_def get' ten)
  have env: "dict_get example_environ ''GTFS_RT_ERRORS'' = None" "dict_get example_environ ''GTFSR_POLL_INTERVAL'' \<noteq> None"
    by (simp_all add: example_environ_def dict_get_def)
  have "leaves_set (\<lambda>e. e)" by (simp add: leaves_set_def)
  then have "\<exists>n. dict_get kvs ''gtfs_rt_poll_interval'' = Some (JInt n) \<and> fc_poll_interval cfg = max 60 n"
      "dict_get kvs ''gtfs_rt'' = Some (JStr ''enabled'')" "dict_get kvs ''gtfs_rt_errors'' = Some (JInt 0)"
    using health_knows_only_configuration [OF api r, of ?fetch "\<lambda>e. e" cfg] env c fetch
    by (simp_all only: option.discI not_False_eq_True if_True)
  then show ?thesis using c r by blast
qed

text \<open>
  The fetcher that the supervisor starts never ends for want of a key: with a configuration that
  can be read and a pool that opens, its exit code is 0.
\<close>

theorem supervised_fetcher_has_key:
  assumes "supervised_environ environ ''gtfs_rt'' = Some fetch_environ" "leaves_set load_dotenv"
    and "fetcher_process load_dotenv fetch_environ True once up ps s = Inr (code, rest)"
  shows "code = 0"
proof -
  obtain v where "dict_get environ ''GTFSR_API_KEY'' = Some v" "v \<noteq> []"
    using supervised_fetcher(1) [OF assms(1)] by (auto simp: environ_str_def split: option.splits)
  then have "environ_str (load_dotenv fetch_environ) ''GTFSR_API_KEY'' [] \<noteq> []"
    using assms(2) supervised_fetcher(2) [OF assms(1)] unfolding leaves_set_def environ_str_def by fastforce
  moreover obtain cfg where "read_fetch_config (load_dotenv fetch_environ) = Inr cfg"
    "fetcher_main (fc_api_key cfg) (fc_retain_fetches cfg) (fc_agency_filter cfg) True once up ps s = (code, rest)"
    using assms(3) by (auto simp: fetcher_process_def bind_result_def split: sum.splits)
  moreover from this(1) have "fc_api_key cfg = environ_str (load_dotenv fetch_environ) ''GTFSR_API_KEY'' []"
    by (auto simp: read_fetch_config_def bind_result_def split: sum.splits)
  ultimately show ?thesis by (auto simp: fetcher_main_def split: prod.splits list.splits if_splits)
qed

text \<open>The handler that the supervisor starts never reads the console.\<close>

lemma supervised_handler_service_mode: "supervised_environ environ ''mqtt'' = Some e \<Longrightarrow> service_mode e"
  by (auto simp: supervised_environ_def worker_extras_def service_mode_def environ_str_def worker_environ_get)

text \<open>The size of the chunks is not checked: with 0 every distribution raises, before anything is sent.\<close>

theorem zero_chunk_size_raises:
  "map_sum id hc_chunk_size (read_handler_config parse [(''MODEL_CHUNK_SIZE'', ''0'')]) = Inr 0"
  "distribute_model dumps 0 arrivals in_time retry_in_time dev path (Some xs) self = (Inl ZeroDivisionError, self)"
proof -
  have "py_int ''0'' = Inr 0" by code_simp
  then show "map_sum id hc_chunk_size (read_handler_config parse [(''MODEL_CHUNK_SIZE'', ''0'')]) = Inr 0"
    by (simp add: read_handler_config_def read_broker_address_def environ_int_def environ_float_def bind_result_def dict_get_def)
qed (simp add: distribute_model_def total_chunks_def)

end
