(* ===== verification/Mqtt_Clients.thy ===== *)
theory Mqtt_Clients
  imports Service_Config Simulator_Routes
begin

text \<open>
  The three MQTT clients as they are made and connected: \<open>MQTTComms\<close> of \<open>Edge/comms.py\<close>, \<open>BrokerHandler\<close> of
  \<open>MQTTBroker/broker_handler.py\<close> and \<open>_make_client\<close> of \<open>Simulator/main.py\<close>.  The message broker between
  them is not part of the code: how it matches a topic with a filter is a parameter with the
  rule of MQTT as its law.  Properties: who reaches whom, with which quality of service.
\<close>

subsection \<open>Clients\<close>

text \<open>What the client is made with; \<open>None\<close> where the code leaves the default.\<close>

record mqtt_client =
  mq_client_id :: string
  mq_ca_cert :: string
  mq_client_cert :: string
  mq_client_key :: string
  mq_max_queued :: "int option"
  mq_max_inflight :: "int option"
  mq_will :: "(string \<times> bytes \<times> int \<times> bool) option"

text \<open>What it is connected with.\<close>

record mqtt_connect =
  mn_host :: string
  mn_port :: int
  mn_clean_start :: bool
  mn_session_expiry :: int

definition max_queued_messages :: int where "max_queued_messages = 0"
definition max_inflight_messages :: int where "max_inflight_messages = 100"

definition device_client :: "device_env \<Rightarrow> device_config \<Rightarrow> mqtt_client" where
  "device_client env cfg =
     (let ba = vc_broker cfg
      in \<lparr>mq_client_id = ''edge-'' @ vc_device_id cfg, mq_ca_cert = ba_ca_cert ba, mq_client_cert = ba_client_cert ba,
          mq_client_key = ba_client_key ba, mq_max_queued = Some max_queued_messages,
          mq_max_inflight = Some max_inflight_messages,
          mq_will = Some (vc_topic_prefix cfg @ ''/status'', de_dumps env (JObj [(''online'', JBool False)]),
            the (map_of device_qos ''status''), True)\<rparr>)"

definition device_connect :: "device_config \<Rightarrow> mqtt_connect" where
  "device_connect cfg =
     \<lparr>mn_host = ba_host (vc_broker cfg), mn_port = ba_port (vc_broker cfg), mn_clean_start = False, mn_session_expiry = 0xFFFFFFFF\<rparr>"

definition handler_client_id :: string where "handler_client_id = ''backend-handler''"

definition handler_client :: "handler_config \<Rightarrow> mqtt_client" where
  "handler_client cfg =
     (let ba = hc_broker cfg
      in \<lparr>mq_client_id = handler_client_id, mq_ca_cert = ba_ca_cert ba, mq_client_cert = ba_client_cert ba,
          mq_client_key = ba_client_key ba, mq_max_queued = Some max_queued_messages,
          mq_max_inflight = Some max_inflight_messages, mq_will = None\<rparr>)"

definition handler_connect :: "handler_config \<Rightarrow> mqtt_connect" where
  "handler_connect cfg =
     \<lparr>mn_host = ba_host (hc_broker cfg), mn_port = ba_port (hc_broker cfg), mn_clean_start = False, mn_session_expiry = 0xFFFFFFFF\<rparr>"

definition simulator_client_id :: string where "simulator_client_id = ''crowd-simulator''"

definition simulator_client :: "simulator_config \<Rightarrow> mqtt_client" where
  "simulator_client cfg =
     (let ba = mc_broker cfg
      in \<lparr>mq_client_id = simulator_client_id, mq_ca_cert = ba_ca_cert ba, mq_client_cert = ba_client_cert ba,
          mq_client_key = ba_client_key ba, mq_max_queued = None, mq_max_inflight = None, mq_will = None\<rparr>)"

definition simulator_connect :: "simulator_config \<Rightarrow> mqtt_connect" where
  "simulator_connect cfg =
     \<lparr>mn_host = ba_host (mc_broker cfg), mn_port = ba_port (mc_broker cfg), mn_clean_start = True, mn_session_expiry = 0\<rparr>"

subsection \<open>Topics\<close>

text \<open>
  The rule of MQTT: a filter without \<open>#\<close> matches the topics with as many levels, each level of the
  filter being \<open>+\<close> or the level of the topic.
\<close>

definition filter_law :: "(string \<Rightarrow> string \<Rightarrow> bool) \<Rightarrow> bool" where
  "filter_law matches \<longleftrightarrow> (\<forall>p t. CHR ''#'' \<notin> set p \<longrightarrow>
     matches p t = list_all2 (\<lambda>a b. a = ''+'' \<or> a = b) (split_on CHR ''/'' p) (split_on CHR ''/'' t))"

lemma split_on_nonempty: "split_on c s \<noteq> []"
  by (induction s) (auto split: list.split)

lemma split_on_inj: "split_on c a = split_on c b \<Longrightarrow> a = b"
proof (induction a arbitrary: b)
  case Nil
  then show ?case using split_on_nonempty [THEN not_sym] by (cases b) (auto split: if_splits list.splits)
next
  case (Cons x a)
  have a: "split_on c a \<noteq> []" by (rule split_on_nonempty)
  show ?case
  proof (cases b)
    case Nil
    then show ?thesis using Cons.prems a by (auto split: if_splits list.splits)
  next
    case (Cons y b')
    then show ?thesis
      using Cons.prems Cons.IH [of b'] a split_on_nonempty [of c b'] by (auto split: if_splits list.splits)
  qed
qed

lemma length_split_on: "length (split_on c s) = Suc (count_list s c)"
  by (induction s) (auto split: list.split simp: split_on_nonempty)

lemma device_topic_levels:
  assumes "CHR ''/'' \<notin> set kind"
  shows "CHR ''/'' \<notin> set d \<Longrightarrow> split_on CHR ''/'' (''edge/'' @ d @ ''/'' @ kind) = [''edge'', d, kind]"
    and "CHR ''/'' \<in> set d \<Longrightarrow> length (split_on CHR ''/'' (''edge/'' @ d @ ''/'' @ kind)) \<noteq> 3"
proof -
  have "split_on CHR ''/'' (''edge/'' @ d @ ''/'' @ kind) = ''edge'' # split_on CHR ''/'' (d @ CHR ''/'' # kind)"
    using split_on_append [of "CHR ''/''" "''edge''" "d @ CHR ''/'' # kind"] by simp
  then show "CHR ''/'' \<notin> set d \<Longrightarrow> split_on CHR ''/'' (''edge/'' @ d @ ''/'' @ kind) = [''edge'', d, kind]"
    and "CHR ''/'' \<in> set d \<Longrightarrow> length (split_on CHR ''/'' (''edge/'' @ d @ ''/'' @ kind)) \<noteq> 3"
    using assms by (simp_all add: split_on_append split_on_none length_split_on count_list_0_iff)
qed

lemma wildcard_matches:
  assumes "filter_law matches" "CHR ''/'' \<notin> set k" "CHR ''#'' \<notin> set k" "CHR ''/'' \<notin> set kind" "k \<noteq> ''+''"
  shows "matches (''edge/+/'' @ k) (''edge/'' @ d @ ''/'' @ kind) \<longleftrightarrow> CHR ''/'' \<notin> set d \<and> k = kind"
proof -
  have p: "split_on CHR ''/'' (''edge/+/'' @ k) = [''edge'', ''+'', k]"
    using device_topic_levels(1) [of k "''+''"] assms(2) by simp
  have "matches (''edge/+/'' @ k) t \<longleftrightarrow> list_all2 (\<lambda>a b. a = ''+'' \<or> a = b) [''edge'', ''+'', k] (split_on CHR ''/'' t)" for t
    using assms(1,3) unfolding filter_law_def p [symmetric] by simp
  then show ?thesis
    using device_topic_levels [OF assms(4), of d] assms(5) by (cases "CHR ''/'' \<in> set d") (auto dest: list_all2_lengthD)
qed

lemma plain_matches:
  assumes "filter_law matches" "CHR ''+'' \<notin> set p" "CHR ''#'' \<notin> set p"
  shows "matches p t \<longleftrightarrow> p = t"
proof -
  have "\<forall>a \<in> set (split_on c p). set a \<subseteq> set p" for c and p :: string
    by (induction p) (auto split: list.splits if_splits)
  then have "\<forall>a \<in> set (split_on CHR ''/'' p). a \<noteq> ''+''" using assms(2) by fastforce
  then have "matches p t \<longleftrightarrow> list_all2 (=) (split_on CHR ''/'' p) (split_on CHR ''/'' t)"
    using assms(1,3) unfolding filter_law_def by (auto intro: list.rel_mono_strong)
  then show ?thesis by (auto simp: list.rel_eq dest: split_on_inj)
qed

definition handler_filters :: "(string \<times> int \<times> bool) list" where
  "handler_filters =
     [(''edge/+/crowdCount'', 1, False), (''edge/+/image'', 2, False), (''edge/+/log'', 1, False),
      (''edge/+/status'', 1, False), (''edge/+/model'', 2, True)]"

lemma on_connect_filters: "bk_subscriptions self = [] \<Longrightarrow> bk_subscriptions (on_connect False self) = handler_filters"
  by (simp add: on_connect_def topic_patterns_def topic_qos_def handler_filters_def)

lemma handler_matches:
  assumes "filter_law matches" "CHR ''/'' \<notin> set kind"
  shows "filter (\<lambda>s. matches (fst s) (''edge/'' @ d @ ''/'' @ kind)) handler_filters =
    (if CHR ''/'' \<in> set d then [] else filter (\<lambda>s. fst s = ''edge/+/'' @ kind) handler_filters)"
proof -
  have "matches ''edge/+/crowdCount'' (''edge/'' @ d @ ''/'' @ kind) \<longleftrightarrow> CHR ''/'' \<notin> set d \<and> ''crowdCount'' = kind"
    "matches ''edge/+/image'' (''edge/'' @ d @ ''/'' @ kind) \<longleftrightarrow> CHR ''/'' \<notin> set d \<and> ''image'' = kind"
    "matches ''edge/+/log'' (''edge/'' @ d @ ''/'' @ kind) \<longleftrightarrow> CHR ''/'' \<notin> set d \<and> ''log'' = kind"
    "matches ''edge/+/status'' (''edge/'' @ d @ ''/'' @ kind) \<longleftrightarrow> CHR ''/'' \<notin> set d \<and> ''status'' = kind"
    "matches ''edge/+/model'' (''edge/'' @ d @ ''/'' @ kind) \<longleftrightarrow> CHR ''/'' \<notin> set d \<and> ''model'' = kind"
    using wildcard_matches [OF assms(1) _ _ assms(2), of "''crowdCount''" d] wildcard_matches [OF assms(1) _ _ assms(2), of "''image''" d]
      wildcard_matches [OF assms(1) _ _ assms(2), of "''log''" d] wildcard_matches [OF assms(1) _ _ assms(2), of "''status''" d]
      wildcard_matches [OF assms(1) _ _ assms(2), of "''model''" d] by simp_all
  then show ?thesis by (simp add: handler_filters_def)
qed

lemma device_matches:
  assumes "filter_law matches" "CHR ''+'' \<notin> set d'" "CHR ''#'' \<notin> set d'"
  shows "filter (\<lambda>s. matches (fst s) t) (cm_subscriptions (comms_on_connect env False (new_comms env d'))) =
    filter (\<lambda>s. fst s = t) [(''edge/'' @ d' @ ''/admin'', 2, False), (''edge/'' @ d' @ ''/model'', 2, True)]"
  using plain_matches [OF assms(1), of "''edge/'' @ d' @ ''/admin''" t] plain_matches [OF assms(1), of "''edge/'' @ d' @ ''/model''" t] assms(2,3)
  by (simp add: comms_on_connect_def comms_publish_def new_comms_def topic_prefix_def Let_def)

lemma suffix_eq:
  "d' @ ''/admin'' = d @ ''/admin'' \<longleftrightarrow> d' = d" "d' @ ''/model'' = d @ ''/model'' \<longleftrightarrow> d' = d"
  "d' @ ''/admin'' \<noteq> d @ ''/model''" "d' @ ''/model'' \<noteq> d @ ''/admin''"
proof -
  have "a \<noteq> b" if "last a = CHR ''n''" "last b = CHR ''l''" for a b :: string using that by auto
  note ends = this
  show "d' @ ''/admin'' \<noteq> d @ ''/model''" by (rule ends) simp_all
  show "d' @ ''/model'' \<noteq> d @ ''/admin''" by (rule ends [THEN not_sym]) simp_all
qed simp_all

lemma topic_readers:
  assumes "filter_law matches" "bk_subscriptions bk = []"
    and "received = (\<lambda>d kind. filter (\<lambda>s. matches (fst s) (''edge/'' @ d @ ''/'' @ kind)) (bk_subscriptions (on_connect False bk)))"
    and "reaches = (\<lambda>d kind d'. filter (\<lambda>s. matches (fst s) (''edge/'' @ d @ ''/'' @ kind))
      (cm_subscriptions (comms_on_connect env False (new_comms env d'))))"
  shows "kind \<in> {''crowdCount'', ''image'', ''log'', ''model'', ''status''} \<Longrightarrow>
      received d kind = (if CHR ''/'' \<in> set d then [] else [(''edge/+/'' @ kind, the (map_of device_qos kind), kind = ''model'')])"
    and "kind \<in> {''admin'', ''model''} \<Longrightarrow> CHR ''+'' \<notin> set d' \<Longrightarrow> CHR ''#'' \<notin> set d' \<Longrightarrow>
      reaches d kind d' = (if d' = d then [(''edge/'' @ d @ ''/'' @ kind, the (topic_qos kind), kind = ''model'')] else [])"
    and "received d ''admin'' = []"
proof -
  have received: "received d kind = (if CHR ''/'' \<in> set d then [] else filter (\<lambda>s. fst s = ''edge/+/'' @ kind) handler_filters)"
    if "CHR ''/'' \<notin> set kind" for kind
    unfolding assms(3) on_connect_filters [OF assms(2)] by (rule handler_matches [OF assms(1) that])
  show "received d kind = (if CHR ''/'' \<in> set d then [] else [(''edge/+/'' @ kind, the (map_of device_qos kind), kind = ''model'')])"
    if "kind \<in> {''crowdCount'', ''image'', ''log'', ''model'', ''status''}"
  proof -
    have "CHR ''/'' \<notin> set kind" using that by (elim insertE) simp_all
    moreover have "filter (\<lambda>s. fst s = ''edge/+/'' @ kind) handler_filters =
        [(''edge/+/'' @ kind, the (map_of device_qos kind), kind = ''model'')]"
      using that by (elim insertE) (simp_all add: handler_filters_def device_qos_def)
    ultimately show ?thesis using received [of kind] by simp
  qed
  show "received d ''admin'' = []"
    using received [of "''admin''"] by (simp add: handler_filters_def)
  show "reaches d kind d' = (if d' = d then [(''edge/'' @ d @ ''/'' @ kind, the (topic_qos kind), kind = ''model'')] else [])"
    if "kind \<in> {''admin'', ''model''}" "CHR ''+'' \<notin> set d'" "CHR ''#'' \<notin> set d'"
  proof -
    have "filter (\<lambda>s. fst s = ''edge/'' @ d @ ''/'' @ k) [(''edge/'' @ d' @ ''/admin'', 2 :: int, False), (''edge/'' @ d' @ ''/model'', 2, True)] =
        (if d' = d then [(''edge/'' @ d @ ''/'' @ k, 2, k = ''model'')] else [])" if "k = ''admin'' \<or> k = ''model''" for k
      using that by (elim disjE) (simp_all add: suffix_eq)
    moreover have "the (topic_qos kind) = 2" using that(1) by (auto simp: topic_qos_def)
    ultimately show ?thesis
      unfolding assms(4) device_matches [OF assms(1) that(2,3)] using that(1) by simp
  qed
qed

text \<open>
  C38: every topic has its reader.  With the rule by which MQTT matches topics, and both clients
  connected: what a device publishes, of any kind, is matched by exactly one filter of
  the handler, with the quality of service of the device, if the identifier of the device
  has no slash, and by none if it has one; the handler's commands and models for a device
  are matched by exactly one filter of this device, with the quality of service of the
  handler, and by none of any other device; the commands do not come back to the handler, and
  models are subscribed without the client's own messages at both ends.
\<close>

theorem every_topic_has_its_reader:
  assumes "filter_law matches" "bk_subscriptions bk = []"
    and "received = (\<lambda>d kind. filter (\<lambda>s. matches (fst s) (''edge/'' @ d @ ''/'' @ kind)) (bk_subscriptions (on_connect False bk)))"
    and "reaches = (\<lambda>d kind d'. filter (\<lambda>s. matches (fst s) (''edge/'' @ d @ ''/'' @ kind))
      (cm_subscriptions (comms_on_connect env False (new_comms env d'))))"
  shows "(kind \<in> {''crowdCount'', ''image'', ''log'', ''model'', ''status''} \<longrightarrow>
      received d kind = (if CHR ''/'' \<in> set d then [] else [(''edge/+/'' @ kind, the (map_of device_qos kind), kind = ''model'')])) \<and>
    (kind \<in> {''admin'', ''model''} \<and> CHR ''+'' \<notin> set d' \<and> CHR ''#'' \<notin> set d' \<longrightarrow>
      reaches d kind d' = (if d' = d then [(''edge/'' @ d @ ''/'' @ kind, the (topic_qos kind), kind = ''model'')] else [])) \<and>
    received d ''admin'' = []"
  by (intro conjI impI topic_readers [OF assms]) ((elim conjE)?, assumption)+

text \<open>A broker that matches by the rule.\<close>

definition example_matches :: "string \<Rightarrow> string \<Rightarrow> bool" where
  "example_matches p t = list_all2 (\<lambda>a b. a = ''+'' \<or> a = b) (split_on CHR ''/'' p) (split_on CHR ''/'' t)"

lemma example_filter_law: "filter_law example_matches"
  by (simp add: filter_law_def example_matches_def)

theorem every_topic_has_its_reader_witness:
  "filter (\<lambda>s. example_matches (fst s) ''edge/d1/model'') (bk_subscriptions (on_connect False example_broker)) = [(''edge/+/model'', 2, True)] \<and>
   filter (\<lambda>s. example_matches (fst s) ''edge/d1/model'')
     (cm_subscriptions (comms_on_connect (example_device_env JNull) False (new_comms (example_device_env JNull) ''d1''))) =
     [(''edge/d1/model'', 2, True)]"
proof -
  have "bk_subscriptions example_broker = []" by (simp add: example_broker_def)
  note reader = every_topic_has_its_reader [OF example_filter_law this refl refl, of "''model''" "''d1''" "''d1''" "example_device_env JNull"]
  have "filter (\<lambda>s. example_matches (fst s) ''edge/d1/model'') (bk_subscriptions (on_connect False example_broker)) = [(''edge/+/model'', 2, True)]"
    using reader [THEN conjunct1] by (simp add: device_qos_def)
  moreover have "filter (\<lambda>s. example_matches (fst s) ''edge/d1/model'')
     (cm_subscriptions (comms_on_connect (example_device_env JNull) False (new_comms (example_device_env JNull) ''d1''))) =
     [(''edge/d1/model'', 2, True)]"
    using reader [THEN conjunct2, THEN conjunct1] by (simp add: topic_qos_def)
  ultimately show ?thesis by (rule conjI)
qed

subsection \<open>One broker\<close>

text \<open>
  From one environment the three clients connect to the same broker with the same certificates;
  their identifiers differ, also between devices, so that no client takes over the session of
  another; the sessions of handler and device outlive a lost connection, that of the simulator does
  not; the last will of a device is its farewell.
\<close>

theorem one_broker_distinct_clients:
  assumes "read_handler_config parse environ = Inr h" "read_device_config edge_dir environ = Inr d"
    and "read_simulator_config parse environ = Inr m" "read_device_config edge_dir' environ' = Inr d'"
  shows "mn_host (handler_connect h) = mn_host (device_connect d)" "mn_host (simulator_connect m) = mn_host (device_connect d)"
    and "mn_port (handler_connect h) = mn_port (device_connect d)" "mn_port (simulator_connect m) = mn_port (device_connect d)"
    and "mq_ca_cert (handler_client h) = mq_ca_cert (device_client env d)" "mq_ca_cert (simulator_client m) = mq_ca_cert (device_client env d)"
    and "distinct [mq_client_id (handler_client h), mq_client_id (device_client env d), mq_client_id (simulator_client m)]"
    and "mq_client_id (device_client env d) = mq_client_id (device_client env d') \<longleftrightarrow> vc_device_id d = vc_device_id d'"
    and "\<not> mn_clean_start (handler_connect h) \<and> \<not> mn_clean_start (device_connect d) \<and> mn_clean_start (simulator_connect m)"
    and "mq_will (device_client env d) = Some (last (cm_published (comms_disconnect env (new_comms env (vc_device_id d)))))"
proof -
  obtain ba where "read_broker_address environ = Inr ba"
    using assms(2) by (cases "read_broker_address environ") (simp_all add: read_device_config_def read_device_identity_def bind_result_def)
  then have eq: "hc_broker h = ba" "vc_broker d = ba" "mc_broker m = ba"
    using assms(1-3) by (auto simp: read_handler_config_def read_device_config_def read_device_identity_def read_simulator_config_def bind_result_def Let_def
      split: sum.splits)
  have prefix: "vc_topic_prefix d = ''edge/'' @ vc_device_id d"
    using assms(2) by (auto simp: read_device_config_def read_device_identity_def bind_result_def Let_def split: sum.splits)
  note defs = handler_connect_def device_connect_def simulator_connect_def handler_client_def device_client_def simulator_client_def Let_def
  show "mn_host (handler_connect h) = mn_host (device_connect d)" "mn_host (simulator_connect m) = mn_host (device_connect d)"
    "mn_port (handler_connect h) = mn_port (device_connect d)" "mn_port (simulator_connect m) = mn_port (device_connect d)"
    "mq_ca_cert (handler_client h) = mq_ca_cert (device_client env d)" "mq_ca_cert (simulator_client m) = mq_ca_cert (device_client env d)"
    "mq_client_id (device_client env d) = mq_client_id (device_client env d') \<longleftrightarrow> vc_device_id d = vc_device_id d'"
    "\<not> mn_clean_start (handler_connect h) \<and> \<not> mn_clean_start (device_connect d) \<and> mn_clean_start (simulator_connect m)"
    by (simp_all add: defs eq)
  show "distinct [mq_client_id (handler_client h), mq_client_id (device_client env d), mq_client_id (simulator_client m)]"
    by (simp add: defs handler_client_id_def simulator_client_id_def)
  show "mq_will (device_client env d) = Some (last (cm_published (comms_disconnect env (new_comms env (vc_device_id d)))))"
    by (simp add: defs prefix comms_disconnect_def comms_publish_def new_comms_def topic_prefix_def)
qed

subsection \<open>The simulated devices\<close>

lemma fixed_digits_plain: "CHR ''/'' \<notin> set (fixed_digits k n)"
proof (induction k)
  case (Suc k)
  have "decimal_char (z mod 10) \<noteq> CHR ''/''" for z
  proof
    assume "decimal_char (z mod 10) = CHR ''/''"
    from arg_cong [OF this, of "of_char :: char \<Rightarrow> nat"] show False by (simp add: decimal_char_def nat_less_iff)
  qed
  then show ?case using Suc by (auto dest: not_sym)
qed simp

text \<open>The handler receives every count of the configured simulator.\<close>

theorem simulated_topics_received:
  assumes "filter_law matches" "bk_subscriptions bk = []" "sid \<in> set (all_stop_ids configured_routes)"
  shows "filter (\<lambda>s. matches (fst s) (''edge/'' @ sid @ ''/crowdCount'')) (bk_subscriptions (on_connect False bk)) =
    [(''edge/+/crowdCount'', 1, False)]"
proof -
  have "CHR ''/'' \<notin> set sid"
    using assms(3) fixed_digits_plain by (auto simp: configured_stop_ids stop_id_text_def)
  then show ?thesis
    using handler_matches [OF assms(1), of "''crowdCount''" sid] unfolding on_connect_filters [OF assms(2)]
    by (simp add: handler_filters_def)
qed

end
