(* ===== verification/Public_Lights.thy ===== *)
theory Public_Lights
  imports Edge_Properties External_Api
begin

text \<open>
  From the camera to the public API: what a device counts at its stop is the traffic light of the
  stop, through the message, the handler, the writer and the tables.
\<close>

text \<open>The counts at a stop are those of its device.\<close>

definition counted_by :: "database \<Rightarrow> stop_row \<Rightarrow> bool" where
  "counted_by d row \<longleftrightarrow> (\<forall>c \<in> set (db_current_counts d). cc_stop_id c = st_stop_id row \<longleftrightarrow> cc_device_id c = st_device_id row)"

lemma filter_key: "distinct (map f xs) \<Longrightarrow> x \<in> set xs \<Longrightarrow> filter (\<lambda>y. f y = f x) xs = [x]"
proof (induction xs)
  case (Cons a xs)
  then show ?case by (cases "a = x") (auto simp: filter_empty_conv rev_image_eqI)
qed simp

lemma counted_by_write:
  assumes "bind_result (insert_crowd_count ts (st_device_id row) (st_stop_id row) n z d)
      (upsert_current_count ts (st_device_id row) (st_stop_id row) n z) = Inr d'" "counted_by d row"
  shows "counted_by d' row \<and> db_stops d' = db_stops d"
  using assms
  by (cases "insert_crowd_count ts (st_device_id row) (st_stop_id row) n z d")
    (auto simp: insert_crowd_count_def upsert_current_count_def checked_def counted_by_def split: if_splits)

lemma both_statements: "bind_result r f = Inr d' \<Longrightarrow> \<exists>d1. r = Inr d1 \<and> f d1 = Inr d'"
  by (cases r) simp_all

lemma current_count_written:
  assumes "bind_result (insert_crowd_count ts dev stop n z d) (upsert_current_count ts dev stop n z) = Inr d'"
  shows "\<exists>c \<in> set (db_current_counts d'). cc_device_id c = dev \<and> cc_count c = n"
proof -
  obtain d1 where d1: "insert_crowd_count ts dev stop n z d = Inr d1" "upsert_current_count ts dev stop n z d1 = Inr d'"
    using both_statements [OF assms] by blast
  show ?thesis
  proof (cases "dev \<in> set (map cc_device_id (db_current_counts d1))")
    case True
    then obtain c where c: "c \<in> set (db_current_counts d1)" "cc_device_id c = dev" by auto
    have "db_current_counts d' = map (\<lambda>row. if cc_device_id row = dev
        then row\<lparr>cc_previous_count := Some (cc_count row), cc_count := n, cc_zone := z, cc_updated_at := ts\<rparr> else row) (db_current_counts d1)"
      using d1(2) True by (auto simp: upsert_current_count_def checked_def split: if_splits)
    with c show ?thesis
      by (intro bexI [of _ "c\<lparr>cc_previous_count := Some (cc_count c), cc_count := n, cc_zone := z, cc_updated_at := ts\<rparr>"])
        (auto intro!: rev_image_eqI)
  next
    case False
    then show ?thesis using d1(2) by (auto simp: upsert_current_count_def checked_def split: if_splits)
  qed
qed

lemma waiting_row_counted:
  assumes "keys_ok d" "row \<in> set (db_stops d)" "counted_by d row" "c \<in> set (db_current_counts d)" "cc_device_id c = st_device_id row"
  shows "waiting_row (st_stop_id row) d = Some (st_stop_name row, Some (cc_count c))"
proof -
  have stops: "filter (\<lambda>s. st_stop_id s = st_stop_id row) (db_stops d) = [row]"
    using assms(1,2) by (intro filter_key) (simp_all add: keys_ok_def)
  have "filter (\<lambda>cc. cc_stop_id cc = st_stop_id row) (db_current_counts d) = filter (\<lambda>cc. cc_device_id cc = cc_device_id c) (db_current_counts d)"
    using assms(3,5) by (intro filter_cong) (auto simp: counted_by_def)
  also have "\<dots> = [c]" using assms(1,4) by (intro filter_key) (simp_all add: keys_ok_def)
  finally show ?thesis by (simp add: waiting_row_def stops left_join_def)
qed

text \<open>
  C6: the light of a stop is what its camera saw.  A device at a stop counts the people on a
  frame and publishes the count; the handler, with its database up, writes it; asked for the stop,
  the public API answers with its name and the colour of exactly this count.  The
  device is the one of the stop: the counts at the stop are its own, and the cache of the
  writer, where it knows the device, has the stop.
\<close>

theorem camera_sets_light:
  assumes "ed_buffer self = Some path" "cm_device_id (ed_comms self) = st_device_id row" "CHR ''/'' \<notin> set (st_device_id row)"
    and "be_loads benv (de_dumps env (count_result t boxes self)) = Inr (count_result t boxes self)" "plain_driver benv"
    and "bk_writer bk = Some w" "dw_opened w" "\<forall>n. up n" "idle (bk_session bk)"
    and "keys_ok (se_committed (bk_session bk))" "row \<in> set (db_stops (se_committed (bk_session bk)))"
    and "fromtimestamp t = Inr ts" "int4 (int boxes)"
    and "counted_by (se_committed (bk_session bk)) row"
    and "dict_get (dw_stop_id_cache w) (st_device_id row) \<in> {None, Some (st_stop_id row)}"
  shows "\<exists>topic payload rest.
    cm_published (ed_comms (inference_step env (Inr boxes) t now img self)) =
      cm_published (ed_comms self) @ (topic, payload, 1, False) # rest \<and>
    (\<exists>lights. get_stop cfg stamp (st_stop_id row) (se_committed (bk_session (snd (on_message benv dir up clk topic payload bk)))) = Ok lights \<and>
      sl_stop_name lights = st_stop_name row \<and> sl_state lights = stop_light cfg (Some (int boxes)))"
proof -
  let ?payload = "de_dumps env (count_result t boxes self)" and ?topic = "''edge/'' @ st_device_id row @ ''/crowdCount''"
  let ?d = "se_committed (bk_session bk)" and ?z = "Some (cf_zone (ed_settings self))"
  have sent: "\<exists>rest. cm_published (ed_comms (inference_step env (Inr boxes) t now img self)) =
      cm_published (ed_comms self) @ (?topic, ?payload, 1, False) # rest"
    by (rule inference_publishes [OF assms(1,2)])
  have stop: "(case dict_get (dw_stop_id_cache w) (st_device_id row) of Some st \<Rightarrow> st | None \<Rightarrow> st_stop_id row) = st_stop_id row"
    using assms(15) by auto
  obtain w' s' where run: "write_crowd_count up w (st_device_id row) t (int boxes) ?z (bk_session bk) = (Inr (), w', s')"
    and d': "bind_result (insert_crowd_count ts (st_device_id row) (st_stop_id row) (int boxes) ?z ?d)
      (upsert_current_count ts (st_device_id row) (st_stop_id row) (int boxes) ?z) = Inr (se_committed s')"
    using crowd_count_exact [OF assms(9,7,8,10,11) refl assms(12,13) stop [symmetric], of ?z] by (elim exE conjE) (rule that)
  have "snd (on_message benv dir up clk ?topic ?payload bk) = bk\<lparr>bk_writer := Some w', bk_session := s'\<rparr>"
    using crowd_message [OF assms(4) [unfolded count_result_def] _ _ _ assms(5,3,6), of t "int boxes" "cf_zone (ed_settings self)" dir up clk] run
    by (simp add: dict_get_def count_result_def)
  moreover have "counted_by (se_committed s') row" "db_stops (se_committed s') = db_stops ?d"
    using counted_by_write [OF d' assms(14)] by simp_all
  moreover have "keys_ok (se_committed s')"
    using both_statements [OF d'] keys_insert_crowd [OF assms(10)] keys_upsert_current by blast
  moreover have "\<exists>c \<in> set (db_current_counts (se_committed s')). cc_device_id c = st_device_id row \<and> cc_count c = int boxes"
    using d' by (rule current_count_written)
  ultimately have "waiting_row (st_stop_id row) (se_committed (bk_session (snd (on_message benv dir up clk ?topic ?payload bk)))) =
      Some (st_stop_name row, Some (int boxes))"
    using waiting_row_counted [of "se_committed s'" row] assms(11) by auto
  then have "\<exists>lights. get_stop cfg stamp (st_stop_id row) (se_committed (bk_session (snd (on_message benv dir up clk ?topic ?payload bk)))) = Ok lights \<and>
      sl_stop_name lights = st_stop_name row \<and> sl_state lights = stop_light cfg (Some (int boxes))"
    by (simp add: get_stop_def query_stop_traffic_lights_def)
  with sent show ?thesis by blast
qed

theorem camera_sets_light_witness:
  "\<exists>topic payload lights. (topic, payload, 1, False) \<in>
      set (cm_published (ed_comms (inference_step (example_device_env JNull) (Inr 7) 10 12 None example_edge))) \<and>
    get_stop default_light_config ''now'' ''s1'' (se_committed (bk_session (snd (on_message (quiet_env (count_result 10 7 example_edge)) ''img''
      (\<lambda>_. True) \<lparr>in_seconds = 0, in_stamp = 0\<rparr> topic payload example_broker)))) = Ok lights \<and>
    sl_stop_name lights = ''Stop 1'' \<and> sl_state lights = ''amber''"
proof -
  let ?row = "hd (db_stops example_db)"
  have edge: "ed_buffer example_edge = Some ''f.jpg''" "cm_device_id (ed_comms example_edge) = st_device_id ?row" "CHR ''/'' \<notin> set (st_device_id ?row)"
    by (simp_all add: example_edge_def example_db_def)
  have env: "be_loads (quiet_env (count_result 10 7 example_edge)) (de_dumps (example_device_env JNull) (count_result 10 7 example_edge)) =
      Inr (count_result 10 7 example_edge)" "plain_driver (quiet_env (count_result 10 7 example_edge))"
    by (simp_all add: quiet_env_def plain_driver_def)
  have n: "int4 (int 7)" by (simp add: int4_def)
  have row: "st_stop_id ?row = ''s1''" "st_stop_name ?row = ''Stop 1''" by (simp_all add: example_db_def)
  have counted: "counted_by (se_committed (bk_session example_broker)) ?row"
    by (simp add: counted_by_def example_broker_def new_session_def) (simp add: example_db_def empty_db_def)
  have cache: "dict_get (dw_stop_id_cache \<lparr>dw_opened = True, dw_stop_id_cache = []\<rparr>) (st_device_id ?row) \<in> {None, Some (st_stop_id ?row)}"
    by (simp add: dict_get_def)
  have amber: "stop_light default_light_config (Some (int 7)) = ''amber''" by (simp add: stop_light_def default_light_config_def)
  show ?thesis
    using camera_sets_light [OF edge env example_broker_ok(1-5,7) example_time n counted cache,
        of 12 None default_light_config "''now''" "''img''" "\<lparr>in_seconds = 0, in_stamp = 0\<rparr>"]
    unfolding row amber by (elim exE conjE) (intro exI conjI, simp_all)
qed

end
