(* ===== verification/Gtfs_Seed.thy ===== *)
theory Gtfs_Seed
  imports Database Py_Text
begin

text \<open>
  \<open>Database/seed.py\<close>: the loading of the static GTFS files into \<open>routes\<close>, \<open>stops\<close>, \<open>route_stops\<close> and
  \<open>stop_times\<close>.  What \<open>csv.DictReader\<close> makes of a file is an input: a row is the dictionary of
  its header, \<open>None\<close> where the row is too short; a file that does not exist is \<open>None\<close>.  Rows
  are sent in statements of at most 100 rows, the page size of \<open>execute_values\<close>; a statement
  with two rows for one key is rejected, as PostgreSQL does for \<open>ON CONFLICT DO UPDATE\<close>.
\<close>

subsection \<open>CSV rows\<close>

type_synonym csv_row = "(string, string option) dict"

text \<open>\<open>row[key]\<close>, and \<open>row.get(key, dflt)\<close>.\<close>

definition csv_index :: "csv_row \<Rightarrow> string \<Rightarrow> string option result" where
  "csv_index row key = (case dict_get row key of None \<Rightarrow> Inl (KeyError key) | Some v \<Rightarrow> Inr v)"

definition csv_get :: "csv_row \<Rightarrow> string \<Rightarrow> string option \<Rightarrow> string option" where
  "csv_get row key dflt = (case dict_get row key of None \<Rightarrow> dflt | Some v \<Rightarrow> v)"

text \<open>\<open>int(value)\<close> and \<open>float(value)\<close>; the value of a float literal is an input.\<close>

definition int_of :: "string option \<Rightarrow> int result" where
  "int_of v = (case v of None \<Rightarrow> Inl TypeError | Some s \<Rightarrow> py_int s)"

definition int_get :: "csv_row \<Rightarrow> string \<Rightarrow> int \<Rightarrow> int result" where
  "int_get row key dflt = (case dict_get row key of None \<Rightarrow> Inr dflt | Some v \<Rightarrow> int_of v)"

definition float_value :: "(string \<Rightarrow> pyfloat result) \<Rightarrow> string option \<Rightarrow> pyfloat result" where
  "float_value parse v = (case v of None \<Rightarrow> Inl TypeError | Some s \<Rightarrow> parse s)"

text \<open>A loop that builds a row for each item and raises with the first that raises.\<close>

fun map_result :: "('a \<Rightarrow> 'b result) \<Rightarrow> 'a list \<Rightarrow> 'b list result" where
  "map_result f [] = Inr []"
| "map_result f (x # xs) = bind_result (f x) (\<lambda>y. bind_result (map_result f xs) (\<lambda>ys. Inr (y # ys)))"

text \<open>The files of a folder, and \<open>data_dir\<close> as the files of every folder.\<close>

record gtfs_folder =
  gf_routes :: "csv_row list option"
  gf_stops :: "csv_row list option"
  gf_trips :: "csv_row list option"
  gf_stop_times :: "csv_row list option"

type_synonym gtfs_dir = "string \<Rightarrow> gtfs_folder"

definition transport_types :: "(string \<times> string) list" where
  "transport_types = [(''Dublin Bus'', ''bus''), (''LUAS'', ''luas'')]"

text \<open>The rows of all folders in turn; a missing file is skipped.\<close>

definition folder_rows :: "(string \<Rightarrow> string \<Rightarrow> 'row list result) \<Rightarrow> 'row list result" where
  "folder_rows rows_of = bind_result (map_result (\<lambda>(folder, transport_type). rows_of folder transport_type) transport_types)
     (\<lambda>rss. Inr (concat rss))"

subsection \<open>The rows\<close>

text \<open>What is sent for a route, a stop, an entry of a route and a stop time, in the order of the columns.\<close>

record seed_route =
  sd_route :: "string option"
  sd_agency :: "string option"
  sd_short :: "string option"
  sd_long :: "string option"
  sd_type :: int
  sd_transport :: string

record seed_stop =
  sp_id :: "string option"
  sp_code :: "string option"
  sp_name :: "string option"
  sp_lat :: pyfloat
  sp_lon :: pyfloat
  sp_transport :: string
  sp_zone :: "string option"

record seed_route_stop =
  sq_route :: "string option"
  sq_stop :: "string option"
  sq_direction :: int
  sq_sequence :: int

record seed_stop_time =
  sx_trip :: "string option"
  sx_sequence :: int
  sx_stop :: "string option"
  sx_arrival :: int
  sx_departure :: int

definition route_of_csv :: "string \<Rightarrow> csv_row \<Rightarrow> seed_route result" where
  "route_of_csv transport_type r =
     bind_result (csv_index r ''route_id'') (\<lambda>route_id.
     bind_result (csv_index r ''route_short_name'') (\<lambda>short_name.
     bind_result (int_get r ''route_type'' 3) (\<lambda>route_type.
       Inr \<lparr>sd_route = route_id, sd_agency = csv_get r ''agency_id'' (Some []), sd_short = short_name,
            sd_long = csv_get r ''route_long_name'' (Some []), sd_type = route_type, sd_transport = transport_type\<rparr>)))"

text \<open>An empty zone is no zone.\<close>

definition stop_of_csv :: "(string \<Rightarrow> pyfloat result) \<Rightarrow> string \<Rightarrow> csv_row \<Rightarrow> seed_stop result" where
  "stop_of_csv parse transport_type s =
     bind_result (csv_index s ''stop_id'') (\<lambda>stop_id.
     bind_result (csv_index s ''stop_name'') (\<lambda>stop_name.
     bind_result (bind_result (csv_index s ''stop_lat'') (float_value parse)) (\<lambda>lat.
     bind_result (bind_result (csv_index s ''stop_lon'') (float_value parse)) (\<lambda>lon.
       Inr \<lparr>sp_id = stop_id, sp_code = csv_get s ''stop_code'' (Some []), sp_name = stop_name, sp_lat = lat, sp_lon = lon, sp_transport = transport_type,
            sp_zone = (case csv_get s ''zone_id'' None of Some [] \<Rightarrow> None | z \<Rightarrow> z)\<rparr>))))"

definition route_rows :: "gtfs_dir \<Rightarrow> seed_route list result" where
  "route_rows data_dir = folder_rows (\<lambda>folder transport_type.
     case gf_routes (data_dir folder) of None \<Rightarrow> Inr [] | Some rs \<Rightarrow> map_result (route_of_csv transport_type) rs)"

definition stop_rows :: "(string \<Rightarrow> pyfloat result) \<Rightarrow> gtfs_dir \<Rightarrow> seed_stop list result" where
  "stop_rows parse data_dir = folder_rows (\<lambda>folder transport_type.
     case gf_stops (data_dir folder) of None \<Rightarrow> Inr [] | Some ss \<Rightarrow> map_result (stop_of_csv parse transport_type) ss)"

subsection \<open>Representative trips\<close>

type_synonym trip_key = "string option \<times> int"

definition trip_of_csv :: "csv_row \<Rightarrow> (string option \<times> trip_key) result" where
  "trip_of_csv t =
     bind_result (csv_index t ''trip_id'') (\<lambda>trip_id.
     bind_result (csv_index t ''route_id'') (\<lambda>route_id.
     bind_result (int_get t ''direction_id'' 0) (\<lambda>direction. Inr (trip_id, (route_id, direction)))))"

definition trip_to_route :: "csv_row list \<Rightarrow> (string option, trip_key) dict result" where
  "trip_to_route trips = bind_result (map_result trip_of_csv trips) (\<lambda>kvs. Inr (dict_of kvs))"

text \<open>The first trip of every route and direction.\<close>

definition seen_combos :: "(string option, trip_key) dict \<Rightarrow> (trip_key, string option) dict" where
  "seen_combos trips =
     foldl (\<lambda>seen (trip_id, key). if key \<in> set (dict_keys seen) then seen else dict_set seen key trip_id) [] trips"

definition representative_trips :: "(string option, trip_key) dict \<Rightarrow> string option list" where
  "representative_trips trips = dict_values (seen_combos trips)"

fun route_stops_of :: "(string option, trip_key) dict \<Rightarrow> csv_row list \<Rightarrow> seed_route_stop list result" where
  "route_stops_of trips [] = Inr []"
| "route_stops_of trips (st # sts) =
     bind_result (csv_index st ''trip_id'') (\<lambda>trip_id.
       if trip_id \<notin> set (representative_trips trips) then route_stops_of trips sts
       else bind_result (case dict_get trips trip_id of None \<Rightarrow> Inl (KeyError (case trip_id of None \<Rightarrow> [] | Some t \<Rightarrow> t)) | Some k \<Rightarrow> Inr k)
         (\<lambda>(route_id, direction).
         bind_result (csv_index st ''stop_id'') (\<lambda>stop_id.
         bind_result (bind_result (csv_index st ''stop_sequence'') int_of) (\<lambda>seq.
         bind_result (route_stops_of trips sts) (\<lambda>rows.
           Inr (\<lparr>sq_route = route_id, sq_stop = stop_id, sq_direction = direction, sq_sequence = seq\<rparr> # rows))))))"

definition route_stop_rows :: "gtfs_dir \<Rightarrow> seed_route_stop list result" where
  "route_stop_rows data_dir = folder_rows (\<lambda>folder transport_type.
     case (gf_trips (data_dir folder), gf_stop_times (data_dir folder)) of
       (Some trips, Some stop_times) \<Rightarrow> bind_result (trip_to_route trips) (\<lambda>d. route_stops_of d stop_times)
     | _ \<Rightarrow> Inr [])"

subsection \<open>Stop times\<close>

text \<open>\<open>_parse_gtfs_time\<close>; a value \<open>None\<close> has no \<open>strip\<close>.\<close>

definition parse_gtfs_time :: "string \<Rightarrow> int result" where
  "parse_gtfs_time txt =
     (case split_on (CHR '':'') (py_strip txt) of
        h # m # s # _ \<Rightarrow>
          bind_result (py_int h) (\<lambda>h. bind_result (py_int m) (\<lambda>m. bind_result (py_int s) (\<lambda>s. Inr (h * 3600 + m * 60 + s))))
      | [h, m] \<Rightarrow> bind_result (py_int h) (\<lambda>_. bind_result (py_int m) (\<lambda>_. Inl IndexError))
      | [h] \<Rightarrow> bind_result (py_int h) (\<lambda>_. Inl IndexError)
      | [] \<Rightarrow> Inl IndexError)"

definition gtfs_time_of :: "string option \<Rightarrow> int result" where
  "gtfs_time_of v = (case v of None \<Rightarrow> Inl AttributeError | Some txt \<Rightarrow> parse_gtfs_time txt)"

definition stop_time_of_csv :: "csv_row \<Rightarrow> seed_stop_time result" where
  "stop_time_of_csv st =
     bind_result (csv_index st ''trip_id'') (\<lambda>trip_id.
     bind_result (bind_result (csv_index st ''stop_sequence'') int_of) (\<lambda>seq.
     bind_result (csv_index st ''stop_id'') (\<lambda>stop_id.
     bind_result (bind_result (csv_index st ''arrival_time'') gtfs_time_of) (\<lambda>arrival.
     bind_result (bind_result (csv_index st ''departure_time'') gtfs_time_of) (\<lambda>departure.
       Inr \<lparr>sx_trip = trip_id, sx_sequence = seq, sx_stop = stop_id, sx_arrival = arrival, sx_departure = departure\<rparr>)))))"

definition stop_time_rows :: "gtfs_dir \<Rightarrow> seed_stop_time list result" where
  "stop_time_rows data_dir = folder_rows (\<lambda>folder transport_type.
     case gf_stop_times (data_dir folder) of None \<Rightarrow> Inr [] | Some sts \<Rightarrow> map_result stop_time_of_csv sts)"

subsection \<open>Statements\<close>

text \<open>\<open>INSERT ... ON CONFLICT (key) DO UPDATE\<close> of one row.\<close>

definition put_row :: "('r \<Rightarrow> 'k) \<Rightarrow> ('r \<Rightarrow> 'r \<Rightarrow> 'r) \<Rightarrow> 'r list \<Rightarrow> 'r \<Rightarrow> 'r list" where
  "put_row key merge rows r =
     (if key r \<in> key ` set rows then map (\<lambda>old. if key old = key r then merge old r else old) rows else rows @ [r])"

text \<open>The columns a conflict does not update keep their value.\<close>

definition merge_route :: "route_row \<Rightarrow> route_row \<Rightarrow> route_row" where
  "merge_route old new = new\<lparr>ro_metadata := ro_metadata old\<rparr>"

definition merge_stop :: "stop_row \<Rightarrow> stop_row \<Rightarrow> stop_row" where
  "merge_stop old new = new\<lparr>st_is_online := st_is_online old, st_pipeline_active := st_pipeline_active old, st_last_seen := st_last_seen old, st_config := st_config old\<rparr>"

definition upsert_route :: "seed_route \<Rightarrow> database \<Rightarrow> database result" where
  "upsert_route r d =
     (case (sd_route r, sd_short r) of
        (Some rid, Some short) \<Rightarrow>
          checked (int2 (sd_type r)) (d\<lparr>db_routes := put_row ro_route_id merge_route (db_routes d)
            \<lparr>ro_route_id = rid, ro_agency_id = sd_agency r, ro_short_name = short, ro_long_name = sd_long r,
             ro_transport_type = sd_transport r, ro_metadata = JObj []\<rparr>\<rparr>)
      | _ \<Rightarrow> Inl DatabaseError)"

text \<open>The stop is its own device; another device must not have the stop already.\<close>

definition upsert_gtfs_stop :: "seed_stop \<Rightarrow> database \<Rightarrow> database result" where
  "upsert_gtfs_stop r d =
     (case (sp_id r, sp_name r) of
        (Some sid, Some name) \<Rightarrow>
          checked (\<forall>old \<in> set (db_stops d). st_stop_id old = sid \<longrightarrow> st_device_id old = sid)
            (d\<lparr>db_stops := put_row st_device_id merge_stop (db_stops d)
              \<lparr>st_device_id = sid, st_stop_id = sid, st_stop_code = sp_code r, st_stop_name = name, st_stop_lat = sp_lat r, st_stop_long = sp_lon r,
               st_transport_type = sp_transport r, st_zone = sp_zone r, st_is_online = False, st_pipeline_active = False,
               st_last_seen = None, st_config = JObj []\<rparr>\<rparr>)
      | _ \<Rightarrow> Inl DatabaseError)"

definition upsert_route_stop :: "seed_route_stop \<Rightarrow> database \<Rightarrow> database result" where
  "upsert_route_stop r d =
     (case (sq_route r, sq_stop r) of
        (Some rid, Some sid) \<Rightarrow>
          checked (int2 (sq_direction r) \<and> int4 (sq_sequence r) \<and> rid \<in> ro_route_id ` set (db_routes d))
            (d\<lparr>db_route_stops := put_row (\<lambda>r. (rt_route_id r, rt_direction_id r, rt_stop_sequence r)) (\<lambda>_ new. new) (db_route_stops d)
              \<lparr>rt_route_id = rid, rt_stop_id = sid, rt_direction_id = sq_direction r, rt_stop_sequence = sq_sequence r\<rparr>\<rparr>)
      | _ \<Rightarrow> Inl DatabaseError)"

definition upsert_stop_time :: "seed_stop_time \<Rightarrow> database \<Rightarrow> database result" where
  "upsert_stop_time r d =
     (case (sx_trip r, sx_stop r) of
        (Some tid, Some sid) \<Rightarrow>
          checked (int4 (sx_sequence r) \<and> int4 (sx_arrival r) \<and> int4 (sx_departure r))
            (d\<lparr>db_stop_times := put_row (\<lambda>r. (tm_trip_id r, tm_stop_sequence r)) (\<lambda>_ new. new) (db_stop_times d)
              \<lparr>tm_trip_id = tid, tm_stop_sequence = sx_sequence r, tm_stop_id = sid, tm_arrival_seconds = sx_arrival r\<rparr>\<rparr>)
      | _ \<Rightarrow> Inl DatabaseError)"

text \<open>A statement of several rows.\<close>

definition upsert_page :: "('row \<Rightarrow> 'k) \<Rightarrow> ('row \<Rightarrow> 'db \<Rightarrow> 'db result) \<Rightarrow> 'row list \<Rightarrow> 'db \<Rightarrow> 'db result" where
  "upsert_page key upsert rows d = (if distinct (map key rows) then exec_seq (map upsert rows) d else Inl DatabaseError)"

text \<open>A list in pieces of at most \<open>n\<close>.\<close>

function pages :: "nat \<Rightarrow> 'a list \<Rightarrow> 'a list list" where
  "pages n xs = (if xs = [] \<or> n = 0 then [] else take n xs # pages n (drop n xs))"
  by pat_completeness auto
termination
  by (relation "measure (length \<circ> snd)") auto

declare pages.simps [simp del]

definition page_size :: nat where "page_size = 100"
definition seed_batch :: nat where "seed_batch = 10000"

definition execute_values ::
    "outages \<Rightarrow> ('row \<Rightarrow> 'k) \<Rightarrow> ('row \<Rightarrow> 'db \<Rightarrow> 'db result) \<Rightarrow> 'row list \<Rightarrow> ('db, unit) io list" where
  "execute_values up key upsert rows = map (\<lambda>page. execute up (upsert_page key upsert page)) (pages page_size rows)"

subsection \<open>The seeding\<close>

text \<open>The rows are read first; without rows nothing is sent.\<close>

definition seed_table :: "outages \<Rightarrow> 'row list result \<Rightarrow> ('row list \<Rightarrow> ('db, unit) io list) \<Rightarrow> ('db, unit) io" where
  "seed_table up rows send s =
     (case rows of
        Inl e \<Rightarrow> (Inl e, s)
      | Inr [] \<Rightarrow> (Inr (), s)
      | Inr rs \<Rightarrow> bind_io (run_all (send rs)) (\<lambda>_. commit up) s)"

definition seed_routes :: "outages \<Rightarrow> gtfs_dir \<Rightarrow> (database, unit) io" where
  "seed_routes up data_dir = seed_table up (route_rows data_dir) (execute_values up sd_route upsert_route)"

definition seed_stops :: "outages \<Rightarrow> (string \<Rightarrow> pyfloat result) \<Rightarrow> gtfs_dir \<Rightarrow> (database, unit) io" where
  "seed_stops up parse data_dir = seed_table up (stop_rows parse data_dir) (execute_values up sp_id upsert_gtfs_stop)"

definition seed_route_stops :: "outages \<Rightarrow> gtfs_dir \<Rightarrow> (database, unit) io" where
  "seed_route_stops up data_dir = seed_table up (route_stop_rows data_dir)
     (execute_values up (\<lambda>r. (sq_route r, sq_direction r, sq_sequence r)) upsert_route_stop)"

text \<open>Stop times go in batches, each in statements of a page.\<close>

definition seed_stop_times :: "outages \<Rightarrow> gtfs_dir \<Rightarrow> (database, unit) io" where
  "seed_stop_times up data_dir = seed_table up (stop_time_rows data_dir)
     (\<lambda>rows. concat (map (execute_values up (\<lambda>r. (sx_trip r, sx_sequence r)) upsert_stop_time) (pages seed_batch rows)))"

text \<open>The connection is closed at the end in any case, which rolls back what was not committed.\<close>

definition seed_main :: "outages \<Rightarrow> (string \<Rightarrow> pyfloat result) \<Rightarrow> gtfs_dir \<Rightarrow> (database, unit) io" where
  "seed_main up parse data_dir =
     connection True up (run_all
       [seed_routes up data_dir, seed_stops up parse data_dir, seed_route_stops up data_dir, seed_stop_times up data_dir])"

end
