(* ===== verification/Gtfs_Seed_Properties.thy ===== *)
theory Gtfs_Seed_Properties
  imports Gtfs_Seed Snapshot_Builder Db_Writer_Properties
begin

text \<open>
  Properties of the seeding: a run commits table by table and keeps the keys, a second run
  changes nothing, a seeded route has the stops of one trip, and old stops stay.
\<close>

subsection \<open>Pages\<close>

lemma pages_Nil [simp]: "pages n [] = []"
  by (simp add: pages.simps)

lemma pages_step: "xs \<noteq> [] \<Longrightarrow> 0 < n \<Longrightarrow> pages n xs = take n xs # pages n (drop n xs)"
  by (simp add: pages.simps)

lemma concat_pages: "0 < n \<Longrightarrow> concat (pages n xs) = xs"
proof (induction n xs rule: pages.induct)
  case (1 n xs)
  then show ?case by (cases "xs = []") (simp_all add: pages_step)
qed

lemma length_pages: "p \<in> set (pages n xs) \<Longrightarrow> length p \<le> n \<and> p \<noteq> []"
proof (induction n xs rule: pages.induct)
  case (1 n xs)
  then show ?case by (cases "xs = [] \<or> n = 0") (auto simp: pages_step pages.simps [of n xs])
qed

text \<open>Paging the batches is paging the whole, as a batch is a number of full pages.\<close>

lemma pages_split:
  assumes "0 < n"
  shows "pages n (take (k * n) xs) @ pages n (drop (k * n) xs) = pages n xs"
proof (induction k arbitrary: xs)
  case (Suc k)
  show ?case
  proof (cases "xs = []")
    case False
    have "take (Suc k * n) xs \<noteq> []" using False assms by simp
    moreover have "drop n (take (Suc k * n) xs) = take (k * n) (drop n xs)" by (simp add: drop_take)
    moreover have "take n (take (Suc k * n) xs) = take n xs" by (simp add: min_def)
    ultimately have "pages n (take (Suc k * n) xs) = take n xs # pages n (take (k * n) (drop n xs))"
      using assms by (simp add: pages_step)
    moreover have "drop (Suc k * n) xs = drop (k * n) (drop n xs)" by (simp add: add.commute)
    ultimately show ?thesis using Suc.IH [of "drop n xs"] False assms by (simp add: pages_step)
  qed simp
qed simp

lemma pages_of_batches: "0 < n \<Longrightarrow> 0 < k \<Longrightarrow> concat (map (pages n) (pages (k * n) xs)) = pages n xs"
proof (induction "k * n" xs rule: pages.induct)
  case (1 xs)
  then show ?case using pages_split [of n k xs] by (cases "xs = []") (simp_all add: pages_step)
qed

lemma execute_batches:
  "concat (map (execute_values up key upsert) (pages seed_batch rows)) = execute_values up key upsert rows"
proof -
  have "concat (map (pages page_size) (pages (100 * page_size) rows)) = pages page_size rows"
    by (rule pages_of_batches) (simp_all add: page_size_def)
  moreover have "100 * page_size = seed_batch" by (simp add: page_size_def seed_batch_def)
  moreover have "concat (map (execute_values up key upsert) yss) =
      map (\<lambda>page. execute up (upsert_page key upsert page)) (concat (map (pages page_size) yss))" for yss
    by (induction yss) (simp_all add: execute_values_def)
  ultimately show ?thesis by (simp add: execute_values_def)
qed

subsection \<open>Tables with an upsert\<close>

text \<open>Several rows in turn, the row of a key, and what a new row makes of the row of its key.\<close>

definition put_rows :: "('r \<Rightarrow> 'k) \<Rightarrow> ('r \<Rightarrow> 'r \<Rightarrow> 'r) \<Rightarrow> 'r list \<Rightarrow> 'r list \<Rightarrow> 'r list" where
  "put_rows key merge = foldl (put_row key merge)"

definition look_row :: "('r \<Rightarrow> 'k) \<Rightarrow> 'r list \<Rightarrow> 'k \<Rightarrow> 'r option" where
  "look_row key rows = map_of (map (\<lambda>r. (key r, r)) rows)"

definition merged :: "('r \<Rightarrow> 'r \<Rightarrow> 'r) \<Rightarrow> 'r option \<Rightarrow> 'r \<Rightarrow> 'r option" where
  "merged merge old new = Some (case old of None \<Rightarrow> new | Some old \<Rightarrow> merge old new)"

lemma merged_simps [simp]: "merged merge None new = Some new" "merged merge (Some old) new = Some (merge old new)"
  by (simp_all add: merged_def)

locale upsert_table =
  fixes key :: "'r \<Rightarrow> 'k" and merge :: "'r \<Rightarrow> 'r \<Rightarrow> 'r"
  assumes merge_key: "key old = key new \<Longrightarrow> key (merge old new) = key new"
    and merge_last: "merge (merge old a) b = merge old b"
    and merge_same: "merge a a = a"
begin

lemma keys_put: "map key (put_row key merge rows r) = (if key r \<in> key ` set rows then map key rows else map key rows @ [key r])"
  by (auto simp: put_row_def merge_key)

lemma keys_put_set: "key ` set (put_row key merge rows r) = insert (key r) (key ` set rows)"
  using keys_put [of rows r] by (metis (no_types, lifting) insert_absorb list.simps(15) list.set_map rotate1.simps(2) set_rotate1 set_map)

lemma distinct_put: "distinct (map key rows) \<Longrightarrow> distinct (map key (put_row key merge rows r))"
  by (simp only: keys_put) auto

lemma puts_simps [simp]: "put_rows key merge rows [] = rows" "put_rows key merge rows (r # rs) = put_rows key merge (put_row key merge rows r) rs"
  by (simp_all add: put_rows_def)

lemma puts_keys_set: "key ` set (put_rows key merge rows rs) = key ` set rows \<union> key ` set rs"
  by (induction rs arbitrary: rows) (auto simp: keys_put_set)

lemma distinct_puts: "distinct (map key rows) \<Longrightarrow> distinct (map key (put_rows key merge rows rs))"
  by (induction rs arbitrary: rows) (simp_all add: distinct_put)

text \<open>Known keys keep their places.\<close>

lemma puts_keys_known: "key ` set rs \<subseteq> key ` set rows \<Longrightarrow> map key (put_rows key merge rows rs) = map key rows"
proof (induction rs arbitrary: rows)
  case (Cons r rs)
  then have "map key (put_row key merge rows r) = map key rows" by (simp add: keys_put)
  then have "key ` set (put_row key merge rows r) = key ` set rows" by (metis set_map)
  then show ?case using Cons \<open>map key (put_row key merge rows r) = map key rows\<close> by simp
qed simp

lemma look_put: "look_row key (put_row key merge rows r) k = (if k = key r then merged merge (look_row key rows k) r else look_row key rows k)"
proof -
  have upd: "look_row key (map (\<lambda>old. if key old = key r then merge old r else old) rows) k =
      (if k = key r then map_option (\<lambda>old. merge old r) (look_row key rows k) else look_row key rows k)" for rows
    by (induction rows) (auto simp: look_row_def merge_key)
  have app: "look_row key (rows @ [r]) k = (case look_row key rows k of None \<Rightarrow> if k = key r then Some r else None | Some x \<Rightarrow> Some x)"
    by (simp add: look_row_def map_add_def split: option.split)
  have mem: "look_row key rows (key r) = None \<longleftrightarrow> key r \<notin> key ` set rows" by (auto simp: look_row_def map_of_eq_None_iff image_image)
  show ?thesis
  proof (cases "key r \<in> key ` set rows")
    case True
    then obtain old where "look_row key rows (key r) = Some old" using mem by (cases "look_row key rows (key r)") simp_all
    then show ?thesis using True upd by (simp add: put_row_def merged_def)
  next
    case False
    then show ?thesis using app mem by (auto simp: put_row_def merged_def split: option.split)
  qed
qed

lemma look_puts: "look_row key (put_rows key merge rows rs) k = foldl (merged merge) (look_row key rows k) (filter (\<lambda>r. key r = k) rs)"
  by (induction rs arbitrary: rows) (auto simp: look_put)

text \<open>Only the last of the new rows counts.\<close>

lemma merged_last: "rs \<noteq> [] \<Longrightarrow> \<exists>x. foldl (merged merge) old rs = Some (merge x (last rs))"
proof (induction rs rule: rev_induct)
  case (snoc r rs)
  show ?case
  proof (cases "foldl (merged merge) old rs")
    case None
    then show ?thesis by (auto intro!: exI [of _ r] simp: merge_same)
  qed auto
qed simp

lemma merged_some: "rs \<noteq> [] \<Longrightarrow> foldl (merged merge) (Some x) rs = Some (merge x (last rs))"
proof (induction rs rule: rev_induct)
  case (snoc r rs)
  then show ?case by (cases "rs = []") (simp_all add: merged_def merge_last)
qed simp

lemma merged_twice: "foldl (merged merge) (foldl (merged merge) old rs) rs = foldl (merged merge) old rs"
proof (cases "rs = []")
  case False
  from merged_last [OF False, of old] obtain x where "foldl (merged merge) old rs = Some (merge x (last rs))" by blast
  then show ?thesis using merged_some [OF False, of "merge x (last rs)"] by (simp add: merge_last)
qed simp

lemma look_nth: "distinct (map key rows) \<Longrightarrow> i < length rows \<Longrightarrow> look_row key rows (key (rows ! i)) = Some (rows ! i)"
  unfolding look_row_def by (rule map_of_is_SomeI) (auto simp: comp_def)

lemma rows_eqI:
  assumes "map key rows = map key rows'" "distinct (map key rows)" "\<And>k. look_row key rows k = look_row key rows' k"
  shows "rows = rows'"
proof (rule nth_equalityI)
  show len: "length rows = length rows'" using assms(1) by (metis length_map)
  fix i assume i: "i < length rows"
  then have "key (rows ! i) = key (rows' ! i)" using assms(1) len by (metis nth_map)
  then show "rows ! i = rows' ! i"
    using look_nth [OF assms(2) i] look_nth [of rows' i] assms i len by simp
qed

text \<open>The same rows again change nothing.\<close>

lemma puts_again:
  assumes "distinct (map key rows)"
  shows "put_rows key merge (put_rows key merge rows rs) rs = put_rows key merge rows rs"
proof (rule rows_eqI)
  show keys: "map key (put_rows key merge (put_rows key merge rows rs) rs) = map key (put_rows key merge rows rs)"
    by (rule puts_keys_known) (simp add: puts_keys_set)
  show "distinct (map key (put_rows key merge (put_rows key merge rows rs) rs))" using distinct_puts [OF assms] by (simp only: keys)
  show "look_row key (put_rows key merge (put_rows key merge rows rs) rs) k = look_row key (put_rows key merge rows rs) k" for k by (simp add: look_puts merged_twice)
qed

text \<open>Rows are chosen by their key before or after.\<close>

lemma filter_put:
  "filter (\<lambda>r. P (key r)) (put_row key merge rows r) =
    (if P (key r) then put_row key merge (filter (\<lambda>r. P (key r)) rows) r else filter (\<lambda>r. P (key r)) rows)"
proof (cases "key r \<in> key ` set rows")
  case True
  let ?f = "\<lambda>old. if key old = key r then merge old r else old"
  have "filter (\<lambda>r. P (key r)) (map ?f xs) = map ?f (filter (\<lambda>r. P (key r)) xs)" for xs
    by (induction xs) (auto simp: merge_key)
  moreover have "\<not> P (key r) \<Longrightarrow> map ?f (filter (\<lambda>r. P (key r)) xs) = filter (\<lambda>r. P (key r)) xs" for xs
    by (induction xs) auto
  ultimately show ?thesis using True by (auto simp: put_row_def)
next
  case False
  then show ?thesis by (auto simp: put_row_def)
qed

lemma filter_puts:
  "filter (\<lambda>r. P (key r)) (put_rows key merge rows rs) =
    put_rows key merge (filter (\<lambda>r. P (key r)) rows) (filter (\<lambda>r. P (key r)) rs)"
  by (induction rs arbitrary: rows) (simp_all add: filter_put)

text \<open>Rows of other keys stay.\<close>

lemma puts_other: "x \<in> set rows \<Longrightarrow> key x \<notin> key ` set rs \<Longrightarrow> x \<in> set (put_rows key merge rows rs)"
proof (induction rs arbitrary: rows)
  case (Cons r rs)
  then have "x \<in> set (put_row key merge rows r)" by (auto simp: put_row_def intro!: image_eqI [of x])
  then show ?case using Cons by simp
qed simp

lemma puts_new: "distinct (map key (rows @ rs)) \<Longrightarrow> put_rows key merge rows rs = rows @ rs"
proof (induction rs arbitrary: rows)
  case (Cons r rs)
  then have "put_row key merge rows r = rows @ [r]" by (auto simp: put_row_def)
  then show ?case using Cons by simp
qed simp

end

interpretation routes: upsert_table ro_route_id merge_route
  by unfold_locales (simp_all add: merge_route_def)

interpretation stops: upsert_table st_device_id merge_stop
  by unfold_locales (simp_all add: merge_stop_def)

interpretation route_stops: upsert_table "\<lambda>r. (rt_route_id r, rt_direction_id r, rt_stop_sequence r)" "\<lambda>_ new. new"
  by unfold_locales simp_all

interpretation stop_times: upsert_table "\<lambda>r. (tm_trip_id r, tm_stop_sequence r)" "\<lambda>_ new. new"
  by unfold_locales simp_all

subsection \<open>Transactions of the seeding\<close>

definition seed_stmt :: "('row \<Rightarrow> 'k) \<Rightarrow> ('row \<Rightarrow> 'db \<Rightarrow> 'db result) \<Rightarrow> 'row list \<Rightarrow> 'db \<Rightarrow> 'db result" where
  "seed_stmt key upsert rows = exec_seq (map (upsert_page key upsert) (pages page_size rows))"

lemma exec_seq_append: "exec_seq (fs @ gs) d = bind_result (exec_seq fs d) (exec_seq gs)"
  by (induction fs arbitrary: d) (auto simp: bind_result_def split: sum.split)

lemma exec_pages:
  "exec_seq (map (upsert_page key upsert) ps) d = Inr d' \<longleftrightarrow>
   (\<forall>p \<in> set ps. distinct (map key p)) \<and> exec_seq (map upsert (concat ps)) d = Inr d'"
proof (induction ps arbitrary: d)
  case (Cons p ps)
  then show ?case
    by (cases "exec_seq (map upsert p) d") (auto simp: upsert_page_def exec_seq_append)
qed auto

definition paged_keys :: "('row \<Rightarrow> 'k) \<Rightarrow> 'row list \<Rightarrow> bool" where
  "paged_keys key rows \<longleftrightarrow> (\<forall>p \<in> set (pages page_size rows). distinct (map key p))"

lemma seed_stmt_Inr: "seed_stmt key upsert rows d = Inr d' \<longleftrightarrow> paged_keys key rows \<and> exec_seq (map upsert rows) d = Inr d'"
  using exec_pages [of key upsert "pages page_size rows" d d'] concat_pages [of page_size rows]
  by (simp add: seed_stmt_def paged_keys_def page_size_def)

lemma implements_values: "implements up (run_all (execute_values up key upsert rows)) (seed_stmt key upsert rows) []"
  using implements_many [OF implements_run_Nil, of up "map (upsert_page key upsert) (pages page_size rows)"]
  by (simp add: execute_values_def seed_stmt_def comp_def)

text \<open>What a step of the seeding does in a session without open transaction.\<close>

definition performs :: "outages \<Rightarrow> ('db, unit) io \<Rightarrow> ('db \<Rightarrow> 'db result) \<Rightarrow> bool" where
  "performs up m stmt \<longleftrightarrow> (\<forall>s. idle s \<longrightarrow>
     (case m s of
        (Inr _, t) \<Rightarrow> idle t \<and> stmt (se_committed s) = Inr (se_committed t) \<and> se_delivered t = se_delivered s
      | (Inl e, t) \<Rightarrow> se_committed t = se_committed s \<and> se_delivered t = se_delivered s \<and>
          ((\<forall>n. up n) \<longrightarrow> stmt (se_committed s) = Inl e)))"

definition stage :: "'row list result \<Rightarrow> ('row list \<Rightarrow> 'db \<Rightarrow> 'db result) \<Rightarrow> 'db \<Rightarrow> 'db result" where
  "stage rows stmt d = bind_result rows (\<lambda>rs. stmt rs d)"

lemma table_outcome:
  assumes impl: "\<And>rs. implements up (run_all (send rs)) (stmt rs) []" and "stmt [] = Inr" and s: "idle s"
  shows "case seed_table up rows send s of
      (Inl e, t) \<Rightarrow> se_committed t = se_committed s \<and> se_delivered t = se_delivered s \<and>
        ((\<forall>n. up n) \<longrightarrow> stage rows stmt (se_committed s) = Inl e)
    | (Inr x, t) \<Rightarrow> idle t \<and> stage rows stmt (se_committed s) = Inr (se_committed t) \<and> se_delivered t = se_delivered s"
proof (cases rows)
  case (Inl e)
  then show ?thesis by (simp add: seed_table_def stage_def)
next
  case (Inr rs)
  have live: "\<not> se_aborted s" "se_work s = se_committed s" "se_pending s = []" using s by (simp_all add: idle_def)
  show ?thesis
  proof (cases rs)
    case Nil
    then show ?thesis using Inr s assms(2) by (simp add: seed_table_def stage_def)
  next
    case (Cons r rs')
    obtain x t where run: "run_all (send rs) s = (x, t)" by force
    have keep: "se_committed t = se_committed s" "se_delivered t = se_delivered s"
      using impl [of rs] run unfolding implements_def tentative_def by (metis snd_conv)+
    have tab: "seed_table up rows send s = bind_io (run_all (send rs)) (\<lambda>_. commit up) s"
      using Inr Cons by (simp add: seed_table_def)
    show ?thesis
    proof (cases x)
      case (Inl e)
      then show ?thesis
        using implementsD(2) [OF impl live(1) run [unfolded Inl]] live keep run Inr
        unfolding tab by (simp add: bind_io_def stage_def)
    next
      case x: (Inr u)
      then show ?thesis
        using implementsD(1) [OF impl live(1) run [unfolded x]] live keep run Inr
        unfolding tab by (auto simp: bind_io_def stage_def commit_def Let_def idle_def)
    qed
  qed
qed

lemma performs_table:
  assumes "\<And>rs. implements up (run_all (send rs)) (stmt rs) []" "stmt [] = Inr"
  shows "performs up (seed_table up rows send) (stage rows stmt)"
  unfolding performs_def by (intro allI impI) (rule table_outcome [where send = send and stmt = stmt], rule assms(1), rule assms(2))

lemma performs_all:
  assumes "list_all2 (performs up) ms stmts" "idle s" "run_all ms s = (r, t)"
  shows "\<exists>k \<le> length stmts. exec_seq (take k stmts) (se_committed s) = Inr (se_committed t) \<and> se_delivered t = se_delivered s \<and>
    (r = Inr () \<longrightarrow> k = length stmts) \<and> (\<forall>e. r = Inl e \<and> (\<forall>n. up n) \<longrightarrow> exec_seq stmts (se_committed s) = Inl e)"
  using assms
proof (induction arbitrary: s rule: list_all2_induct)
  case (Cons m ms stmt stmts)
  obtain x s1 where m: "m s = (x, s1)" by force
  show ?case
  proof (cases x)
    case (Inl e)
    then have "r = Inl e" "t = s1" using Cons.prems m by (simp_all add: bind_io_def)
    moreover have "se_committed s1 = se_committed s" "se_delivered s1 = se_delivered s" "(\<forall>n. up n) \<longrightarrow> stmt (se_committed s) = Inl e"
      using Cons.hyps(1) Cons.prems(1) m Inl unfolding performs_def by force+
    ultimately show ?thesis by (intro exI [of _ 0]) auto
  next
    case (Inr u)
    then have s1: "idle s1" "stmt (se_committed s) = Inr (se_committed s1)" "se_delivered s1 = se_delivered s"
      using Cons.hyps(1) Cons.prems(1) m unfolding performs_def by force+
    moreover have "run_all ms s1 = (r, t)" using Cons.prems(2) m Inr by (simp add: bind_io_def)
    from Cons.IH [OF s1(1) this] obtain k where k: "k \<le> length stmts" "exec_seq (take k stmts) (se_committed s1) = Inr (se_committed t)"
        "se_delivered t = se_delivered s1" "r = Inr () \<longrightarrow> k = length stmts"
        "\<forall>e. r = Inl e \<and> (\<forall>n. up n) \<longrightarrow> exec_seq stmts (se_committed s1) = Inl e" by blast
    then show ?thesis using s1 by (intro exI [of _ "Suc k"]) auto
  qed
qed (auto simp: eq_commute [of "Inr ()"])

text \<open>The seeding of the four tables, as statements.\<close>

definition seed_stages :: "(string \<Rightarrow> pyfloat result) \<Rightarrow> gtfs_dir \<Rightarrow> (database \<Rightarrow> database result) list" where
  "seed_stages parse data_dir =
     [stage (route_rows data_dir) (seed_stmt sd_route upsert_route),
      stage (stop_rows parse data_dir) (seed_stmt sp_id upsert_gtfs_stop),
      stage (route_stop_rows data_dir) (seed_stmt (\<lambda>r. (sq_route r, sq_direction r, sq_sequence r)) upsert_route_stop),
      stage (stop_time_rows data_dir) (seed_stmt (\<lambda>r. (sx_trip r, sx_sequence r)) upsert_stop_time)]"

lemma seed_stmt_Nil: "seed_stmt key upsert [] = Inr"
  by (rule ext) (simp add: seed_stmt_def)

lemma performs_values: "performs up (seed_table up rows (execute_values up key upsert)) (stage rows (seed_stmt key upsert))"
  by (rule performs_table) (rule implements_values, rule seed_stmt_Nil)

lemma performs_stages:
  "list_all2 (performs up) [seed_routes up data_dir, seed_stops up parse data_dir, seed_route_stops up data_dir, seed_stop_times up data_dir]
     (seed_stages parse data_dir)"
  unfolding seed_stages_def seed_routes_def seed_stops_def seed_route_stops_def seed_stop_times_def execute_batches
  by (simp add: performs_values)

lemma seed_main_outcome:
  assumes "idle s" "seed_main up parse data_dir s = (r, t)"
  shows "idle t \<and> se_delivered t = se_delivered s \<and>
    (\<exists>k \<le> 4. exec_seq (take k (seed_stages parse data_dir)) (se_committed s) = Inr (se_committed t) \<and> (r = Inr () \<longrightarrow> k = 4)) \<and>
    ((\<forall>n. up n) \<longrightarrow> (\<forall>e. r = Inl e \<longrightarrow> exec_seq (seed_stages parse data_dir) (se_committed s) = Inl e))"
proof (cases "up (se_calls s)")
  case False
  then show ?thesis using assms by (auto simp: seed_main_def connection_def Let_def intro!: exI [of _ 0])
next
  case True
  let ?s = "s\<lparr>se_calls := Suc (se_calls s)\<rparr>"
  obtain x t1 where run: "run_all [seed_routes up data_dir, seed_stops up parse data_dir, seed_route_stops up data_dir,
      seed_stop_times up data_dir] ?s = (x, t1)" by force
  have r: "r = x" "t = rollback t1" using assms(2) True run by (simp_all add: seed_main_def connection_def Let_def)
  have i: "idle ?s" using assms(1) by simp
  have len: "length (seed_stages parse data_dir) = 4" by (simp add: seed_stages_def)
  show ?thesis using performs_all [OF performs_stages [of up data_dir parse] i run] len by (auto simp: r)
qed

subsection \<open>The four tables\<close>

definition route_row_of :: "seed_route \<Rightarrow> route_row" where
  "route_row_of r = \<lparr>ro_route_id = the (sd_route r), ro_agency_id = sd_agency r, ro_short_name = the (sd_short r),
     ro_long_name = sd_long r, ro_transport_type = sd_transport r, ro_metadata = JObj []\<rparr>"

definition stop_row_of :: "seed_stop \<Rightarrow> stop_row" where
  "stop_row_of r = \<lparr>st_device_id = the (sp_id r), st_stop_id = the (sp_id r), st_stop_code = sp_code r, st_stop_name = the (sp_name r), st_stop_lat = sp_lat r,
     st_stop_long = sp_lon r, st_transport_type = sp_transport r, st_zone = sp_zone r, st_is_online = False,
     st_pipeline_active = False, st_last_seen = None, st_config = JObj []\<rparr>"

definition route_stop_row_of :: "seed_route_stop \<Rightarrow> route_stop_row" where
  "route_stop_row_of r = \<lparr>rt_route_id = the (sq_route r), rt_stop_id = the (sq_stop r), rt_direction_id = sq_direction r,
     rt_stop_sequence = sq_sequence r\<rparr>"

definition stop_time_row_of :: "seed_stop_time \<Rightarrow> stop_time_row" where
  "stop_time_row_of r = \<lparr>tm_trip_id = the (sx_trip r), tm_stop_sequence = sx_sequence r, tm_stop_id = the (sx_stop r),
     tm_arrival_seconds = sx_arrival r\<rparr>"

abbreviation put_routes :: "route_row list \<Rightarrow> route_row list \<Rightarrow> route_row list" where
  "put_routes \<equiv> put_rows ro_route_id merge_route"

abbreviation put_stops :: "stop_row list \<Rightarrow> stop_row list \<Rightarrow> stop_row list" where
  "put_stops \<equiv> put_rows st_device_id merge_stop"

abbreviation put_route_stops :: "route_stop_row list \<Rightarrow> route_stop_row list \<Rightarrow> route_stop_row list" where
  "put_route_stops \<equiv> put_rows (\<lambda>r. (rt_route_id r, rt_direction_id r, rt_stop_sequence r)) (\<lambda>_ new. new)"

abbreviation put_stop_times :: "stop_time_row list \<Rightarrow> stop_time_row list \<Rightarrow> stop_time_row list" where
  "put_stop_times \<equiv> put_rows (\<lambda>r. (tm_trip_id r, tm_stop_sequence r)) (\<lambda>_ new. new)"

lemma upsert_route_Inr: "upsert_route r d = Inr d' \<longleftrightarrow> sd_route r \<noteq> None \<and> sd_short r \<noteq> None \<and> int2 (sd_type r) \<and>
    d' = d\<lparr>db_routes := put_row ro_route_id merge_route (db_routes d) (route_row_of r)\<rparr>"
  by (auto simp: upsert_route_def route_row_of_def split: option.splits)

lemma upsert_stop_Inr: "upsert_gtfs_stop r d = Inr d' \<longleftrightarrow> sp_id r \<noteq> None \<and> sp_name r \<noteq> None \<and>
    (\<forall>old \<in> set (db_stops d). st_stop_id old = the (sp_id r) \<longrightarrow> st_device_id old = the (sp_id r)) \<and>
    d' = d\<lparr>db_stops := put_row st_device_id merge_stop (db_stops d) (stop_row_of r)\<rparr>"
  by (auto simp: upsert_gtfs_stop_def stop_row_of_def split: option.splits)

lemma upsert_route_stop_Inr: "upsert_route_stop r d = Inr d' \<longleftrightarrow> sq_route r \<noteq> None \<and> sq_stop r \<noteq> None \<and>
    int2 (sq_direction r) \<and> int4 (sq_sequence r) \<and> the (sq_route r) \<in> ro_route_id ` set (db_routes d) \<and>
    d' = d\<lparr>db_route_stops := put_row (\<lambda>r. (rt_route_id r, rt_direction_id r, rt_stop_sequence r)) (\<lambda>_ new. new)
      (db_route_stops d) (route_stop_row_of r)\<rparr>"
  by (auto simp: upsert_route_stop_def route_stop_row_of_def split: option.splits)

lemma upsert_stop_time_Inr: "upsert_stop_time r d = Inr d' \<longleftrightarrow> sx_trip r \<noteq> None \<and> sx_stop r \<noteq> None \<and>
    int4 (sx_sequence r) \<and> int4 (sx_arrival r) \<and> int4 (sx_departure r) \<and>
    d' = d\<lparr>db_stop_times := put_row (\<lambda>r. (tm_trip_id r, tm_stop_sequence r)) (\<lambda>_ new. new) (db_stop_times d) (stop_time_row_of r)\<rparr>"
  by (auto simp: upsert_stop_time_def stop_time_row_of_def split: option.splits)

lemma bind_result_Inr_iff: "bind_result m f = Inr y \<longleftrightarrow> (\<exists>x. m = Inr x \<and> f x = Inr y)"
  by (cases m) auto

lemma exec_routes: "exec_seq (map upsert_route rows) d = Inr d' \<longleftrightarrow>
    (\<forall>r \<in> set rows. sd_route r \<noteq> None \<and> sd_short r \<noteq> None \<and> int2 (sd_type r)) \<and>
    d' = d\<lparr>db_routes := put_routes (db_routes d) (map route_row_of rows)\<rparr>"
  by (induction rows arbitrary: d) (auto simp: bind_result_Inr_iff upsert_route_Inr)

lemma exec_route_stops: "exec_seq (map upsert_route_stop rows) d = Inr d' \<longleftrightarrow>
    (\<forall>r \<in> set rows. sq_route r \<noteq> None \<and> sq_stop r \<noteq> None \<and> int2 (sq_direction r) \<and> int4 (sq_sequence r) \<and>
       the (sq_route r) \<in> ro_route_id ` set (db_routes d)) \<and>
    d' = d\<lparr>db_route_stops := put_route_stops (db_route_stops d) (map route_stop_row_of rows)\<rparr>"
  by (induction rows arbitrary: d) (auto simp: bind_result_Inr_iff upsert_route_stop_Inr)

lemma exec_stop_times: "exec_seq (map upsert_stop_time rows) d = Inr d' \<longleftrightarrow>
    (\<forall>r \<in> set rows. sx_trip r \<noteq> None \<and> sx_stop r \<noteq> None \<and> int4 (sx_sequence r) \<and> int4 (sx_arrival r) \<and> int4 (sx_departure r)) \<and>
    d' = d\<lparr>db_stop_times := put_stop_times (db_stop_times d) (map stop_time_row_of rows)\<rparr>"
  by (induction rows arbitrary: d) (auto simp: bind_result_Inr_iff upsert_stop_time_Inr)

text \<open>The stops of a set that have a row are their own devices.\<close>

definition own_devices :: "string set \<Rightarrow> stop_row list \<Rightarrow> bool" where
  "own_devices S rows \<longleftrightarrow> (\<forall>old \<in> set rows. st_stop_id old \<in> S \<longrightarrow> st_device_id old = st_stop_id old)"

lemma own_devices_put: "own_devices S rows \<Longrightarrow> own_devices S (put_row st_device_id merge_stop rows (stop_row_of r))"
  by (auto simp: own_devices_def put_row_def merge_stop_def stop_row_of_def)

lemma own_devices_insert: "own_devices (insert x S) rows \<longleftrightarrow> own_devices {x} rows \<and> own_devices S rows"
  by (auto simp: own_devices_def)

lemma own_devices_puts: "own_devices S rows \<Longrightarrow> own_devices S (put_stops rows (map stop_row_of rs))"
  by (induction rs arbitrary: rows) (simp_all add: own_devices_put)

lemma exec_stops: "exec_seq (map upsert_gtfs_stop rows) d = Inr d' \<Longrightarrow>
    (\<forall>r \<in> set rows. sp_id r \<noteq> None \<and> sp_name r \<noteq> None) \<and> own_devices (the ` sp_id ` set rows) (db_stops d') \<and>
    d' = d\<lparr>db_stops := put_stops (db_stops d) (map stop_row_of rows)\<rparr>"
proof (induction rows arbitrary: d)
  case (Cons r rows)
  obtain d1 where d1: "upsert_gtfs_stop r d = Inr d1" "exec_seq (map upsert_gtfs_stop rows) d1 = Inr d'"
    using Cons.prems by (auto simp: bind_result_Inr_iff)
  note IH = Cons.IH [OF d1(2)]
  have "own_devices {the (sp_id r)} (db_stops d)" "db_stops d1 = put_row st_device_id merge_stop (db_stops d) (stop_row_of r)"
    using d1(1) by (auto simp: upsert_stop_Inr own_devices_def)
  then have "own_devices {the (sp_id r)} (db_stops d')"
    using IH own_devices_put own_devices_puts by (simp del: stops.puts_simps)
  then show ?case
    using IH d1(1) own_devices_insert [of "the (sp_id r)" "the ` sp_id ` set rows"] by (auto simp: upsert_stop_Inr)
qed (auto simp: own_devices_def)

lemma exec_stops_own:
  assumes "\<forall>r \<in> set rows. sp_id r \<noteq> None \<and> sp_name r \<noteq> None" "own_devices (the ` sp_id ` set rows) (db_stops d)"
  shows "exec_seq (map upsert_gtfs_stop rows) d = Inr (d\<lparr>db_stops := put_stops (db_stops d) (map stop_row_of rows)\<rparr>)"
  using assms
proof (induction rows arbitrary: d)
  case (Cons r rows)
  let ?d = "d\<lparr>db_stops := put_row st_device_id merge_stop (db_stops d) (stop_row_of r)\<rparr>"
  have own: "own_devices {the (sp_id r)} (db_stops d)" "own_devices (the ` sp_id ` set rows) (db_stops d)"
    using Cons.prems(2) own_devices_insert [of "the (sp_id r)" "the ` sp_id ` set rows"] by auto
  have "upsert_gtfs_stop r d = Inr ?d" using Cons.prems(1) own(1) by (auto simp: upsert_stop_Inr own_devices_def)
  then show ?case using Cons.IH [of ?d] Cons.prems(1) own_devices_put [OF own(2), of r] by simp
qed simp

subsection \<open>Keys\<close>

lemma distinct_stop_ids_put:
  assumes "distinct (map st_device_id rows)" "distinct (map st_stop_id rows)" "own_devices {the (sp_id r)} rows"
  shows "distinct (map st_stop_id (put_row st_device_id merge_stop rows (stop_row_of r)))"
proof (cases "the (sp_id r) \<in> st_device_id ` set rows")
  case False
  have "the (sp_id r) \<notin> st_stop_id ` set rows"
  proof
    assume "the (sp_id r) \<in> st_stop_id ` set rows"
    then obtain old where "old \<in> set rows" "st_stop_id old = the (sp_id r)" by auto
    then have "st_device_id old = the (sp_id r)" using assms(3) by (auto simp: own_devices_def)
    then show False using False \<open>old \<in> set rows\<close> by (metis image_eqI)
  qed
  then show ?thesis using False assms(2) by (simp add: put_row_def stop_row_of_def)
next
  case True
  let ?f = "\<lambda>old. if st_device_id old = the (sp_id r) then merge_stop old (stop_row_of r) else old"
  have put: "put_row st_device_id merge_stop rows (stop_row_of r) = map ?f rows" using True by (simp add: put_row_def stop_row_of_def)
  have id: "st_stop_id (?f x) = (if st_device_id x = the (sp_id r) then the (sp_id r) else st_stop_id x)" for x
    by (simp add: merge_stop_def stop_row_of_def)
  have inj: "inj_on (st_stop_id \<circ> ?f) (set rows)"
  proof (rule inj_onI)
    fix x y assume xy: "x \<in> set rows" "y \<in> set rows" "(st_stop_id \<circ> ?f) x = (st_stop_id \<circ> ?f) y"
    have dev: "st_device_id x = st_device_id y \<Longrightarrow> x = y" and st: "st_stop_id x = st_stop_id y \<Longrightarrow> x = y"
      using assms(1,2) xy(1,2) by (auto simp: distinct_map dest: inj_onD)
    have "st_stop_id z = the (sp_id r) \<Longrightarrow> st_device_id z = the (sp_id r)" if "z \<in> set rows" for z
      using assms(3) that by (auto simp: own_devices_def)
    then show "x = y" using xy dev st unfolding comp_def id by (auto split: if_splits)
  qed
  then show ?thesis using assms(2) unfolding put by (simp add: distinct_map)
qed

lemma keys_upsert_stop:
  assumes "keys_ok d" "upsert_gtfs_stop r d = Inr d'"
  shows "keys_ok d'"
proof -
  let ?T = "put_row st_device_id merge_stop (db_stops d) (stop_row_of r)"
  have d': "d' = d\<lparr>db_stops := ?T\<rparr>" "own_devices {the (sp_id r)} (db_stops d)"
    using assms(2) by (auto simp: upsert_stop_Inr own_devices_def)
  have k: "distinct (map st_device_id (db_stops d))" "distinct (map st_stop_id (db_stops d))"
      "cc_device_id ` set (db_current_counts d) \<subseteq> st_device_id ` set (db_stops d)"
    using assms(1) by (simp_all add: keys_ok_def)
  have "st_device_id ` set (db_stops d) \<subseteq> st_device_id ` set ?T" by (auto simp: stops.keys_put_set)
  note T = stops.distinct_put [OF k(1), of "stop_row_of r"] distinct_stop_ids_put [OF k(1,2) d'(2)] order_trans [OF k(3) this]
  show ?thesis using assms(1) T by (simp add: keys_ok_def d'(1))
qed

definition seed_keys :: "database \<Rightarrow> bool" where
  "seed_keys d \<longleftrightarrow> keys_ok d \<and> distinct (map ro_route_id (db_routes d))"

lemma statements_keep: "(\<And>f d d'. f \<in> set fs \<Longrightarrow> I d \<Longrightarrow> f d = Inr d' \<Longrightarrow> I d') \<Longrightarrow> I d \<Longrightarrow> exec_seq fs d = Inr d' \<Longrightarrow> I d'"
proof (induction fs arbitrary: d)
  case (Cons f fs)
  then obtain d1 where "f d = Inr d1" "exec_seq fs d1 = Inr d'" by (auto simp: bind_result_Inr_iff)
  moreover have "I d1" using Cons.prems(1) [of f d d1] Cons.prems(2) calculation(1) by simp
  ultimately show ?case using Cons.IH [of d1] Cons.prems(1) by (meson list.set_intros(2))
qed simp

lemma seed_keys_upsert:
  assumes "seed_keys d"
  shows "upsert_route r d = Inr d' \<Longrightarrow> seed_keys d'" "upsert_gtfs_stop st d = Inr d' \<Longrightarrow> seed_keys d'"
    "upsert_route_stop rs d = Inr d' \<Longrightarrow> seed_keys d'" "upsert_stop_time tm d = Inr d' \<Longrightarrow> seed_keys d'"
proof -
  show "upsert_route r d = Inr d' \<Longrightarrow> seed_keys d'"
    using assms routes.distinct_put [of "db_routes d" "route_row_of r"]
    by (auto simp: upsert_route_Inr seed_keys_def intro: keys_ok_cong)
  show "upsert_gtfs_stop st d = Inr d' \<Longrightarrow> seed_keys d'"
    using assms keys_upsert_stop by (auto simp: seed_keys_def upsert_stop_Inr)
  show "upsert_route_stop rs d = Inr d' \<Longrightarrow> seed_keys d'"
    using assms route_stops.distinct_put [of "db_route_stops d" "route_stop_row_of rs"]
    by (auto simp: upsert_route_stop_Inr seed_keys_def keys_ok_def)
  show "upsert_stop_time tm d = Inr d' \<Longrightarrow> seed_keys d'"
    using assms stop_times.distinct_put [of "db_stop_times d" "stop_time_row_of tm"]
    by (auto simp: upsert_stop_time_Inr seed_keys_def keys_ok_def)
qed

subsection \<open>A second run\<close>

lemma stage_Inr: "stage rows (seed_stmt key upsert) d = Inr d' \<longleftrightarrow>
    (\<exists>rs. rows = Inr rs \<and> paged_keys key rs \<and> exec_seq (map upsert rs) d = Inr d')"
  by (auto simp: stage_def bind_result_Inr_iff seed_stmt_Inr)

lemma stage_keys:
  assumes "\<And>r d d'. seed_keys d \<Longrightarrow> upsert r d = Inr d' \<Longrightarrow> seed_keys d'" "seed_keys d"
    "stage rows (seed_stmt key upsert) d = Inr d'"
  shows "seed_keys d'"
proof -
  obtain rs where "exec_seq (map upsert rs) d = Inr d'" using assms(3) unfolding stage_Inr by blast
  moreover have "seed_keys d2" if "f \<in> set (map upsert rs)" "seed_keys d1" "f d1 = Inr d2" for f d1 d2
    using that assms(1) by auto
  ultimately show ?thesis using assms(2) statements_keep [of "map upsert rs" seed_keys] by blast
qed

text \<open>Each stage changes its table only, and is done when its table is as after it.\<close>

lemma routes_stage:
  assumes "stage rows (seed_stmt key upsert_route) d = Inr d1" "seed_keys d"
  shows "d1 = d\<lparr>db_routes := db_routes d1\<rparr>"
    and "db_routes d' = db_routes d1 \<Longrightarrow> stage rows (seed_stmt key upsert_route) d' = Inr d'"
proof -
  obtain rs where rs: "rows = Inr rs" "paged_keys key rs" "exec_seq (map upsert_route rs) d = Inr d1"
    using assms(1) unfolding stage_Inr by blast
  then show "d1 = d\<lparr>db_routes := db_routes d1\<rparr>" by (auto simp: exec_routes)
  assume "db_routes d' = db_routes d1"
  then show "stage rows (seed_stmt key upsert_route) d' = Inr d'"
    using rs assms(2) routes.puts_again [of "db_routes d"] unfolding stage_Inr exec_routes seed_keys_def by auto
qed

lemma stops_stage:
  assumes "stage rows (seed_stmt key upsert_gtfs_stop) d = Inr d1" "seed_keys d"
  shows "d1 = d\<lparr>db_stops := db_stops d1\<rparr>"
    and "db_stops d' = db_stops d1 \<Longrightarrow> stage rows (seed_stmt key upsert_gtfs_stop) d' = Inr d'"
proof -
  obtain rs where rs: "rows = Inr rs" "paged_keys key rs" "exec_seq (map upsert_gtfs_stop rs) d = Inr d1"
    using assms(1) unfolding stage_Inr by blast
  note ex = exec_stops [OF rs(3)]
  then have "d1 = d\<lparr>db_stops := put_stops (db_stops d) (map stop_row_of rs)\<rparr>" by blast
  then show "d1 = d\<lparr>db_stops := db_stops d1\<rparr>" by simp
  assume same: "db_stops d' = db_stops d1"
  have "put_stops (db_stops d') (map stop_row_of rs) = db_stops d'"
    using ex same assms(2) stops.puts_again [of "db_stops d" "map stop_row_of rs"] by (auto simp: seed_keys_def keys_ok_def)
  then show "stage rows (seed_stmt key upsert_gtfs_stop) d' = Inr d'"
    using rs exec_stops_own [of rs d'] ex same unfolding stage_Inr by auto
qed

lemma route_stops_stage:
  assumes "stage rows (seed_stmt key upsert_route_stop) d = Inr d1" "seed_keys d"
  shows "d1 = d\<lparr>db_route_stops := db_route_stops d1\<rparr>"
    and "db_route_stops d' = db_route_stops d1 \<Longrightarrow> db_routes d' = db_routes d1 \<Longrightarrow>
      stage rows (seed_stmt key upsert_route_stop) d' = Inr d'"
proof -
  obtain rs where rs: "rows = Inr rs" "paged_keys key rs" "exec_seq (map upsert_route_stop rs) d = Inr d1"
    using assms(1) unfolding stage_Inr by blast
  then show "d1 = d\<lparr>db_route_stops := db_route_stops d1\<rparr>" by (auto simp: exec_route_stops)
  assume "db_route_stops d' = db_route_stops d1" "db_routes d' = db_routes d1"
  then show "stage rows (seed_stmt key upsert_route_stop) d' = Inr d'"
    using rs assms(2) route_stops.puts_again [of "db_route_stops d"]
    unfolding stage_Inr exec_route_stops seed_keys_def keys_ok_def by auto
qed

lemma stop_times_stage:
  assumes "stage rows (seed_stmt key upsert_stop_time) d = Inr d1" "seed_keys d"
  shows "d1 = d\<lparr>db_stop_times := db_stop_times d1\<rparr>"
    and "db_stop_times d' = db_stop_times d1 \<Longrightarrow> stage rows (seed_stmt key upsert_stop_time) d' = Inr d'"
proof -
  obtain rs where rs: "rows = Inr rs" "paged_keys key rs" "exec_seq (map upsert_stop_time rs) d = Inr d1"
    using assms(1) unfolding stage_Inr by blast
  then show "d1 = d\<lparr>db_stop_times := db_stop_times d1\<rparr>" by (auto simp: exec_stop_times)
  assume "db_stop_times d' = db_stop_times d1"
  then show "stage rows (seed_stmt key upsert_stop_time) d' = Inr d'"
    using rs assms(2) stop_times.puts_again [of "db_stop_times d"]
    unfolding stage_Inr exec_stop_times seed_keys_def keys_ok_def by auto
qed

lemma seed_stages_run:
  assumes "exec_seq (seed_stages parse data_dir) d = Inr d'" "seed_keys d"
  obtains d1 d2 d3 where
    "stage (route_rows data_dir) (seed_stmt sd_route upsert_route) d = Inr d1"
    "stage (stop_rows parse data_dir) (seed_stmt sp_id upsert_gtfs_stop) d1 = Inr d2"
    "stage (route_stop_rows data_dir) (seed_stmt (\<lambda>r. (sq_route r, sq_direction r, sq_sequence r)) upsert_route_stop) d2 = Inr d3"
    "stage (stop_time_rows data_dir) (seed_stmt (\<lambda>r. (sx_trip r, sx_sequence r)) upsert_stop_time) d3 = Inr d'"
    "seed_keys d1" "seed_keys d2" "seed_keys d3" "seed_keys d'"
proof -
  obtain d1 d2 d3 where s:
    "stage (route_rows data_dir) (seed_stmt sd_route upsert_route) d = Inr d1"
    "stage (stop_rows parse data_dir) (seed_stmt sp_id upsert_gtfs_stop) d1 = Inr d2"
    "stage (route_stop_rows data_dir) (seed_stmt (\<lambda>r. (sq_route r, sq_direction r, sq_sequence r)) upsert_route_stop) d2 = Inr d3"
    "stage (stop_time_rows data_dir) (seed_stmt (\<lambda>r. (sx_trip r, sx_sequence r)) upsert_stop_time) d3 = Inr d'"
    using assms(1) by (auto simp: seed_stages_def bind_result_Inr_iff)
  have k1: "seed_keys d1" by (rule stage_keys [OF seed_keys_upsert(1) assms(2) s(1)])
  have k2: "seed_keys d2" by (rule stage_keys [OF seed_keys_upsert(2) k1 s(2)])
  have k3: "seed_keys d3" by (rule stage_keys [OF seed_keys_upsert(3) k2 s(3)])
  have "seed_keys d'" by (rule stage_keys [OF seed_keys_upsert(4) k3 s(4)])
  then show ?thesis using that s k1 k2 k3 by blast
qed

lemma seed_stages_done:
  assumes "exec_seq (seed_stages parse data_dir) d = Inr d'" "seed_keys d"
  shows "\<forall>stg \<in> set (seed_stages parse data_dir). stg d' = Inr d'"
proof -
  obtain d1 d2 d3 where s:
    "stage (route_rows data_dir) (seed_stmt sd_route upsert_route) d = Inr d1"
    "stage (stop_rows parse data_dir) (seed_stmt sp_id upsert_gtfs_stop) d1 = Inr d2"
    "stage (route_stop_rows data_dir) (seed_stmt (\<lambda>r. (sq_route r, sq_direction r, sq_sequence r)) upsert_route_stop) d2 = Inr d3"
    "stage (stop_time_rows data_dir) (seed_stmt (\<lambda>r. (sx_trip r, sx_sequence r)) upsert_stop_time) d3 = Inr d'"
    and k: "seed_keys d1" "seed_keys d2" "seed_keys d3"
    by (rule seed_stages_run [OF assms])
  note f = stops_stage(1) [OF s(2) k(1)] route_stops_stage(1) [OF s(3) k(2)] stop_times_stage(1) [OF s(4) k(3)]
  have r: "db_routes d2 = db_routes d1" "db_routes d3 = db_routes d2" "db_routes d' = db_routes d3"
      "db_stops d3 = db_stops d2" "db_stops d' = db_stops d3" "db_route_stops d' = db_route_stops d3"
    using arg_cong [OF f(1), of db_routes] arg_cong [OF f(2), of db_routes] arg_cong [OF f(3), of db_routes]
      arg_cong [OF f(2), of db_stops] arg_cong [OF f(3), of db_stops] arg_cong [OF f(3), of db_route_stops] by simp_all
  show ?thesis
    using routes_stage(2) [OF s(1) assms(2), of d'] stops_stage(2) [OF s(2) k(1), of d'] route_stops_stage(2) [OF s(3) k(2), of d']
      stop_times_stage(2) [OF s(4) k(3), of d'] r by (simp add: seed_stages_def)
qed

subsection \<open>Properties\<close>

lemma stages_keep_keys:
  assumes "seed_keys d" "exec_seq (take k (seed_stages parse data_dir)) d = Inr d'"
  shows "seed_keys d'"
proof (rule statements_keep [where I = seed_keys, OF _ assms])
  fix f d d' assume "f \<in> set (take k (seed_stages parse data_dir))" and d: "seed_keys d" "f d = Inr d'"
  then have "f \<in> set (seed_stages parse data_dir)" by (rule_tac in_set_takeD)
  then show "seed_keys d'"
    using stage_keys [OF seed_keys_upsert(1) d(1)] stage_keys [OF seed_keys_upsert(2) d(1)]
      stage_keys [OF seed_keys_upsert(3) d(1)] stage_keys [OF seed_keys_upsert(4) d(1)] d(2)
    by (auto simp: seed_stages_def)
qed

text \<open>
  Table by table.  Wherever a seeding stops, because a file does not fit or the server
  goes away, it has loaded the first tables completely and left the others as they were,
  and the keys hold; with the server up it succeeds exactly when all rows fit.
\<close>

theorem seeding_by_tables:
  assumes "idle s" "seed_keys (se_committed s)" "seed_main up parse data_dir s = (r, t)"
  shows "idle t \<and> seed_keys (se_committed t) \<and>
    (\<exists>k \<le> 4. exec_seq (take k (seed_stages parse data_dir)) (se_committed s) = Inr (se_committed t) \<and> (r = Inr () \<longrightarrow> k = 4)) \<and>
    ((\<forall>n. up n) \<longrightarrow> (r = Inr () \<longleftrightarrow> (\<exists>d. exec_seq (seed_stages parse data_dir) (se_committed s) = Inr d)))"
proof -
  note o = seed_main_outcome [OF assms(1,3)]
  obtain k where k: "k \<le> 4" "exec_seq (take k (seed_stages parse data_dir)) (se_committed s) = Inr (se_committed t)" "r = Inr () \<longrightarrow> k = 4"
    using o by blast
  have four: "take 4 (seed_stages parse data_dir) = seed_stages parse data_dir" by (simp add: seed_stages_def)
  show ?thesis
    using o k four stages_keep_keys [OF assms(2) k(2)] by (cases r) auto
qed

text \<open>
  C24: seeding again.  After a seeding that went through, seeding with the same files again,
  with any failures of the server, leaves every table as it is.
\<close>

theorem seeding_again_changes_nothing:
  assumes "idle s" "seed_keys (se_committed s)" "seed_main up parse data_dir s = (Inr (), t)"
    and "seed_main up' parse data_dir t = (r, t')"
  shows "se_committed t' = se_committed t \<and> ((\<forall>n. up' n) \<longrightarrow> r = Inr ())"
proof -
  have four: "take 4 (seed_stages parse data_dir) = seed_stages parse data_dir" by (simp add: seed_stages_def)
  have run: "exec_seq (seed_stages parse data_dir) (se_committed s) = Inr (se_committed t)" "idle t"
    using seed_main_outcome [OF assms(1,3)] four by auto
  have fixed: "\<forall>stg \<in> set (seed_stages parse data_dir). stg (se_committed t) = Inr (se_committed t)"
    by (rule seed_stages_done [OF run(1) assms(2)])
  have same: "exec_seq fs (se_committed t) = Inr (se_committed t)" if "set fs \<subseteq> set (seed_stages parse data_dir)" for fs
    using that fixed by (induction fs) auto
  note o = seed_main_outcome [OF run(2) assms(4)]
  then obtain k where "exec_seq (take k (seed_stages parse data_dir)) (se_committed t) = Inr (se_committed t')" by blast
  then have "se_committed t' = se_committed t" using same [OF set_take_subset, of k] by simp
  moreover have "(\<forall>n. up' n) \<longrightarrow> r = Inr ()" using o same [of "seed_stages parse data_dir"] by (cases r) auto
  ultimately show ?thesis by blast
qed

text \<open>
  Times of the timetable.  A time written in hours, minutes and seconds, with any
  leading zeros and hours beyond 24, is the number of seconds since midnight.
\<close>

theorem gtfs_time_value:
  "parse_gtfs_time (replicate i CHR ''0'' @ digits h @ '':'' @ replicate j CHR ''0'' @ digits m @ '':'' @ replicate k CHR ''0'' @ digits sec) =
     Inr (int (h * 3600 + m * 60 + sec))"
proof -
  have num: "\<forall>c \<in> set (replicate n CHR ''0'' @ digits x). is_digit c" for n x
    by (auto dest: digits_chars simp: is_digit_def)
  have colon: "CHR '':'' \<notin> set (replicate n CHR ''0'' @ digits x)" for n x
  proof
    assume "CHR '':'' \<in> set (replicate n CHR ''0'' @ digits x)"
    then have "is_digit (CHR '':'')" using num by blast
    then show False by (simp add: is_digit_def)
  qed
  let ?t = "(replicate i CHR ''0'' @ digits h) @ CHR '':'' # (replicate j CHR ''0'' @ digits m) @ CHR '':'' # (replicate k CHR ''0'' @ digits sec)"
  have "\<not> py_space (CHR '':'')" by (simp add: py_space_def)
  then have "\<forall>c \<in> set ?t. \<not> py_space c" using num digit_not_space by (auto simp del: set_replicate_conv_if)
  then have "py_strip ?t = ?t" by (rule py_strip_none)
  moreover have "split_on (CHR '':'') ?t = [replicate i CHR ''0'' @ digits h, replicate j CHR ''0'' @ digits m, replicate k CHR ''0'' @ digits sec]"
    using split_on_append [OF colon] split_on_none [OF colon] by simp
  ultimately show ?thesis by (simp add: parse_gtfs_time_def py_int_digits)
qed

lemma route_stop_kept:
  assumes "stage rows' (seed_stmt key upsert_route_stop) d = Inr d'" "old \<in> set (db_route_stops d)" "rows' = Inr rows"
    "(Some (rt_route_id old), rt_direction_id old, rt_stop_sequence old) \<notin> (\<lambda>r. (sq_route r, sq_direction r, sq_sequence r)) ` set rows"
  shows "old \<in> set (db_route_stops d')"
proof -
  have ex: "(\<forall>r \<in> set rows. sq_route r \<noteq> None)" "db_route_stops d' = put_route_stops (db_route_stops d) (map route_stop_row_of rows)"
    using assms(1,3) unfolding stage_Inr exec_route_stops by auto
  have "(rt_route_id old, rt_direction_id old, rt_stop_sequence old) \<notin>
      (\<lambda>r. (rt_route_id r, rt_direction_id r, rt_stop_sequence r)) ` set (map route_stop_row_of rows)"
    using assms(4) ex(1) by (force simp: route_stop_row_of_def)
  then show ?thesis unfolding ex(2) by (rule route_stops.puts_other [OF assms(2)])
qed

text \<open>
  Old stops stay.  A seeding never removes a stop from a route: an entry whose place on
  the route no new entry takes is there afterwards as before, so a route that became shorter
  keeps the end of the old one.
\<close>

theorem old_route_stops_stay:
  assumes "idle s" "seed_keys (se_committed s)" "seed_main up parse data_dir s = (r, t)"
    and "old \<in> set (db_route_stops (se_committed s))" "route_stop_rows data_dir = Inr rows"
    and "(Some (rt_route_id old), rt_direction_id old, rt_stop_sequence old) \<notin> (\<lambda>r. (sq_route r, sq_direction r, sq_sequence r)) ` set rows"
  shows "old \<in> set (db_route_stops (se_committed t))"
proof -
  obtain k where k: "exec_seq (take k (seed_stages parse data_dir)) (se_committed s) = Inr (se_committed t)"
    using seed_main_outcome [OF assms(1,3)] by blast
  define I where "I d \<longleftrightarrow> seed_keys d \<and> old \<in> set (db_route_stops d)" for d
  have "I (se_committed t)"
  proof (rule statements_keep [where I = I, OF _ _ k])
    show "I (se_committed s)" using assms(2,4) by (simp add: I_def)
    fix f d d' assume "f \<in> set (take k (seed_stages parse data_dir))" and d: "I d" "f d = Inr d'"
    then have f: "f \<in> set (seed_stages parse data_dir)" by (rule_tac in_set_takeD)
    have keys: "seed_keys d" "old \<in> set (db_route_stops d)" using d(1) by (simp_all add: I_def)
    have "seed_keys d'" using f d(2)
      stage_keys [OF seed_keys_upsert(1) keys(1)] stage_keys [OF seed_keys_upsert(2) keys(1)]
      stage_keys [OF seed_keys_upsert(3) keys(1)] stage_keys [OF seed_keys_upsert(4) keys(1)]
      by (auto simp: seed_stages_def)
    moreover have "old \<in> set (db_route_stops d')"
      using f d(2) keys(2) arg_cong [OF routes_stage(1) [OF _ keys(1)], of _ _ _ db_route_stops]
        arg_cong [OF stops_stage(1) [OF _ keys(1)], of _ _ _ db_route_stops]
        arg_cong [OF stop_times_stage(1) [OF _ keys(1)], of _ _ _ db_route_stops]
        route_stop_kept [OF _ keys(2) assms(5,6)]
      by (fastforce simp: seed_stages_def)
    ultimately show "I d'" by (simp add: I_def)
  qed
  then show ?thesis by (simp add: I_def)
qed

subsection \<open>The stops of a route\<close>

text \<open>The calls of a trip, as the file lists them.\<close>

definition stops_of_trip :: "csv_row list \<Rightarrow> string option \<Rightarrow> (string \<times> int) list" where
  "stops_of_trip sts trip =
     map (\<lambda>st. (the (the (dict_get st ''stop_id'')), projr (int_of (the (dict_get st ''stop_sequence'')))))
       (filter (\<lambda>st. dict_get st ''trip_id'' = Some trip) sts)"

lemma csv_index_Inr: "csv_index r k = Inr v \<longleftrightarrow> dict_get r k = Some v"
  by (auto simp: csv_index_def split: option.splits)

lemma seen_combos_get: "dict_get (seen_combos trips) k = map_option fst (find (\<lambda>(t, k'). k' = k) trips)"
proof -
  have "dict_get (foldl (\<lambda>seen (t, key). if key \<in> set (dict_keys seen) then seen else dict_set seen key t) seen trips) k =
      (case dict_get seen k of Some t \<Rightarrow> Some t | None \<Rightarrow> map_option fst (find (\<lambda>(t, k'). k' = k) trips))" for seen
  proof (induction trips arbitrary: seen)
    case (Cons p trips)
    then show ?case
      using dict_get_keys [of seen k] by (cases p) (auto simp: dict_get_set split: option.split)
  qed (simp split: option.split)
  from this [of "[]"] show ?thesis by (simp add: seen_combos_def dict_get_def)
qed

lemma distinct_seen_combos: "distinct (dict_keys (seen_combos trips))"
proof -
  have "distinct (dict_keys seen) \<Longrightarrow>
      distinct (dict_keys (foldl (\<lambda>seen (t, key). if key \<in> set (dict_keys seen) then seen else dict_set seen key t) seen trips))" for seen
  proof (induction trips arbitrary: seen)
    case (Cons p trips)
    then show ?case by (cases p) (simp add: dict_keys_set)
  qed simp
  from this [of "[]"] show ?thesis by (simp add: seen_combos_def dict_keys_def)
qed

lemma find_Some_mem: "find P xs = Some x \<Longrightarrow> x \<in> set xs \<and> P x"
  by (induction xs) (auto split: if_splits)

lemma seen_combos_item:
  assumes "distinct (dict_keys trips)" "dict_get (seen_combos trips) k = Some trip"
  shows "dict_get trips trip = Some k"
proof -
  have "(trip, k) \<in> set trips" using assms(2) by (auto simp: seen_combos_get dest!: find_Some_mem)
  then show ?thesis using dict_get_item [OF assms(1)] by blast
qed

text \<open>A representative trip represents its own route and direction.\<close>

lemma representative_iff:
  assumes "distinct (dict_keys trips)" "dict_get trips trip = Some k"
  shows "trip \<in> set (representative_trips trips) \<longleftrightarrow> dict_get (seen_combos trips) k = Some trip"
proof
  assume "trip \<in> set (representative_trips trips)"
  then obtain k' where "(k', trip) \<in> set (seen_combos trips)" by (auto simp: representative_trips_def dict_values_def)
  then have k': "dict_get (seen_combos trips) k' = Some trip" using dict_get_item [OF distinct_seen_combos] by blast
  then show "dict_get (seen_combos trips) k = Some trip" using seen_combos_item [OF assms(1) k'] assms(2) by simp
next
  assume "dict_get (seen_combos trips) k = Some trip"
  then have "(k, trip) \<in> set (seen_combos trips)" using dict_get_item [OF distinct_seen_combos] by blast
  then show "trip \<in> set (representative_trips trips)" by (force simp: representative_trips_def dict_values_def)
qed

lemma route_stops_of_rows:
  assumes "distinct (dict_keys trips)" "route_stops_of trips sts = Inr rows" "\<forall>r \<in> set rows. sq_stop r \<noteq> None"
  shows "map (\<lambda>r. (the (sq_stop r), sq_sequence r)) (filter (\<lambda>r. (sq_route r, sq_direction r) = k) rows) =
    (case dict_get (seen_combos trips) k of None \<Rightarrow> [] | Some trip \<Rightarrow> stops_of_trip sts trip)"
  using assms(2,3)
proof (induction sts arbitrary: rows)
  case (Cons st sts)
  obtain trip where t: "dict_get st ''trip_id'' = Some trip" using Cons.prems by (auto simp: bind_result_Inr_iff csv_index_Inr)
  show ?case
  proof (cases "trip \<in> set (representative_trips trips)")
    case False
    have "dict_get (seen_combos trips) k \<noteq> Some trip"
    proof
      assume "dict_get (seen_combos trips) k = Some trip"
      then have "(k, trip) \<in> set (seen_combos trips)" using dict_get_item [OF distinct_seen_combos] by blast
      then show False using False by (force simp: representative_trips_def dict_values_def)
    qed
    then show ?thesis
      using Cons.IH [of rows] Cons.prems t False
      by (auto simp: bind_result_Inr_iff csv_index_Inr stops_of_trip_def split: option.split)
  next
    case True
    obtain k' stop seq rows' where r: "dict_get trips trip = Some k'" "dict_get st ''stop_id'' = Some stop"
        "bind_result (csv_index st ''stop_sequence'') int_of = Inr seq" "route_stops_of trips sts = Inr rows'"
        "rows = \<lparr>sq_route = fst k', sq_stop = stop, sq_direction = snd k', sq_sequence = seq\<rparr> # rows'"
      using Cons.prems(1) t True by (fastforce simp: bind_result_Inr_iff csv_index_Inr split: option.splits prod.splits)
    obtain v where v: "dict_get st ''stop_sequence'' = Some v" "int_of v = Inr seq"
      using r(3) by (auto simp: bind_result_Inr_iff csv_index_Inr)
    have key: "k' = k \<longleftrightarrow> dict_get (seen_combos trips) k = Some trip"
      using representative_iff [OF assms(1) r(1)] True seen_combos_item [OF assms(1), of k trip] r(1) by auto
    show ?thesis
      using Cons.IH [OF r(4)] Cons.prems(2) r(5) key v t r(2) by (cases k') (auto simp: stops_of_trip_def split: option.split)
  qed
qed (simp add: stops_of_trip_def split: option.split)

text \<open>The calls that a folder gives a route and direction: those of the first of its trips.\<close>

definition route_calls :: "trip_key \<Rightarrow> gtfs_folder \<Rightarrow> (string \<times> int) list" where
  "route_calls k f =
     (case (gf_trips f, gf_stop_times f) of
        (Some trips, Some sts) \<Rightarrow>
          (case find (\<lambda>(_, k'). k' = k) (projr (trip_to_route trips)) of None \<Rightarrow> [] | Some (trip, _) \<Rightarrow> stops_of_trip sts trip)
      | _ \<Rightarrow> [])"

lemma map_result_Inr: "map_result f xs = Inr ys \<longleftrightarrow> map f xs = map Inr ys"
proof (induction xs arbitrary: ys)
  case (Cons x xs)
  then show ?case by (cases ys) (auto simp: bind_result_Inr_iff)
qed auto

lemma folder_rows_Inr:
  "folder_rows rows_of = Inr rows \<longleftrightarrow>
    (\<exists>a b. rows_of ''Dublin Bus'' ''bus'' = Inr a \<and> rows_of ''LUAS'' ''luas'' = Inr b \<and> rows = a @ b)"
  by (auto simp: folder_rows_def transport_types_def bind_result_Inr_iff)

lemma trip_to_route_distinct: "trip_to_route trips = Inr d \<Longrightarrow> distinct (dict_keys d)"
  by (auto simp: trip_to_route_def bind_result_Inr_iff distinct_dict_of)

lemma route_stop_rows_calls:
  assumes "route_stop_rows data_dir = Inr rows" "\<forall>r \<in> set rows. sq_stop r \<noteq> None"
  shows "map (\<lambda>r. (the (sq_stop r), sq_sequence r)) (filter (\<lambda>r. (sq_route r, sq_direction r) = k) rows) =
    concat (map (\<lambda>(folder, _). route_calls k (data_dir folder)) transport_types)"
proof -
  have one: "map (\<lambda>r. (the (sq_stop r), sq_sequence r)) (filter (\<lambda>r. (sq_route r, sq_direction r) = k) rs) = route_calls k f"
    if asm: "(case (gf_trips f, gf_stop_times f) of
       (Some trips, Some stop_times) \<Rightarrow> bind_result (trip_to_route trips) (\<lambda>d. route_stops_of d stop_times)
     | _ \<Rightarrow> Inr []) = Inr rs" "\<forall>r \<in> set rs. sq_stop r \<noteq> None" for f rs
  proof (cases "(gf_trips f, gf_stop_times f)")
    case (Pair ts sts)
    show ?thesis
    proof (cases "ts = None \<or> sts = None")
      case True
      then show ?thesis using asm(1) Pair by (auto simp: route_calls_def split: option.splits)
    next
      case False
      then obtain trips stop_times d where d: "ts = Some trips" "sts = Some stop_times" "trip_to_route trips = Inr d"
          "route_stops_of d stop_times = Inr rs"
        using asm(1) Pair by (auto simp: bind_result_Inr_iff)
      show ?thesis
        using route_stops_of_rows [OF trip_to_route_distinct [OF d(3)] d(4) asm(2), of k] d(1-3) Pair
        by (auto simp: route_calls_def seen_combos_get split: option.split prod.split)
    qed
  qed
  obtain a b where ab: "rows = a @ b"
    "(case (gf_trips (data_dir ''Dublin Bus''), gf_stop_times (data_dir ''Dublin Bus'')) of
       (Some trips, Some stop_times) \<Rightarrow> bind_result (trip_to_route trips) (\<lambda>d. route_stops_of d stop_times)
     | _ \<Rightarrow> Inr []) = Inr a"
    "(case (gf_trips (data_dir ''LUAS''), gf_stop_times (data_dir ''LUAS'')) of
       (Some trips, Some stop_times) \<Rightarrow> bind_result (trip_to_route trips) (\<lambda>d. route_stops_of d stop_times)
     | _ \<Rightarrow> Inr []) = Inr b"
    using assms(1) unfolding route_stop_rows_def folder_rows_Inr by blast
  show ?thesis using one [OF ab(2)] one [OF ab(3)] assms(2) ab(1) by (simp add: transport_types_def)
qed

lemma insort_key_map: "insort_key f (g x) (map g xs) = map g (insort_key (f \<circ> g) x xs)"
  by (induction xs) simp_all

lemma sort_key_map: "sort_key f (map g xs) = map g (sort_key (f \<circ> g) xs)"
proof (induction xs)
  case (Cons x xs)
  then show ?case using insort_key_map [of f g x "sort_key (f \<circ> g) xs"] by (simp add: comp_def)
qed simp

text \<open>
  C23: the stops of a seeded route.  A route and direction that had no stops before has, after
  a seeding that went through, the calls of the first of its trips in each folder, in
  the order of their stop sequence numbers, provided these are all different.
\<close>

theorem seeded_route_is_a_trip:
  assumes "idle s" "seed_keys (se_committed s)" "seed_main up parse data_dir s = (Inr (), t)"
    and "query_stops rid did (se_committed s) = []"
    and "calls = concat (map (\<lambda>(folder, _). route_calls (Some rid, did) (data_dir folder)) transport_types)"
    and "distinct (map snd calls)"
  shows "map (\<lambda>x. (ss_stop_id x, ss_sequence x)) (query_stops rid did (se_committed t)) = sort_key snd calls"
proof -
  let ?key = "\<lambda>r. (rt_route_id r, rt_direction_id r, rt_stop_sequence r)"
  let ?P = "\<lambda>r. rt_route_id r = rid \<and> rt_direction_id r = did"
  have "exec_seq (seed_stages parse data_dir) (se_committed s) = Inr (se_committed t)"
    using seed_main_outcome [OF assms(1,3)] by (auto simp: seed_stages_def)
  then obtain d1 d2 d3 where st:
    "stage (route_rows data_dir) (seed_stmt sd_route upsert_route) (se_committed s) = Inr d1"
    "stage (stop_rows parse data_dir) (seed_stmt sp_id upsert_gtfs_stop) d1 = Inr d2"
    "stage (route_stop_rows data_dir) (seed_stmt (\<lambda>r. (sq_route r, sq_direction r, sq_sequence r)) upsert_route_stop) d2 = Inr d3"
    "stage (stop_time_rows data_dir) (seed_stmt (\<lambda>r. (sx_trip r, sx_sequence r)) upsert_stop_time) d3 = Inr (se_committed t)"
    and k: "seed_keys d1" "seed_keys d2" "seed_keys d3"
    by (rule seed_stages_run [OF _ assms(2)])
  have before: "db_route_stops d2 = db_route_stops (se_committed s)" and after: "db_route_stops (se_committed t) = db_route_stops d3"
    using arg_cong [OF routes_stage(1) [OF st(1) assms(2)], of db_route_stops] arg_cong [OF stops_stage(1) [OF st(2) k(1)], of db_route_stops]
      arg_cong [OF stop_times_stage(1) [OF st(4) k(3)], of db_route_stops] by simp_all
  obtain rows where rows: "route_stop_rows data_dir = Inr rows" "\<forall>r \<in> set rows. sq_route r \<noteq> None \<and> sq_stop r \<noteq> None"
      "db_route_stops d3 = put_route_stops (db_route_stops d2) (map route_stop_row_of rows)"
    using st(3) unfolding stage_Inr exec_route_stops by auto
  let ?mine = "filter (\<lambda>r. (sq_route r, sq_direction r) = (Some rid, did)) rows"
  have calls: "map (\<lambda>r. (the (sq_stop r), sq_sequence r)) ?mine = calls"
    using route_stop_rows_calls [OF rows(1)] rows(2) assms(5) by blast
  have empty: "filter ?P (db_route_stops d2) = []"
    using assms(4) by (metis (no_types, lifting) before query_stops_def map_is_Nil_conv set_sort set_empty)
  have "filter ?P (map route_stop_row_of rows) = map route_stop_row_of ?mine"
    using rows(2) by (auto simp: filter_map comp_def route_stop_row_of_def intro!: arg_cong [of _ _ "map route_stop_row_of"] filter_cong)
  then have "filter ?P (db_route_stops d3) = put_route_stops [] (map route_stop_row_of ?mine)"
    using route_stops.filter_puts [of "\<lambda>(r, dir, _). r = rid \<and> dir = did" "db_route_stops d2" "map route_stop_row_of rows"] empty
    by (simp add: rows(3) del: filter_map)
  moreover have "distinct (map ?key (map route_stop_row_of ?mine))"
  proof -
    have "map snd calls = map (snd \<circ> snd) (map ?key (map route_stop_row_of ?mine))"
      by (simp add: calls [symmetric] comp_def route_stop_row_of_def)
    then have "distinct (map (snd \<circ> snd) (map ?key (map route_stop_row_of ?mine)))" using assms(6) by argo
    then show ?thesis using distinct_map [of "snd \<circ> snd"] by blast
  qed
  then have "put_route_stops [] (map route_stop_row_of ?mine) = map route_stop_row_of ?mine"
    using route_stops.puts_new [of "[]" "map route_stop_row_of ?mine"] by (simp only: append_Nil)
  ultimately have mine: "filter ?P (db_route_stops (se_committed t)) = map route_stop_row_of ?mine" by (simp add: after)
  show ?thesis
    by (simp add: query_stops_def mine sort_key_map calls [symmetric] comp_def route_stop_row_of_def)
qed

subsection \<open>Examples\<close>

text \<open>A folder with a route, two stops and two trips, of which the second is not the first of the route.\<close>

definition csv_call :: "string \<Rightarrow> string \<Rightarrow> string \<Rightarrow> string \<Rightarrow> csv_row" where
  "csv_call trip stop seq at_time =
     [(''trip_id'', Some trip), (''arrival_time'', Some at_time), (''departure_time'', Some at_time),
      (''stop_id'', Some stop), (''stop_sequence'', Some seq)]"

definition example_folder :: gtfs_folder where
  "example_folder = \<lparr>
     gf_routes = Some [[(''route_id'', Some ''r1''), (''route_short_name'', Some ''39A''), (''route_type'', Some ''3'')]],
     gf_stops = Some [
       [(''stop_id'', Some ''s1''), (''stop_name'', Some ''Quay''), (''stop_lat'', Some ''53''), (''stop_lon'', Some ''6'')],
       [(''stop_id'', Some ''s2''), (''stop_name'', Some ''Hill''), (''stop_lat'', Some ''53''), (''stop_lon'', Some ''6'')]],
     gf_trips = Some [[(''trip_id'', Some ''t1''), (''route_id'', Some ''r1'')], [(''trip_id'', Some ''t2''), (''route_id'', Some ''r1'')]],
     gf_stop_times = Some [csv_call ''t1'' ''s2'' ''2'' ''08:05:00'', csv_call ''t1'' ''s1'' ''1'' ''08:00:00'', csv_call ''t2'' ''s2'' ''1'' ''25:10:00'']\<rparr>"

definition example_dir :: gtfs_dir where
  "example_dir folder = (if folder = ''Dublin Bus'' then example_folder
     else \<lparr>gf_routes = None, gf_stops = None, gf_trips = None, gf_stop_times = None\<rparr>)"

lemma example_route_rows:
  "route_rows example_dir = Inr [\<lparr>sd_route = Some ''r1'', sd_agency = Some [], sd_short = Some ''39A'', sd_long = Some [], sd_type = 3,
     sd_transport = ''bus''\<rparr>]"
  by code_simp

lemma example_route_stop_rows:
  "route_stop_rows example_dir = Inr [\<lparr>sq_route = Some ''r1'', sq_stop = Some ''s2'', sq_direction = 0, sq_sequence = 2\<rparr>,
     \<lparr>sq_route = Some ''r1'', sq_stop = Some ''s1'', sq_direction = 0, sq_sequence = 1\<rparr>]"
  by code_simp

lemma example_stop_time_rows:
  "stop_time_rows example_dir = Inr [
     \<lparr>sx_trip = Some ''t1'', sx_sequence = 2, sx_stop = Some ''s2'', sx_arrival = 29100, sx_departure = 29100\<rparr>,
     \<lparr>sx_trip = Some ''t1'', sx_sequence = 1, sx_stop = Some ''s1'', sx_arrival = 28800, sx_departure = 28800\<rparr>,
     \<lparr>sx_trip = Some ''t2'', sx_sequence = 1, sx_stop = Some ''s2'', sx_arrival = 90600, sx_departure = 90600\<rparr>]"
  by code_simp

abbreviation example_coord :: "string \<Rightarrow> pyfloat result" where
  "example_coord \<equiv> \<lambda>_. Inr 53"

lemma example_stop_rows:
  "stop_rows example_coord example_dir = Inr [
     \<lparr>sp_id = Some ''s1'', sp_code = Some [], sp_name = Some ''Quay'', sp_lat = 53, sp_lon = 53, sp_transport = ''bus'', sp_zone = None\<rparr>,
     \<lparr>sp_id = Some ''s2'', sp_code = Some [], sp_name = Some ''Hill'', sp_lat = 53, sp_lon = 53, sp_transport = ''bus'', sp_zone = None\<rparr>]"
  by code_simp

lemma example_stages: "\<exists>d. exec_seq (seed_stages example_coord example_dir) empty_db = Inr d"
  by (simp add: seed_stages_def stage_def seed_stmt_def pages_step page_size_def upsert_page_def
    example_route_rows example_stop_rows example_route_stop_rows example_stop_time_rows
    upsert_route_def upsert_gtfs_stop_def upsert_route_stop_def upsert_stop_time_def checked_def put_row_def
    int2_def int4_def empty_db_def)

lemma empty_db_seed_keys: "seed_keys empty_db"
  by (simp add: seed_keys_def keys_ok_def empty_db_def)

lemma example_seeding:
  obtains t where "seed_main (\<lambda>_. True) example_coord example_dir (new_session empty_db) = (Inr (), t)"
proof -
  obtain r t where run: "seed_main (\<lambda>_. True) example_coord example_dir (new_session empty_db) = (r, t)" by force
  have "r = Inr ()"
    using seed_main_outcome [OF idle_new_session run] example_stages by (cases r) (auto simp: new_session_def)
  then show ?thesis using that run by simp
qed

theorem seeding_by_tables_witness:
  "seed_keys (se_committed (snd (seed_main (\<lambda>n. n < 6) example_coord example_dir (new_session empty_db))))"
proof -
  obtain r t where run: "seed_main (\<lambda>n. n < 6) example_coord example_dir (new_session empty_db) = (r, t)" by force
  have "seed_keys (se_committed (new_session empty_db))" using empty_db_seed_keys by (simp add: new_session_def)
  from seeding_by_tables [OF idle_new_session this run] run show ?thesis by simp
qed

theorem seeding_again_changes_nothing_witness:
  "\<exists>t. seed_main (\<lambda>_. True) example_coord example_dir (new_session empty_db) = (Inr (), t) \<and>
    se_committed (snd (seed_main (\<lambda>n. n \<noteq> 7) example_coord example_dir t)) = se_committed t"
proof -
  obtain t where t: "seed_main (\<lambda>_. True) example_coord example_dir (new_session empty_db) = (Inr (), t)" by (rule example_seeding)
  obtain r t' where again: "seed_main (\<lambda>n. n \<noteq> 7) example_coord example_dir t = (r, t')" by force
  have "seed_keys (se_committed (new_session empty_db))" using empty_db_seed_keys by (simp add: new_session_def)
  from seeding_again_changes_nothing [OF idle_new_session this t again] t again show ?thesis by auto
qed

theorem seeded_route_is_a_trip_witness:
  "\<exists>t. seed_main (\<lambda>_. True) example_coord example_dir (new_session empty_db) = (Inr (), t) \<and>
    map (\<lambda>x. (ss_stop_id x, ss_sequence x)) (query_stops ''r1'' 0 (se_committed t)) = [(''s1'', 1), (''s2'', 2)]"
proof -
  obtain t where t: "seed_main (\<lambda>_. True) example_coord example_dir (new_session empty_db) = (Inr (), t)" by (rule example_seeding)
  have k: "seed_keys (se_committed (new_session empty_db))" "query_stops ''r1'' 0 (se_committed (new_session empty_db)) = []"
    using empty_db_seed_keys by (simp_all add: new_session_def query_stops_def empty_db_def)
  have calls: "[(''s2'', 2), (''s1'', 1)] = concat (map (\<lambda>(folder, _). route_calls (Some ''r1'', 0) (example_dir folder)) transport_types)"
    by code_simp
  have "map (\<lambda>x. (ss_stop_id x, ss_sequence x)) (query_stops ''r1'' 0 (se_committed t)) = sort_key snd [(''s2'', 2), (''s1'', 1)]"
    by (rule seeded_route_is_a_trip [OF idle_new_session k(1) t k(2) calls]) simp
  then show ?thesis using t by simp
qed

text \<open>A route that had a third stop.\<close>

definition longer_db :: database where
  "longer_db = empty_db\<lparr>
     db_routes := [\<lparr>ro_route_id = ''r1'', ro_agency_id = None, ro_short_name = ''39A'', ro_long_name = None,
       ro_transport_type = ''bus'', ro_metadata = JObj []\<rparr>],
     db_route_stops := [\<lparr>rt_route_id = ''r1'', rt_stop_id = ''s3'', rt_direction_id = 0, rt_stop_sequence = 3\<rparr>]\<rparr>"

theorem old_route_stops_stay_witness:
  "\<lparr>rt_route_id = ''r1'', rt_stop_id = ''s3'', rt_direction_id = 0, rt_stop_sequence = 3\<rparr> \<in>
    set (db_route_stops (se_committed (snd (seed_main (\<lambda>_. True) example_coord example_dir (new_session longer_db)))))"
proof -
  obtain r t where run: "seed_main (\<lambda>_. True) example_coord example_dir (new_session longer_db) = (r, t)" by force
  have "seed_keys (se_committed (new_session longer_db))"
    by (simp add: new_session_def longer_db_def seed_keys_def keys_ok_def empty_db_def)
  from old_route_stops_stay [OF idle_new_session this run _ example_route_stop_rows,
      of "\<lparr>rt_route_id = ''r1'', rt_stop_id = ''s3'', rt_direction_id = 0, rt_stop_sequence = 3\<rparr>"]
  show ?thesis using run by (simp add: new_session_def longer_db_def)
qed

end
