(* ===== verification/Test_Data.thy ===== *)
theory Test_Data
  imports Simulator Gtfs_Seed
begin

text \<open>
  \<open>Database/seed_test_data.py\<close>: the test data that fill the tables of a demonstration.  Every function
  seeds its own generator; the generator is a state \<open>'g\<close> with its draws, clock readings are
  inputs.  Text beyond ASCII is its UTF-8 encoding.
\<close>

subsection \<open>Draws\<close>

text \<open>\<open>dr_below n\<close> is \<open>Random._randbelow(n)\<close>, behind \<open>randint\<close> and \<open>choice\<close>.\<close>

record 'g draws =
  dr_env :: "'g sim_env"
  dr_below :: "int \<Rightarrow> 'g \<Rightarrow> int \<times> 'g"

definition randint :: "'g draws \<Rightarrow> int \<Rightarrow> int \<Rightarrow> 'g \<Rightarrow> int \<times> 'g" where
  "randint D a b g = (case dr_below D (b - a + 1) g of (k, g) \<Rightarrow> (a + k, g))"

definition choice :: "'g draws \<Rightarrow> 'a list \<Rightarrow> 'g \<Rightarrow> 'a \<times> 'g" where
  "choice D xs g = (case dr_below D (int (length xs)) g of (k, g) \<Rightarrow> (xs ! nat k, g))"

text \<open>A loop that draws rows for each item.\<close>

fun draw_rows :: "('a \<Rightarrow> 'g \<Rightarrow> 'b list \<times> 'g) \<Rightarrow> 'a list \<Rightarrow> 'g \<Rightarrow> 'b list \<times> 'g" where
  "draw_rows f [] g = ([], g)"
| "draw_rows f (x # xs) g = (case f x g of (ys, g) \<Rightarrow> case draw_rows f xs g of (zs, g) \<Rightarrow> (ys @ zs, g))"

subsection \<open>Constants\<close>

definition seed_tag :: string where "seed_tag = ''seed_test_data''"
definition tagged :: "string \<Rightarrow> string" where "tagged action = action @ '' ['' @ seed_tag @ '']''"
definition vehicle_states :: "string list" where "vehicle_states = [''STOPPED'', ''DEPARTING'', ''ARRIVING'']"
definition bus_capacity :: int where "bus_capacity = 80"
definition luas_capacity :: int where "luas_capacity = 300"

definition utf8 :: "nat list \<Rightarrow> string" where "utf8 = map char_of"
definition em_dash :: string where "em_dash = utf8 [226, 128, 148]"

definition minutes_us :: "int \<Rightarrow> int" where "minutes_us n = n * 60 * 1000000"

text \<open>The same curve as the simulator's.\<close>

definition demand_mult :: "pyfloat \<Rightarrow> pyfloat" where
  "demand_mult hour = interpolate (snd (last demand_curve)) (py_fmod hour 24) demand_curve"

text \<open>\<open>ts.hour + ts.minute / 60\<close> of a time in UTC.\<close>

definition hour_of_day :: "timestamp \<Rightarrow> pyfloat" where
  "hour_of_day ts = fadd (py_float (ts div minutes_us 60 mod 24)) (fdiv (py_float (ts div minutes_us 1 mod 60)) 60)"

subsection \<open>Statements\<close>

text \<open>A query for each item, and plain inserts in pages of \<open>n\<close>.\<close>

fun query_each :: "outages \<Rightarrow> ('a \<Rightarrow> 'db \<Rightarrow> 'b) \<Rightarrow> 'a list \<Rightarrow> ('db, ('a \<times> 'b) list) io" where
  "query_each up q [] s = (Inr [], s)"
| "query_each up q (x # xs) s = bind_io (query up (q x)) (\<lambda>y. bind_io (query_each up q xs) (\<lambda>r s. (Inr ((x, y) # r), s))) s"

definition insert_values :: "outages \<Rightarrow> nat \<Rightarrow> ('row \<Rightarrow> 'db \<Rightarrow> 'db result) \<Rightarrow> 'row list \<Rightarrow> ('db, unit) io list" where
  "insert_values up n ins rows = map (\<lambda>page. execute up (exec_seq (map ins page))) (pages n rows)"

text \<open>\<open>LIKE '%pattern%'\<close>, where an underscore matches any character.\<close>

definition like_anywhere :: "string \<Rightarrow> string \<Rightarrow> bool" where
  "like_anywhere pat s \<longleftrightarrow>
     (\<exists>i \<in> set [0..<Suc (length s)]. list_all2 (\<lambda>p c. p = CHR ''_'' \<or> p = c) pat (take (length pat) (drop i s)))"

text \<open>Routes that have stops, with the directions they have them in.\<close>

definition fetch_routes :: "database \<Rightarrow> (route_row \<times> int list) list" where
  "fetch_routes d =
     map (\<lambda>r. (r, sort (remdups (map rt_direction_id (filter (\<lambda>rs. rt_route_id rs = ro_route_id r) (db_route_stops d))))))
       (sort_key (\<lambda>r. (ro_transport_type r, ro_short_name r))
         (filter (\<lambda>r. ro_route_id r \<in> rt_route_id ` set (db_route_stops d)) (db_routes d)))"

definition directed :: "(route_row \<times> int list) list \<Rightarrow> (route_row \<times> int) list" where
  "directed routes = concat (map (\<lambda>(r, dirs). map (Pair r) dirs) routes)"

definition fetch_stops_with_seq :: "route_row \<times> int \<Rightarrow> database \<Rightarrow> (string \<times> int) list" where
  "fetch_stops_with_seq rd d = map (\<lambda>rs. (rt_stop_id rs, rt_stop_sequence rs)) (sort_key rt_stop_sequence
     (filter (\<lambda>rs. rt_route_id rs = ro_route_id (fst rd) \<and> rt_direction_id rs = snd rd) (db_route_stops d)))"

definition fetch_route_stops :: "route_row \<times> int \<Rightarrow> database \<Rightarrow> string list" where
  "fetch_route_stops rd d = map fst (fetch_stops_with_seq rd d)"

definition route_capacity :: "route_row \<Rightarrow> int" where
  "route_capacity r = (if ro_transport_type r = ''luas'' then luas_capacity else bus_capacity)"

definition vehicle_name :: "route_row \<times> int \<Rightarrow> string" where
  "vehicle_name rd = ''v-'' @ ro_short_name (fst rd) @ ''-d'' @ py_str_int (snd rd)"

text \<open>\<open>int(cap * x)\<close>.\<close>

definition part_of :: "int \<Rightarrow> pyfloat \<Rightarrow> int" where
  "part_of cap x = py_trunc (fmul (py_float cap) x)"

definition occupancy_of :: "int \<Rightarrow> int \<Rightarrow> pyfloat" where
  "occupancy_of pax cap = py_round_nd (fmul (py_truediv pax cap) 100) 1"

subsection \<open>Vehicles and telemetry\<close>

definition vehicle_row_of ::
    "'g draws \<Rightarrow> (nat \<Rightarrow> timestamp) \<Rightarrow> nat \<times> (route_row \<times> int) \<times> string list \<Rightarrow> 'g \<Rightarrow> vehicle_row list \<times> 'g" where
  "vehicle_row_of D clock item g =
     (case item of (i, rd, stops) \<Rightarrow>
      let cap = route_capacity (fst rd)
      in case randint D 0 (int (length stops) - 1) g of (stop_idx, g) \<Rightarrow>
         case randint D (part_of cap (fl (15 / 100))) (part_of cap (fl (85 / 100))) g of (pax, g) \<Rightarrow>
         case choice D vehicle_states g of (state, g) \<Rightarrow>
           ([\<lparr>ve_vehicle_id = vehicle_name rd, ve_route_id = Some (ro_route_id (fst rd)), ve_capacity = cap,
              ve_current_stop_id = Some (stops ! nat stop_idx), ve_state = state, ve_passenger_count = pax,
              ve_occupancy_percent = occupancy_of pax cap, ve_is_active = True, ve_last_updated = clock i\<rparr>], g))"

definition vehicle_rows :: "'g draws \<Rightarrow> (nat \<Rightarrow> timestamp) \<Rightarrow> ((route_row \<times> int) \<times> string list) list \<Rightarrow> 'g \<Rightarrow> vehicle_row list" where
  "vehicle_rows D clock items g = fst (draw_rows (vehicle_row_of D clock) (enumerate 0 (filter (\<lambda>(rd, stops). stops \<noteq> []) items)) g)"

definition seed_vehicles ::
    "'g draws \<Rightarrow> 'g \<Rightarrow> (nat \<Rightarrow> timestamp) \<Rightarrow> outages \<Rightarrow> (database, vehicle_row list) io" where
  "seed_vehicles D g clock up =
     bind_io (query up fetch_routes) (\<lambda>routes.
     bind_io (query_each up fetch_route_stops (directed routes)) (\<lambda>items.
       let rows = vehicle_rows D clock items g
       in bind_io (run_all (execute_values up ve_vehicle_id upsert_vehicle_row rows)) (\<lambda>_.
          bind_io (commit up) (\<lambda>_ s. (Inr rows, s)))))"

text \<open>The four columns of a vehicle that the telemetry uses.\<close>

type_synonym vehicle_info = "string \<times> string option \<times> int \<times> string option"

definition vehicle_info_of :: "vehicle_row \<Rightarrow> vehicle_info" where
  "vehicle_info_of v = (ve_vehicle_id v, ve_route_id v, ve_capacity v, ve_current_stop_id v)"

definition telemetry_row_of :: "'g draws \<Rightarrow> timestamp \<Rightarrow> vehicle_info \<times> nat \<Rightarrow> 'g \<Rightarrow> telemetry_row list \<times> 'g" where
  "telemetry_row_of D start item g =
     (case item of ((vid, route_id, cap, stop_id), i) \<Rightarrow>
      let ts = start + minutes_us (15 * int i)
      in case uniform (dr_env D) (fl (3 / 10)) (fl (9 / 10)) g of (u, g) \<Rightarrow>
         let base_occ = fmul (demand_mult (hour_of_day ts)) u
         in case gauss (dr_env D) 0 (fmul (py_float cap) (fl (5 / 100))) g of (z, g) \<Rightarrow>
            let pax = max 0 (min cap (py_trunc (fadd (fmul (py_float cap) base_occ) z)))
            in case choice D vehicle_states g of (state, g) \<Rightarrow>
              ([\<lparr>vt_time = ts, vt_vehicle_id = vid, vt_route_id = route_id, vt_passenger_count = pax,
                 vt_occupancy_percent = occupancy_of pax cap, vt_current_stop_id = stop_id, vt_state = state\<rparr>], g))"

definition telemetry_steps :: nat where "telemetry_steps = 96"

definition telemetry_rows :: "'g draws \<Rightarrow> timestamp \<Rightarrow> vehicle_info list \<Rightarrow> 'g \<Rightarrow> telemetry_row list" where
  "telemetry_rows D start vs g =
     fst (draw_rows (telemetry_row_of D start) (concat (map (\<lambda>v. map (Pair v) [0..<telemetry_steps]) vs)) g)"

definition delete_telemetry_from :: "timestamp \<Rightarrow> database \<Rightarrow> database result" where
  "delete_telemetry_from start d = Inr (d\<lparr>db_vehicle_telemetry := filter (\<lambda>r. vt_time r < start) (db_vehicle_telemetry d)\<rparr>)"

text \<open>A vehicle of capacity zero makes the rate of occupancy raise.\<close>

definition seed_vehicle_telemetry :: "'g draws \<Rightarrow> 'g \<Rightarrow> timestamp \<Rightarrow> outages \<Rightarrow> vehicle_info list \<Rightarrow> (database, unit) io" where
  "seed_vehicle_telemetry D g now up vs s =
     (if \<exists>v \<in> set vs. fst (snd (snd v)) = 0 then (Inl ZeroDivisionError, s)
      else let start = now - minutes_us (24 * 60)
           in bind_io (run_all (execute up (delete_telemetry_from start) #
                insert_values up 2000 insert_telemetry (telemetry_rows D start vs g))) (\<lambda>_. commit up) s)"

definition load_vehicle_rows :: "database \<Rightarrow> vehicle_info list" where
  "load_vehicle_rows d = map vehicle_info_of (filter (\<lambda>v. ve_is_active v \<and> ve_current_stop_id v \<noteq> None) (db_vehicles d))"

definition refresh_telemetry :: "'g draws \<Rightarrow> 'g \<Rightarrow> timestamp \<Rightarrow> outages \<Rightarrow> (database, unit) io" where
  "refresh_telemetry D g now up =
     bind_io (query up load_vehicle_rows) (\<lambda>vs s.
       if vs = [] then (Inr (), s) else seed_vehicle_telemetry D g now up vs s)"

subsection \<open>Predictions\<close>

text \<open>The loop over the stops of a vehicle, \<open>mk\<close> filling in what does not change.\<close>

fun draw_prediction_walk ::
    "'g draws \<Rightarrow> int \<Rightarrow> (string \<Rightarrow> nat \<Rightarrow> int \<Rightarrow> int \<Rightarrow> int \<Rightarrow> int \<Rightarrow> prediction_row) \<Rightarrow> nat \<Rightarrow> string list \<Rightarrow> int \<Rightarrow> 'g \<Rightarrow> prediction_row list \<times> 'g" where
  "draw_prediction_walk D cap mk seq [] pax g = ([], g)"
| "draw_prediction_walk D cap mk seq (sid # sids) pax g =
     (case randint D 0 25 g of (waiting, g) \<Rightarrow>
      case randint D 0 (max 1 (min waiting (cap - pax))) g of (boarded, g) \<Rightarrow>
      case randint D 0 (max 1 (part_of pax (fl (15 / 100)))) g of (alighted, g) \<Rightarrow>
      let pax = max 0 (pax + boarded - alighted)
      in case draw_prediction_walk D cap mk (Suc seq) sids pax g of (rows, g) \<Rightarrow>
           (mk sid seq pax waiting boarded alighted # rows, g))"

definition drawn_prediction :: "timestamp \<Rightarrow> route_row \<times> int \<Rightarrow> pyfloat \<Rightarrow> string \<Rightarrow> nat \<Rightarrow> int \<Rightarrow> int \<Rightarrow> int \<Rightarrow> int \<Rightarrow> prediction_row" where
  "drawn_prediction now rd confidence sid seq pax waiting boarded alighted =
     (let cap = route_capacity (fst rd)
      in \<lparr>pr_time = now, pr_vehicle_id = vehicle_name rd, pr_route_id = ro_route_id (fst rd), pr_direction_id = snd rd,
          pr_stop_id = sid, pr_stop_sequence = int seq, pr_predicted_passengers = pax, pr_vehicle_capacity = cap,
          pr_predicted_occupancy_pct = (if cap \<noteq> 0 then py_round_nd (py_truediv pax cap) 4 else 0),
          pr_waiting_at_stop = Some waiting, pr_boarded = boarded, pr_alighted = alighted, pr_has_data = True,
          pr_confidence = confidence\<rparr>)"

definition drawn_predictions :: "'g draws \<Rightarrow> timestamp \<Rightarrow> (route_row \<times> int) \<times> string list \<Rightarrow> 'g \<Rightarrow> prediction_row list \<times> 'g" where
  "drawn_predictions D now item g =
     (case item of (rd, stops) \<Rightarrow>
      if stops = [] then ([], g)
      else let cap = route_capacity (fst rd)
           in case randint D (part_of cap (fl (2 / 10))) (part_of cap (1 / 2)) g of (pax, g) \<Rightarrow>
              case uniform (dr_env D) (fl (6 / 10)) (fl (95 / 100)) g of (u, g) \<Rightarrow>
                draw_prediction_walk D cap (drawn_prediction now rd (py_round_nd u 3)) 0 stops pax g)"

definition delete_predictions_from :: "timestamp \<Rightarrow> database \<Rightarrow> database result" where
  "delete_predictions_from t d = Inr (d\<lparr>db_predictions := filter (\<lambda>r. pr_time r < t) (db_predictions d)\<rparr>)"

definition seed_predictions :: "'g draws \<Rightarrow> 'g \<Rightarrow> timestamp \<Rightarrow> outages \<Rightarrow> (database, unit) io" where
  "seed_predictions D g now up =
     bind_io (query up fetch_routes) (\<lambda>routes.
     bind_io (query_each up fetch_route_stops (directed routes)) (\<lambda>items.
       bind_io (run_all (execute up (delete_predictions_from (now - minutes_us 5)) #
         insert_values up 2000 insert_prediction (fst (draw_rows (drawn_predictions D now) items g)))) (\<lambda>_. commit up)))"

subsection \<open>Scheduler decisions\<close>

text \<open>The stops of the drawn direction are fetched between the draws.\<close>

definition drawn_decision ::
    "'g draws \<Rightarrow> outages \<Rightarrow> (route_row \<times> int list) list \<Rightarrow> 'g \<Rightarrow> (database, decision_row \<times> 'g) io" where
  "drawn_decision D up routes g =
     (case choice D routes g of ((r, dirs), g) \<Rightarrow>
      let cap = route_capacity r
      in case choice D dirs g of (d, g) \<Rightarrow>
         bind_io (query up (fetch_route_stops (r, d))) (\<lambda>stops s.
           case (if stops = [] then (None, g) else case choice D stops g of (sid, g) \<Rightarrow> (Some sid, g)) of (trigger_stop, g) \<Rightarrow>
           case randint D (part_of cap (fl (8 / 10))) cap g of (pax, g) \<Rightarrow>
           case randint D 5 30 g of (stranded, g) \<Rightarrow>
           case randint D 5 600 g of (minutes_ago, g) \<Rightarrow>
             (Inr (\<lparr>sd_decision_type = ''deploy_vehicle'', sd_route_id = ro_route_id r, sd_direction_id = d,
                sd_trigger_vehicle_id = vehicle_name (r, d), sd_trigger_stop_id = trigger_stop, sd_predicted_passengers = pax,
                sd_predicted_occupancy_pct = py_round_nd (py_truediv pax cap) 4, sd_vehicle_capacity = cap,
                sd_total_stranded = stranded, sd_threshold = Some (fl (9 / 10)),
                sd_message = tagged (''High occupancy at stop '' @ em_dash @ '' '' @ py_str_int stranded @ '' stranded''),
                sd_metadata = JObj []\<rparr>, g), s)))"

fun drawn_decisions :: "'g draws \<Rightarrow> outages \<Rightarrow> (route_row \<times> int list) list \<Rightarrow> nat \<Rightarrow> 'g \<Rightarrow> (database, decision_row list) io" where
  "drawn_decisions D up routes 0 g s = (Inr [], s)"
| "drawn_decisions D up routes (Suc n) g s =
     bind_io (drawn_decision D up routes g) (\<lambda>(row, g). bind_io (drawn_decisions D up routes n g) (\<lambda>rows s. (Inr (row # rows), s))) s"

definition decisions_tagged :: "database \<Rightarrow> nat" where
  "decisions_tagged d = length (filter (\<lambda>r. like_anywhere (''['' @ seed_tag @ '']'') (sd_message r)) (db_scheduler_decisions d))"

definition seed_scheduler_decisions :: "'g draws \<Rightarrow> 'g \<Rightarrow> outages \<Rightarrow> (database, unit) io" where
  "seed_scheduler_decisions D g up =
     bind_io (query up fetch_routes) (\<lambda>routes.
       if routes = [] then (\<lambda>s. (Inr (), s))
       else bind_io (query up decisions_tagged) (\<lambda>n.
         if 0 < n then (\<lambda>s. (Inr (), s))
         else bind_io (drawn_decisions D up routes 8 g) (\<lambda>rows.
              bind_io (run_all (insert_values up page_size insert_decision rows)) (\<lambda>_. commit up))))"

subsection \<open>Trip updates\<close>

definition drawn_update ::
    "'g draws \<Rightarrow> timestamp \<Rightarrow> route_row \<times> int \<Rightarrow> nat \<Rightarrow> string \<times> int \<Rightarrow> 'g \<Rightarrow> trip_row list \<times> 'g" where
  "drawn_update D ts rd hour_offset stop g =
     (case gauss (dr_env D) 60 120 g of (base, g) \<Rightarrow>
      let h = hour_of_day ts
      in case (if 15 / 2 \<le> h \<and> h \<le> 19 / 2 then uniform (dr_env D) 60 300 g
               else if 33 / 2 \<le> h \<and> h \<le> 37 / 2 then uniform (dr_env D) 30 240 g else (0, g)) of (extra, g) \<Rightarrow>
         let rush = (15 / 2 \<le> h \<and> h \<le> 19 / 2) \<or> (33 / 2 \<le> h \<and> h \<le> 37 / 2);
             base = (if rush then fadd base extra else base);
             arrival_delay = max (- 60) (py_trunc base)
         in case randint D 0 30 g of (late, g) \<Rightarrow>
           ([\<lparr>tu_time = ts, tu_trip_id = ''seed-trip-'' @ ro_short_name (fst rd) @ ''-d'' @ py_str_int (snd rd) @ ''-h'' @ digits hour_offset,
              tu_route_id = Some (ro_route_id (fst rd)), tu_direction_id = Some (snd rd), tu_vehicle_id = Some (vehicle_name rd),
              tu_stop_id = Some (fst stop), tu_stop_sequence = Some (snd stop), tu_arrival_delay = Some arrival_delay,
              tu_departure_delay = Some (arrival_delay + late), tu_raw = JObj []\<rparr>], g))"

definition drawn_hour ::
    "'g draws \<Rightarrow> timestamp \<Rightarrow> (route_row \<times> int) \<times> (string \<times> int) list \<Rightarrow> nat \<Rightarrow> 'g \<Rightarrow> trip_row list \<times> 'g" where
  "drawn_hour D start item hour_offset g =
     (case item of (rd, stops) \<Rightarrow>
      case randint D 0 30 g of (m, g) \<Rightarrow>
      let ts = start + minutes_us (60 * int hour_offset + m)
      in draw_rows (drawn_update D ts rd hour_offset) (take 10 stops) g)"

definition drawn_updates ::
    "'g draws \<Rightarrow> timestamp \<Rightarrow> (route_row \<times> int) \<times> (string \<times> int) list \<Rightarrow> 'g \<Rightarrow> trip_row list \<times> 'g" where
  "drawn_updates D start item g = (if snd item = [] then ([], g) else draw_rows (drawn_hour D start item) [0..<24] g)"

definition delete_seeded_updates :: "timestamp \<Rightarrow> database \<Rightarrow> database result" where
  "delete_seeded_updates start d = Inr (d\<lparr>db_trip_updates :=
     filter (\<lambda>r. \<not> (start \<le> tu_time r \<and> take 10 (tu_trip_id r) = ''seed-trip-'')) (db_trip_updates d)\<rparr>)"

definition seed_trip_updates :: "'g draws \<Rightarrow> 'g \<Rightarrow> timestamp \<Rightarrow> outages \<Rightarrow> (database, unit) io" where
  "seed_trip_updates D g now up =
     bind_io (query up fetch_routes) (\<lambda>routes.
       if routes = [] then (\<lambda>s. (Inr (), s))
       else bind_io (query_each up fetch_stops_with_seq (directed (take 6 routes))) (\<lambda>items.
         let start = now - minutes_us (24 * 60)
         in bind_io (run_all (execute up (delete_seeded_updates start) #
              insert_values up 2000 insert_trip_update (fst (draw_rows (drawn_updates D start) items g)))) (\<lambda>_. commit up)))"

subsection \<open>Service alerts\<close>

text \<open>Cause, effect, header, description and severity.\<close>

definition sample_alerts :: "(string \<times> string \<times> string \<times> string \<times> string) list" where
  "sample_alerts =
     [(''CONSTRUCTION'', ''REDUCED_SERVICE'', ''Track work on Red Line'',
       ''Luas Red Line operating reduced service due to track maintenance near Smithfield.'', ''WARNING''),
      (''ACCIDENT'', ''DETOUR'', ''Route 39A diversion'',
       ''Dublin Bus route 39A diverted via N11 due to road traffic incident.'', ''SEVERE''),
      (''WEATHER'', ''SIGNIFICANT_DELAYS'', ''Storm warning delays'',
       ''Significant delays expected across all services due to Met '' @ utf8 [195, 137] @ ''ireann Orange warning.'', ''SEVERE''),
      (''MAINTENANCE'', ''MODIFIED_SERVICE'', ''Green Line weekend schedule'',
       ''Luas Green Line operating weekend timetable for planned maintenance.'', ''INFO''),
      (''OTHER_CAUSE'', ''UNKNOWN_EFFECT'', ''Service update'', ''Minor scheduling adjustments on several bus routes.'', ''INFO'')]"

definition service_alert_of ::
    "timestamp \<Rightarrow> nat \<times> string \<times> string \<times> string \<times> string \<times> string \<Rightarrow> service_alert_row" where
  "service_alert_of now item =
     (case item of (i, cause, effect, header, desc, severity) \<Rightarrow>
      let ts = now - minutes_us (180 * int i)
      in \<lparr>sl_id = 0, sl_alert_id = Some (''seed-alert-'' @ digits i), sl_received_at = ts, sl_cause = Some cause, sl_effect = Some effect,
          sl_header_text = Some header, sl_description_text = Some desc, sl_severity = Some severity, sl_active_start = Some ts,
          sl_active_end = (if severity \<noteq> ''INFO'' then Some (ts + minutes_us 720) else None)\<rparr>)"

text \<open>The id comes from its sequence.\<close>

definition insert_service_alert :: "service_alert_row \<Rightarrow> database \<Rightarrow> database result" where
  "insert_service_alert row d =
     Inr (d\<lparr>db_next_service_alert := db_next_service_alert d + 1,
            db_service_alerts := db_service_alerts d @ [row\<lparr>sl_id := db_next_service_alert d\<rparr>]\<rparr>)"

definition alerts_tagged :: "database \<Rightarrow> nat" where
  "alerts_tagged d = length (filter (\<lambda>r. case sl_header_text r of None \<Rightarrow> False | Some h \<Rightarrow> like_anywhere seed_tag h) (db_service_alerts d))"

definition seed_service_alerts :: "timestamp \<Rightarrow> outages \<Rightarrow> (database, unit) io" where
  "seed_service_alerts now up =
     bind_io (query up alerts_tagged) (\<lambda>n.
       if 0 < n then (\<lambda>s. (Inr (), s))
       else bind_io (run_all (insert_values up page_size insert_service_alert
              (map (service_alert_of now) (enumerate 0 sample_alerts)))) (\<lambda>_. commit up))"

subsection \<open>Model versions and the log of actions\<close>

definition text_bytes :: "string \<Rightarrow> bytes" where
  "text_bytes s = map (\<lambda>c. word_of_nat (of_char c)) s"

text \<open>File name, version and size.\<close>

definition sample_models :: "(string \<times> string \<times> int) list" where
  "sample_models = [(''yolov8n-crowd.pt'', ''1.0.0'', 6800000), (''yolov8n-crowd.pt'', ''0.9.0'', 6750000),
     (''yolov8n-crowd.pt'', ''0.8.0'', 6700000)]"

definition insert_sample_model :: "string \<times> string \<times> int \<Rightarrow> database \<Rightarrow> database result" where
  "insert_sample_model m =
     (case m of (fname, ver, file_size) \<Rightarrow>
        insert_model_version fname (hexdigest (text_bytes (fname @ ''-'' @ ver))) (Some file_size)
          (''models/'' @ ver @ ''/'' @ fname))"

definition seed_model_versions :: "outages \<Rightarrow> (database, unit) io" where
  "seed_model_versions up =
     bind_io (query up (\<lambda>d. length (db_model_versions d))) (\<lambda>n.
       if 0 < n then (\<lambda>s. (Inr (), s))
       else bind_io (run_all (insert_values up page_size insert_sample_model sample_models)) (\<lambda>_. commit up))"

definition sample_actions :: "string list \<Rightarrow> admin_row list" where
  "sample_actions devices =
     [\<lparr>aa_target_device_id = Some (devices ! 0), aa_action = tagged ''update_config'',
       aa_command = JObj [(''capture_interval'', JInt 10), (''conf_threshold'', JFloat (fl (3 / 10)))], aa_initiated_by = ''operator''\<rparr>,
      \<lparr>aa_target_device_id = Some (devices ! (1 mod length devices)), aa_action = tagged ''start_pipeline'',
       aa_command = JObj [(''action'', JStr ''start_pipeline'')], aa_initiated_by = ''operator''\<rparr>,
      \<lparr>aa_target_device_id = None, aa_action = tagged ''update_evaluator'',
       aa_command = JObj [(''occupancy_threshold'', JFloat (fl (85 / 100))), (''min_stranded'', JInt 3)], aa_initiated_by = ''system''\<rparr>,
      \<lparr>aa_target_device_id = Some (devices ! (2 mod length devices)), aa_action = tagged ''stop_pipeline'',
       aa_command = JObj [(''action'', JStr ''stop_pipeline'')], aa_initiated_by = ''operator''\<rparr>]"

definition insert_admin_row :: "admin_row \<Rightarrow> database \<Rightarrow> database result" where
  "insert_admin_row r = insert_admin_action (aa_target_device_id r) (aa_action r) (aa_command r) (aa_initiated_by r)"

definition actions_tagged :: "database \<Rightarrow> nat" where
  "actions_tagged d = length (filter (\<lambda>r. like_anywhere seed_tag (aa_action r)) (db_admin_activity_log d))"

definition seed_admin_log :: "outages \<Rightarrow> (database, unit) io" where
  "seed_admin_log up =
     bind_io (query up actions_tagged) (\<lambda>n.
       if 0 < n then (\<lambda>s. (Inr (), s))
       else bind_io (query up db_stops) (\<lambda>stops.
         let devices = (if stops \<noteq> [] then map st_device_id (take 5 stops) else [''device-1''])
         in bind_io (run_all (insert_values up page_size insert_admin_row (sample_actions devices))) (\<lambda>_. commit up)))"

subsection \<open>System alerts\<close>

text \<open>Severity, message, source, device, route and the time of the resolution.\<close>

definition sample_system_alerts ::
    "timestamp \<Rightarrow> stop_row list \<Rightarrow> (route_row \<times> int list) list \<Rightarrow>
     (string \<times> string \<times> string \<times> string option \<times> string option \<times> timestamp option) list" where
  "sample_system_alerts now stops routes =
     [(''critical'', tagged ''Edge device offline for >15 min'', ''monitor'',
       (if stops \<noteq> [] then Some (st_device_id (stops ! 0)) else None), None, None),
      (''warning'', tagged ''Prediction confidence below 0.3 for route'', ''prediction_engine'', None,
       (if routes \<noteq> [] then Some (ro_route_id (fst (routes ! 0))) else None), None),
      (''info'', tagged ''GTFS-RT feed recovered after 5 failures'', ''gtfs_rt'', None, None, None),
      (''warning'', tagged (''High crowd count at stop '' @ em_dash @ '' 35 waiting''), ''crowd_monitor'',
       (if 1 < length stops then Some (st_device_id (stops ! 1)) else None), None, Some (now - minutes_us 60)),
      (''critical'', tagged ''Database connection pool exhausted'', ''system'', None, None, Some (now - minutes_us 180))]"

definition insert_system_alert ::
    "timestamp \<Rightarrow> nat \<times> string \<times> string \<times> string \<times> string option \<times> string option \<times> timestamp option \<Rightarrow> database \<Rightarrow> database result" where
  "insert_system_alert now item d =
     (case item of (i, severity, message, source, device_id, route_id, resolved) \<Rightarrow>
        Inr (d\<lparr>db_next_alert := db_next_alert d + 1,
          db_system_alerts := db_system_alerts d @
            [\<lparr>sa_id = db_next_alert d, sa_created_at = now - minutes_us (120 * int i), sa_severity = severity, sa_message = message,
              sa_source = Some source, sa_device_id = device_id, sa_route_id = route_id, sa_resolved_at = resolved\<rparr>]\<rparr>))"

definition system_alerts_tagged :: "database \<Rightarrow> nat" where
  "system_alerts_tagged d = length (filter (\<lambda>r. like_anywhere (''['' @ seed_tag @ '']'') (sa_message r)) (db_system_alerts d))"

definition seed_system_alerts :: "timestamp \<Rightarrow> outages \<Rightarrow> (database, unit) io" where
  "seed_system_alerts now up =
     bind_io (query up system_alerts_tagged) (\<lambda>n.
       if 0 < n then (\<lambda>s. (Inr (), s))
       else bind_io (query up db_stops) (\<lambda>stops.
            bind_io (query up fetch_routes) (\<lambda>routes.
            bind_io (run_all (insert_values up page_size (insert_system_alert now)
              (enumerate 0 (sample_system_alerts now stops routes)))) (\<lambda>_. commit up))))"

subsection \<open>Stop logs\<close>

text \<open>Level and the text before and after a count, if there is one.\<close>

definition log_messages :: "(string \<times> string \<times> string option) list" where
  "log_messages =
     [(''INFO'', ''Pipeline started successfully'', None), (''INFO'', ''Crowd count published: '', Some []),
      (''INFO'', ''Image sent to broker'', None), (''WARNING'', ''Camera frame drop detected'', None),
      (''WARNING'', ''High crowd count: '', Some '' exceeds threshold''),
      (''ERROR'', ''Failed to connect to MQTT broker'', None), (''INFO'', ''Model loaded: yolov8n-crowd.pt v1.0.0'', None),
      (''INFO'', ''Settings updated via admin command'', None)]"

definition drawn_log :: "'g draws \<Rightarrow> timestamp \<Rightarrow> string \<Rightarrow> nat \<Rightarrow> 'g \<Rightarrow> log_row list \<times> 'g" where
  "drawn_log D now device_id j g =
     (case randint D 1 1440 g of (m, g) \<Rightarrow>
      case choice D log_messages g of ((level, before, after), g) \<Rightarrow>
      case (case after of
              None \<Rightarrow> (before, g)
            | Some rest \<Rightarrow> (case randint D 1 40 g of (n, g) \<Rightarrow> (before @ py_str_int n @ rest, g))) of (message, g) \<Rightarrow>
        ([\<lparr>lg_time = now - minutes_us m, lg_device_id = device_id, lg_level = level, lg_message = message, lg_extra = JObj []\<rparr>], g))"

definition drawn_logs :: "'g draws \<Rightarrow> timestamp \<Rightarrow> stop_row \<Rightarrow> 'g \<Rightarrow> log_row list \<times> 'g" where
  "drawn_logs D now stop g =
     (case randint D 5 15 g of (n_logs, g) \<Rightarrow> draw_rows (drawn_log D now (st_device_id stop)) [0..<nat n_logs] g)"

definition insert_log_row :: "log_row \<Rightarrow> database \<Rightarrow> database result" where
  "insert_log_row r = insert_log (lg_time r) (lg_device_id r) (lg_level r) (lg_message r) (lg_extra r)"

definition delete_logs_from :: "timestamp \<Rightarrow> database \<Rightarrow> database result" where
  "delete_logs_from t d = Inr (d\<lparr>db_stop_logs := filter (\<lambda>r. lg_time r < t) (db_stop_logs d)\<rparr>)"

definition seed_stop_logs :: "'g draws \<Rightarrow> 'g \<Rightarrow> timestamp \<Rightarrow> outages \<Rightarrow> (database, unit) io" where
  "seed_stop_logs D g now up =
     bind_io (query up db_stops) (\<lambda>stops.
       if stops = [] then (\<lambda>s. (Inr (), s))
       else let rows = fst (draw_rows (drawn_logs D now) (take 8 stops) g)
            in bind_io (run_all (case rows of
                   [] \<Rightarrow> []
                 | r # rs \<Rightarrow> execute up (delete_logs_from (foldl min (lg_time r) (map lg_time rs))) #
                     insert_values up page_size insert_log_row rows)) (\<lambda>_. commit up))"

subsection \<open>The script\<close>

text \<open>
  \<open>gen k\<close> is the generator with seed \<open>k\<close>, \<open>now k\<close> the clock as read by the \<open>k\<close>-th function,
  \<open>clock\<close> the readings for the vehicles.  Leaving the script closes its connection.
\<close>

definition seed_all ::
    "'g draws \<Rightarrow> (nat \<Rightarrow> 'g) \<Rightarrow> (nat \<Rightarrow> timestamp) \<Rightarrow> (nat \<Rightarrow> timestamp) \<Rightarrow> outages \<Rightarrow> (database, unit) io" where
  "seed_all D gen clock now up =
     bind_io (seed_vehicles D (gen 42) clock up) (\<lambda>rows. run_all
       [seed_vehicle_telemetry D (gen 43) (now 2) up (map vehicle_info_of rows),
        seed_predictions D (gen 44) (now 3) up, seed_scheduler_decisions D (gen 45) up,
        seed_trip_updates D (gen 47) (now 10) up, seed_service_alerts (now 5) up, seed_model_versions up,
        seed_admin_log up, seed_system_alerts (now 8) up, seed_stop_logs D (gen 46) (now 9) up])"

definition test_data_main ::
    "'g draws \<Rightarrow> (nat \<Rightarrow> 'g) \<Rightarrow> (nat \<Rightarrow> timestamp) \<Rightarrow> (nat \<Rightarrow> timestamp) \<Rightarrow> bool \<Rightarrow> outages \<Rightarrow> (database, unit) io" where
  "test_data_main D gen clock now refresh up = connection True up
     (if refresh then refresh_telemetry D (gen 43) (now 2) up else seed_all D gen clock now up)"

end
