(* ===== verification/Test_Data_Properties.thy ===== *)
theory Test_Data_Properties
  imports Test_Data Gtfs_Seed_Properties Dashboard_Properties
begin

text \<open>
  Properties of the test data: what a refresh of the telemetry leaves in the tables and shows on
  the charts, whatever is drawn, and what happens when the seeding is repeated.
\<close>

subsection \<open>Transactions that read before they write\<close>

lemma performs_write:
  assumes "implements up (run_all ms) stmt []"
  shows "performs up (bind_io (run_all ms) (\<lambda>_. commit up)) stmt"
proof -
  have "implements up (run_all (if rs = [] then [] else ms)) (if rs = [] then Inr else stmt) []" for rs :: "unit list"
    using assms implements_run_Nil [of up] by (cases rs) (simp_all del: run_all.simps)
  from performs_table [where send = "\<lambda>rs. if rs = [] then [] else ms" and stmt = "\<lambda>rs. if rs = [] then Inr else stmt", OF this, of "Inr [()]"]
  show ?thesis by (simp add: seed_table_def [abs_def] stage_def [abs_def])
qed

lemma performs_skip: "performs up (\<lambda>s. (Inr (), s)) Inr"
  by (simp add: performs_def)

lemma performs_fail: "performs up (\<lambda>s. (Inl e, s)) (\<lambda>d. Inl e)"
  by (simp add: performs_def)

lemma performs_query:
  fixes q :: "'db \<Rightarrow> 'a"
  assumes "\<And>x. performs up (f x) (stmt x)"
  shows "performs up (bind_io (query up q) f) (\<lambda>d. stmt (q d) d)"
  unfolding performs_def
proof (intro allI impI)
  fix s :: "'db session" assume s: "idle s"
  let ?s = "s\<lparr>se_calls := Suc (se_calls s)\<rparr>"
  have "idle ?s" using s by simp
  then show "case bind_io (query up q) f s of
      (Inl e, t) \<Rightarrow> se_committed t = se_committed s \<and> se_delivered t = se_delivered s \<and>
        ((\<forall>n. up n) \<longrightarrow> stmt (q (se_committed s)) (se_committed s) = Inl e)
    | (Inr x, t) \<Rightarrow> idle t \<and> stmt (q (se_committed s)) (se_committed s) = Inr (se_committed t) \<and> se_delivered t = se_delivered s"
    using assms [of "q (se_committed s)", unfolded performs_def, rule_format, of ?s] s
    by (auto simp: bind_io_def query_def call_def Let_def idle_def split: sum.splits)
qed

text \<open>A connection around such a transaction.\<close>

lemma performs_connection:
  assumes "performs up m stmt" "idle s" "connection True up m s = (r, t)"
  shows "idle t \<and> se_delivered t = se_delivered s \<and>
    (r = Inr () \<and> stmt (se_committed s) = Inr (se_committed t) \<or>
     r \<noteq> Inr () \<and> se_committed t = se_committed s \<and> ((\<forall>n. up n) \<longrightarrow> (\<exists>e. r = Inl e \<and> stmt (se_committed s) = Inl e)))"
proof -
  let ?s = "s\<lparr>se_calls := Suc (se_calls s)\<rparr>"
  have "idle ?s" using assms(2) by simp
  note m = assms(1) [unfolded performs_def, rule_format, OF this]
  obtain x u where u: "m ?s = (x, u)" by force
  show ?thesis
    using m assms(2,3) u by (cases x) (auto simp: connection_def Let_def rollback_def idle_def split: if_splits)
qed

text \<open>Plain inserts in pages are inserts one by one.\<close>

lemma exec_seq_pages: "exec_seq (map (\<lambda>p. exec_seq (map ins p)) ps) d = exec_seq (map ins (concat ps)) d"
  by (induction ps arbitrary: d) (auto simp: exec_seq_append bind_result_def split: sum.split)

lemma implements_insert_values:
  assumes "0 < n"
  shows "implements up (run_all (insert_values up n ins rows)) (exec_seq (map ins rows)) []"
proof -
  have "exec_seq (map (exec_seq \<circ> map ins) (pages n rows)) d = exec_seq (map ins rows) d" for d
    using exec_seq_pages [of ins "pages n rows" d] concat_pages [OF assms, of rows] by (simp add: comp_def)
  then show ?thesis
    using implements_many [OF implements_run_Nil, of up "map (exec_seq \<circ> map ins) (pages n rows)"]
    by (simp add: insert_values_def comp_def cong: map_cong)
qed

subsection \<open>The telemetry\<close>

lemma draw_rows_map:
  assumes "\<And>x g. x \<in> set xs \<Longrightarrow> list_all2 P (rows x) (fst (f x g))"
  shows "list_all2 P (concat (map rows xs)) (fst (draw_rows f xs g))"
  using assms
proof (induction xs arbitrary: g)
  case (Cons x xs)
  obtain ys g1 zs g2 where "f x g = (ys, g1)" "draw_rows f xs g1 = (zs, g2)" by force
  then show ?case using Cons.IH [of g1] Cons.prems [of x g] Cons.prems by (auto intro!: list_all2_appendI)
qed simp

text \<open>What a row for a vehicle and a step is, whatever is drawn.\<close>

definition telemetry_of :: "timestamp \<Rightarrow> vehicle_info \<times> nat \<Rightarrow> telemetry_row \<Rightarrow> bool" where
  "telemetry_of start item row \<longleftrightarrow>
     (case item of ((vid, route_id, cap, stop_id), i) \<Rightarrow>
       vt_time row = start + minutes_us (15 * int i) \<and> vt_vehicle_id row = vid \<and> vt_route_id row = route_id \<and>
       vt_current_stop_id row = stop_id \<and> 0 \<le> vt_passenger_count row \<and>
       (0 < cap \<longrightarrow> vt_passenger_count row \<le> cap \<and> 0 \<le> vt_occupancy_percent row \<and> vt_occupancy_percent row \<le> 100))"

lemma occupancy_bounds:
  assumes "0 \<le> pax" "pax \<le> cap"
  shows "0 \<le> occupancy_of pax cap" "occupancy_of pax cap \<le> 100"
proof -
  have f: "0 \<le> py_truediv pax cap" "py_truediv pax cap \<le> 1" using py_truediv_fraction [OF assms] by simp_all
  have "fl 100 = 100" using fl_of_int [of 100] by simp
  then have "fmul 100 (py_truediv pax cap) \<le> 100" using fmul_le_fixed [of 100 "py_truediv pax cap"] f by simp
  then have "fmul (py_truediv pax cap) 100 \<le> 100" by (simp add: fmul_def mult.commute)
  then have "py_round_nd (fmul (py_truediv pax cap) 100) 1 \<le> py_round_nd 100 1" by (rule py_round_nd_mono)
  moreover have "py_round_nd 100 1 = 100"
    using \<open>fl 100 = 100\<close> half_even_of_int [of 1000] by (simp add: py_round_nd_def)
  ultimately show "occupancy_of pax cap \<le> 100" by (simp add: occupancy_of_def)
  have "py_round_nd 0 1 \<le> py_round_nd (fmul (py_truediv pax cap) 100) 1"
    using f(1) by (intro py_round_nd_mono fmul_nonneg) simp_all
  moreover have "py_round_nd 0 1 = 0" using py_round_nd_fraction [of 0 1] half_even_of_int [of 0] fl_of_int [of 0] by (simp add: py_round_nd_def)
  ultimately show "0 \<le> occupancy_of pax cap" by (simp add: occupancy_of_def)
qed

lemma telemetry_row: "list_all2 (telemetry_of start) [item] (fst (telemetry_row_of D start item g))"
  by (cases item) (auto simp: telemetry_row_of_def telemetry_of_def Let_def occupancy_bounds split: prod.split)

definition steps_of :: "vehicle_info \<Rightarrow> (vehicle_info \<times> nat) list" where
  "steps_of v = map (Pair v) [0..<telemetry_steps]"

lemma telemetry_rows_of: "list_all2 (telemetry_of start) (concat (map steps_of vs)) (telemetry_rows D start vs g)"
proof -
  have "list_all2 (telemetry_of start) (concat (map (\<lambda>item. [item]) (concat (map steps_of vs))))
      (fst (draw_rows (telemetry_row_of D start) (concat (map steps_of vs)) g))"
    by (rule draw_rows_map) (rule telemetry_row)
  then show ?thesis by (simp add: telemetry_rows_def steps_of_def [abs_def])
qed

text \<open>The rows of a vehicle over a day, in steps of a quarter of an hour.\<close>

definition window_of :: "timestamp \<Rightarrow> vehicle_info \<Rightarrow> telemetry_row list \<Rightarrow> bool" where
  "window_of now v rows \<longleftrightarrow>
     (case v of (vid, route_id, cap, stop_id) \<Rightarrow>
       map vt_time rows = map (\<lambda>i. now - minutes_us (24 * 60) + minutes_us (15 * int i)) [0..<96] \<and>
       (\<forall>row \<in> set rows. vt_vehicle_id row = vid \<and> vt_route_id row = route_id \<and> vt_current_stop_id row = stop_id \<and>
         0 \<le> vt_passenger_count row \<and> vt_passenger_count row \<le> cap \<and>
         0 \<le> vt_occupancy_percent row \<and> vt_occupancy_percent row \<le> 100))"

definition vehicle_capacity :: "vehicle_info \<Rightarrow> int" where "vehicle_capacity v = fst (snd (snd v))"

lemma blocks_of:
  "list_all2 P (concat (map f xs)) ys \<Longrightarrow> \<exists>yss. ys = concat yss \<and> list_all2 (\<lambda>x. list_all2 P (f x)) xs yss"
proof (induction xs arbitrary: ys)
  case (Cons x xs)
  then obtain us vs where "ys = us @ vs" "list_all2 P (f x) us" "list_all2 P (concat (map f xs)) vs"
    by (auto simp: list_all2_append1)
  with Cons.IH [of vs] show ?case by (metis concat.simps(2) list_all2_Cons)
qed simp

lemma block_member:
  "list_all2 P xs yss \<Longrightarrow> y \<in> set (concat yss) \<Longrightarrow> \<exists>x \<in> set xs. \<exists>ys \<in> set yss. P x ys \<and> y \<in> set ys"
  by (induction rule: list_all2_induct) auto

lemma window_of_steps:
  assumes "list_all2 (telemetry_of (now - minutes_us (24 * 60))) (steps_of v) rows" "0 < vehicle_capacity v"
  shows "window_of now v rows"
proof -
  obtain vid route_id cap stop_id where v: "v = (vid, route_id, cap, stop_id)" by (cases v)
  have "map vt_time rows = map (\<lambda>i. now - minutes_us (24 * 60) + minutes_us (15 * int i)) [0..<96]"
    using assms(1) by (auto simp: v steps_of_def telemetry_of_def telemetry_steps_def list_all2_conv_all_nth intro!: nth_equalityI)
  moreover have "\<exists>i. telemetry_of (now - minutes_us (24 * 60)) (v, i) row" if "row \<in> set rows" for row
    using assms(1) that by (auto simp: steps_of_def list_all2_conv_all_nth in_set_conv_nth)
  note row = this
  have "vt_vehicle_id row = vid \<and> vt_route_id row = route_id \<and> vt_current_stop_id row = stop_id \<and>
      0 \<le> vt_passenger_count row \<and> vt_passenger_count row \<le> cap \<and>
      0 \<le> vt_occupancy_percent row \<and> vt_occupancy_percent row \<le> 100" if "row \<in> set rows" for row
    using row [OF that] assms(2) by (auto simp: v telemetry_of_def vehicle_capacity_def)
  ultimately show ?thesis by (simp add: window_of_def v)
qed

lemma telemetry_windows:
  assumes "\<forall>v \<in> set vs. 0 < vehicle_capacity v"
  shows "\<exists>blocks. telemetry_rows D (now - minutes_us (24 * 60)) vs g = concat blocks \<and> list_all2 (window_of now) vs blocks"
proof -
  obtain blocks where b: "telemetry_rows D (now - minutes_us (24 * 60)) vs g = concat blocks"
      "list_all2 (\<lambda>v. list_all2 (telemetry_of (now - minutes_us (24 * 60))) (steps_of v)) vs blocks"
    using blocks_of [OF telemetry_rows_of [of "now - minutes_us (24 * 60)" vs D g]] by (elim exE conjE)
  have "list_all2 (window_of now) vs blocks"
    by (rule list.rel_mono_strong [OF b(2)]) (rule window_of_steps, assumption, use assms in blast)
  with b(1) show ?thesis by blast
qed

lemma exec_telemetry:
  "exec_seq (map insert_telemetry rows) d =
     (if \<forall>row \<in> set rows. int4 (vt_passenger_count row) then Inr (d\<lparr>db_vehicle_telemetry := db_vehicle_telemetry d @ rows\<rparr>)
      else Inl DatabaseError)"
  by (induction rows arbitrary: d) (auto simp: insert_telemetry_def checked_def)

text \<open>The tables with the new telemetry.\<close>

definition with_telemetry :: "timestamp \<Rightarrow> telemetry_row list \<Rightarrow> database \<Rightarrow> database" where
  "with_telemetry start rows d = d\<lparr>db_vehicle_telemetry := filter (\<lambda>r. vt_time r < start) (db_vehicle_telemetry d) @ rows\<rparr>"

text \<open>The refresh as a function of the tables.\<close>

definition telemetry_stmt :: "'g draws \<Rightarrow> 'g \<Rightarrow> timestamp \<Rightarrow> vehicle_info list \<Rightarrow> database \<Rightarrow> database result" where
  "telemetry_stmt D g now vs d =
     (let start = now - minutes_us (24 * 60)
      in if vs = [] then Inr d
         else if \<exists>v \<in> set vs. vehicle_capacity v = 0 then Inl ZeroDivisionError
         else bind_result (delete_telemetry_from start d) (exec_seq (map insert_telemetry (telemetry_rows D start vs g))))"

lemma performs_telemetry:
  "performs up (\<lambda>s. if vs = [] then (Inr (), s) else seed_vehicle_telemetry D g now up vs s) (telemetry_stmt D g now vs)"
proof (cases "vs = []")
  case True
  then show ?thesis by (simp add: performs_def telemetry_stmt_def Let_def)
next
  case vs: False
  show ?thesis
  proof (cases "\<exists>v \<in> set vs. vehicle_capacity v = 0")
    case True
    then show ?thesis using vs by (simp add: performs_def telemetry_stmt_def Let_def seed_vehicle_telemetry_def vehicle_capacity_def)
  next
    case False
    let ?start = "now - minutes_us (24 * 60)"
    have "performs up (bind_io (run_all (execute up (delete_telemetry_from ?start) #
          insert_values up 2000 insert_telemetry (telemetry_rows D ?start vs g))) (\<lambda>_. commit up))
        (\<lambda>d. bind_result (delete_telemetry_from ?start d) (exec_seq (map insert_telemetry (telemetry_rows D ?start vs g))))"
      using performs_write [OF implements_run_Cons [OF implements_execute implements_insert_values, of 2000, simplified append_Nil]] by simp
    then show ?thesis using vs False
      by (simp add: telemetry_stmt_def [abs_def] Let_def seed_vehicle_telemetry_def [abs_def] vehicle_capacity_def)
  qed
qed

lemma telemetry_stmt_windows:
  assumes caps: "\<forall>v \<in> set vs. 0 < vehicle_capacity v \<and> int4 (vehicle_capacity v)"
  shows "\<exists>blocks. list_all2 (window_of now) vs blocks \<and>
    telemetry_stmt D g now vs d = Inr (if blocks = [] then d else with_telemetry (now - minutes_us (24 * 60)) (concat blocks) d)"
proof -
  have "\<forall>v \<in> set vs. 0 < vehicle_capacity v" using caps by simp
  from telemetry_windows [OF this, of D now g] obtain blocks
    where b: "telemetry_rows D (now - minutes_us (24 * 60)) vs g = concat blocks" "list_all2 (window_of now) vs blocks"
    by (elim exE conjE)
  have "int4 (vt_passenger_count row)" if row: "row \<in> set (concat blocks)" for row
  proof -
    obtain v block where v: "v \<in> set vs" "window_of now v block" "row \<in> set block" using block_member [OF b(2) row] by blast
    then have "0 \<le> vt_passenger_count row \<and> vt_passenger_count row \<le> vehicle_capacity v"
      by (auto simp: window_of_def vehicle_capacity_def split: prod.splits)
    then show ?thesis using caps v(1) by (fastforce simp: int4_def)
  qed
  then have "exec_seq (map insert_telemetry (concat blocks)) d' = Inr (d'\<lparr>db_vehicle_telemetry := db_vehicle_telemetry d' @ concat blocks\<rparr>)" for d'
    by (simp add: exec_telemetry del: set_concat)
  moreover have "blocks = [] \<longleftrightarrow> vs = []" using b(2) by auto
  moreover have "\<not> (\<exists>v \<in> set vs. vehicle_capacity v = 0)" using caps by auto
  ultimately show ?thesis using b
    by (intro exI [of _ blocks]) (simp add: telemetry_stmt_def Let_def delete_telemetry_from_def with_telemetry_def)
qed

lemma refresh_outcome:
  assumes "idle s" "test_data_main D gen clock now True up s = (r, t)"
    and caps: "\<forall>v \<in> set (load_vehicle_rows (se_committed s)). 0 < vehicle_capacity v \<and> int4 (vehicle_capacity v)"
  shows "\<exists>blocks. list_all2 (window_of (now 2)) (load_vehicle_rows (se_committed s)) blocks \<and>
      se_committed t = (if r \<noteq> Inr () \<or> blocks = [] then se_committed s
        else with_telemetry (now 2 - minutes_us (24 * 60)) (concat blocks) (se_committed s)) \<and>
      ((\<forall>n. up n) \<longrightarrow> r = Inr ())"
proof -
  have "performs up (refresh_telemetry D (gen 43) (now 2) up) (\<lambda>d. telemetry_stmt D (gen 43) (now 2) (load_vehicle_rows d) d)"
    unfolding refresh_telemetry_def by (rule performs_query) (rule performs_telemetry)
  from performs_connection [OF this assms(1), of r t]
  have "r = Inr () \<and> telemetry_stmt D (gen 43) (now 2) (load_vehicle_rows (se_committed s)) (se_committed s) = Inr (se_committed t) \<or>
      r \<noteq> Inr () \<and> se_committed t = se_committed s \<and>
        ((\<forall>n. up n) \<longrightarrow> (\<exists>e. telemetry_stmt D (gen 43) (now 2) (load_vehicle_rows (se_committed s)) (se_committed s) = Inl e))"
    using assms(2) by (auto simp: test_data_main_def)
  moreover obtain blocks where "list_all2 (window_of (now 2)) (load_vehicle_rows (se_committed s)) blocks"
      "telemetry_stmt D (gen 43) (now 2) (load_vehicle_rows (se_committed s)) (se_committed s) =
        Inr (if blocks = [] then se_committed s else with_telemetry (now 2 - minutes_us (24 * 60)) (concat blocks) (se_committed s))"
    using telemetry_stmt_windows [OF caps, of "now 2" D "gen 43" "se_committed s"] by blast
  ultimately show ?thesis by (intro exI [of _ blocks]) auto
qed

text \<open>A bus at a stop, on a known route, and a generator that always draws the same.\<close>

definition example_fleet :: database where
  "example_fleet = example_db\<lparr>
     db_routes := [\<lparr>ro_route_id = ''r1'', ro_agency_id = None, ro_short_name = ''39A'', ro_long_name = None, ro_transport_type = ''bus'', ro_metadata = JObj []\<rparr>],
     db_vehicles := [\<lparr>ve_vehicle_id = ''v1'', ve_route_id = Some ''r1'', ve_capacity = 80, ve_current_stop_id = Some ''s1'',
       ve_state = ''STOPPED'', ve_passenger_count = 0, ve_occupancy_percent = 0, ve_is_active = True, ve_last_updated = 0\<rparr>]\<rparr>"

definition example_draws :: "unit draws" where
  "example_draws = \<lparr>dr_env = \<lparr>se_random = (\<lambda>g. (1 / 2, g)), se_normal = (\<lambda>g. (0, g)), se_sin = (\<lambda>x. x), se_pi = 3,
     se_hash = (\<lambda>s. 0), se_dumps = (\<lambda>j. []), se_time_scale = 1\<rparr>, dr_below = (\<lambda>n g. (0, g))\<rparr>"

definition example_refresh :: "unit result \<times> database session" where
  "example_refresh = test_data_main example_draws (\<lambda>k. ()) (\<lambda>k. 0) (\<lambda>k. 0) True (\<lambda>n. True) (new_session example_fleet)"

lemma example_vehicles: "load_vehicle_rows example_fleet = [(''v1'', Some ''r1'', 80, Some ''s1'')]"
  by (simp add: load_vehicle_rows_def example_fleet_def vehicle_info_of_def)

lemma example_run:
  "idle (new_session example_fleet)"
  "test_data_main example_draws (\<lambda>k. ()) (\<lambda>k. 0) (\<lambda>k. 0) True (\<lambda>n. True) (new_session example_fleet) =
     (fst example_refresh, snd example_refresh)"
  "\<forall>v \<in> set (load_vehicle_rows (se_committed (new_session example_fleet))). 0 < vehicle_capacity v \<and> int4 (vehicle_capacity v)"
  by (simp_all add: example_refresh_def example_vehicles new_session_def vehicle_capacity_def int4_def idle_def)

text \<open>
  A refresh of the telemetry, whatever is drawn and whatever fails, either leaves every table
  as it is or puts in place of all telemetry of the last 24 hours, for each active vehicle at a
  stop, 96 rows a quarter of an hour apart over that day, with between 0 passengers and its
  capacity and an occupancy between 0 and 100 percent.  With the server up it goes through.
\<close>

theorem telemetry_refreshed:
  assumes "idle s" "test_data_main D gen clock now True up s = (r, t)"
    and "\<forall>v \<in> set (load_vehicle_rows (se_committed s)). 0 < vehicle_capacity v \<and> int4 (vehicle_capacity v)"
  shows "\<exists>blocks. list_all2 (window_of (now 2)) (load_vehicle_rows (se_committed s)) blocks \<and>
      se_committed t = (if r \<noteq> Inr () \<or> blocks = [] then se_committed s
        else with_telemetry (now 2 - minutes_us (24 * 60)) (concat blocks) (se_committed s)) \<and>
      ((\<forall>n. up n) \<longrightarrow> r = Inr ())"
  using refresh_outcome [OF assms] .

theorem telemetry_refreshed_witness:
  "length (db_vehicle_telemetry (se_committed (snd example_refresh))) = 96"
proof -
  obtain block where "window_of 0 (''v1'', Some ''r1'', 80, Some ''s1'') block"
      "se_committed (snd example_refresh) = with_telemetry (0 - minutes_us (24 * 60)) block example_fleet"
    using telemetry_refreshed [OF example_run] by (auto simp: new_session_def example_vehicles list_all2_Cons1 split: if_splits)
  moreover from this have "length block = 96" by (auto simp: window_of_def dest: map_eq_imp_length_eq)
  ultimately show ?thesis by (simp add: with_telemetry_def example_fleet_def example_db_def empty_db_def)
qed

lemma grouped_by_member: "x \<in> set rows \<Longrightarrow> \<exists>xs. (key x, xs) \<in> set (grouped_by key rows) \<and> x \<in> set xs"
  by (auto simp: grouped_by_def image_iff)

lemma fleet_group:
  assumes "vt \<in> set (db_vehicle_telemetry d)" "v \<in> set (db_vehicles d)" "r \<in> set (db_routes d)"
    and "ve_vehicle_id v = vt_vehicle_id vt" "ve_route_id v = Some (ro_route_id r)" "now - hours_us 24 < vt_time vt"
  shows "\<exists>occs. ((time_bucket (hours_us 1) (vt_time vt), ro_transport_type r), occs) \<in> set (fleet_groups now d) \<and>
    vt_occupancy_percent vt \<in> set occs"
proof -
  let ?rows = "[(vt, ro_transport_type r). vt \<leftarrow> db_vehicle_telemetry d, v \<leftarrow> db_vehicles d, r \<leftarrow> db_routes d,
    ve_vehicle_id v = vt_vehicle_id vt \<and> ve_route_id v = Some (ro_route_id r) \<and> now - hours_us 24 < vt_time vt]"
  let ?key = "\<lambda>(vt, kind). (time_bucket (hours_us 1) (vt_time vt), kind)"
  have "(vt, ro_transport_type r) \<in> set ?rows" using assms by fastforce
  from grouped_by_member [OF this, of ?key] obtain xs
    where "(?key (vt, ro_transport_type r), xs) \<in> set (grouped_by ?key ?rows)" "(vt, ro_transport_type r) \<in> set xs" by blast
  then show ?thesis unfolding fleet_groups_def by (force simp: image_iff)
qed

text \<open>
  After a refresh that went through, the fleet chart of the dashboard has at any time during
  the next 23 hours and 45 minutes a group for the kind of every active vehicle that is at a
  stop and on a known route.
\<close>

theorem refreshed_charts_filled:
  assumes "idle s" "test_data_main D gen clock now True up s = (Inr (), t)"
    and "\<forall>v \<in> set (load_vehicle_rows (se_committed s)). 0 < vehicle_capacity v \<and> int4 (vehicle_capacity v)"
    and v: "v \<in> set (db_vehicles (se_committed s))" "ve_is_active v" "ve_current_stop_id v \<noteq> None"
    and r: "r \<in> set (db_routes (se_committed s))" "ve_route_id v = Some (ro_route_id r)"
    and later: "later < now 2 + minutes_us (23 * 60 + 45)"
  shows "\<exists>bucket occs. ((bucket, ro_transport_type r), occs) \<in> set (fleet_groups later (se_committed t)) \<and> occs \<noteq> []"
proof -
  let ?vs = "load_vehicle_rows (se_committed s)"
  obtain blocks where b: "list_all2 (window_of (now 2)) ?vs blocks"
      "se_committed t = (if blocks = [] then se_committed s
        else with_telemetry (now 2 - minutes_us (24 * 60)) (concat blocks) (se_committed s))"
    using refresh_outcome [OF assms(1-3)] by auto
  have mem: "vehicle_info_of v \<in> set ?vs" using v by (auto simp: load_vehicle_rows_def)
  then obtain block where block: "block \<in> set blocks" "window_of (now 2) (vehicle_info_of v) block"
    using b(1) by (metis in_set_conv_nth list_all2_conv_all_nth)
  then have win: "map vt_time block = map (\<lambda>i. now 2 - minutes_us (24 * 60) + minutes_us (15 * int i)) [0..<96]"
      "\<forall>row \<in> set block. vt_vehicle_id row = ve_vehicle_id v"
    by (auto simp: window_of_def vehicle_info_of_def)
  have "now 2 - minutes_us 15 \<in> set (map vt_time block)" unfolding win(1) by (auto simp: minutes_us_def intro!: image_eqI [of _ _ 95])
  then obtain row where row: "row \<in> set block" "vt_time row = now 2 - minutes_us 15" by auto
  have "row \<in> set (db_vehicle_telemetry (se_committed t))" "db_vehicles (se_committed t) = db_vehicles (se_committed s)"
      "db_routes (se_committed t) = db_routes (se_committed s)"
    using b(2) row(1) block(1) by (auto simp: with_telemetry_def)
  moreover have "later - hours_us 24 < vt_time row" using later row(2) by (simp add: hours_us_def minutes_us_def)
  ultimately show ?thesis using fleet_group [of row "se_committed t" v r later] v r win(2) row(1) by fastforce
qed

theorem refreshed_charts_filled_witness:
  "map (snd \<circ> fst) (fleet_groups 0 (se_committed (snd example_refresh))) \<noteq> []"
proof -
  have "fst example_refresh = Inr ()" using refresh_outcome [OF example_run] by auto
  then have run: "test_data_main example_draws (\<lambda>k. ()) (\<lambda>k. 0) (\<lambda>k. 0) True (\<lambda>n. True) (new_session example_fleet) = (Inr (), snd example_refresh)"
    using example_run(2) by simp
  show ?thesis
    using refreshed_charts_filled [OF example_run(1) run example_run(3), of "hd (db_vehicles example_fleet)" "hd (db_routes example_fleet)" 0]
    by (auto simp: new_session_def example_fleet_def minutes_us_def)
qed

subsection \<open>Seeding again\<close>

text \<open>Runs in turn, each with a connection of its own.\<close>

lemma runs_up:
  assumes "\<And>x. x \<in> set xs \<Longrightarrow> performs up (m x) (\<lambda>d. Inr (f x d))" "\<forall>n. up n" "idle s"
    and "run_all (map (\<lambda>x. connection True up (m x)) xs) s = (r, t)"
  shows "r = Inr () \<and> se_committed t = fold f xs (se_committed s)"
  using assms
proof (induction xs arbitrary: s)
  case (Cons x xs)
  obtain r1 t1 where c: "connection True up (m x) s = (r1, t1)" by force
  have "performs up (m x) (\<lambda>d. Inr (f x d))" using Cons.prems(1) by simp
  from performs_connection [OF this Cons.prems(3) c] Cons.prems(2)
  have "idle t1" "r1 = Inr ()" "se_committed t1 = f x (se_committed s)" by auto
  moreover from this Cons.prems(4) c have "run_all (map (\<lambda>x. connection True up (m x)) xs) t1 = (r, t)"
    by (simp add: bind_io_def)
  moreover have "performs up (m y) (\<lambda>d. Inr (f y d))" if "y \<in> set xs" for y using that Cons.prems(1) by simp
  ultimately show ?case using Cons.IH [of t1, OF _ Cons.prems(2)] by simp
qed simp

lemma performs_guarded:
  assumes "0 < n"
  shows "performs up (bind_io (query up q) (\<lambda>k. if 0 < k then (\<lambda>s. (Inr (), s))
      else bind_io (run_all (insert_values up n ins rows)) (\<lambda>_. commit up)))
    (\<lambda>d. if 0 < (q d :: nat) then Inr d else exec_seq (map ins rows) d)"
proof -
  have "performs up (if 0 < k then (\<lambda>s. (Inr (), s)) else bind_io (run_all (insert_values up n ins rows)) (\<lambda>_. commit up))
      (if 0 < k then Inr else exec_seq (map ins rows))" for k :: nat
    by (cases "0 < k") (simp_all add: performs_skip performs_write [OF implements_insert_values [OF assms]])
  then have "performs up (bind_io (query up q) (\<lambda>k. if 0 < k then (\<lambda>s. (Inr (), s))
      else bind_io (run_all (insert_values up n ins rows)) (\<lambda>_. commit up)))
    (\<lambda>d. (if 0 < (q d :: nat) then Inr else exec_seq (map ins rows)) d)"
    by (rule performs_query)
  then show ?thesis by (simp add: if_distrib [of "\<lambda>f. f _"] cong: if_cong)
qed

text \<open>The tables with new service alerts.\<close>

definition with_service_alerts :: "service_alert_row list \<Rightarrow> database \<Rightarrow> database" where
  "with_service_alerts rows d = d\<lparr>db_next_service_alert := db_next_service_alert d + int (length rows),
     db_service_alerts := db_service_alerts d @ map (\<lambda>(i, r). r\<lparr>sl_id := db_next_service_alert d + int i\<rparr>) (enumerate 0 rows)\<rparr>"

lemma exec_service_alerts: "exec_seq (map insert_service_alert rows) d = Inr (with_service_alerts rows d)"
proof (induction rows arbitrary: d)
  case (Cons r rows)
  have "enumerate (Suc 0) rows = map (\<lambda>(i, r). (Suc i, r)) (enumerate 0 rows)"
    by (rule nth_equalityI) (simp_all add: nth_enumerate_eq)
  then show ?case using Cons.IH
    by (simp add: insert_service_alert_def with_service_alerts_def case_prod_unfold algebra_simps comp_def)
qed (simp add: insert_service_alert_def with_service_alerts_def)

lemma sample_headers_untagged:
  "list_all (\<lambda>(_, _, header, _, _). \<not> like_anywhere seed_tag header) sample_alerts"
  by code_simp

definition sample_service_alerts :: "timestamp \<Rightarrow> service_alert_row list" where
  "sample_service_alerts now = map (service_alert_of now) (enumerate 0 sample_alerts)"

lemma tagged_after_seeding: "alerts_tagged (with_service_alerts (sample_service_alerts now) d) = alerts_tagged d"
proof -
  let ?tagged = "\<lambda>r. case sl_header_text r of None \<Rightarrow> False | Some h \<Rightarrow> like_anywhere seed_tag h"
  let ?new = "map (\<lambda>(i, r). r\<lparr>sl_id := db_next_service_alert d + int i\<rparr>) (enumerate 0 (sample_service_alerts now))"
  have "map sl_header_text ?new = map (\<lambda>(_, _, header, _, _). Some header) sample_alerts"
    by (simp add: sample_service_alerts_def sample_alerts_def service_alert_of_def Let_def)
  then have "sl_header_text ` set ?new = (\<lambda>(_, _, header, _, _). Some header) ` set sample_alerts" by (metis set_map)
  then have "\<not> ?tagged r" if "r \<in> set ?new" for r
    using that sample_headers_untagged imageI [OF that, of sl_header_text] by (auto simp: list_all_iff simp del: set_map)
  then have "filter ?tagged ?new = []" by (simp add: filter_empty_conv del: set_map)
  then show ?thesis by (simp add: alerts_tagged_def with_service_alerts_def)
qed

lemma performs_service_alerts:
  "performs up (seed_service_alerts now up)
     (\<lambda>d. Inr (if 0 < alerts_tagged d then d else with_service_alerts (sample_service_alerts now) d))"
  using performs_guarded [of page_size up alerts_tagged insert_service_alert "sample_service_alerts now"]
  by (simp add: seed_service_alerts_def sample_service_alerts_def [symmetric] exec_service_alerts page_size_def if_distrib [of Inr] cong: if_cong)

text \<open>
  The guard of \<open>seed_service_alerts\<close> looks for the tag in the headers, but no header that it
  writes has it: in tables without tagged alerts each further run adds its five alerts again.
\<close>

theorem service_alerts_pile_up:
  assumes "idle s" "\<forall>n. up n" "alerts_tagged (se_committed s) = 0"
    and "run_all (map (\<lambda>now. connection True up (seed_service_alerts now up)) nows) s = (r, t)"
  shows "r = Inr () \<and> alerts_tagged (se_committed t) = 0 \<and>
    length (db_service_alerts (se_committed t)) = length (db_service_alerts (se_committed s)) + 5 * length nows"
proof -
  let ?f = "\<lambda>now d. if 0 < alerts_tagged d then d else with_service_alerts (sample_service_alerts now) d"
  have "length (sample_service_alerts now) = 5" for now by (simp add: sample_service_alerts_def sample_alerts_def)
  then have add: "alerts_tagged (fold ?f nows d) = 0 \<and>
      length (db_service_alerts (fold ?f nows d)) = length (db_service_alerts d) + 5 * length nows" if "alerts_tagged d = 0" for d
    using that by (induction nows arbitrary: d) (simp_all add: tagged_after_seeding, simp_all add: with_service_alerts_def)
  have "r = Inr () \<and> se_committed t = fold ?f nows (se_committed s)"
    using assms(1,2,4) by (intro runs_up [OF performs_service_alerts])
  then show ?thesis using add [OF assms(3)] by simp
qed

theorem service_alerts_pile_up_witness:
  "length (db_service_alerts (se_committed (snd (run_all (map (\<lambda>now. connection True (\<lambda>n. True) (seed_service_alerts now (\<lambda>n. True)))
    [1, 2]) (new_session example_db))))) = 10"
  using service_alerts_pile_up [of "new_session example_db" "\<lambda>n. True" "[1, 2]", OF _ _ _ surjective_pairing]
  by (simp add: new_session_def idle_def example_db_def empty_db_def alerts_tagged_def del: run_all.simps list.map)

end
